(* ===== verification/NX_Prelude.thy ===== *)
theory NX_Prelude
  imports Main "HOL-Library.Word"
begin

text \<open>
  Shared vocabulary of the development.

  \<^item> Machine integers: \<open>u8\<close> to \<open>u64\<close> are HOL words, so arithmetic wraps as in the C++ code.
  \<^item> Results: every \<open>Result\<close>-returning function of the sources has the type
    \<open>('e, 'a) outcome\<close>; \<open>Err e\<close> is a failed \<open>Result\<close>, \<open>Ok v\<close> a success with its output
    parameters as \<open>v\<close>, and \<open>Abort\<close> is the process abort of \<open>AMS_ABORT_UNLESS\<close> and
    \<open>R_ABORT_UNLESS\<close>. \<open>R_UNLESS\<close> and \<open>R_TRY\<close> are the early returns of the macros with
    the same names; both return the state reached so far.
  \<^item> Fixed-size tables: the sources keep their objects in static arrays which are searched
    by a linear scan. \<open>find_idx\<close> is that scan; a pointer into an array is the index it
    returns. The locale \<open>keyed_table\<close> is the contract of a table whose free slots carry a
    sentinel key; every component that owns such a table interprets it.
\<close>

unbundle bit_operations_syntax

type_synonym u8 = "8 word"
type_synonym u16 = "16 word"
type_synonym u32 = "32 word"
type_synonym u64 = "64 word"

named_theorems outcome_simps \<open>unfolding of the result macros\<close>

subsection \<open>Results\<close>

datatype ('e, 'a) outcome = Ok 'a | Err 'e | Abort

definition R_UNLESS ::
  "bool \<Rightarrow> 'e \<Rightarrow> 's \<Rightarrow> ('e, 'a) outcome \<times> 's \<Rightarrow> ('e, 'a) outcome \<times> 's" where
  "R_UNLESS cond e s k = (if cond then k else (Err e, s))"

definition R_TRY ::
  "('e, 'b) outcome \<Rightarrow> 's \<Rightarrow> ('b \<Rightarrow> ('e, 'a) outcome \<times> 's) \<Rightarrow> ('e, 'a) outcome \<times> 's" where
  "R_TRY r s k = (case r of Ok v \<Rightarrow> k v | Err e \<Rightarrow> (Err e, s) | Abort \<Rightarrow> (Abort, s))"

definition ABORT_UNLESS ::
  "bool \<Rightarrow> 's \<Rightarrow> ('e, 'a) outcome \<times> 's \<Rightarrow> ('e, 'a) outcome \<times> 's" where
  "ABORT_UNLESS cond s k = (if cond then k else (Abort, s))"

lemmas [outcome_simps] = R_UNLESS_def R_TRY_def ABORT_UNLESS_def

lemma R_UNLESS_Ok [simp]:
  "R_UNLESS c e s k = (Ok v, s') \<longleftrightarrow> c \<and> k = (Ok v, s')"
  by (simp add: R_UNLESS_def)

lemma R_TRY_Ok [simp]:
  "R_TRY r s k = (Ok v, s') \<longleftrightarrow> (\<exists>w. r = Ok w \<and> k w = (Ok v, s'))"
  by (cases r) (simp_all add: R_TRY_def)

text \<open>How a computation fails.\<close>

lemma R_TRY_Err_iff:
  "R_TRY r s k = (Err e, s') \<longleftrightarrow> r = Err e \<and> s' = s \<or> (\<exists>w. r = Ok w \<and> k w = (Err e, s'))"
  by (cases r) (auto simp: R_TRY_def)

lemma R_UNLESS_Err_iff:
  "R_UNLESS c e' s k = (Err e, s') \<longleftrightarrow> \<not> c \<and> e = e' \<and> s' = s \<or> c \<and> k = (Err e, s')"
  by (auto simp: R_UNLESS_def)

lemma ABORT_UNLESS_Ok [simp]:
  "ABORT_UNLESS c s k = (Ok v, s') \<longleftrightarrow> c \<and> k = (Ok v, s')"
  by (simp add: ABORT_UNLESS_def)

lemma R_UNLESS_state:
  "\<lbrakk>P s; c \<Longrightarrow> P (snd k)\<rbrakk> \<Longrightarrow> P (snd (R_UNLESS c e s k))"
  by (simp add: R_UNLESS_def)

lemma R_TRY_state:
  "\<lbrakk>P s; \<And>v. r = Ok v \<Longrightarrow> P (snd (k v))\<rbrakk> \<Longrightarrow> P (snd (R_TRY r s k))"
  by (cases r) (simp_all add: R_TRY_def)

lemma ABORT_UNLESS_state:
  "\<lbrakk>P s; c \<Longrightarrow> P (snd k)\<rbrakk> \<Longrightarrow> P (snd (ABORT_UNLESS c s k))"
  by (simp add: ABORT_UNLESS_def)

text \<open>A guard that passes disappears; one that fails ends the function.\<close>

lemma R_UNLESS_True [simp]: "c \<Longrightarrow> R_UNLESS c e s k = k"
  by (simp add: R_UNLESS_def)

lemma R_UNLESS_False [simp]: "\<not> c \<Longrightarrow> R_UNLESS c e s k = (Err e, s)"
  by (simp add: R_UNLESS_def)

lemma R_TRY_simps [simp]:
  "R_TRY (Ok w) s k = k w"
  "R_TRY (Err e) s k = (Err e, s)"
  "R_TRY Abort s k = (Abort, s)"
  by (simp_all add: R_TRY_def)

lemma ABORT_UNLESS_simps [simp]:
  "ABORT_UNLESS True s k = k"
  "ABORT_UNLESS False s k = (Abort, s)"
  by (simp_all add: ABORT_UNLESS_def)

subsection \<open>Linear scans over fixed-size arrays\<close>

fun find_idx :: "('a \<Rightarrow> bool) \<Rightarrow> 'a list \<Rightarrow> nat option" where
  "find_idx P [] = None"
| "find_idx P (x # xs) = (if P x then Some 0 else map_option Suc (find_idx P xs))"

lemma find_idx_Some_iff:
  "find_idx P xs = Some i \<longleftrightarrow> i < length xs \<and> P (xs ! i) \<and> (\<forall>j<i. \<not> P (xs ! j))"
proof (induction xs arbitrary: i)
  case Nil
  then show ?case by simp
next
  case (Cons x xs)
  show ?case
  proof (cases i)
    case 0
    then show ?thesis by auto
  next
    case (Suc n)
    then show ?thesis using Cons.IH [of n] by (auto simp: All_less_Suc2)
  qed
qed

lemma find_idx_None_iff [simp]: "find_idx P xs = None \<longleftrightarrow> (\<forall>x\<in>set xs. \<not> P x)"
  by (induction xs) auto

lemma find_idx_length: "find_idx P xs = Some i \<Longrightarrow> i < length xs"
  by (simp add: find_idx_Some_iff)

lemma find_idx_hit: "find_idx P xs = Some i \<Longrightarrow> P (xs ! i)"
  by (simp add: find_idx_Some_iff)

lemmas find_idx_dest = find_idx_length find_idx_hit

lemma find_idx_replicate:
  "find_idx P (replicate n x) = (if 0 < n \<and> P x then Some 0 else None)"
  by (cases n) auto

subsection \<open>Tables with a sentinel key\<close>

definition distinct_keys :: "('e \<Rightarrow> 'k) \<Rightarrow> 'k \<Rightarrow> 'e list \<Rightarrow> bool" where
  "distinct_keys key free xs \<longleftrightarrow>
     (\<forall>i < length xs. \<forall>j < length xs.
        key (xs ! i) = key (xs ! j) \<longrightarrow> key (xs ! i) \<noteq> free \<longrightarrow> i = j)"

lemma distinct_keysD:
  "\<lbrakk>distinct_keys key free xs; i < length xs; j < length xs;
    key (xs ! i) = key (xs ! j); key (xs ! i) \<noteq> free\<rbrakk> \<Longrightarrow> i = j"
  by (simp add: distinct_keys_def)

lemma distinct_keys_replicate [simp]:
  "key x = free \<Longrightarrow> distinct_keys key free (replicate n x)"
  by (simp add: distinct_keys_def)

text \<open>
  The contract: \<open>find\<close> returns the first slot holding a key, and \<open>free\<close> marks an empty
  slot. From it follow the facts the clients need about registering an entry in a free
  slot, changing an entry in place, and releasing a slot.
\<close>

locale keyed_table =
  fixes key :: "'e \<Rightarrow> 'k"
    and free :: "'k"
    and lookup :: "'k \<Rightarrow> 'e list \<Rightarrow> nat option"
  assumes lookup_Some: "lookup k xs = Some i \<Longrightarrow> i < length xs \<and> key (xs ! i) = k"
    and lookup_first: "lookup k xs = Some i \<Longrightarrow> j < i \<Longrightarrow> key (xs ! j) \<noteq> k"
    and lookup_None: "lookup k xs = None \<longleftrightarrow> (\<forall>x\<in>set xs. key x \<noteq> k)"
begin

lemma lookup_hit:
  assumes "distinct_keys key free xs" and "i < length xs" and "key (xs ! i) \<noteq> free"
  shows "lookup (key (xs ! i)) xs = Some i"
proof (cases "lookup (key (xs ! i)) xs")
  case None
  then show ?thesis using assms(2) by (metis lookup_None nth_mem)
next
  case (Some j)
  then have "j < length xs" "key (xs ! j) = key (xs ! i)"
    using lookup_Some by blast+
  then show ?thesis using Some assms by (metis distinct_keysD)
qed

lemma insert_distinct:
  assumes "distinct_keys key free xs" and "lookup (key e) xs = None"
  shows "distinct_keys key free (xs[i := e])"
  using assms unfolding distinct_keys_def lookup_None
  by (metis length_list_update nth_list_update_eq nth_list_update_neq nth_mem)

lemma update_distinct:
  assumes "distinct_keys key free xs" and "key e = key (xs ! i)"
  shows "distinct_keys key free (xs[i := e])"
  using assms unfolding distinct_keys_def
  by (metis length_list_update nth_list_update_eq nth_list_update_neq)

lemma release_distinct:
  assumes "distinct_keys key free xs" and "key e = free"
  shows "distinct_keys key free (xs[i := e])"
  using assms unfolding distinct_keys_def
  by (metis length_list_update nth_list_update_eq nth_list_update_neq)

lemma lookup_insert_same:
  assumes "lookup free xs = Some i" and "lookup (key e) xs = None"
  shows "lookup (key e) (xs[i := e]) = Some i"
proof -
  have i: "i < length xs" using assms(1) lookup_Some by blast
  then have "lookup (key e) (xs[i := e]) \<noteq> None"
    by (metis length_list_update lookup_None nth_list_update_eq nth_mem)
  then obtain j where j: "lookup (key e) (xs[i := e]) = Some j" by blast
  then have "j < length xs" "key (xs[i := e] ! j) = key e"
    using lookup_Some by fastforce+
  then have "j = i"
    using assms(2) lookup_None by (metis nth_list_update_neq nth_mem)
  with j show ?thesis by simp
qed

lemma lookup_update_same:
  assumes "lookup k xs = Some i" and "key e = k"
  shows "lookup k (xs[i := e]) = Some i"
proof -
  have i: "i < length xs" "key (xs ! i) = k" using assms(1) lookup_Some by blast+
  then have "lookup k (xs[i := e]) \<noteq> None"
    using assms(2) by (metis length_list_update lookup_None nth_list_update_eq nth_mem)
  then obtain j where j: "lookup k (xs[i := e]) = Some j" by blast
  then have "j < length xs" "key (xs[i := e] ! j) = k"
    using lookup_Some by fastforce+
  moreover have "\<not> i < j"
    using lookup_first [OF j] i assms(2) by (metis nth_list_update_eq)
  moreover have "\<not> j < i"
    using lookup_first [OF assms(1)] calculation by (metis nth_list_update_neq)
  ultimately show ?thesis using j by simp
qed

lemma lookup_update_None:
  "\<lbrakk>lookup k xs = None; key e \<noteq> k\<rbrakk> \<Longrightarrow> lookup k (xs[i := e]) = None"
  unfolding lookup_None by (metis insert_iff set_update_subset_insert subsetD)

lemma lookup_update_other:
  assumes "key e \<noteq> k" and "i < length xs \<Longrightarrow> key (xs ! i) \<noteq> k"
  shows "lookup k (xs[i := e]) = lookup k xs"
proof -
  have same: "key (xs[i := e] ! j) = k \<longleftrightarrow> key (xs ! j) = k" if "j < length xs" for j
    using assms that by (cases "j = i") auto
  show ?thesis
  proof (cases "lookup k xs")
    case None
    then show ?thesis using lookup_update_None assms(1) by simp
  next
    case (Some a)
    then have a: "a < length xs" "key (xs ! a) = k" using lookup_Some by blast+
    then have "lookup k (xs[i := e]) \<noteq> None"
      using same by (metis length_list_update lookup_None nth_mem)
    then obtain b where b: "lookup k (xs[i := e]) = Some b" by blast
    then have b': "b < length xs" "key (xs ! b) = k"
      using lookup_Some [OF b] same by auto
    have "\<not> a < b" using lookup_first [OF b] same a by blast
    moreover have "\<not> b < a" using lookup_first [OF Some] b' by blast
    ultimately show ?thesis using Some b by simp
  qed
qed

lemma lookup_release:
  assumes "distinct_keys key free xs" and "lookup k xs = Some i"
    and "k \<noteq> free" and "key e = free"
  shows "lookup k (xs[i := e]) = None"
  unfolding lookup_None
proof
  fix x assume "x \<in> set (xs[i := e])"
  then obtain j where j: "j < length xs" "x = xs[i := e] ! j"
    by (metis in_set_conv_nth length_list_update)
  have i: "i < length xs" "key (xs ! i) = k" using assms(2) lookup_Some by blast+
  show "key x \<noteq> k"
  proof (cases "j = i")
    case True
    then show ?thesis using j i assms(3,4) by auto
  next
    case False
    then show ?thesis using j i assms(1,3) by (metis distinct_keysD nth_list_update_neq)
  qed
qed

end

end
