(* ===== verification/SmState.thy ===== *)
theory SmState
  imports NX_Prelude
begin

text \<open>
  The state of the service manager (\<open>sm/source/impl/sm_service_manager.cpp\<close>): its three
  static tables, the flag that ends the initial deferrals, and the kernel the system calls
  act on. Code outside the repository is a field of \<open>sm_env\<close>: the system calls, the
  handle wrapper's release, the constants of the library headers and
  \<open>ServiceName::Encode\<close>. A \<open>ServiceName\<close> is its array of bytes; \<open>sizeof\<close> of it is the
  length of the list. The type of \<open>cfg::OverrideStatus\<close> is the parameter \<open>'o\<close>, the
  kernel state is \<open>'k\<close>.
\<close>

subsection \<open>Constants and results\<close>

definition ProcessCountMax :: nat where "ProcessCountMax = 0x40"
definition ServiceCountMax :: nat where "ServiceCountMax = 0x100"
definition FutureMitmCountMax :: nat where "FutureMitmCountMax = 0x20"
definition AccessControlSizeMax :: nat where "AccessControlSizeMax = 0x200"

lemmas sm_counts = ProcessCountMax_def ServiceCountMax_def FutureMitmCountMax_def
  AccessControlSizeMax_def

text \<open>
  The failed results the module returns. \<open>SvcResult\<close> is a code handed through from a
  system call or from the mitm query.
\<close>

datatype sm_error =
    ResultOutOfProcesses
  | ResultInvalidClient
  | ResultOutOfSessions
  | ResultAlreadyRegistered
  | ResultOutOfServices
  | ResultInvalidServiceName
  | ResultNotRegistered
  | ResultNotAllowed
  | ResultTooLargeAccessControl
  | ResultRequestDeferredByUser
  | SvcResult u32

datatype sm_program = ProgLoader | ProgPm | ProgSpl | ProgBoot | ProgNcm | ProgMitm | ProgCreport

type_synonym service_name = "u8 list"

subsection \<open>Table entries\<close>

record 'o process_info =
  pi_process_id :: u64
  pi_program_id :: u64
  pi_override_status :: 'o
  pi_access_control_size :: nat
  pi_access_control :: "u8 list"

record service_info =
  si_name :: service_name
  si_owner_process_id :: u64
  si_port_h :: u32
  si_max_sessions :: u64
  si_is_light :: bool
  si_mitm_process_id :: u64
  si_mitm_port_h :: u32
  si_mitm_query_h :: u32
  si_mitm_waiting_ack :: bool
  si_mitm_waiting_ack_process_id :: u64
  si_mitm_fwd_sess_h :: u32

record 'o mitm_process_info =
  mpi_process_id :: u64
  mpi_program_id :: u64
  mpi_override_status :: 'o

record service_record =
  rec_service :: service_name
  rec_owner_process_id :: u64
  rec_max_sessions :: u64
  rec_mitm_process_id :: u64
  rec_mitm_waiting_ack_process_id :: u64
  rec_is_light :: bool
  rec_mitm_waiting_ack :: bool

record ('o, 'k) sm =
  process_list :: "'o process_info list"
  service_list :: "service_info list"
  future_mitm_list :: "service_name list"
  ended_initial_defers :: bool
  kernel :: 'k

subsection \<open>What the module takes from outside\<close>

text \<open>
  A system call takes the kernel state and returns a result code or its output, and the
  new kernel state. \<open>env_clear_handle\<close> is what \<open>os::ManagedHandle\<close> does to the kernel when
  it drops a handle.
\<close>

record ('o, 'k) sm_env =
  env_invalid_pid :: u64
  env_invalid_program_id :: u64
  env_invalid_handle :: u32
  env_invalid_name :: service_name
  env_no_override :: 'o
  env_program_id :: "sm_program \<Rightarrow> u64"
  env_initial_min :: u64
  env_initial_max :: u64
  env_current_pid :: u64
  env_version_ge_8_0_0 :: bool
  env_svc_out_of_sessions :: u32
  env_encode :: "u8 list \<Rightarrow> service_name"
  env_create_port :: "'k \<Rightarrow> u64 \<Rightarrow> bool \<Rightarrow> u8 list \<Rightarrow> (u32 + u32 \<times> u32) \<times> 'k"
  env_create_session :: "'k \<Rightarrow> (u32 + u32 \<times> u32) \<times> 'k"
  env_connect_to_port :: "'k \<Rightarrow> u32 \<Rightarrow> (u32 + u32) \<times> 'k"
  env_mitm_query :: "'k \<Rightarrow> u32 \<Rightarrow> 'o mitm_process_info \<Rightarrow> (u32 + bool) \<times> 'k"
  env_clear_handle :: "u32 \<Rightarrow> 'k \<Rightarrow> 'k"

text \<open>A system call's code as a result.\<close>

fun svc :: "u32 + 'a \<Rightarrow> (sm_error, 'a) outcome" where
  "svc (Inl code) = Err (SvcResult code)"
| "svc (Inr v) = Ok v"

lemma svc_simps [simp]:
  "svc r = Ok v \<longleftrightarrow> r = Inr v"
  "svc r \<noteq> Abort"
  by (cases r; simp)+

text \<open>The bytes of the two service names the module spells out.\<close>

definition bytes_of_string :: "string \<Rightarrow> u8 list" where
  "bytes_of_string s = map (\<lambda>c. word_of_nat (of_char c)) s"

definition name_apm_p :: "u8 list" where
  "name_apm_p = [0x61, 0x70, 0x6d, 0x3a, 0x70]"

definition name_fsp_srv :: "u8 list" where
  "name_fsp_srv = [0x66, 0x73, 0x70, 0x2d, 0x73, 0x72, 0x76]"

lemma names_spell:
  "bytes_of_string ''apm:p'' = name_apm_p"
  "bytes_of_string ''fsp-srv'' = name_fsp_srv"
  by (simp_all add: bytes_of_string_def name_apm_p_def name_fsp_srv_def)

subsection \<open>Freeing table entries\<close>

definition ProcessInfo_Free :: "('o, 'k) sm_env \<Rightarrow> 'o process_info" where
  "ProcessInfo_Free env =
     \<lparr>pi_process_id = env_invalid_pid env,
      pi_program_id = env_invalid_program_id env,
      pi_override_status = env_no_override env,
      pi_access_control_size = 0,
      pi_access_control = replicate AccessControlSizeMax 0\<rparr>"

definition ServiceInfo_Free ::
  "('o, 'k) sm_env \<Rightarrow> service_info \<Rightarrow> 'k \<Rightarrow> service_info \<times> 'k" where
  "ServiceInfo_Free env si k =
     (let k = env_clear_handle env (si_port_h si) k;
          k = env_clear_handle env (si_mitm_port_h si) k;
          k = env_clear_handle env (si_mitm_query_h si) k;
          k = env_clear_handle env (si_mitm_fwd_sess_h si) k
      in (\<lparr>si_name = env_invalid_name env,
           si_owner_process_id = env_invalid_pid env,
           si_port_h = env_invalid_handle env,
           si_max_sessions = 0,
           si_is_light = False,
           si_mitm_process_id = env_invalid_pid env,
           si_mitm_port_h = env_invalid_handle env,
           si_mitm_query_h = env_invalid_handle env,
           si_mitm_waiting_ack = False,
           si_mitm_waiting_ack_process_id = env_invalid_pid env,
           si_mitm_fwd_sess_h = env_invalid_handle env\<rparr>, k))"

definition ServiceInfo_FreeMitm ::
  "('o, 'k) sm_env \<Rightarrow> service_info \<Rightarrow> 'k \<Rightarrow> service_info \<times> 'k" where
  "ServiceInfo_FreeMitm env si k =
     (let k = env_clear_handle env (si_mitm_port_h si) k;
          k = env_clear_handle env (si_mitm_query_h si) k
      in (si\<lparr>si_mitm_port_h := env_invalid_handle env,
             si_mitm_query_h := env_invalid_handle env,
             si_mitm_process_id := env_invalid_pid env\<rparr>, k))"

text \<open>A default-constructed \<open>ServiceInfo\<close>: its handles start out invalid.\<close>

definition fresh_service_info :: "('o, 'k) sm_env \<Rightarrow> service_info" where
  "fresh_service_info env =
     \<lparr>si_name = env_invalid_name env,
      si_owner_process_id = env_invalid_pid env,
      si_port_h = env_invalid_handle env,
      si_max_sessions = 0,
      si_is_light = False,
      si_mitm_process_id = env_invalid_pid env,
      si_mitm_port_h = env_invalid_handle env,
      si_mitm_query_h = env_invalid_handle env,
      si_mitm_waiting_ack = False,
      si_mitm_waiting_ack_process_id = env_invalid_pid env,
      si_mitm_fwd_sess_h = env_invalid_handle env\<rparr>"

lemma ServiceInfo_Free_fresh [simp]:
  "fst (ServiceInfo_Free env si k) = fresh_service_info env"
  by (simp add: ServiceInfo_Free_def fresh_service_info_def)

definition sm_initial :: "('o, 'k) sm_env \<Rightarrow> 'k \<Rightarrow> ('o, 'k) sm" where
  "sm_initial env k =
     \<lparr>process_list = replicate ProcessCountMax (ProcessInfo_Free env),
      service_list = replicate ServiceCountMax (fresh_service_info env),
      future_mitm_list = replicate FutureMitmCountMax (env_invalid_name env),
      ended_initial_defers = False,
      kernel = k\<rparr>"

subsection \<open>Finding table entries\<close>

definition GetProcessInfo :: "('o, 'k) sm \<Rightarrow> u64 \<Rightarrow> nat option" where
  "GetProcessInfo s process_id = find_idx (\<lambda>p. pi_process_id p = process_id) (process_list s)"

definition GetFreeProcessInfo :: "('o, 'k) sm_env \<Rightarrow> ('o, 'k) sm \<Rightarrow> nat option" where
  "GetFreeProcessInfo env s = GetProcessInfo s (env_invalid_pid env)"

definition HasProcessInfo :: "('o, 'k) sm \<Rightarrow> u64 \<Rightarrow> bool" where
  "HasProcessInfo s process_id \<longleftrightarrow> GetProcessInfo s process_id \<noteq> None"

definition IsInitialProcess :: "('o, 'k) sm_env \<Rightarrow> u64 \<Rightarrow> (sm_error, bool) outcome" where
  "IsInitialProcess env process_id =
     (if process_id \<noteq> env_invalid_pid env
      then Ok (env_initial_min env \<le> process_id \<and> process_id \<le> env_initial_max env)
      else Abort)"

definition IsValidProcessId :: "('o, 'k) sm_env \<Rightarrow> u64 \<Rightarrow> bool" where
  "IsValidProcessId env process_id \<longleftrightarrow> process_id \<noteq> env_invalid_pid env"

definition GetServiceInfo :: "('o, 'k) sm \<Rightarrow> service_name \<Rightarrow> nat option" where
  "GetServiceInfo s service_name = find_idx (\<lambda>si. si_name si = service_name) (service_list s)"

definition GetFreeServiceInfo :: "('o, 'k) sm_env \<Rightarrow> ('o, 'k) sm \<Rightarrow> nat option" where
  "GetFreeServiceInfo env s = GetServiceInfo s (env_invalid_name env)"

definition HasServiceInfo :: "('o, 'k) sm \<Rightarrow> service_name \<Rightarrow> bool" where
  "HasServiceInfo s service \<longleftrightarrow> GetServiceInfo s service \<noteq> None"

definition HasMitmInfo :: "('o, 'k) sm_env \<Rightarrow> ('o, 'k) sm \<Rightarrow> service_name \<Rightarrow> bool" where
  "HasMitmInfo env s service =
     (case GetServiceInfo s service of
        None \<Rightarrow> False
      | Some i \<Rightarrow> IsValidProcessId env (si_mitm_process_id (service_list s ! i)))"

definition GetMitmProcessInfo ::
  "('o, 'k) sm \<Rightarrow> u64 \<Rightarrow> (sm_error, 'o mitm_process_info) outcome" where
  "GetMitmProcessInfo s process_id =
     (case GetProcessInfo s process_id of
        None \<Rightarrow> Abort
      | Some i \<Rightarrow>
          Ok \<lparr>mpi_process_id = process_id,
              mpi_program_id = pi_program_id (process_list s ! i),
              mpi_override_status = pi_override_status (process_list s ! i)\<rparr>)"

definition IsMitmDisallowed :: "('o, 'k) sm_env \<Rightarrow> u64 \<Rightarrow> bool" where
  "IsMitmDisallowed env program_id \<longleftrightarrow>
     program_id = env_program_id env ProgLoader \<or>
     program_id = env_program_id env ProgPm \<or>
     program_id = env_program_id env ProgSpl \<or>
     program_id = env_program_id env ProgBoot \<or>
     program_id = env_program_id env ProgNcm \<or>
     program_id = env_program_id env ProgMitm \<or>
     program_id = env_program_id env ProgCreport"

subsection \<open>The tables meet the contract of a keyed table\<close>

interpretation services:
  keyed_table si_name free_name "\<lambda>n. find_idx (\<lambda>si. si_name si = n)"
  for free_name :: service_name
  by unfold_locales (auto simp: find_idx_Some_iff)

interpretation processes:
  keyed_table pi_process_id free_pid "\<lambda>p. find_idx (\<lambda>i. pi_process_id i = p)"
  for free_pid :: u64
  by unfold_locales (auto simp: find_idx_Some_iff)

end
