(* ===== verification/SmAccess.thy ===== *)
theory SmAccess
  imports SmState
begin

text \<open>
  Access control of the service manager (\<open>AccessControlEntry\<close>, both
  \<open>ValidateAccessControl\<close> functions and \<open>ValidateServiceName\<close> of
  \<open>sm_service_manager.cpp\<close>). An access control is a packed byte string: a header byte with
  the host bit and the name length, then the name, whose last byte may be \<open>*\<close>. The abstract
  side is the list of its entries, \<open>ac_entries\<close>, and the relation \<open>grants\<close> between an entry
  and a request; the byte-level scans are shown to decide it.
\<close>

subsection \<open>Entries of a packed access control\<close>

record access_control_entry =
  entry :: "u8 list option" \<comment> \<open>\<open>None\<close> is the null pointer\<close>
  capacity :: nat

definition ace_bytes :: "access_control_entry \<Rightarrow> u8 list" where
  "ace_bytes e = (case entry e of None \<Rightarrow> [] | Some bs \<Rightarrow> bs)"

definition GetServiceNameSize :: "access_control_entry \<Rightarrow> nat" where
  "GetServiceNameSize e = unat (ace_bytes e ! 0 AND 7) + 1"

definition GetSize :: "access_control_entry \<Rightarrow> nat" where
  "GetSize e = GetServiceNameSize e + 1"

definition GetNextEntry :: "access_control_entry \<Rightarrow> access_control_entry" where
  "GetNextEntry e =
     \<lparr>entry = map_option (drop (GetSize e)) (entry e), capacity = capacity e - GetSize e\<rparr>"

definition GetServiceName :: "('o, 'k) sm_env \<Rightarrow> access_control_entry \<Rightarrow> service_name" where
  "GetServiceName env e =
     env_encode env (take (GetServiceNameSize e) (drop 1 (ace_bytes e)))"

definition IsHost :: "access_control_entry \<Rightarrow> bool" where
  "IsHost e \<longleftrightarrow> ace_bytes e ! 0 AND 0x80 \<noteq> 0"

definition IsWildcard :: "access_control_entry \<Rightarrow> bool" where
  "IsWildcard e \<longleftrightarrow> ace_bytes e ! GetServiceNameSize e = 0x2A"

definition IsValid :: "access_control_entry \<Rightarrow> bool" where
  "IsValid e \<longleftrightarrow> \<not> (entry e = None \<or> capacity e = 0) \<and> GetSize e \<le> capacity e"

lemma GetSize_pos [simp]: "0 < GetSize e"
  by (simp add: GetSize_def)

lemma IsValid_progress: "IsValid e \<Longrightarrow> capacity (GetNextEntry e) < capacity e"
  by (auto simp: IsValid_def GetNextEntry_def)

lemma GetServiceNameSize_le: "GetServiceNameSize e \<le> 8"
proof -
  have "ace_bytes e ! 0 AND 7 \<le> 7" by (rule word_and_le1)
  then have "unat (ace_bytes e ! 0 AND 7) \<le> unat (7 :: u8)"
    by (simp only: word_le_nat_alt)
  then show ?thesis by (simp add: GetServiceNameSize_def)
qed

subsection \<open>Checking one request against an access control\<close>

text \<open>The test the loop body makes of one entry whose host bit agrees.\<close>

definition entry_matches ::
  "('o, 'k) sm_env \<Rightarrow> access_control_entry \<Rightarrow> service_name \<Rightarrow> bool \<Rightarrow> bool" where
  "entry_matches env e service is_wildcard =
     (if IsWildcard e = is_wildcard then GetServiceName env e = service
      else if IsWildcard e then
        take (GetServiceNameSize e - 1) (GetServiceName env e)
          = take (GetServiceNameSize e - 1) service
      else True)"

function ValidateAccessControl ::
  "('o, 'k) sm_env \<Rightarrow> access_control_entry \<Rightarrow> service_name \<Rightarrow> bool \<Rightarrow> bool \<Rightarrow>
     (sm_error, unit) outcome" where
  "ValidateAccessControl env access_control service is_host is_wildcard =
     (if IsValid access_control then
        if IsHost access_control = is_host \<and>
           entry_matches env access_control service is_wildcard
        then Ok ()
        else ValidateAccessControl env (GetNextEntry access_control) service is_host is_wildcard
      else Err ResultNotAllowed)"
  by pat_completeness auto
termination
  by (relation "measure (\<lambda>(env, e, n, h, w). capacity e)") (auto simp: IsValid_progress)

function ValidateAccessControlSubset ::
  "('o, 'k) sm_env \<Rightarrow> access_control_entry \<Rightarrow> access_control_entry \<Rightarrow>
     (sm_error, unit) outcome" where
  "ValidateAccessControlSubset env restriction access =
     (if IsValid access then
        (case ValidateAccessControl env restriction (GetServiceName env access)
                (IsHost access) (IsWildcard access) of
           Ok _ \<Rightarrow> ValidateAccessControlSubset env restriction (GetNextEntry access)
         | Err e \<Rightarrow> Err e
         | Abort \<Rightarrow> Abort)
      else Ok ())"
  by pat_completeness auto
termination
  by (relation "measure (\<lambda>(env, r, a). capacity a)") (auto simp: IsValid_progress)

declare ValidateAccessControl.simps [simp del] ValidateAccessControlSubset.simps [simp del]

subsection \<open>Service names\<close>

function find_name_len :: "service_name \<Rightarrow> nat \<Rightarrow> nat" where
  "find_name_len service name_len =
     (if name_len < length service then
        if service ! name_len = 0 then name_len else find_name_len service (Suc name_len)
      else name_len)"
  by pat_completeness auto
termination by (relation "measure (\<lambda>(s, n). length s - n)") auto

function rest_is_zero :: "service_name \<Rightarrow> nat \<Rightarrow> bool" where
  "rest_is_zero service name_len =
     (if name_len < length service then
        service ! name_len = 0 \<and> rest_is_zero service (Suc name_len)
      else True)"
  by pat_completeness auto
termination by (relation "measure (\<lambda>(s, n). length s - n)") auto

declare find_name_len.simps [simp del] rest_is_zero.simps [simp del]

definition ValidateServiceName :: "service_name \<Rightarrow> (sm_error, unit) outcome" where
  "ValidateServiceName service =
     (if \<not> service ! 0 \<noteq> 0 then Err ResultInvalidServiceName
      else if rest_is_zero service (find_name_len service 1) then Ok ()
      else Err ResultInvalidServiceName)"

subsection \<open>The abstract access control\<close>

record ac_rule =
  ac_host :: bool
  ac_wildcard :: bool
  ac_name :: service_name
  ac_name_size :: nat

definition rule_of :: "('o, 'k) sm_env \<Rightarrow> access_control_entry \<Rightarrow> ac_rule" where
  "rule_of env e =
     \<lparr>ac_host = IsHost e, ac_wildcard = IsWildcard e,
      ac_name = GetServiceName env e, ac_name_size = GetServiceNameSize e\<rparr>"

function ac_entries :: "('o, 'k) sm_env \<Rightarrow> access_control_entry \<Rightarrow> ac_rule list" where
  "ac_entries env e =
     (if IsValid e then rule_of env e # ac_entries env (GetNextEntry e) else [])"
  by pat_completeness auto
termination
  by (relation "measure (\<lambda>(env, e). capacity e)") (auto simp: IsValid_progress)

declare ac_entries.simps [simp del]

text \<open>
  What a rule grants. A request with the same wildcard flag must have the same name; a plain
  request is granted by a wildcard rule whose stem is a prefix of it; and, as the code is
  written, a wildcard request is granted by every plain rule.
\<close>

definition grants :: "ac_rule \<Rightarrow> service_name \<Rightarrow> bool \<Rightarrow> bool \<Rightarrow> bool" where
  "grants r service is_host is_wildcard \<longleftrightarrow>
     ac_host r = is_host \<and>
     (ac_wildcard r = is_wildcard \<longrightarrow> ac_name r = service) \<and>
     (ac_wildcard r \<and> \<not> is_wildcard \<longrightarrow>
        take (ac_name_size r - 1) (ac_name r) = take (ac_name_size r - 1) service)"

lemma grants_rule_of:
  "grants (rule_of env e) service h w \<longleftrightarrow> IsHost e = h \<and> entry_matches env e service w"
  by (auto simp: grants_def rule_of_def entry_matches_def)

lemma ValidateAccessControl_cases:
  "ValidateAccessControl env e service h w = Ok () \<or>
   ValidateAccessControl env e service h w = Err ResultNotAllowed"
proof (induction env e service h w rule: ValidateAccessControl.induct)
  case (1 env e service h w)
  then show ?case by (subst (1 2) ValidateAccessControl.simps) auto
qed

lemma ValidateAccessControl_iff:
  "ValidateAccessControl env e service h w = Ok () \<longleftrightarrow>
     (\<exists>r\<in>set (ac_entries env e). grants r service h w)"
proof (induction env e service h w rule: ValidateAccessControl.induct)
  case (1 env e service h w)
  show ?case
  proof (cases "IsValid e")
    case True
    show ?thesis
      using 1 True grants_rule_of [of env e service h w]
      by (subst ValidateAccessControl.simps, subst ac_entries.simps) auto
  next
    case False
    then show ?thesis
      by (subst ValidateAccessControl.simps, subst ac_entries.simps) simp
  qed
qed

lemma ValidateAccessControl_not_Abort [simp]:
  "ValidateAccessControl env e service h w \<noteq> Abort"
  using ValidateAccessControl_cases [of env e service h w] by auto

lemma ValidateAccessControlSubset_iff:
  "ValidateAccessControlSubset env r a = Ok () \<longleftrightarrow>
     (\<forall>x\<in>set (ac_entries env a). \<exists>y\<in>set (ac_entries env r).
        grants y (ac_name x) (ac_host x) (ac_wildcard x))"
proof (induction env r a rule: ValidateAccessControlSubset.induct)
  case (1 env r a)
  show ?case
  proof (cases "IsValid a")
    case True
    let ?v = "ValidateAccessControl env r (GetServiceName env a) (IsHost a) (IsWildcard a)"
    show ?thesis
    proof (cases "?v = Ok ()")
      case ok: True
      then show ?thesis
        using 1 True ValidateAccessControl_iff [THEN iffD1, OF ok]
        by (simp add: ValidateAccessControlSubset.simps [of env r a] ac_entries.simps [of env a]
            rule_of_def)
    next
      case False
      then have v: "?v = Err ResultNotAllowed"
        using ValidateAccessControl_cases by metis
      have "\<not> (\<exists>y\<in>set (ac_entries env r). grants y (GetServiceName env a) (IsHost a) (IsWildcard a))"
        using False ValidateAccessControl_iff by metis
      with v True show ?thesis
        by (auto simp: ValidateAccessControlSubset.simps [of env r a] ac_entries.simps [of env a]
            rule_of_def)
    qed
  next
    case False
    then show ?thesis
      by (simp add: ValidateAccessControlSubset.simps [of env r a] ac_entries.simps [of env a])
  qed
qed

subsection \<open>Well-formed service names\<close>

lemma rest_is_zero_iff:
  "rest_is_zero s n \<longleftrightarrow> (\<forall>i. n \<le> i \<and> i < length s \<longrightarrow> s ! i = 0)"
proof (induction s n rule: rest_is_zero.induct)
  case (1 s n)
  show ?case
  proof (cases "n < length s")
    case True
    with 1 show ?thesis
      by (subst rest_is_zero.simps) (metis Suc_leD le_neq_implies_less Suc_leI order_refl)
  next
    case False
    then show ?thesis by (subst rest_is_zero.simps) auto
  qed
qed

lemma find_name_len_spec:
  "n \<le> length s \<Longrightarrow>
     n \<le> find_name_len s n \<and> find_name_len s n \<le> length s \<and>
     (\<forall>i. n \<le> i \<and> i < find_name_len s n \<longrightarrow> s ! i \<noteq> 0)"
proof (induction s n rule: find_name_len.induct)
  case (1 s n)
  show ?case
  proof (cases "n < length s \<and> s ! n \<noteq> 0")
    case True
    with 1 have "Suc n \<le> find_name_len s (Suc n) \<and> find_name_len s (Suc n) \<le> length s \<and>
      (\<forall>i. Suc n \<le> i \<and> i < find_name_len s (Suc n) \<longrightarrow> s ! i \<noteq> 0)" by simp
    moreover have "find_name_len s n = find_name_len s (Suc n)"
      using True by (subst find_name_len.simps) simp
    ultimately show ?thesis
      using True by (metis Suc_leD le_antisym not_less_eq_eq)
  next
    case False
    with 1 have "find_name_len s n = n"
      by (subst find_name_len.simps) auto
    with 1 show ?thesis by auto
  qed
qed

lemma find_name_len_stops:
  "find_name_len s n < length s \<Longrightarrow> s ! find_name_len s n = 0"
proof (induction s n rule: find_name_len.induct)
  case (1 s n)
  then show ?case by (subst find_name_len.simps, subst (asm) find_name_len.simps)
      (auto split: if_splits)
qed

text \<open>
  A name is accepted exactly when it is a non-empty string without zero bytes, padded with
  zero bytes.
\<close>

lemma ValidateServiceName_iff:
  assumes "0 < length s"
  shows "ValidateServiceName s = Ok () \<longleftrightarrow>
    (\<exists>p z. s = p @ replicate z 0 \<and> p \<noteq> [] \<and> 0 \<notin> set p)"
proof
  let ?n = "find_name_len s 1"
  have n: "1 \<le> ?n" "?n \<le> length s" "\<And>i. 1 \<le> i \<Longrightarrow> i < ?n \<Longrightarrow> s ! i \<noteq> 0"
    using find_name_len_spec [of 1 s] assms by auto
  assume "ValidateServiceName s = Ok ()"
  then have ok: "s ! 0 \<noteq> 0" "rest_is_zero s ?n"
    by (auto simp: ValidateServiceName_def split: if_splits)
  have "drop ?n s = replicate (length s - ?n) 0"
    using ok(2) by (auto simp: list_eq_iff_nth_eq rest_is_zero_iff)
  then have "s = take ?n s @ replicate (length s - ?n) 0"
    by (metis append_take_drop_id)
  moreover have "0 \<notin> set (take ?n s)"
    using n ok(1) by (auto simp: in_set_conv_nth) (metis One_nat_def Suc_leI neq0_conv)
  moreover have "take ?n s \<noteq> []" using n assms by auto
  ultimately show "\<exists>p z. s = p @ replicate z 0 \<and> p \<noteq> [] \<and> 0 \<notin> set p" by blast
next
  let ?n = "find_name_len s 1"
  have n: "1 \<le> ?n" "?n \<le> length s" "\<And>i. 1 \<le> i \<Longrightarrow> i < ?n \<Longrightarrow> s ! i \<noteq> 0"
    using find_name_len_spec [of 1 s] assms by auto
  assume "\<exists>p z. s = p @ replicate z 0 \<and> p \<noteq> [] \<and> 0 \<notin> set p"
  then obtain p z where p: "s = p @ replicate z 0" "p \<noteq> []" "0 \<notin> set p" by blast
  have "s ! 0 \<noteq> 0" using p by (metis length_greater_0_conv nth_append nth_mem)
  moreover have "length p \<le> ?n"
  proof (rule ccontr)
    assume "\<not> length p \<le> ?n"
    then have lt: "?n < length p" by simp
    then have "s ! ?n \<noteq> 0" using p by (metis nth_append nth_mem)
    moreover have "?n < length s" using lt p by simp
    ultimately show False using find_name_len_stops [of s 1] by blast
  qed
  ultimately show "ValidateServiceName s = Ok ()"
    using p by (auto simp: ValidateServiceName_def rest_is_zero_iff nth_append)
qed

end
