(* ===== verification/SmManager.thy ===== *)
theory SmManager
  imports SmAccess
begin

text \<open>
  The operations of the service manager (\<open>sm/source/impl/sm_service_manager.cpp\<close>) and of the
  service objects in front of it (\<open>sm_user_service.cpp\<close>, \<open>sm_manager_service.cpp\<close>,
  \<open>sm_dmnt_service.cpp\<close>). Every operation takes the state and returns its result and the
  new state; a pointer into a table is an index.
\<close>

subsection \<open>Future mitm declarations\<close>

definition AddFutureMitmDeclaration ::
  "('o, 'k) sm_env \<Rightarrow> ('o, 'k) sm \<Rightarrow> service_name \<Rightarrow> (sm_error, unit) outcome \<times> ('o, 'k) sm" where
  "AddFutureMitmDeclaration env s service =
     (case find_idx (\<lambda>n. n = env_invalid_name env) (future_mitm_list s) of
        Some i \<Rightarrow> (Ok (), s\<lparr>future_mitm_list := (future_mitm_list s)[i := service]\<rparr>)
      | None \<Rightarrow> (Err ResultOutOfServices, s))"

definition HasFutureMitmDeclaration :: "('o, 'k) sm \<Rightarrow> service_name \<Rightarrow> bool" where
  "HasFutureMitmDeclaration s service \<longleftrightarrow> service \<in> set (future_mitm_list s)"

definition ClearFutureMitmDeclaration ::
  "('o, 'k) sm_env \<Rightarrow> ('o, 'k) sm \<Rightarrow> service_name \<Rightarrow> ('o, 'k) sm" where
  "ClearFutureMitmDeclaration env s service =
     s\<lparr>future_mitm_list :=
         map (\<lambda>n. if n = service then env_invalid_name env else n) (future_mitm_list s)\<rparr>"

subsection \<open>Records and deferral\<close>

definition GetServiceInfoRecord :: "service_info \<Rightarrow> service_record" where
  "GetServiceInfoRecord si =
     \<lparr>rec_service = si_name si,
      rec_owner_process_id = si_owner_process_id si,
      rec_max_sessions = si_max_sessions si,
      rec_mitm_process_id = si_mitm_process_id si,
      rec_mitm_waiting_ack_process_id = si_mitm_waiting_ack_process_id si,
      rec_is_light = si_is_light si,
      rec_mitm_waiting_ack = si_mitm_waiting_ack si\<rparr>"

definition ShouldDeferForInit :: "('o, 'k) sm_env \<Rightarrow> ('o, 'k) sm \<Rightarrow> service_name \<Rightarrow> bool" where
  "ShouldDeferForInit env s service \<longleftrightarrow>
     (if ended_initial_defers s then False else service = env_encode env name_fsp_srv)"

subsection \<open>Storing into the tables\<close>

abbreviation set_service :: "nat \<Rightarrow> service_info \<Rightarrow> ('o, 'k) sm \<Rightarrow> ('o, 'k) sm" where
  "set_service i si s \<equiv> s\<lparr>service_list := (service_list s)[i := si]\<rparr>"

abbreviation set_process :: "nat \<Rightarrow> 'o process_info \<Rightarrow> ('o, 'k) sm \<Rightarrow> ('o, 'k) sm" where
  "set_process i p s \<equiv> s\<lparr>process_list := (process_list s)[i := p]\<rparr>"

text \<open>\<open>svcConnectToPort\<close> on the state.\<close>

definition connect_to_port ::
  "('o, 'k) sm_env \<Rightarrow> ('o, 'k) sm \<Rightarrow> u32 \<Rightarrow> (sm_error, u32) outcome \<times> ('o, 'k) sm" where
  "connect_to_port env s h =
     (case env_connect_to_port env (kernel s) h of (r, k) \<Rightarrow> (svc r, s\<lparr>kernel := k\<rparr>))"

subsection \<open>Handing out sessions\<close>

text \<open>
  \<open>fwd_hnd\<close> and \<open>hnd\<close> are managed handles: the first is dropped when the second connection
  fails, and the handle the slot held before is dropped when \<open>fwd_hnd\<close> is moved into it.
\<close>

definition GetMitmServiceHandleImpl ::
  "('o, 'k) sm_env \<Rightarrow> ('o, 'k) sm \<Rightarrow> nat \<Rightarrow> 'o mitm_process_info \<Rightarrow>
     (sm_error, u32) outcome \<times> ('o, 'k) sm" where
  "GetMitmServiceHandleImpl env s i client_info =
     (let si = service_list s ! i;
          (q, k) = env_mitm_query env (kernel s) (si_mitm_query_h si) client_info;
          s = s\<lparr>kernel := k\<rparr>
      in R_TRY (svc q) s (\<lambda>should_mitm.
         if \<not> should_mitm then connect_to_port env s (si_port_h si)
         else
           let (r1, s) = connect_to_port env s (si_port_h si)
           in R_TRY r1 s (\<lambda>fwd_hnd.
              let (r2, s') = connect_to_port env s (si_mitm_port_h si);
                  s_drop = s'\<lparr>kernel := env_clear_handle env fwd_hnd (kernel s')\<rparr>
              in R_TRY r2 s_drop (\<lambda>hnd.
                 let s = s'\<lparr>kernel := env_clear_handle env (si_mitm_fwd_sess_h si) (kernel s')\<rparr>;
                     si = si\<lparr>si_mitm_fwd_sess_h := fwd_hnd,
                             si_mitm_waiting_ack_process_id := mpi_process_id client_info,
                             si_mitm_waiting_ack := True\<rparr>
                 in (Ok hnd, set_service i si s)))))"

definition GetServiceHandleImpl ::
  "('o, 'k) sm_env \<Rightarrow> ('o, 'k) sm \<Rightarrow> nat \<Rightarrow> u64 \<Rightarrow> (sm_error, u32) outcome \<times> ('o, 'k) sm" where
  "GetServiceHandleImpl env s i process_id =
     (let si = service_list s ! i
      in if IsValidProcessId env (si_mitm_process_id si) \<and> si_mitm_process_id si \<noteq> process_id
         then R_TRY (GetMitmProcessInfo s process_id) s (\<lambda>client_info.
           if \<not> IsMitmDisallowed env (mpi_program_id client_info) then
             (case GetMitmServiceHandleImpl env s i client_info of
                (Ok h, s') \<Rightarrow> (Ok h, s')
              | (_, s') \<Rightarrow> (Abort, s'))
           else connect_to_port env s (si_port_h si))
         else connect_to_port env s (si_port_h si))"

definition RegisterServiceImpl ::
  "('o, 'k) sm_env \<Rightarrow> ('o, 'k) sm \<Rightarrow> u64 \<Rightarrow> service_name \<Rightarrow> u64 \<Rightarrow> bool \<Rightarrow>
     (sm_error, u32) outcome \<times> ('o, 'k) sm" where
  "RegisterServiceImpl env s process_id service max_sessions is_light =
     R_TRY (ValidateServiceName service) s (\<lambda>_.
     R_UNLESS (\<not> HasServiceInfo s service) ResultAlreadyRegistered s (
     case GetFreeServiceInfo env s of
       None \<Rightarrow> (Err ResultOutOfServices, s)
     | Some i \<Rightarrow>
         let si = service_list s ! i;
             k = env_clear_handle env (si_port_h si) (kernel s);
             si = si\<lparr>si_port_h := env_invalid_handle env\<rparr>;
             (r, k) = env_create_port env k max_sessions is_light (si_name si);
             s = set_service i si (s\<lparr>kernel := k\<rparr>)
         in R_TRY (svc r) s (\<lambda>(out, port_h).
            let si = si\<lparr>si_port_h := port_h,
                        si_name := service,
                        si_owner_process_id := process_id,
                        si_max_sessions := max_sessions,
                        si_is_light := is_light\<rparr>
            in (Ok out, set_service i si s))))"

subsection \<open>Process management\<close>

definition RegisterProcess ::
  "('o, 'k) sm_env \<Rightarrow> ('o, 'k) sm \<Rightarrow> u64 \<Rightarrow> u64 \<Rightarrow> 'o \<Rightarrow> access_control_entry \<Rightarrow>
     access_control_entry \<Rightarrow> (sm_error, unit) outcome \<times> ('o, 'k) sm" where
  "RegisterProcess env s process_id program_id override_status acid_sac aci_sac =
     R_UNLESS (capacity aci_sac \<le> AccessControlSizeMax) ResultTooLargeAccessControl s (
     case GetFreeProcessInfo env s of
       None \<Rightarrow> (Err ResultOutOfProcesses, s)
     | Some i \<Rightarrow>
         R_UNLESS (capacity aci_sac \<noteq> 0) ResultNotAllowed s (
         R_TRY (ValidateAccessControlSubset env acid_sac aci_sac) s (\<lambda>_.
         let proc = process_list s ! i;
             proc = proc\<lparr>pi_process_id := process_id,
                         pi_program_id := program_id,
                         pi_override_status := override_status,
                         pi_access_control_size := capacity aci_sac,
                         pi_access_control :=
                           take (capacity aci_sac) (ace_bytes aci_sac)
                           @ drop (capacity aci_sac) (pi_access_control proc)\<rparr>
         in (Ok (), set_process i proc s))))"

definition UnregisterProcess ::
  "('o, 'k) sm_env \<Rightarrow> ('o, 'k) sm \<Rightarrow> u64 \<Rightarrow> (sm_error, unit) outcome \<times> ('o, 'k) sm" where
  "UnregisterProcess env s process_id =
     (case GetProcessInfo s process_id of
        None \<Rightarrow> (Err ResultInvalidClient, s)
      | Some i \<Rightarrow> (Ok (), set_process i (ProcessInfo_Free env) s))"

subsection \<open>Service management\<close>

definition HasService :: "('o, 'k) sm \<Rightarrow> service_name \<Rightarrow> (sm_error, bool) outcome \<times> ('o, 'k) sm" where
  "HasService s service =
     R_TRY (ValidateServiceName service) s (\<lambda>_. (Ok (HasServiceInfo s service), s))"

definition WaitService :: "('o, 'k) sm \<Rightarrow> service_name \<Rightarrow> (sm_error, unit) outcome \<times> ('o, 'k) sm" where
  "WaitService s service =
     (let (r, s) = HasService s service
      in R_TRY r s (\<lambda>has_service.
         R_UNLESS has_service ResultRequestDeferredByUser s (Ok (), s)))"

text \<open>
  The block the operations share: an initial process passes; any other process must be
  registered, and its access control must grant the service as client or as host.
\<close>

definition stored_access_control :: "'o process_info \<Rightarrow> access_control_entry" where
  "stored_access_control p =
     \<lparr>entry = Some (take (pi_access_control_size p) (pi_access_control p)),
      capacity = pi_access_control_size p\<rparr>"

definition CheckAccess ::
  "('o, 'k) sm_env \<Rightarrow> ('o, 'k) sm \<Rightarrow> u64 \<Rightarrow> service_name \<Rightarrow> bool \<Rightarrow> (sm_error, unit) outcome" where
  "CheckAccess env s process_id service is_host =
     (case IsInitialProcess env process_id of
        Ok True \<Rightarrow> Ok ()
      | Ok False \<Rightarrow>
          (case GetProcessInfo s process_id of
             None \<Rightarrow> Err ResultInvalidClient
           | Some i \<Rightarrow>
               ValidateAccessControl env (stored_access_control (process_list s ! i))
                 service is_host False)
      | Err e \<Rightarrow> Err e
      | Abort \<Rightarrow> Abort)"

definition CheckRegistered ::
  "('o, 'k) sm_env \<Rightarrow> ('o, 'k) sm \<Rightarrow> u64 \<Rightarrow> (sm_error, unit) outcome" where
  "CheckRegistered env s process_id =
     (case IsInitialProcess env process_id of
        Ok True \<Rightarrow> Ok ()
      | Ok False \<Rightarrow> (if HasProcessInfo s process_id then Ok () else Err ResultInvalidClient)
      | Err e \<Rightarrow> Err e
      | Abort \<Rightarrow> Abort)"

text \<open>\<open>R_CONVERT\<close> of the kernel's out-of-sessions code.\<close>

definition convert_out_of_sessions ::
  "('o, 'k) sm_env \<Rightarrow> (sm_error, u32) outcome \<Rightarrow> (sm_error, u32) outcome" where
  "convert_out_of_sessions env r =
     (if r = Err (SvcResult (env_svc_out_of_sessions env)) then Err ResultOutOfSessions else r)"

definition GetServiceHandle ::
  "('o, 'k) sm_env \<Rightarrow> ('o, 'k) sm \<Rightarrow> u64 \<Rightarrow> service_name \<Rightarrow>
     (sm_error, u32) outcome \<times> ('o, 'k) sm" where
  "GetServiceHandle env s process_id service =
     R_TRY (ValidateServiceName service) s (\<lambda>_.
     R_UNLESS (\<not> env_version_ge_8_0_0 env \<or> service \<noteq> env_encode env name_apm_p)
       ResultNotAllowed s (
     R_TRY (CheckAccess env s process_id service False) s (\<lambda>_.
     case GetServiceInfo s service of
       None \<Rightarrow> (Err ResultRequestDeferredByUser, s)
     | Some i \<Rightarrow>
         R_UNLESS (\<not> ShouldDeferForInit env s service) ResultRequestDeferredByUser s (
         R_UNLESS (\<not> HasFutureMitmDeclaration s service) ResultRequestDeferredByUser s (
         R_UNLESS (\<not> si_mitm_waiting_ack (service_list s ! i)) ResultRequestDeferredByUser s (
         let (r, s') = GetServiceHandleImpl env s i process_id
         in (convert_out_of_sessions env r, s')))))))"

definition RegisterService ::
  "('o, 'k) sm_env \<Rightarrow> ('o, 'k) sm \<Rightarrow> u64 \<Rightarrow> service_name \<Rightarrow> u64 \<Rightarrow> bool \<Rightarrow>
     (sm_error, u32) outcome \<times> ('o, 'k) sm" where
  "RegisterService env s process_id service max_sessions is_light =
     R_TRY (ValidateServiceName service) s (\<lambda>_.
     R_TRY (CheckAccess env s process_id service True) s (\<lambda>_.
     R_UNLESS (\<not> HasServiceInfo s service) ResultAlreadyRegistered s (
     RegisterServiceImpl env s process_id service max_sessions is_light)))"

definition RegisterServiceForSelf ::
  "('o, 'k) sm_env \<Rightarrow> ('o, 'k) sm \<Rightarrow> service_name \<Rightarrow> u64 \<Rightarrow>
     (sm_error, u32) outcome \<times> ('o, 'k) sm" where
  "RegisterServiceForSelf env s service max_sessions =
     RegisterServiceImpl env s (env_current_pid env) service max_sessions False"

definition UnregisterService ::
  "('o, 'k) sm_env \<Rightarrow> ('o, 'k) sm \<Rightarrow> u64 \<Rightarrow> service_name \<Rightarrow>
     (sm_error, unit) outcome \<times> ('o, 'k) sm" where
  "UnregisterService env s process_id service =
     R_TRY (ValidateServiceName service) s (\<lambda>_.
     R_TRY (CheckRegistered env s process_id) s (\<lambda>_.
     case GetServiceInfo s service of
       None \<Rightarrow> (Err ResultNotRegistered, s)
     | Some i \<Rightarrow>
         R_UNLESS (si_owner_process_id (service_list s ! i) = process_id) ResultNotAllowed s (
         let (si, k) = ServiceInfo_Free env (service_list s ! i) (kernel s)
         in (Ok (), set_service i si (s\<lparr>kernel := k\<rparr>)))))"

subsection \<open>Mitm extensions\<close>

definition HasMitm ::
  "('o, 'k) sm_env \<Rightarrow> ('o, 'k) sm \<Rightarrow> service_name \<Rightarrow> (sm_error, bool) outcome \<times> ('o, 'k) sm" where
  "HasMitm env s service =
     R_TRY (ValidateServiceName service) s (\<lambda>_. (Ok (HasMitmInfo env s service), s))"

definition WaitMitm ::
  "('o, 'k) sm_env \<Rightarrow> ('o, 'k) sm \<Rightarrow> service_name \<Rightarrow> (sm_error, unit) outcome \<times> ('o, 'k) sm" where
  "WaitMitm env s service =
     (let (r, s) = HasMitm env s service
      in R_TRY r s (\<lambda>has_mitm.
         R_UNLESS has_mitm ResultRequestDeferredByUser s (Ok (), s)))"

text \<open>
  The two managed handles of the new port are dropped when the query session cannot be
  created; the handles the slot held before are dropped when the new ones are moved in.
\<close>

definition InstallMitm ::
  "('o, 'k) sm_env \<Rightarrow> ('o, 'k) sm \<Rightarrow> u64 \<Rightarrow> service_name \<Rightarrow>
     (sm_error, u32 \<times> u32) outcome \<times> ('o, 'k) sm" where
  "InstallMitm env s process_id service =
     R_TRY (ValidateServiceName service) s (\<lambda>_.
     R_TRY (CheckAccess env s process_id service True) s (\<lambda>_.
     case GetServiceInfo s service of
       None \<Rightarrow> (Err ResultRequestDeferredByUser, s)
     | Some i \<Rightarrow>
         let si = service_list s ! i
         in R_UNLESS (\<not> IsValidProcessId env (si_mitm_process_id si)) ResultAlreadyRegistered s (
            let (r1, k) = env_create_port env (kernel s) (si_max_sessions si) (si_is_light si)
                            (replicate 8 0);
                s = s\<lparr>kernel := k\<rparr>
            in R_TRY (svc r1) s (\<lambda>(hnd, port_hnd).
               let (r2, k) = env_create_session env (kernel s);
                   s' = s\<lparr>kernel := k\<rparr>;
                   s_drop = s'\<lparr>kernel := env_clear_handle env hnd
                                         (env_clear_handle env port_hnd k)\<rparr>
               in R_TRY (svc r2) s_drop (\<lambda>(qry_hnd, mitm_qry_hnd).
                  let k = env_clear_handle env (si_mitm_port_h si)
                            (env_clear_handle env (si_mitm_query_h si) k);
                      si = si\<lparr>si_mitm_process_id := process_id,
                              si_mitm_port_h := port_hnd,
                              si_mitm_query_h := mitm_qry_hnd\<rparr>;
                      s = set_service i si (s'\<lparr>kernel := k\<rparr>)
                  in (Ok (hnd, qry_hnd), ClearFutureMitmDeclaration env s service))))))"

definition UninstallMitm ::
  "('o, 'k) sm_env \<Rightarrow> ('o, 'k) sm \<Rightarrow> u64 \<Rightarrow> service_name \<Rightarrow>
     (sm_error, unit) outcome \<times> ('o, 'k) sm" where
  "UninstallMitm env s process_id service =
     R_TRY (ValidateServiceName service) s (\<lambda>_.
     R_TRY (CheckRegistered env s process_id) s (\<lambda>_.
     case GetServiceInfo s service of
       None \<Rightarrow> (Err ResultNotRegistered, s)
     | Some i \<Rightarrow>
         R_UNLESS (si_mitm_process_id (service_list s ! i) = process_id) ResultNotAllowed s (
         let (si, k) = ServiceInfo_FreeMitm env (service_list s ! i) (kernel s)
         in (Ok (), set_service i si (s\<lparr>kernel := k\<rparr>)))))"

definition DeclareFutureMitm ::
  "('o, 'k) sm_env \<Rightarrow> ('o, 'k) sm \<Rightarrow> u64 \<Rightarrow> service_name \<Rightarrow>
     (sm_error, unit) outcome \<times> ('o, 'k) sm" where
  "DeclareFutureMitm env s process_id service =
     R_TRY (ValidateServiceName service) s (\<lambda>_.
     R_TRY (CheckAccess env s process_id service True) s (\<lambda>_.
     R_UNLESS (\<not> HasMitmInfo env s service) ResultAlreadyRegistered s (
     R_UNLESS (\<not> HasFutureMitmDeclaration s service) ResultAlreadyRegistered s (
     AddFutureMitmDeclaration env s service))))"

definition AcknowledgeMitmSession ::
  "('o, 'k) sm_env \<Rightarrow> ('o, 'k) sm \<Rightarrow> u64 \<Rightarrow> service_name \<Rightarrow>
     (sm_error, 'o mitm_process_info \<times> u32) outcome \<times> ('o, 'k) sm" where
  "AcknowledgeMitmSession env s process_id service =
     R_TRY (ValidateServiceName service) s (\<lambda>_.
     R_TRY (CheckRegistered env s process_id) s (\<lambda>_.
     case GetServiceInfo s service of
       None \<Rightarrow> (Err ResultNotRegistered, s)
     | Some i \<Rightarrow>
         let si = service_list s ! i
         in R_UNLESS (si_mitm_process_id si = process_id) ResultNotAllowed s (
            R_UNLESS (si_mitm_waiting_ack si) ResultNotAllowed s (
            R_TRY (GetMitmProcessInfo s (si_mitm_waiting_ack_process_id si)) s (\<lambda>info.
            let si' = si\<lparr>si_mitm_fwd_sess_h := env_invalid_handle env,
                         si_mitm_waiting_ack := False,
                         si_mitm_waiting_ack_process_id := env_invalid_pid env\<rparr>
            in (Ok (info, si_mitm_fwd_sess_h si), set_service i si' s))))))"

subsection \<open>Records and the end of the initial deferrals\<close>

definition GetServiceRecord ::
  "('o, 'k) sm \<Rightarrow> service_name \<Rightarrow> (sm_error, service_record) outcome \<times> ('o, 'k) sm" where
  "GetServiceRecord s service =
     R_TRY (ValidateServiceName service) s (\<lambda>_.
     case GetServiceInfo s service of
       None \<Rightarrow> (Err ResultNotRegistered, s)
     | Some i \<Rightarrow> (Ok (GetServiceInfoRecord (service_list s ! i)), s))"

text \<open>The loop over the table: the records written so far, the count and the offset left.\<close>

fun list_records_loop ::
  "('o, 'k) sm_env \<Rightarrow> service_info list \<Rightarrow> nat \<Rightarrow> nat \<Rightarrow> nat \<Rightarrow> service_record list \<Rightarrow>
     service_record list" where
  "list_records_loop env [] offset count max_count out = out"
| "list_records_loop env (si # sis) offset count max_count out =
     (if count < max_count then
        if si_name si \<noteq> env_invalid_name env then
          if offset = 0 then
            list_records_loop env sis offset (Suc count) max_count (out @ [GetServiceInfoRecord si])
          else list_records_loop env sis (offset - 1) count max_count out
        else list_records_loop env sis offset count max_count out
      else out)"

text \<open>The output array and \<open>*out_count\<close>.\<close>

definition ListServiceRecords ::
  "('o, 'k) sm_env \<Rightarrow> ('o, 'k) sm \<Rightarrow> nat \<Rightarrow> nat \<Rightarrow>
     (sm_error, service_record list \<times> u64) outcome \<times> ('o, 'k) sm" where
  "ListServiceRecords env s offset max_count =
     (let out = list_records_loop env (service_list s) offset 0 max_count []
      in (Ok (out, 0), s))"

definition EndInitialDefers :: "('o, 'k) sm \<Rightarrow> (sm_error, unit) outcome \<times> ('o, 'k) sm" where
  "EndInitialDefers s = (Ok (), s\<lparr>ended_initial_defers := True\<rparr>)"

subsection \<open>The service objects\<close>

record user_service =
  us_process_id :: u64
  us_has_initialized :: bool

definition UserService_fresh :: "('o, 'k) sm_env \<Rightarrow> user_service" where
  "UserService_fresh env = \<lparr>us_process_id = env_invalid_pid env, us_has_initialized = False\<rparr>"

definition UserService_Initialize :: "user_service \<Rightarrow> u64 \<Rightarrow> user_service" where
  "UserService_Initialize u client_process_id =
     u\<lparr>us_process_id := client_process_id, us_has_initialized := True\<rparr>"

definition EnsureInitialized :: "user_service \<Rightarrow> (sm_error, unit) outcome" where
  "EnsureInitialized u = (if \<not> us_has_initialized u then Err ResultInvalidClient else Ok ())"

text \<open>The commands of \<open>sm:\<close>, with the outputs of each.\<close>

datatype user_cmd =
    UGetService service_name
  | URegisterService service_name u32 bool
  | UUnregisterService service_name
  | UInstallMitm service_name
  | UUninstallMitm service_name
  | UAcknowledgeMitmSession service_name
  | UHasMitm service_name
  | UWaitMitm service_name
  | UDeclareFutureMitm service_name
  | UHasService service_name
  | UWaitService service_name

datatype 'o user_reply =
    RUnit
  | RBool bool
  | RHandle u32
  | RHandles u32 u32
  | RAck "'o mitm_process_info" u32

definition reply :: "('a \<Rightarrow> 'o user_reply) \<Rightarrow> (sm_error, 'a) outcome \<times> ('o, 'k) sm \<Rightarrow>
    (sm_error, 'o user_reply) outcome \<times> ('o, 'k) sm" where
  "reply f x = (case x of (r, s) \<Rightarrow> R_TRY r s (\<lambda>v. (Ok (f v), s)))"

fun user_call ::
  "('o, 'k) sm_env \<Rightarrow> user_service \<Rightarrow> ('o, 'k) sm \<Rightarrow> user_cmd \<Rightarrow>
     (sm_error, 'o user_reply) outcome \<times> ('o, 'k) sm" where
  "user_call env u s (UGetService n) = reply RHandle (GetServiceHandle env s (us_process_id u) n)"
| "user_call env u s (URegisterService n m l) =
     reply RHandle (RegisterService env s (us_process_id u) n (ucast m) l)"
| "user_call env u s (UUnregisterService n) =
     reply (\<lambda>_. RUnit) (UnregisterService env s (us_process_id u) n)"
| "user_call env u s (UInstallMitm n) =
     reply (\<lambda>(a, b). RHandles a b) (InstallMitm env s (us_process_id u) n)"
| "user_call env u s (UUninstallMitm n) =
     reply (\<lambda>_. RUnit) (UninstallMitm env s (us_process_id u) n)"
| "user_call env u s (UAcknowledgeMitmSession n) =
     reply (\<lambda>(i, h). RAck i h) (AcknowledgeMitmSession env s (us_process_id u) n)"
| "user_call env u s (UHasMitm n) = reply RBool (HasMitm env s n)"
| "user_call env u s (UWaitMitm n) = reply (\<lambda>_. RUnit) (WaitMitm env s n)"
| "user_call env u s (UDeclareFutureMitm n) =
     reply (\<lambda>_. RUnit) (DeclareFutureMitm env s (us_process_id u) n)"
| "user_call env u s (UHasService n) = reply RBool (HasService s n)"
| "user_call env u s (UWaitService n) = reply (\<lambda>_. RUnit) (WaitService s n)"

definition UserService_call ::
  "('o, 'k) sm_env \<Rightarrow> user_service \<Rightarrow> ('o, 'k) sm \<Rightarrow> user_cmd \<Rightarrow>
     (sm_error, 'o user_reply) outcome \<times> ('o, 'k) sm" where
  "UserService_call env u s c = R_TRY (EnsureInitialized u) s (\<lambda>_. user_call env u s c)"

text \<open>\<open>sm:m\<close>: the plain registration passes no program id and no override status.\<close>

definition ManagerService_RegisterProcess ::
  "('o, 'k) sm_env \<Rightarrow> ('o, 'k) sm \<Rightarrow> u64 \<Rightarrow> access_control_entry \<Rightarrow> access_control_entry \<Rightarrow>
     (sm_error, unit) outcome \<times> ('o, 'k) sm" where
  "ManagerService_RegisterProcess env s process_id acid_sac aci_sac =
     RegisterProcess env s process_id (env_invalid_program_id env) (env_no_override env)
       acid_sac aci_sac"

definition ManagerService_AtmosphereEndInitDefers ::
  "('o, 'k) sm \<Rightarrow> (sm_error, unit) outcome \<times> ('o, 'k) sm" where
  "ManagerService_AtmosphereEndInitDefers s =
     (case EndInitialDefers s of (Ok v, s') \<Rightarrow> (Ok v, s') | (_, s') \<Rightarrow> (Abort, s'))"

definition ManagerService_AtmosphereHasMitm ::
  "('o, 'k) sm_env \<Rightarrow> ('o, 'k) sm \<Rightarrow> service_name \<Rightarrow> (sm_error, bool) outcome \<times> ('o, 'k) sm" where
  "ManagerService_AtmosphereHasMitm env s service =
     (case HasMitm env s service of (Ok v, s') \<Rightarrow> (Ok v, s') | (_, s') \<Rightarrow> (Abort, s'))"

definition DmntService_AtmosphereListRecords ::
  "('o, 'k) sm_env \<Rightarrow> ('o, 'k) sm \<Rightarrow> nat \<Rightarrow> nat \<Rightarrow>
     (sm_error, service_record list \<times> u64) outcome \<times> ('o, 'k) sm" where
  "DmntService_AtmosphereListRecords env s num offset =
     (case ListServiceRecords env s offset num of (Ok v, s') \<Rightarrow> (Ok v, s') | (_, s') \<Rightarrow> (Abort, s'))"

end
