(* ===== verification/SmInvariant.thy ===== *)
theory SmInvariant
  imports SmManager
begin

text \<open>
  The invariant of the service manager's tables, its preservation by every operation, and
  the reachable states. The step relation lists every command of the three service objects;
  the client of a user session is arbitrary.
\<close>

subsection \<open>What the library headers provide\<close>

text \<open>The empty name is no valid service name.\<close>

definition sm_env_ok :: "('o, 'k) sm_env \<Rightarrow> bool" where
  "sm_env_ok env \<longleftrightarrow> env_invalid_name env ! 0 = 0"

lemma invalid_name_not_valid:
  "sm_env_ok env \<Longrightarrow> ValidateServiceName (env_invalid_name env) \<noteq> Ok ()"
  by (simp add: sm_env_ok_def ValidateServiceName_def)

text \<open>A buffer handed in has as many bytes as it says.\<close>

definition ace_ok :: "access_control_entry \<Rightarrow> bool" where
  "ace_ok e \<longleftrightarrow> length (ace_bytes e) = capacity e"

subsection \<open>The invariant\<close>

definition si_ok :: "('o, 'k) sm_env \<Rightarrow> service_info \<Rightarrow> bool" where
  "si_ok env si \<longleftrightarrow>
     (si_name si = env_invalid_name env \<longrightarrow> si = fresh_service_info env) \<and>
     (si_name si \<noteq> env_invalid_name env \<longrightarrow> ValidateServiceName (si_name si) = Ok ()) \<and>
     (\<not> IsValidProcessId env (si_mitm_process_id si) \<longrightarrow>
        si_mitm_port_h si = env_invalid_handle env \<and> si_mitm_query_h si = env_invalid_handle env) \<and>
     (\<not> si_mitm_waiting_ack si \<longrightarrow>
        si_mitm_waiting_ack_process_id si = env_invalid_pid env \<and>
        si_mitm_fwd_sess_h si = env_invalid_handle env)"

definition pi_ok :: "'o process_info \<Rightarrow> bool" where
  "pi_ok p \<longleftrightarrow> length (pi_access_control p) = AccessControlSizeMax \<and>
     pi_access_control_size p \<le> AccessControlSizeMax"

definition sm_inv :: "('o, 'k) sm_env \<Rightarrow> ('o, 'k) sm \<Rightarrow> bool" where
  "sm_inv env s \<longleftrightarrow>
     length (process_list s) = ProcessCountMax \<and>
     length (service_list s) = ServiceCountMax \<and>
     length (future_mitm_list s) = FutureMitmCountMax \<and>
     list_all pi_ok (process_list s) \<and>
     list_all (si_ok env) (service_list s) \<and>
     distinct_keys si_name (env_invalid_name env) (service_list s) \<and>
     distinct_keys id (env_invalid_name env) (future_mitm_list s) \<and>
     list_all (\<lambda>si. IsValidProcessId env (si_mitm_process_id si) \<longrightarrow>
                 si_name si \<notin> set (future_mitm_list s)) (service_list s)"

lemma list_all_update:
  "\<lbrakk>list_all P xs; P x\<rbrakk> \<Longrightarrow> list_all P (xs[i := x])"
  using set_update_subset_insert [of xs i x] by (auto simp: list_all_iff)

lemma fresh_si_ok [simp]: "si_ok env (fresh_service_info env)"
  by (simp add: si_ok_def fresh_service_info_def)

lemma fresh_mitm [simp]:
  "IsValidProcessId env (si_mitm_process_id (fresh_service_info env)) \<longleftrightarrow> False"
  "si_name (fresh_service_info env) = env_invalid_name env"
  "si_mitm_waiting_ack (fresh_service_info env) \<longleftrightarrow> False"
  by (simp_all add: fresh_service_info_def IsValidProcessId_def)

lemma free_pi_ok [simp]: "pi_ok (ProcessInfo_Free env)"
  by (simp add: pi_ok_def ProcessInfo_Free_def)

lemma sm_inv_initial: "sm_inv env (sm_initial env k)"
  by (simp add: sm_inv_def sm_initial_def list_all_iff)

lemma sm_inv_kernel [simp]: "sm_inv env (s\<lparr>kernel := k\<rparr>) = sm_inv env s"
  by (simp add: sm_inv_def)

lemma sm_inv_ended [simp]: "sm_inv env (s\<lparr>ended_initial_defers := b\<rparr>) = sm_inv env s"
  by (simp add: sm_inv_def)

lemma sm_inv_slot:
  assumes "sm_inv env s" and "i < length (service_list s)"
  shows "si_ok env (service_list s ! i)"
    and "IsValidProcessId env (si_mitm_process_id (service_list s ! i)) \<Longrightarrow>
           si_name (service_list s ! i) \<notin> set (future_mitm_list s)"
  using assms by (auto simp: sm_inv_def list_all_length)

lemma GetServiceInfo_Some:
  assumes "GetServiceInfo s n = Some i"
  shows "i < length (service_list s)" and "si_name (service_list s ! i) = n"
  using assms by (auto simp: GetServiceInfo_def dest: find_idx_dest)

lemma GetServiceInfo_kernel [simp]: "GetServiceInfo (s\<lparr>kernel := k\<rparr>) n = GetServiceInfo s n"
  by (simp add: GetServiceInfo_def)

text \<open>Changing an occupied slot in place.\<close>

lemma sm_inv_set_service:
  assumes inv: "sm_inv env s"
    and name: "si_name si = si_name (service_list s ! i)"
    and ok: "si_ok env si"
    and mitm: "IsValidProcessId env (si_mitm_process_id si) \<Longrightarrow>
                 si_name si \<notin> set (future_mitm_list s)"
  shows "sm_inv env (set_service i si s)"
  using assms services.update_distinct [of "env_invalid_name env" "service_list s" si i]
  by (auto simp: sm_inv_def intro!: list_all_update)

text \<open>Occupying a free slot under a new name, and releasing a slot.\<close>

lemma sm_inv_insert_service:
  assumes inv: "sm_inv env s"
    and new: "GetServiceInfo s (si_name si) = None"
    and ok: "si_ok env si"
    and mitm: "\<not> IsValidProcessId env (si_mitm_process_id si)"
  shows "sm_inv env (set_service i si s)"
  using assms services.insert_distinct [of "env_invalid_name env" "service_list s" si i]
  by (auto simp: sm_inv_def GetServiceInfo_def intro!: list_all_update)

lemma sm_inv_release_service:
  assumes "sm_inv env s"
  shows "sm_inv env (set_service i (fresh_service_info env) s)"
  using assms
    services.release_distinct [of "env_invalid_name env" "service_list s" "fresh_service_info env" i]
  by (auto simp: sm_inv_def intro!: list_all_update)

lemma sm_inv_set_process:
  "\<lbrakk>sm_inv env s; pi_ok p\<rbrakk> \<Longrightarrow> sm_inv env (set_process i p s)"
  by (auto simp: sm_inv_def intro!: list_all_update)

text \<open>The early returns keep the invariant.\<close>

lemmas inv_rules =
  R_TRY_state [where P = "sm_inv env" for env]
  R_UNLESS_state [where P = "sm_inv env" for env]

subsection \<open>Preservation, one operation at a time\<close>

lemma connect_to_port_inv:
  "\<lbrakk>connect_to_port env s h = (r, s'); sm_inv env s\<rbrakk> \<Longrightarrow> sm_inv env s'"
  by (auto simp: connect_to_port_def split: prod.splits)

lemma connect_to_port_tables:
  assumes "connect_to_port env s h = (r, s')"
  shows "process_list s' = process_list s" "service_list s' = service_list s"
    "future_mitm_list s' = future_mitm_list s" "ended_initial_defers s' = ended_initial_defers s"
  using assms by (auto simp: connect_to_port_def split: prod.splits)

lemma GetMitmServiceHandleImpl_inv:
  assumes inv: "sm_inv env s" and i: "i < length (service_list s)"
    and mitm: "IsValidProcessId env (si_mitm_process_id (service_list s ! i))"
  shows "sm_inv env (snd (GetMitmServiceHandleImpl env s i ci))"
proof -
  let ?si = "service_list s ! i"
  obtain q k where q: "env_mitm_query env (kernel s) (si_mitm_query_h ?si) ci = (q, k)"
    by (metis surj_pair)
  obtain r1 s1 where c1: "connect_to_port env (s\<lparr>kernel := k\<rparr>) (si_port_h ?si) = (r1, s1)"
    by (metis surj_pair)
  obtain r2 s2 where c2: "connect_to_port env s1 (si_mitm_port_h ?si) = (r2, s2)"
    by (metis surj_pair)
  have s1: "sm_inv env s1" using connect_to_port_inv [OF c1] inv by simp
  have s2: "sm_inv env s2" using connect_to_port_inv [OF c2 s1] .
  have t2: "service_list s2 = service_list s" "future_mitm_list s2 = future_mitm_list s"
    using connect_to_port_tables [OF c1] connect_to_port_tables [OF c2] by auto
  have fin: "sm_inv env (set_service i (?si\<lparr>si_mitm_fwd_sess_h := f,
        si_mitm_waiting_ack_process_id := p, si_mitm_waiting_ack := True\<rparr>) (s2\<lparr>kernel := k'\<rparr>))"
    for f p k'
    using sm_inv_slot [OF inv i] mitm t2 s2
    by (intro sm_inv_set_service) (auto simp: si_ok_def fresh_service_info_def IsValidProcessId_def)
  have s1': "sm_inv env (s1\<lparr>kernel := k'\<rparr>)" and s2': "sm_inv env (s2\<lparr>kernel := k'\<rparr>)" for k'
    using s1 s2 by simp_all
  show ?thesis
    unfolding GetMitmServiceHandleImpl_def q c1 c2 Let_def split_conv
    by (rule inv_rules s1' s2' | simp add: inv s1 fin [simplified] | intro impI conjI)+
qed

lemma GetServiceHandleImpl_inv:
  assumes inv: "sm_inv env s" and i: "i < length (service_list s)"
  shows "sm_inv env (snd (GetServiceHandleImpl env s i pid))"
proof -
  obtain r1 s1 where c1: "connect_to_port env s (si_port_h (service_list s ! i)) = (r1, s1)"
    by (metis surj_pair)
  have s1: "sm_inv env s1" using connect_to_port_inv [OF c1] inv by simp
  show ?thesis
    using inv s1 GetMitmServiceHandleImpl_inv [OF inv i]
    by (auto simp: GetServiceHandleImpl_def c1 Let_def
        intro!: inv_rules split: prod.split outcome.split)
      (metis snd_conv)+
qed

lemma RegisterServiceImpl_inv:
  assumes inv: "sm_inv env s" and env: "sm_env_ok env"
  shows "sm_inv env (snd (RegisterServiceImpl env s pid n m l))"
proof (cases "ValidateServiceName n = Ok () \<and> \<not> HasServiceInfo s n")
  case False
  then show ?thesis
    using inv by (auto simp: RegisterServiceImpl_def R_TRY_def R_UNLESS_def split: outcome.split)
next
  case True
  then have v: "ValidateServiceName n = Ok ()" and new: "GetServiceInfo s n = None"
    by (auto simp: HasServiceInfo_def)
  have ne: "n \<noteq> env_invalid_name env" using v invalid_name_not_valid [OF env] by auto
  show ?thesis
  proof (cases "GetFreeServiceInfo env s")
    case None
    then show ?thesis using inv v new by (simp add: RegisterServiceImpl_def HasServiceInfo_def)
  next
    case (Some i)
    then have i: "i < length (service_list s)" and "si_name (service_list s ! i) = env_invalid_name env"
      using GetServiceInfo_Some by (auto simp: GetFreeServiceInfo_def)
    then have fresh: "service_list s ! i = fresh_service_info env"
      using sm_inv_slot(1) [OF inv i] by (simp add: si_ok_def)
    have "fresh_service_info env\<lparr>si_port_h := env_invalid_handle env\<rparr> = fresh_service_info env"
      by (simp add: fresh_service_info_def)
    note [simp] = this
    have same: "sm_inv env (set_service i (fresh_service_info env) (s\<lparr>kernel := k\<rparr>))" for k
      using inv by (intro sm_inv_release_service) simp
    have new': "sm_inv env (set_service i (fresh_service_info env\<lparr>si_port_h := p, si_name := n,
        si_owner_process_id := pid, si_max_sessions := m, si_is_light := l\<rparr>) (s\<lparr>kernel := k\<rparr>))"
      for p k
      using inv new v ne
      by (intro sm_inv_insert_service)
        (auto simp: si_ok_def fresh_service_info_def IsValidProcessId_def)
    show ?thesis
      using inv v new Some same new'
      by (auto simp: RegisterServiceImpl_def HasServiceInfo_def Let_def fresh
          intro!: inv_rules split: prod.split)
  qed
qed

lemma RegisterProcess_inv:
  assumes "sm_inv env s" and "ace_ok aci"
  shows "sm_inv env (snd (RegisterProcess env s pid prog ov acid aci))"
proof -
  have "pi_ok (p\<lparr>pi_process_id := pid, pi_program_id := prog, pi_override_status := ov,
      pi_access_control_size := capacity aci,
      pi_access_control := take (capacity aci) (ace_bytes aci) @ drop (capacity aci) (pi_access_control p)\<rparr>)"
    if "pi_ok p" "capacity aci \<le> AccessControlSizeMax" for p :: "'a process_info"
    using that assms(2) by (auto simp: pi_ok_def ace_ok_def)
  moreover have "pi_ok (process_list s ! i)" if "GetFreeProcessInfo env s = Some i" for i
    using that assms(1) find_idx_length
    by (auto simp: sm_inv_def list_all_length GetFreeProcessInfo_def GetProcessInfo_def)
  ultimately show ?thesis
    using assms
    by (auto simp: RegisterProcess_def Let_def intro!: inv_rules sm_inv_set_process
        split: option.split)
qed

lemma UnregisterProcess_inv:
  "sm_inv env s \<Longrightarrow> sm_inv env (snd (UnregisterProcess env s pid))"
  by (auto simp: UnregisterProcess_def intro: sm_inv_set_process split: option.split)

lemma query_inv:
  "sm_inv env s \<Longrightarrow> sm_inv env (snd (HasService s n))"
  "sm_inv env s \<Longrightarrow> sm_inv env (snd (WaitService s n))"
  "sm_inv env s \<Longrightarrow> sm_inv env (snd (HasMitm env s n))"
  "sm_inv env s \<Longrightarrow> sm_inv env (snd (WaitMitm env s n))"
  "sm_inv env s \<Longrightarrow> sm_inv env (snd (GetServiceRecord s n))"
  "sm_inv env s \<Longrightarrow> sm_inv env (snd (ListServiceRecords env s off mx))"
  "sm_inv env s \<Longrightarrow> sm_inv env (snd (EndInitialDefers s))"
  by (auto simp: HasService_def WaitService_def HasMitm_def WaitMitm_def GetServiceRecord_def
      ListServiceRecords_def EndInitialDefers_def Let_def outcome_simps
      split: outcome.split option.split)

lemma GetServiceHandle_inv:
  assumes "sm_inv env s"
  shows "sm_inv env (snd (GetServiceHandle env s pid n))"
proof -
  have "sm_inv env s'" if "GetServiceInfo s n = Some i" "GetServiceHandleImpl env s i pid = (r, s')"
    for i r s'
    using GetServiceHandleImpl_inv [OF assms GetServiceInfo_Some(1) [OF that(1)], of pid] that(2)
    by simp
  then show ?thesis
    using assms unfolding GetServiceHandle_def
    by (auto intro!: inv_rules simp: Let_def split: option.split prod.split)
qed

lemma RegisterService_inv:
  "\<lbrakk>sm_inv env s; sm_env_ok env\<rbrakk> \<Longrightarrow> sm_inv env (snd (RegisterService env s pid n m l))"
  by (auto simp: RegisterService_def intro!: inv_rules RegisterServiceImpl_inv)

lemma UnregisterService_inv:
  assumes "sm_inv env s"
  shows "sm_inv env (snd (UnregisterService env s pid n))"
proof -
  have "sm_inv env (s\<lparr>kernel := k', service_list := (service_list s)[i := fst (ServiceInfo_Free env si k)]\<rparr>)"
    for i si k k'
    using sm_inv_release_service [of env "s\<lparr>kernel := k'\<rparr>" i] assms by simp
  then show ?thesis
    using assms unfolding UnregisterService_def
    by (auto intro!: inv_rules simp: split_beta split: option.split)
qed

lemma UninstallMitm_inv:
  assumes inv: "sm_inv env s"
  shows "sm_inv env (snd (UninstallMitm env s pid n))"
proof -
  have "sm_inv env (s\<lparr>kernel := k', service_list :=
      (service_list s)[i := fst (ServiceInfo_FreeMitm env (service_list s ! i) k)]\<rparr>)"
    if "GetServiceInfo s n = Some i" for i k k'
    using sm_inv_set_service [of env "s\<lparr>kernel := k'\<rparr>"
        "fst (ServiceInfo_FreeMitm env (service_list s ! i) k)" i]
      inv sm_inv_slot [OF inv GetServiceInfo_Some(1) [OF that]]
    by (auto simp: ServiceInfo_FreeMitm_def si_ok_def IsValidProcessId_def fresh_service_info_def)
  then show ?thesis
    using inv unfolding UninstallMitm_def
    by (auto intro!: inv_rules simp: split_beta split: option.split)
qed

lemma AcknowledgeMitmSession_inv:
  assumes inv: "sm_inv env s"
  shows "sm_inv env (snd (AcknowledgeMitmSession env s pid n))"
proof -
  have "sm_inv env (set_service i ((service_list s ! i)\<lparr>si_mitm_fwd_sess_h := env_invalid_handle env,
      si_mitm_waiting_ack := False, si_mitm_waiting_ack_process_id := env_invalid_pid env\<rparr>) s)"
    if "GetServiceInfo s n = Some i" for i
    using inv sm_inv_slot [OF inv GetServiceInfo_Some(1) [OF that]]
    by (intro sm_inv_set_service)
      (auto simp: si_ok_def IsValidProcessId_def fresh_service_info_def)
  then show ?thesis
    using inv unfolding AcknowledgeMitmSession_def Let_def
    by (auto intro!: inv_rules split: option.split)
qed

lemma distinct_keys_id_clear:
  assumes "distinct_keys id free xs"
  shows "distinct_keys id free (map (\<lambda>n. if n = m then free else n) xs)"
  using assms by (auto simp: distinct_keys_def)

lemma InstallMitm_store_inv:
  assumes inv: "sm_inv env s" and i: "GetServiceInfo s n = Some i"
    and v: "ValidateServiceName n = Ok ()" and env: "sm_env_ok env"
    and pid: "IsValidProcessId env pid"
  shows "sm_inv env (ClearFutureMitmDeclaration env (set_service i ((service_list s ! i)
    \<lparr>si_mitm_process_id := pid, si_mitm_port_h := p, si_mitm_query_h := q\<rparr>) s) n)"
proof -
  let ?si = "(service_list s ! i)\<lparr>si_mitm_process_id := pid, si_mitm_port_h := p, si_mitm_query_h := q\<rparr>"
  let ?f = "map (\<lambda>m. if m = n then env_invalid_name env else m) (future_mitm_list s)"
  have ne: "n \<noteq> env_invalid_name env" using v invalid_name_not_valid [OF env] by auto
  have n: "si_name ?si = n" using GetServiceInfo_Some(2) [OF i] by simp
  have ok: "si_ok env ?si"
    using sm_inv_slot(1) [OF inv GetServiceInfo_Some(1) [OF i]] n ne pid
    by (auto simp: si_ok_def)
  have "set ?f \<subseteq> insert (env_invalid_name env) (set (future_mitm_list s) - {n})" by auto
  moreover have "si_name si \<noteq> env_invalid_name env"
    if "si \<in> set (service_list s)" "IsValidProcessId env (si_mitm_process_id si)" for si
    using that inv fresh_mitm(1) by (auto simp: sm_inv_def list_all_iff si_ok_def)
  ultimately have "list_all (\<lambda>si. IsValidProcessId env (si_mitm_process_id si) \<longrightarrow> si_name si \<notin> set ?f)
      ((service_list s)[i := ?si])"
    using inv n ne by (intro list_all_update) (auto simp: sm_inv_def list_all_iff)
  moreover have "distinct_keys si_name (env_invalid_name env) ((service_list s)[i := ?si])"
    using inv by (intro services.update_distinct) (auto simp: sm_inv_def)
  moreover have "list_all (si_ok env) ((service_list s)[i := ?si])"
    using inv ok by (intro list_all_update) (auto simp: sm_inv_def)
  ultimately show ?thesis
    using inv by (auto simp: sm_inv_def ClearFutureMitmDeclaration_def intro: distinct_keys_id_clear)
qed

lemma CheckAccess_valid_pid:
  "CheckAccess env s pid n h = Ok () \<Longrightarrow> IsValidProcessId env pid"
  by (auto simp: CheckAccess_def IsInitialProcess_def IsValidProcessId_def split: if_splits)

lemma InstallMitm_inv:
  assumes inv: "sm_inv env s" and env: "sm_env_ok env"
  shows "sm_inv env (snd (InstallMitm env s pid n))"
proof -
  have "sm_inv env (ClearFutureMitmDeclaration env (set_service i ((service_list s ! i)
      \<lparr>si_mitm_process_id := pid, si_mitm_port_h := p, si_mitm_query_h := q\<rparr>) (s\<lparr>kernel := k\<rparr>)) n)"
    if "ValidateServiceName n = Ok ()" "CheckAccess env s pid n True = Ok ()"
      "GetServiceInfo s n = Some i" for i p q k
    using InstallMitm_store_inv [of env "s\<lparr>kernel := k\<rparr>" n i pid q p] inv env
      CheckAccess_valid_pid [OF that(2)] that(1,3) by (simp del: fun_upd_apply)
  then show ?thesis
    using inv unfolding InstallMitm_def Let_def
    by (auto intro!: inv_rules split: option.split prod.split)
qed

lemma distinct_keys_insert:
  assumes "distinct_keys id free xs" and "n \<notin> set xs"
  shows "distinct_keys id free (xs[i := n])"
  unfolding distinct_keys_def
proof (intro allI impI)
  fix a b
  assume "a < length (xs[i := n])" "b < length (xs[i := n])"
    "id (xs[i := n] ! a) = id (xs[i := n] ! b)" "id (xs[i := n] ! a) \<noteq> free"
  then show "a = b"
    using assms distinct_keysD [OF assms(1), of a b] nth_mem [of a xs] nth_mem [of b xs]
    by (cases "a = i"; cases "b = i") auto
qed

lemma DeclareFutureMitm_inv:
  assumes inv: "sm_inv env s" and env: "sm_env_ok env"
  shows "sm_inv env (snd (DeclareFutureMitm env s pid n))"
proof -
  have "sm_inv env (snd (AddFutureMitmDeclaration env s n))"
    if v: "ValidateServiceName n = Ok ()" and m: "\<not> HasMitmInfo env s n"
      and f: "\<not> HasFutureMitmDeclaration s n"
  proof -
    have ne: "n \<noteq> env_invalid_name env" using v invalid_name_not_valid [OF env] by auto
    have nomitm: "si_name si \<noteq> n"
      if si: "si \<in> set (service_list s)" "IsValidProcessId env (si_mitm_process_id si)" for si
    proof
      assume n: "si_name si = n"
      obtain j where j: "j < length (service_list s)" "service_list s ! j = si"
        using si(1) by (metis in_set_conv_nth)
      then have "GetServiceInfo s n = Some j"
        using services.lookup_hit [of "env_invalid_name env" "service_list s" j] inv n ne
        by (simp add: GetServiceInfo_def sm_inv_def)
      then show False using m si j by (simp add: HasMitmInfo_def)
    qed
    have "sm_inv env (s\<lparr>future_mitm_list := (future_mitm_list s)[i := n]\<rparr>)" for i
    proof -
      have "distinct_keys id (env_invalid_name env) ((future_mitm_list s)[i := n])"
        using inv f by (intro distinct_keys_insert) (auto simp: sm_inv_def HasFutureMitmDeclaration_def)
      moreover have "si_name si \<notin> set ((future_mitm_list s)[i := n])"
        if "si \<in> set (service_list s)" "IsValidProcessId env (si_mitm_process_id si)" for si
        using set_update_subset_insert [of "future_mitm_list s" i n] nomitm [OF that] that inv
        by (auto simp: sm_inv_def list_all_iff)
      ultimately show ?thesis
        using inv by (simp add: sm_inv_def list_all_iff)
    qed
    then show ?thesis using inv by (auto simp: AddFutureMitmDeclaration_def split: option.split)
  qed
  then show ?thesis
    using inv unfolding DeclareFutureMitm_def by (auto intro!: inv_rules)
qed

lemmas manager_inv =
  RegisterProcess_inv UnregisterProcess_inv query_inv GetServiceHandle_inv RegisterService_inv
  UnregisterService_inv UninstallMitm_inv AcknowledgeMitmSession_inv InstallMitm_inv
  DeclareFutureMitm_inv RegisterServiceImpl_inv

lemma reply_inv: "sm_inv env (snd x) \<Longrightarrow> sm_inv env (snd (reply f x))"
  by (cases x) (auto simp: reply_def intro!: inv_rules)

lemma UserService_call_inv:
  "\<lbrakk>sm_inv env s; sm_env_ok env\<rbrakk> \<Longrightarrow> sm_inv env (snd (UserService_call env u s c))"
  unfolding UserService_call_def
  by (cases c) (auto intro!: inv_rules reply_inv intro: manager_inv)

subsection \<open>Steps and reachable states\<close>

inductive sm_step :: "('o, 'k) sm_env \<Rightarrow> ('o, 'k) sm \<Rightarrow> ('o, 'k) sm \<Rightarrow> bool" for env where
  user: "UserService_call env u s c = (r, s') \<Longrightarrow> sm_step env s s'"
| register_process:
    "ace_ok acid \<Longrightarrow> ace_ok aci \<Longrightarrow> RegisterProcess env s pid prog ov acid aci = (r, s') \<Longrightarrow>
     sm_step env s s'"
| unregister_process: "UnregisterProcess env s pid = (r, s') \<Longrightarrow> sm_step env s s'"
| register_self: "RegisterServiceForSelf env s n m = (r, s') \<Longrightarrow> sm_step env s s'"
| end_defers: "ManagerService_AtmosphereEndInitDefers s = (r, s') \<Longrightarrow> sm_step env s s'"
| environment: "sm_step env s (s\<lparr>kernel := k\<rparr>)"

inductive sm_reachable :: "('o, 'k) sm_env \<Rightarrow> ('o, 'k) sm \<Rightarrow> bool" for env where
  start: "sm_reachable env (sm_initial env k)"
| step: "sm_reachable env s \<Longrightarrow> sm_step env s s' \<Longrightarrow> sm_reachable env s'"

inductive_cases sm_stepE: "sm_step env s s'"

lemma sm_step_inv:
  assumes "sm_step env s s'" and "sm_inv env s" and "sm_env_ok env"
  shows "sm_inv env s'"
  using assms
proof (cases rule: sm_step.cases)
  case (user u c r)
  then show ?thesis using UserService_call_inv [OF assms(2,3), of u c] by simp
next
  case (register_process acid aci pid prog ov r)
  then show ?thesis using RegisterProcess_inv [OF assms(2), of aci pid prog ov acid] by simp
next
  case (unregister_process pid r)
  then show ?thesis using UnregisterProcess_inv [OF assms(2), of pid] by simp
next
  case (register_self n m r)
  then show ?thesis
    using RegisterServiceImpl_inv [OF assms(2,3)]
    by (metis RegisterServiceForSelf_def snd_conv)
next
  case (end_defers r)
  then show ?thesis
    using assms(2) by (auto simp: ManagerService_AtmosphereEndInitDefers_def EndInitialDefers_def)
next
  case (environment k)
  then show ?thesis using assms(2) by simp
qed

lemma sm_reachable_inv:
  "\<lbrakk>sm_reachable env s; sm_env_ok env\<rbrakk> \<Longrightarrow> sm_inv env s"
  by (induction rule: sm_reachable.induct) (auto intro: sm_inv_initial sm_step_inv)

end
