(* ===== verification/SmProps.thy ===== *)
theory SmProps
  imports SmInvariant
begin

text \<open>
  Properties of the service manager: access control, registration, the mitm session
  protocol, and the places where the code does not do what its comments say.
\<close>

subsection \<open>An environment for the witnesses\<close>

text \<open>
  Every system call succeeds and hands out the next number as a handle; \<open>ServiceName::Encode\<close>
  pads with zero bytes; the initial processes are 1 to 3.
\<close>

definition demo_env :: "(unit, nat) sm_env" where
  "demo_env =
     \<lparr>env_invalid_pid = -1, env_invalid_program_id = 0, env_invalid_handle = 0,
      env_invalid_name = replicate 8 0, env_no_override = (),
      env_program_id = (\<lambda>p. case p of ProgLoader \<Rightarrow> 0x101 | ProgPm \<Rightarrow> 0x103 | ProgSpl \<Rightarrow> 0x128
                          | ProgBoot \<Rightarrow> 0x105 | ProgNcm \<Rightarrow> 0x102 | ProgMitm \<Rightarrow> 0x141
                          | ProgCreport \<Rightarrow> 0x136),
      env_initial_min = 1, env_initial_max = 3, env_current_pid = 2,
      env_version_ge_8_0_0 = True, env_svc_out_of_sessions = 7,
      env_encode = (\<lambda>bs. take 8 (bs @ replicate 8 0)),
      env_create_port = (\<lambda>k m l n. (Inr (word_of_nat (k + 1), word_of_nat (k + 2)), k + 2)),
      env_create_session = (\<lambda>k. (Inr (word_of_nat (k + 1), word_of_nat (k + 2)), k + 2)),
      env_connect_to_port = (\<lambda>k h. (Inr (word_of_nat (k + 1)), k + 1)),
      env_mitm_query = (\<lambda>k h i. (Inr True, k)),
      env_clear_handle = (\<lambda>h k. k)\<rparr>"

definition name_of :: "u8 list \<Rightarrow> service_name" where
  "name_of bs = take 8 (bs @ replicate 8 0)"

lemma demo_env_ok [simp]: "sm_env_ok demo_env"
  by (simp add: sm_env_ok_def demo_env_def)

lemma name_of_fsp:
  "name_of name_fsp_srv = [0x66, 0x73, 0x70, 0x2d, 0x73, 0x72, 0x76] @ replicate 1 0"
  unfolding name_of_def name_fsp_srv_def by code_simp

lemma valid_fsp [simp]: "ValidateServiceName (name_of name_fsp_srv) = Ok ()"
proof -
  have "0 < length (name_of name_fsp_srv)" by (simp add: name_of_fsp)
  moreover have "0 \<notin> set [0x66, 0x73, 0x70, 0x2d, 0x73, 0x72, 0x76 :: u8]" by simp
  ultimately show ?thesis
    using ValidateServiceName_iff name_of_fsp by (metis list.distinct(1))
qed

subsection \<open>Service names and access control\<close>

text \<open>
  A name passes \<open>ValidateServiceName\<close> exactly when it is a non-empty string without
  zero bytes, padded with zero bytes to the size of the type.
\<close>

theorem service_name_valid_iff:
  assumes "0 < length service"
  shows "ValidateServiceName service = Ok () \<longleftrightarrow>
    (\<exists>p z. service = p @ replicate z 0 \<and> p \<noteq> [] \<and> 0 \<notin> set p)"
  using assms by (rule ValidateServiceName_iff)

theorem service_name_valid_iff_witness:
  "\<exists>p z. name_of name_fsp_srv = p @ replicate z 0 \<and> p \<noteq> [] \<and> 0 \<notin> set p"
proof -
  have "0 < length (name_of name_fsp_srv)" by (simp add: name_of_def name_fsp_srv_def)
  from service_name_valid_iff [OF this] show ?thesis by simp
qed


lemma initial_tables:
  "GetFreeServiceInfo env (sm_initial env k) = Some 0"
  "n \<noteq> env_invalid_name env \<Longrightarrow> GetServiceInfo (sm_initial env k) n = None"
  by (auto simp: GetFreeServiceInfo_def GetServiceInfo_def sm_initial_def find_idx_replicate
      ServiceCountMax_def)

text \<open>The restriction and the request of the witnesses: one plain client rule, one \<open>*\<close>.\<close>

definition acid_fsp :: access_control_entry where
  "acid_fsp = \<lparr>entry = Some (0x06 # name_fsp_srv), capacity = 8\<rparr>"

definition aci_star :: access_control_entry where
  "aci_star = \<lparr>entry = Some [0x00, 0x2A], capacity = 2\<rparr>"


lemma ac_entries_fsp:
  "ac_entries demo_env acid_fsp =
     [\<lparr>ac_host = False, ac_wildcard = False, ac_name = name_of name_fsp_srv, ac_name_size = 7\<rparr>]"
  unfolding acid_fsp_def name_fsp_srv_def name_of_def by code_simp

lemma ac_entries_star:
  "ac_entries demo_env aci_star =
     [\<lparr>ac_host = False, ac_wildcard = True, ac_name = [0x2A, 0, 0, 0, 0, 0, 0, 0],
       ac_name_size = 1\<rparr>]"
  unfolding aci_star_def by code_simp





text \<open>
  Wildcard escalation. A wildcard entry is accepted by any restriction that holds one
  plain entry with the same host bit, whatever service that entry names: an ACID that grants
  a single service lets its process register an access control that grants a whole family of
  names, \<open>*\<close> included.
\<close>

theorem wildcard_accepted_by_any_plain_rule:
  assumes "y \<in> set (ac_entries env acid)" and "\<not> ac_wildcard y"
    and "\<forall>x\<in>set (ac_entries env aci). ac_wildcard x \<and> ac_host x = ac_host y"
  shows "ValidateAccessControlSubset env acid aci = Ok ()"
  unfolding ValidateAccessControlSubset_iff
proof
  fix x assume "x \<in> set (ac_entries env aci)"
  with assms(3) have "ac_wildcard x" "ac_host x = ac_host y" by auto
  with assms(2) have "grants y (ac_name x) (ac_host x) (ac_wildcard x)"
    by (simp add: grants_def)
  with assms(1) show "\<exists>y\<in>set (ac_entries env acid). grants y (ac_name x) (ac_host x) (ac_wildcard x)"
    by blast
qed

theorem wildcard_accepted_by_any_plain_rule_witness:
  "ValidateAccessControlSubset demo_env acid_fsp aci_star = Ok () \<and>
   \<not> (\<exists>y\<in>set (ac_entries demo_env acid_fsp). ac_wildcard y)"
  using wildcard_accepted_by_any_plain_rule
      [of "\<lparr>ac_host = False, ac_wildcard = False, ac_name = name_of name_fsp_srv, ac_name_size = 7\<rparr>"
          demo_env acid_fsp aci_star]
  by (simp add: ac_entries_fsp ac_entries_star)

text \<open>
  C6. A client that is no initial process is handed a session only for a service its stored
  access control grants to it as a client, and only while nothing defers the service: it is
  registered, no mitm is declared or waiting to acknowledge a session, and the initial
  deferral does not hold it back.
\<close>

theorem get_service_confined:
  assumes "GetServiceHandle env s pid service = (Ok h, s')"
    and "\<not> (env_initial_min env \<le> pid \<and> pid \<le> env_initial_max env)"
  shows "(\<exists>i. GetProcessInfo s pid = Some i \<and>
            (\<exists>r\<in>set (ac_entries env (stored_access_control (process_list s ! i))).
               grants r service False False)) \<and>
         (\<exists>j. GetServiceInfo s service = Some j \<and> \<not> si_mitm_waiting_ack (service_list s ! j)) \<and>
         \<not> HasFutureMitmDeclaration s service \<and> \<not> ShouldDeferForInit env s service"
proof -
  have acc: "CheckAccess env s pid service False = Ok ()"
    and rest: "\<exists>j. GetServiceInfo s service = Some j \<and> \<not> si_mitm_waiting_ack (service_list s ! j)"
      "\<not> HasFutureMitmDeclaration s service" "\<not> ShouldDeferForInit env s service"
    using assms(1) by (auto simp: GetServiceHandle_def split: option.splits)
  obtain i where "GetProcessInfo s pid = Some i"
    and "ValidateAccessControl env (stored_access_control (process_list s ! i)) service False False = Ok ()"
    using acc assms(2)
    by (auto simp: CheckAccess_def IsInitialProcess_def split: if_splits option.splits)
  then show ?thesis
    using rest by (auto simp: ValidateAccessControl_iff)
qed

subsection \<open>Registration\<close>

lemma RegisterServiceImpl_Ok:
  assumes "RegisterServiceImpl env s pid n m l = (Ok h, s')"
  shows "ValidateServiceName n = Ok () \<and> GetServiceInfo s n = None \<and>
    (\<exists>i k p. GetFreeServiceInfo env s = Some i \<and>
       s' = set_service i ((service_list s ! i)\<lparr>si_port_h := p, si_name := n,
              si_owner_process_id := pid, si_max_sessions := m, si_is_light := l\<rparr>)
            (s\<lparr>kernel := k\<rparr>))"
  using assms
  by (auto simp: RegisterServiceImpl_def HasServiceInfo_def Let_def split: option.splits prod.splits)

text \<open>
  C8. A successful \<open>RegisterService\<close> creates the entry: the name was free, is valid, is now
  found with the caller as owner, the given session limit and no mitm; \<open>HasService\<close> answers
  true; and every other name is found exactly as before.
\<close>

theorem register_service_registers:
  assumes "sm_inv env s" and "sm_env_ok env"
    and "RegisterService env s pid n m l = (Ok h, s')"
  shows "GetServiceInfo s n = None \<and> HasService s' n = (Ok True, s') \<and>
    (\<exists>i. GetServiceInfo s' n = Some i \<and>
         si_owner_process_id (service_list s' ! i) = pid \<and>
         si_max_sessions (service_list s' ! i) = m \<and> si_is_light (service_list s' ! i) = l \<and>
         \<not> IsValidProcessId env (si_mitm_process_id (service_list s' ! i)) \<and>
         \<not> si_mitm_waiting_ack (service_list s' ! i)) \<and>
    (\<forall>n'. n' \<noteq> n \<and> n' \<noteq> env_invalid_name env \<longrightarrow> GetServiceInfo s' n' = GetServiceInfo s n')"
proof -
  have "RegisterServiceImpl env s pid n m l = (Ok h, s')"
    using assms(3) by (simp add: RegisterService_def)
  from RegisterServiceImpl_Ok [OF this] obtain i k p where
    v: "ValidateServiceName n = Ok ()" and none: "GetServiceInfo s n = None"
    and i: "GetFreeServiceInfo env s = Some i"
    and s': "s' = set_service i ((service_list s ! i)\<lparr>si_port_h := p, si_name := n,
        si_owner_process_id := pid, si_max_sessions := m, si_is_light := l\<rparr>) (s\<lparr>kernel := k\<rparr>)"
    by blast
  let ?e = "(service_list s ! i)\<lparr>si_port_h := p, si_name := n,
        si_owner_process_id := pid, si_max_sessions := m, si_is_light := l\<rparr>"
  have li: "i < length (service_list s)" "si_name (service_list s ! i) = env_invalid_name env"
    using i GetServiceInfo_Some by (auto simp: GetFreeServiceInfo_def)
  then have fresh: "service_list s ! i = fresh_service_info env"
    using sm_inv_slot(1) [OF assms(1)] by (simp add: si_ok_def)
  have sl: "service_list s' = (service_list s)[i := ?e]" using s' by simp
  have found: "GetServiceInfo s' n = Some i"
    using services.lookup_insert_same [of "env_invalid_name env" "service_list s" i ?e] i none
    by (simp add: GetServiceInfo_def GetFreeServiceInfo_def sl)
  moreover have "GetServiceInfo s' n' = GetServiceInfo s n'"
    if "n' \<noteq> n \<and> n' \<noteq> env_invalid_name env" for n'
    using services.lookup_update_other [of ?e n' i "service_list s"] that li
    by (auto simp: GetServiceInfo_def sl)
  ultimately show ?thesis
    using none v fresh li
    by (auto simp: HasService_def HasServiceInfo_def sl)
qed

text \<open>The state of the witnesses: the initial process 2 has registered \<open>fsp-srv\<close>.\<close>

definition sm2 :: "(unit, nat) sm" where
  "sm2 = snd (RegisterService demo_env (sm_initial demo_env 0) 2 (name_of name_fsp_srv) 4 False)"

lemma fsp_not_invalid [simp]: "name_of name_fsp_srv \<noteq> env_invalid_name demo_env"
  using invalid_name_not_valid [OF demo_env_ok] by (metis valid_fsp)

lemma sm2_registered:
  "RegisterService demo_env (sm_initial demo_env 0) 2 (name_of name_fsp_srv) 4 False = (Ok 1, sm2)"
proof -
  have "CheckAccess demo_env (sm_initial demo_env 0) 2 (name_of name_fsp_srv) True = Ok ()"
    by (simp add: CheckAccess_def IsInitialProcess_def demo_env_def)
  then show ?thesis
    by (simp add: sm2_def RegisterService_def RegisterServiceImpl_def HasServiceInfo_def
        initial_tables Let_def)
      (simp add: demo_env_def sm_initial_def)
qed

theorem register_service_registers_witness:
  "HasService sm2 (name_of name_fsp_srv) = (Ok True, sm2)"
  using register_service_registers [OF sm_inv_initial demo_env_ok sm2_registered] by blast

text \<open>
  \<open>UnregisterService\<close> succeeds only for the owner of the service; the name is then free
  and every other name is found as before. In every other case the state is unchanged.
\<close>

theorem unregister_service_owner_only:
  assumes "sm_inv env s" and "sm_env_ok env"
    and "UnregisterService env s pid n = (r, s')"
  shows "(if r = Ok () then
            (\<exists>i. GetServiceInfo s n = Some i \<and> si_owner_process_id (service_list s ! i) = pid) \<and>
            GetServiceInfo s' n = None \<and>
            (\<forall>n'. n' \<noteq> n \<and> n' \<noteq> env_invalid_name env \<longrightarrow> GetServiceInfo s' n' = GetServiceInfo s n')
          else s' = s)"
proof (cases "r = Ok ()")
  case False
  then show ?thesis
    using assms(3)
    by (auto simp: UnregisterService_def outcome_simps split: outcome.splits option.splits if_splits prod.splits)
next
  case True
  then obtain i k where v: "ValidateServiceName n = Ok ()" and i: "GetServiceInfo s n = Some i"
    and own: "si_owner_process_id (service_list s ! i) = pid"
    and s': "s' = set_service i (fresh_service_info env) (s\<lparr>kernel := k\<rparr>)"
    using assms(3)
    by (auto simp: UnregisterService_def split_beta split: option.splits)
  have ne: "n \<noteq> env_invalid_name env" using v invalid_name_not_valid [OF assms(2)] by auto
  have d: "distinct_keys si_name (env_invalid_name env) (service_list s)"
    using assms(1) by (simp add: sm_inv_def)
  have "GetServiceInfo s' n = None"
    using services.lookup_release [OF d, of n i "fresh_service_info env"] i ne s'
    by (simp add: GetServiceInfo_def)
  moreover have "GetServiceInfo s' n' = GetServiceInfo s n'"
    if "n' \<noteq> n \<and> n' \<noteq> env_invalid_name env" for n'
    using services.lookup_update_other [of "fresh_service_info env" n' i "service_list s"]
      that GetServiceInfo_Some(2) [OF i] s'
    by (auto simp: GetServiceInfo_def)
  ultimately show ?thesis using True i own by simp
qed

definition sm3 :: "(unit, nat) sm" where
  "sm3 = snd (UnregisterService demo_env sm2 2 (name_of name_fsp_srv))"

lemma sm2_inv: "sm_inv demo_env sm2"
  using RegisterService_inv [OF sm_inv_initial demo_env_ok, of 0 2 "name_of name_fsp_srv" 4 False]
  by (simp add: sm2_def)

lemma sm2_eq:
  "sm2 = set_service 0 ((fresh_service_info demo_env)\<lparr>si_port_h := 2,
     si_name := name_of name_fsp_srv, si_owner_process_id := 2, si_max_sessions := 4,
     si_is_light := False\<rparr>) (sm_initial demo_env 2)"
proof -
  have "CheckAccess demo_env (sm_initial demo_env 0) 2 (name_of name_fsp_srv) True = Ok ()"
    by (simp add: CheckAccess_def IsInitialProcess_def demo_env_def)
  then show ?thesis
    by (simp add: sm2_def RegisterService_def RegisterServiceImpl_def HasServiceInfo_def
        initial_tables Let_def)
      (simp add: demo_env_def sm_initial_def fresh_service_info_def ServiceCountMax_def)
qed

lemma sm2_lookup: "GetServiceInfo sm2 (name_of name_fsp_srv) = Some 0"
  by (simp add: sm2_eq GetServiceInfo_def sm_initial_def ServiceCountMax_def numeral_eq_Suc)

lemma initial_2 [simp]: "IsInitialProcess demo_env 2 = Ok True"
  by (simp add: IsInitialProcess_def demo_env_def)

lemma sm3_unregistered: "UnregisterService demo_env sm2 2 (name_of name_fsp_srv) = (Ok (), sm3)"
proof -
  have "si_owner_process_id (service_list sm2 ! 0) = 2"
    by (simp add: sm2_eq sm_initial_def ServiceCountMax_def)
  then show ?thesis
    by (simp add: sm3_def UnregisterService_def CheckRegistered_def sm2_lookup split_beta)
qed

theorem unregister_service_owner_only_witness:
  "GetServiceInfo sm3 (name_of name_fsp_srv) = None"
  using unregister_service_owner_only [OF sm2_inv demo_env_ok sm3_unregistered] by simp

subsection \<open>The mitm session protocol\<close>

text \<open>What a successful hand-out does to the tables: nothing, or the waiting mark.\<close>

lemma GetMitmServiceHandleImpl_Ok:
  assumes "GetMitmServiceHandleImpl env s i ci = (Ok h, s')"
  shows "process_list s' = process_list s \<and> future_mitm_list s' = future_mitm_list s \<and>
    ended_initial_defers s' = ended_initial_defers s \<and>
    (service_list s' = service_list s \<or>
     (\<exists>f. service_list s' = (service_list s)[i := (service_list s ! i)
        \<lparr>si_mitm_fwd_sess_h := f, si_mitm_waiting_ack_process_id := mpi_process_id ci,
         si_mitm_waiting_ack := True\<rparr>]))"
  using assms
  by (auto simp: GetMitmServiceHandleImpl_def Let_def connect_to_port_def
      split: prod.splits if_splits)

lemma GetServiceHandle_Ok:
  assumes "GetServiceHandle env s pid n = (Ok h, s')"
  obtains i where "GetServiceInfo s n = Some i" "\<not> si_mitm_waiting_ack (service_list s ! i)"
    "ValidateServiceName n = Ok ()" "process_list s' = process_list s"
    "service_list s' = service_list s \<or>
       (\<exists>f. service_list s' = (service_list s)[i := (service_list s ! i)
          \<lparr>si_mitm_fwd_sess_h := f, si_mitm_waiting_ack_process_id := pid,
           si_mitm_waiting_ack := True\<rparr>] \<and> HasProcessInfo s pid)"
proof -
  obtain i where i: "GetServiceInfo s n = Some i" "\<not> si_mitm_waiting_ack (service_list s ! i)"
    "ValidateServiceName n = Ok ()" and r: "GetServiceHandleImpl env s i pid = (Ok h, s')"
    using assms
    by (auto simp: GetServiceHandle_def convert_out_of_sessions_def split: option.splits prod.splits
        if_splits)
  have "process_list s' = process_list s \<and> (service_list s' = service_list s \<or>
       (\<exists>f. service_list s' = (service_list s)[i := (service_list s ! i)
          \<lparr>si_mitm_fwd_sess_h := f, si_mitm_waiting_ack_process_id := pid,
           si_mitm_waiting_ack := True\<rparr>] \<and> HasProcessInfo s pid))"
  proof (cases "\<exists>p. connect_to_port env s p = (Ok h, s')")
    case True
    then show ?thesis using connect_to_port_tables by metis
  next
    case False
    then obtain ci where ci: "GetMitmProcessInfo s pid = Ok ci"
      and m: "GetMitmServiceHandleImpl env s i ci = (Ok h, s')"
      using r by (auto simp: GetServiceHandleImpl_def Let_def split: if_splits prod.splits outcome.splits)
    then have "mpi_process_id ci = pid" "HasProcessInfo s pid"
      by (auto simp: GetMitmProcessInfo_def HasProcessInfo_def split: option.splits)
    then show ?thesis using GetMitmServiceHandleImpl_Ok [OF m] by auto
  qed
  then show ?thesis using that i by blast
qed

text \<open>
  C9. The acknowledgement protocol. When a session of a mitm'd service has been handed to
  the mitm, nobody gets another session of the service until it is acknowledged; only the
  mitm process can acknowledge; its acknowledgement returns the waiting client's process id
  and the forwarded session, and clears the waiting mark, so that the service can be asked
  for again.
\<close>

theorem mitm_acknowledge_protocol:
  assumes "GetServiceInfo s n = Some i" and "\<not> si_mitm_waiting_ack (service_list s ! i)"
    and "GetServiceHandle env s client n = (Ok h, s1)"
    and "si_mitm_waiting_ack (service_list s1 ! i)"
    and "si_mitm_process_id (service_list s ! i) = m" and "CheckRegistered env s m = Ok ()"
  shows "(\<forall>pid h' s2. GetServiceHandle env s1 pid n \<noteq> (Ok h', s2)) \<and>
    (\<forall>pid x s2. pid \<noteq> m \<longrightarrow> AcknowledgeMitmSession env s1 pid n \<noteq> (Ok x, s2)) \<and>
    (\<exists>info s2. AcknowledgeMitmSession env s1 m n =
        (Ok (info, si_mitm_fwd_sess_h (service_list s1 ! i)), s2) \<and>
      mpi_process_id info = client \<and>
      GetServiceInfo s2 n = Some i \<and> \<not> si_mitm_waiting_ack (service_list s2 ! i) \<and>
      si_mitm_process_id (service_list s2 ! i) = m)"
proof -
  from GetServiceHandle_Ok [OF assms(3)] obtain f where
    v: "ValidateServiceName n = Ok ()" and pl: "process_list s1 = process_list s"
    and sl: "service_list s1 = (service_list s)[i := (service_list s ! i)
          \<lparr>si_mitm_fwd_sess_h := f, si_mitm_waiting_ack_process_id := client,
           si_mitm_waiting_ack := True\<rparr>]"
    and cl: "HasProcessInfo s client"
    using assms(1,2,4) by (metis option.inject)
  let ?e = "(service_list s ! i)\<lparr>si_mitm_fwd_sess_h := f,
      si_mitm_waiting_ack_process_id := client, si_mitm_waiting_ack := True\<rparr>"
  have i: "i < length (service_list s)" "si_name (service_list s ! i) = n"
    using GetServiceInfo_Some [OF assms(1)] by auto
  have g1: "GetServiceInfo s1 n = Some i"
    using services.lookup_update_same [of n "service_list s" i ?e] assms(1) i
    by (simp add: GetServiceInfo_def sl)
  have p1: "GetProcessInfo s1 p = GetProcessInfo s p" for p
    by (simp add: GetProcessInfo_def pl)
  obtain info where info: "GetMitmProcessInfo s1 client = Ok info" "mpi_process_id info = client"
    using cl by (auto simp: GetMitmProcessInfo_def HasProcessInfo_def p1)
  have reg: "CheckRegistered env s1 m = Ok ()"
    using assms(6) unfolding CheckRegistered_def HasProcessInfo_def p1 .
  have e1: "service_list s1 ! i = ?e" using sl i by simp
  let ?e2 = "?e\<lparr>si_mitm_fwd_sess_h := env_invalid_handle env, si_mitm_waiting_ack := False,
      si_mitm_waiting_ack_process_id := env_invalid_pid env\<rparr>"
  have ack: "AcknowledgeMitmSession env s1 m n = (Ok (info, f), set_service i ?e2 s1)"
    using v reg g1 info assms(5) by (simp add: AcknowledgeMitmSession_def e1 Let_def)
  have g2: "GetServiceInfo (set_service i ?e2 s1) n = Some i"
    using services.lookup_update_same [of n "service_list s1" i ?e2] g1 i
    by (simp add: GetServiceInfo_def)
  have "GetServiceHandle env s1 pid n \<noteq> (Ok h', s2)" for pid h' s2
    using g1 e1 by (auto elim!: GetServiceHandle_Ok)
  moreover have "AcknowledgeMitmSession env s1 pid n \<noteq> (Ok x, s2)" if "pid \<noteq> m" for pid x s2
    using that g1 e1 assms(5) by (auto simp: AcknowledgeMitmSession_def Let_def)
  moreover have "service_list (set_service i ?e2 s1) ! i = ?e2" using i sl by simp
  ultimately show ?thesis using ack g2 info(2) e1 assms(5) by auto
qed

text \<open>
  Uninstalling a mitm while a session waits to be acknowledged strands the service:
  the waiting mark stays, so every later request is deferred, and there is no mitm process
  left that could acknowledge it.
\<close>

theorem uninstall_mitm_strands_waiting_service:
  assumes "GetServiceInfo s n = Some i" and "si_mitm_waiting_ack (service_list s ! i)"
    and "UninstallMitm env s m n = (Ok (), s')"
  shows "(\<forall>pid. fst (GetServiceHandle env s' pid n) \<notin> range Ok) \<and>
    (\<forall>pid. fst (AcknowledgeMitmSession env s' pid n) \<notin> range Ok) \<and>
    si_mitm_process_id (service_list s' ! i) = env_invalid_pid env"
proof -
  obtain k where s': "s' = set_service i (fst (ServiceInfo_FreeMitm env (service_list s ! i) (kernel s)))
      (s\<lparr>kernel := k\<rparr>)"
    using assms(1,3) by (auto simp: UninstallMitm_def split_beta)
  let ?e = "fst (ServiceInfo_FreeMitm env (service_list s ! i) (kernel s))"
  have i: "i < length (service_list s)" "si_name (service_list s ! i) = n"
    using GetServiceInfo_Some [OF assms(1)] by auto
  have e: "service_list s' ! i = ?e" "si_name ?e = n" "si_mitm_waiting_ack ?e"
    "si_mitm_process_id ?e = env_invalid_pid env"
    using s' i assms(2) by (auto simp: ServiceInfo_FreeMitm_def)
  have g: "GetServiceInfo s' n = Some i"
    using services.lookup_update_same [of n "service_list s" i ?e] assms(1) e(2) s'
    by (simp add: GetServiceInfo_def)
  have "fst (GetServiceHandle env s' pid n) \<notin> range Ok" for pid
  proof
    assume "fst (GetServiceHandle env s' pid n) \<in> range Ok"
    then obtain h s2 where "GetServiceHandle env s' pid n = (Ok h, s2)" by (metis imageE prod.collapse)
    then show False using g e(1,3) by (elim GetServiceHandle_Ok) simp
  qed
  moreover have "fst (AcknowledgeMitmSession env s' pid n) \<notin> range Ok" for pid
  proof
    assume "fst (AcknowledgeMitmSession env s' pid n) \<in> range Ok"
    then obtain x s2 where "AcknowledgeMitmSession env s' pid n = (Ok x, s2)"
      by (metis imageE prod.collapse)
    then have "CheckRegistered env s' pid = Ok ()" "pid = env_invalid_pid env"
      using g e(1,4) by (auto simp: AcknowledgeMitmSession_def Let_def)
    then show False by (simp add: CheckRegistered_def IsInitialProcess_def)
  qed
  ultimately show ?thesis using e by simp
qed

text \<open>
  The state of the witnesses: \<open>fsp-srv\<close> is owned by process 1 and mitm'd by process 2;
  process 0x51 is registered and may use it.
\<close>

definition sm_mitm :: "(unit, nat) sm" where
  "sm_mitm =
     \<lparr>process_list = [\<lparr>pi_process_id = 0x51, pi_program_id = 0x0100000000001000,
        pi_override_status = (), pi_access_control_size = 8,
        pi_access_control = 0x06 # name_fsp_srv\<rparr>],
      service_list = [\<lparr>si_name = [0x66, 0x73, 0x70, 0x2d, 0x73, 0x72, 0x76, 0],
        si_owner_process_id = 1, si_port_h = 3, si_max_sessions = 4, si_is_light = False,
        si_mitm_process_id = 2, si_mitm_port_h = 5, si_mitm_query_h = 7,
        si_mitm_waiting_ack = False, si_mitm_waiting_ack_process_id = -1,
        si_mitm_fwd_sess_h = 0\<rparr>],
      future_mitm_list = [replicate 8 0], ended_initial_defers = True, kernel = 10\<rparr>"

definition sm_mitm1 :: "(unit, nat) sm" where
  "sm_mitm1 = snd (GetServiceHandle demo_env sm_mitm 0x51 (name_of name_fsp_srv))"

definition sm_mitm2 :: "(unit, nat) sm" where
  "sm_mitm2 = snd (UninstallMitm demo_env sm_mitm1 2 (name_of name_fsp_srv))"

lemma sm_mitm_facts:
  "GetServiceInfo sm_mitm (name_of name_fsp_srv) = Some 0"
  "si_mitm_waiting_ack (service_list sm_mitm ! 0) = False"
  "fst (GetServiceHandle demo_env sm_mitm 0x51 (name_of name_fsp_srv)) = Ok 12"
  "GetServiceInfo sm_mitm1 (name_of name_fsp_srv) = Some 0"
  "si_mitm_waiting_ack (service_list sm_mitm1 ! 0) = True"
  "si_mitm_process_id (service_list sm_mitm ! 0) = 2"
  "CheckRegistered demo_env sm_mitm 2 = Ok ()"
  "fst (UninstallMitm demo_env sm_mitm1 2 (name_of name_fsp_srv)) = Ok ()"
  by code_simp+

lemma sm_mitm_steps:
  "GetServiceHandle demo_env sm_mitm 0x51 (name_of name_fsp_srv) = (Ok 12, sm_mitm1)"
  "UninstallMitm demo_env sm_mitm1 2 (name_of name_fsp_srv) = (Ok (), sm_mitm2)"
  using sm_mitm_facts(3,8) by (simp_all add: prod_eq_iff sm_mitm1_def sm_mitm2_def)

theorem get_service_confined_witness:
  "\<exists>i. GetProcessInfo sm_mitm 0x51 = Some i \<and>
     (\<exists>r\<in>set (ac_entries demo_env (stored_access_control (process_list sm_mitm ! i))).
        grants r (name_of name_fsp_srv) False False)"
proof -
  have "\<not> (env_initial_min demo_env \<le> 0x51 \<and> 0x51 \<le> env_initial_max demo_env)"
    by (simp add: demo_env_def)
  from get_service_confined [OF sm_mitm_steps(1) this] show ?thesis by blast
qed

theorem mitm_acknowledge_protocol_witness:
  "\<exists>info s2. AcknowledgeMitmSession demo_env sm_mitm1 2 (name_of name_fsp_srv) =
     (Ok (info, si_mitm_fwd_sess_h (service_list sm_mitm1 ! 0)), s2) \<and> mpi_process_id info = 0x51"
proof -
  have "\<not> si_mitm_waiting_ack (service_list sm_mitm ! 0)" "si_mitm_waiting_ack (service_list sm_mitm1 ! 0)"
    using sm_mitm_facts(2,5) by simp_all
  from mitm_acknowledge_protocol [OF sm_mitm_facts(1) this(1) sm_mitm_steps(1) this(2)
      sm_mitm_facts(6,7)]
  show ?thesis by blast
qed

theorem uninstall_mitm_strands_waiting_service_witness:
  "\<forall>pid. fst (GetServiceHandle demo_env sm_mitm2 pid (name_of name_fsp_srv)) \<notin> range Ok"
proof -
  have "si_mitm_waiting_ack (service_list sm_mitm1 ! 0)" using sm_mitm_facts(5) by simp
  from uninstall_mitm_strands_waiting_service [OF sm_mitm_facts(4) this sm_mitm_steps(2)]
  show ?thesis by blast
qed

text \<open>
  When a mitm is installed and wants the session, any failure behind it aborts the
  service manager, the kernel's out-of-sessions code included; without a mitm that code is
  the ordinary result \<open>ResultOutOfSessions\<close>. The abort also hits a client whose session the
  mitm declined.
\<close>

theorem mitm_connect_failure_aborts:
  assumes "GetServiceInfo s n = Some i" and "ValidateServiceName n = Ok ()"
    and "n \<noteq> env_encode env name_apm_p" and "CheckAccess env s pid n False = Ok ()"
    and "\<not> ShouldDeferForInit env s n" and "\<not> HasFutureMitmDeclaration s n"
    and "\<not> si_mitm_waiting_ack (service_list s ! i)"
    and "\<And>k. fst (env_connect_to_port env k (si_port_h (service_list s ! i)))
               = Inl (env_svc_out_of_sessions env)"
  shows "fst (GetServiceHandle env s pid n) =
    (if IsValidProcessId env (si_mitm_process_id (service_list s ! i)) \<and>
        si_mitm_process_id (service_list s ! i) \<noteq> pid \<and>
        (case GetMitmProcessInfo s pid of
           Ok ci \<Rightarrow> \<not> IsMitmDisallowed env (mpi_program_id ci) | _ \<Rightarrow> True)
     then Abort else Err ResultOutOfSessions)"
proof -
  have c: "fst (connect_to_port env s' (si_port_h (service_list s ! i)))
      = Err (SvcResult (env_svc_out_of_sessions env))" for s'
    using assms(8) by (simp add: connect_to_port_def split_beta)
  have impl: "fst (GetServiceHandle env s pid n) =
      convert_out_of_sessions env (fst (GetServiceHandleImpl env s i pid))"
    using assms by (simp add: GetServiceHandle_def split_beta)
  have m: "fst (GetMitmServiceHandleImpl env s i ci) \<noteq> Ok h" for ci h
    using c by (auto simp: GetMitmServiceHandleImpl_def Let_def split_beta outcome_simps
        split: outcome.splits)
  have gm: "GetMitmProcessInfo s pid \<noteq> Err e" for e
    by (simp add: GetMitmProcessInfo_def split: option.split)
  show ?thesis
    unfolding impl using c m gm
    by (auto simp: GetServiceHandleImpl_def Let_def convert_out_of_sessions_def R_TRY_def
        split: outcome.splits prod.splits) (metis fst_conv)+
qed

definition full_env :: "(unit, nat) sm_env" where
  "full_env = demo_env\<lparr>env_connect_to_port := (\<lambda>k h. (Inl 7, k))\<rparr>"

lemma full_env_facts:
  "GetServiceInfo sm_mitm (name_of name_fsp_srv) = Some 0"
  "CheckAccess full_env sm_mitm 0x51 (name_of name_fsp_srv) False = Ok ()"
  "(name_of name_fsp_srv = env_encode full_env name_apm_p) = False"
  "ShouldDeferForInit full_env sm_mitm (name_of name_fsp_srv) = False"
  "HasFutureMitmDeclaration sm_mitm (name_of name_fsp_srv) = False"
  by code_simp+

theorem mitm_connect_failure_aborts_witness:
  "fst (GetServiceHandle full_env sm_mitm 0x51 (name_of name_fsp_srv)) = Abort"
proof -
  have "fst (env_connect_to_port full_env k (si_port_h (service_list sm_mitm ! 0)))
      = Inl (env_svc_out_of_sessions full_env)" for k
    by (simp add: full_env_def demo_env_def)
  moreover have "IsValidProcessId full_env (si_mitm_process_id (service_list sm_mitm ! 0))"
    "GetMitmProcessInfo sm_mitm 0x51 = Ok \<lparr>mpi_process_id = 0x51,
       mpi_program_id = 0x0100000000001000, mpi_override_status = ()\<rparr>"
    "IsMitmDisallowed full_env 0x0100000000001000 = False"
    by code_simp+
  ultimately show ?thesis
    using mitm_connect_failure_aborts [OF full_env_facts(1) valid_fsp _ full_env_facts(2)]
      full_env_facts sm_mitm_facts(2,6) by simp
qed

text \<open>
  A process that passes as an initial process needs no registration, but asking for a
  mitm'd service makes the service manager look its process info up: for an initial process
  that was never registered the request aborts the service manager.
\<close>

theorem unregistered_initial_process_aborts:
  assumes "GetServiceInfo s n = Some i" and "ValidateServiceName n = Ok ()"
    and "n \<noteq> env_encode env name_apm_p"
    and "pid \<noteq> env_invalid_pid env" and "env_initial_min env \<le> pid" and "pid \<le> env_initial_max env"
    and "\<not> HasProcessInfo s pid"
    and "\<not> ShouldDeferForInit env s n" and "\<not> HasFutureMitmDeclaration s n"
    and "\<not> si_mitm_waiting_ack (service_list s ! i)"
    and "IsValidProcessId env (si_mitm_process_id (service_list s ! i))"
    and "si_mitm_process_id (service_list s ! i) \<noteq> pid"
  shows "GetServiceHandle env s pid n = (Abort, s)"
  using assms
  by (simp add: GetServiceHandle_def GetServiceHandleImpl_def CheckAccess_def IsInitialProcess_def
      GetMitmProcessInfo_def HasProcessInfo_def convert_out_of_sessions_def)

theorem unregistered_initial_process_aborts_witness:
  "GetServiceHandle demo_env sm_mitm 3 (name_of name_fsp_srv) = (Abort, sm_mitm)"
proof -
  have "(name_of name_fsp_srv = env_encode demo_env name_apm_p) = False"
    "(3 = env_invalid_pid demo_env) = False" "env_initial_min demo_env \<le> 3"
    "3 \<le> env_initial_max demo_env" "HasProcessInfo sm_mitm 3 = False"
    "ShouldDeferForInit demo_env sm_mitm (name_of name_fsp_srv) = False"
    "HasFutureMitmDeclaration sm_mitm (name_of name_fsp_srv) = False"
    "IsValidProcessId demo_env (si_mitm_process_id (service_list sm_mitm ! 0))"
    by code_simp+
  then show ?thesis
    using unregistered_initial_process_aborts [OF sm_mitm_facts(1) valid_fsp, of demo_env 3]
      sm_mitm_facts(2,6) by simp
qed

subsection \<open>Failures, records and reachable states\<close>

lemma GetServiceHandle_Err:
  "GetServiceHandle env s pid n = (Err e, s') \<Longrightarrow> \<exists>k. s' = s\<lparr>kernel := k\<rparr>"
proof -
  have c: "connect_to_port env s h = (r, s') \<Longrightarrow> \<exists>k. s' = s\<lparr>kernel := k\<rparr>" for h r s'
    by (auto simp: connect_to_port_def split: prod.splits)
  have same: "\<exists>k. s = s\<lparr>kernel := k\<rparr>" by (metis sm.surjective sm.update_convs(5))
  have "GetServiceHandleImpl env s i pid = (Err e', s') \<Longrightarrow> \<exists>k. s' = s\<lparr>kernel := k\<rparr>" for i e'
    using same c
    by (auto simp: GetServiceHandleImpl_def Let_def R_TRY_def GetMitmProcessInfo_def
        split: outcome.splits prod.splits if_splits option.splits)
  then show "GetServiceHandle env s pid n = (Err e, s') \<Longrightarrow> \<exists>k. s' = s\<lparr>kernel := k\<rparr>"
    using same
    by (auto simp: GetServiceHandle_def outcome_simps convert_out_of_sessions_def
        split: outcome.splits prod.splits if_splits option.splits)
qed

lemma RegisterServiceImpl_Err:
  assumes inv: "sm_inv env s" and "RegisterServiceImpl env s pid n m l = (Err e, s')"
  shows "\<exists>k. s' = s\<lparr>kernel := k\<rparr>"
proof -
  have same: "\<exists>k. s = s\<lparr>kernel := k\<rparr>" by (metis sm.surjective sm.update_convs(5))
  have slot: "(service_list s)[i := (service_list s ! i)\<lparr>si_port_h := env_invalid_handle env\<rparr>]
      = service_list s" if "GetFreeServiceInfo env s = Some i" for i
  proof -
    have "i < length (service_list s)" "si_name (service_list s ! i) = env_invalid_name env"
      using that GetServiceInfo_Some by (auto simp: GetFreeServiceInfo_def)
    then have "service_list s ! i = fresh_service_info env"
      using sm_inv_slot(1) [OF inv] by (simp add: si_ok_def)
    then have "(service_list s ! i)\<lparr>si_port_h := env_invalid_handle env\<rparr> = service_list s ! i"
      by (simp add: fresh_service_info_def)
    then show ?thesis by simp
  qed
  have upd: "s\<lparr>kernel := k, service_list := service_list s\<rparr> = s\<lparr>kernel := k\<rparr>" for k by simp
  show ?thesis
    using assms(2) same slot
    by (auto simp: RegisterServiceImpl_def outcome_simps Let_def
        split: outcome.splits prod.splits if_splits option.splits)
qed

lemma no_change [simp]: "\<exists>k. s = s\<lparr>kernel := k\<rparr>"
  by (metis sm.surjective sm.update_convs(5))

lemma RegisterService_Err:
  "\<lbrakk>sm_inv env s; RegisterService env s pid n m l = (Err e, s')\<rbrakk> \<Longrightarrow> \<exists>k. s' = s\<lparr>kernel := k\<rparr>"
  by (auto simp: RegisterService_def outcome_simps dest: RegisterServiceImpl_Err
      split: outcome.splits if_splits)

lemma InstallMitm_Err:
  "InstallMitm env s pid n = (Err e, s') \<Longrightarrow> \<exists>k. s' = s\<lparr>kernel := k\<rparr>"
  by (auto simp: InstallMitm_def outcome_simps Let_def
      split: outcome.splits prod.splits if_splits option.splits)

lemma other_Err:
  "UnregisterService env s pid n = (Err e, s') \<Longrightarrow> s' = s"
  "UninstallMitm env s pid n = (Err e, s') \<Longrightarrow> s' = s"
  "AcknowledgeMitmSession env s pid n = (Err e, s') \<Longrightarrow> s' = s"
  "DeclareFutureMitm env s pid n = (Err e, s') \<Longrightarrow> s' = s"
  "HasMitm env s n = (Err e, s') \<Longrightarrow> s' = s"
  "WaitMitm env s n = (Err e, s') \<Longrightarrow> s' = s"
  "HasService s n = (Err e, s') \<Longrightarrow> s' = s"
  "WaitService s n = (Err e, s') \<Longrightarrow> s' = s"
  by (auto simp: UnregisterService_def UninstallMitm_def AcknowledgeMitmSession_def
      DeclareFutureMitm_def AddFutureMitmDeclaration_def HasMitm_def WaitMitm_def HasService_def
      WaitService_def outcome_simps Let_def
      split: outcome.splits prod.splits if_splits option.splits)

lemmas command_Err = GetServiceHandle_Err RegisterService_Err InstallMitm_Err other_Err

lemma reply_Err: "reply f x = (Err e, s') \<longleftrightarrow> x = (Err e, s')"
  by (cases x) (auto simp: reply_def R_TRY_def split: outcome.splits)

text \<open>
  A user command that fails changes no table: whatever \<open>sm:\<close> answers with an error
  leaves processes, services, declarations and the deferral flag as they were (only the
  kernel may have been called).
\<close>

theorem failing_user_command_keeps_tables:
  assumes "sm_inv env s" and "UserService_call env u s c = (Err e, s')"
  shows "process_list s' = process_list s \<and> service_list s' = service_list s \<and>
    future_mitm_list s' = future_mitm_list s \<and> ended_initial_defers s' = ended_initial_defers s"
proof -
  have "\<exists>k. s' = s\<lparr>kernel := k\<rparr>"
  proof (cases "EnsureInitialized u = Ok ()")
    case True
    then have "user_call env u s c = (Err e, s')"
      using assms(2) by (simp add: UserService_call_def)
    then show ?thesis
      using assms(1) by (cases c) (auto simp: reply_Err dest: command_Err)
  next
    case False
    then show ?thesis
      using assms(2) by (auto simp: UserService_call_def outcome_simps EnsureInitialized_def
          split: if_splits)
  qed
  then show ?thesis by auto
qed

theorem failing_user_command_keeps_tables_witness:
  "service_list sm2 = service_list (snd (UserService_call demo_env
     \<lparr>us_process_id = 2, us_has_initialized = True\<rparr> sm2
     (URegisterService (name_of name_fsp_srv) 1 False)))"
proof -
  let ?u = "\<lparr>us_process_id = 2, us_has_initialized = True\<rparr>"
  let ?c = "UserService_call demo_env ?u sm2 (URegisterService (name_of name_fsp_srv) 1 False)"
  have "?c = (Err ResultAlreadyRegistered, snd ?c)"
    by (simp add: UserService_call_def EnsureInitialized_def RegisterService_def CheckAccess_def
        HasServiceInfo_def sm2_lookup reply_def)
  from failing_user_command_keeps_tables [OF sm2_inv this] show ?thesis by simp
qed

lemma list_records_loop_eq:
  "count \<le> max_count \<Longrightarrow>
   list_records_loop env sis offset count max_count out =
     out @ map GetServiceInfoRecord
       (take (max_count - count) (drop offset (filter (\<lambda>si. si_name si \<noteq> env_invalid_name env) sis)))"
proof (induction env sis offset count max_count out rule: list_records_loop.induct)
  case (1 env offset count max_count out)
  then show ?case by simp
next
  case (2 env si sis offset count max_count out)
  show ?case
  proof (cases "count < max_count")
    case True
    then have "max_count - count = Suc (max_count - Suc count)" by simp
    with 2 True show ?thesis by (cases offset) auto
  next
    case False
    with 2(4) show ?thesis by simp
  qed
qed

text \<open>
  \<open>ListServiceRecords\<close> writes the records of the registered services, in table order,
  from the requested offset and no more than the buffer takes; but the count it reports is
  always zero.
\<close>

theorem list_service_records_count_zero:
  "ListServiceRecords env s offset max_count =
    (Ok (map GetServiceInfoRecord
           (take max_count (drop offset
              (filter (\<lambda>si. si_name si \<noteq> env_invalid_name env) (service_list s)))), 0), s)"
  by (simp add: ListServiceRecords_def list_records_loop_eq)

text \<open>
  C1. In every reachable state the tables are well formed: they keep their sizes; the
  registered names are valid and pairwise distinct; a free slot is completely reset; a slot
  without a mitm holds no mitm handles, and one that waits for no acknowledgement holds no
  forwarded session; and a name declared for a future mitm is not mitm'd yet.
\<close>

theorem reachable_tables_well_formed:
  assumes "sm_reachable env s" and "sm_env_ok env"
  shows "sm_inv env s"
  using assms by (rule sm_reachable_inv)

theorem reachable_tables_well_formed_witness: "sm_inv demo_env sm2"
proof -
  let ?u = "\<lparr>us_process_id = 2, us_has_initialized = True\<rparr>"
  have "UserService_call demo_env ?u (sm_initial demo_env 0) (URegisterService (name_of name_fsp_srv) 4 False)
      = (Ok (RHandle 1), sm2)"
    by (simp add: UserService_call_def EnsureInitialized_def reply_def sm2_registered)
  then have "sm_step demo_env (sm_initial demo_env 0) sm2" by (rule sm_step.user)
  with sm_reachable.start have "sm_reachable demo_env sm2" by (rule sm_reachable.step)
  then show ?thesis using reachable_tables_well_formed demo_env_ok by blast
qed

end
