(* ===== verification/CheatVmDecode.thy ===== *)
theory CheatVmDecode
  imports NX_Prelude "HOL-Library.State_Monad"
begin

text \<open>
  The cheat virtual machine (\<open>dmnt/source/cheat/impl/dmnt_cheat_vm.hpp\<close> and \<open>.cpp\<close>): its
  opcodes, its state and the instruction decoder \<open>DecodeNextOpcode\<close>. An opcode is a
  constructor of \<open>vm_opcode\<close>, with the fields of the union member it selects; where a field
  is present only for some operand kinds, the operand is a datatype of its own. The decoder
  runs in a state monad over the machine and the local flag \<open>valid\<close>.
\<close>

subsection \<open>Enumerations, from the nybble that encodes them\<close>

datatype memory_access_type = MainNso | Heap | OtherMem nat

definition memory_access_type_of :: "nat \<Rightarrow> memory_access_type" where
  "memory_access_type_of n = (if n = 0 then MainNso else if n = 1 then Heap else OtherMem n)"

datatype comparison_type = CmpGT | CmpGE | CmpLT | CmpLE | CmpEQ | CmpNE | CmpOther nat

definition comparison_type_of :: "nat \<Rightarrow> comparison_type" where
  "comparison_type_of n =
     (if n = 1 then CmpGT else if n = 2 then CmpGE else if n = 3 then CmpLT
      else if n = 4 then CmpLE else if n = 5 then CmpEQ else if n = 6 then CmpNE
      else CmpOther n)"

datatype arithmetic_type =
    Addition | Subtraction | Multiplication | LeftShift | RightShift
  | LogicalAnd | LogicalOr | LogicalNot | LogicalXor | NoArithmetic | OtherArithmetic nat

definition arithmetic_type_of :: "nat \<Rightarrow> arithmetic_type" where
  "arithmetic_type_of n =
     (if n = 0 then Addition else if n = 1 then Subtraction else if n = 2 then Multiplication
      else if n = 3 then LeftShift else if n = 4 then RightShift else if n = 5 then LogicalAnd
      else if n = 6 then LogicalOr else if n = 7 then LogicalNot else if n = 8 then LogicalXor
      else if n = 9 then NoArithmetic else OtherArithmetic n)"

datatype save_restore_op = OpRestore | OpSave | OpClearSaved | OpClearRegs | OpOther nat

definition save_restore_op_of :: "nat \<Rightarrow> save_restore_op" where
  "save_restore_op_of n =
     (if n = 0 then OpRestore else if n = 1 then OpSave else if n = 2 then OpClearSaved
      else if n = 3 then OpClearRegs else OpOther n)"

subsection \<open>Opcodes\<close>

datatype register_operand = RegOperand nat | ImmOperand u64

datatype store_offset =
    OfsNone
  | OfsReg nat
  | OfsImm u64
  | OfsMemReg memory_access_type
  | OfsMemImm memory_access_type u64
  | OfsMemImmReg memory_access_type u64

datatype value_operand =
    MemoryRelAddr memory_access_type u64
  | MemoryOfsReg memory_access_type nat
  | RegisterRelAddr nat u64
  | RegisterOfsReg nat nat
  | StaticValue u64
  | OtherRegister nat
  | OtherOperand nat

datatype vm_opcode =
    StoreStatic nat memory_access_type nat u64 u64
      \<comment> \<open>bit width, memory type, offset register, relative address, value\<close>
  | BeginConditionalBlock nat memory_access_type comparison_type u64 u64
      \<comment> \<open>bit width, memory type, condition, relative address, value\<close>
  | EndConditionalBlock
  | StartLoop nat u32 \<comment> \<open>register, number of iterations\<close>
  | EndLoop nat
  | LoadRegisterStatic nat u64
  | LoadRegisterMemory nat memory_access_type nat bool u64
      \<comment> \<open>bit width, memory type, register, load from register, relative address\<close>
  | StoreStaticToAddress nat nat bool bool nat u64
      \<comment> \<open>bit width, register, increment, add offset register, offset register, value\<close>
  | PerformArithmeticStatic nat nat arithmetic_type u32
  | BeginKeypressConditionalBlock u32
  | PerformArithmeticRegister nat arithmetic_type nat nat register_operand
      \<comment> \<open>bit width, operation, destination, first source, second operand\<close>
  | StoreRegisterToAddress nat nat nat bool store_offset
      \<comment> \<open>bit width, stored register, address register, increment, offset\<close>
  | BeginRegisterConditionalBlock nat comparison_type nat value_operand
  | SaveRestoreRegister nat nat save_restore_op \<comment> \<open>destination, source, operation\<close>
  | SaveRestoreRegisterMask save_restore_op "bool list"
  | DebugLog nat u32 value_operand

definition begin_conditional_block :: "vm_opcode \<Rightarrow> bool" where
  "begin_conditional_block op =
     (case op of
        BeginConditionalBlock _ _ _ _ _ \<Rightarrow> True
      | BeginKeypressConditionalBlock _ \<Rightarrow> True
      | BeginRegisterConditionalBlock _ _ _ _ \<Rightarrow> True
      | _ \<Rightarrow> False)"

subsection \<open>The machine\<close>

definition MaximumProgramOpcodeCount :: nat where "MaximumProgramOpcodeCount = 0x400"
definition NumRegisters :: nat where "NumRegisters = 0x10"

record vm =
  num_opcodes :: nat
  instruction_ptr :: nat
  condition_depth :: nat
  decode_success :: bool
  program :: "u32 list"
  registers :: "u64 list"
  saved_values :: "u64 list"
  loop_tops :: "nat list"

definition vm_fresh :: vm where
  "vm_fresh =
     \<lparr>num_opcodes = 0, instruction_ptr = 0, condition_depth = 0, decode_success = False,
      program = replicate MaximumProgramOpcodeCount 0,
      registers = replicate NumRegisters 0, saved_values = replicate NumRegisters 0,
      loop_tops = replicate NumRegisters 0\<rparr>"

subsection \<open>Reading the instruction stream\<close>

type_synonym 'a decoder = "(vm \<times> bool, 'a) state"

definition GetNextDword :: "u32 decoder" where
  "GetNextDword = State (\<lambda>(m, valid).
     if instruction_ptr m \<ge> num_opcodes m then (0, (m, False))
     else (program m ! instruction_ptr m,
           (m\<lparr>instruction_ptr := Suc (instruction_ptr m)\<rparr>, valid)))"

text \<open>A \<open>VmInt\<close> is kept as the value its active member holds.\<close>

definition GetNextVmInt :: "nat \<Rightarrow> u64 decoder" where
  "GetNextVmInt bit_width = do {
     first_dword \<leftarrow> GetNextDword;
     if bit_width = 1 then State_Monad.return (ucast (ucast first_dword :: u8))
     else if bit_width = 2 then State_Monad.return (ucast (ucast first_dword :: u16))
     else if bit_width = 4 then State_Monad.return (ucast first_dword)
     else if bit_width = 8 then do {
       second_dword \<leftarrow> GetNextDword;
       State_Monad.return (push_bit 32 (ucast first_dword) OR ucast second_dword)
     }
     else State_Monad.return 0
   }"

text \<open>Two dwords as a 64-bit value, high part first.\<close>

definition GetNextQword :: "u64 decoder" where
  "GetNextQword = do {
     high \<leftarrow> GetNextDword;
     low \<leftarrow> GetNextDword;
     State_Monad.return (push_bit 32 (ucast high) OR ucast low)
   }"

definition nybble :: "u32 \<Rightarrow> nat \<Rightarrow> nat" where
  "nybble dword shift = unat (drop_bit shift dword AND 0xF)"

text \<open>A relative address: its high bits are in the first dword, the rest in the next.\<close>

definition address8 :: "u32 \<Rightarrow> u32 \<Rightarrow> u64" where
  "address8 first_dword second_dword =
     push_bit 32 (ucast (first_dword AND 0xFF)) OR ucast second_dword"

definition GetNextAddress4 :: "u32 \<Rightarrow> u64 decoder" where
  "GetNextAddress4 first_dword = do {
     second_dword \<leftarrow> GetNextDword;
     State_Monad.return (push_bit 32 (ucast (first_dword AND 0xF)) OR ucast second_dword)
   }"

definition opcode_number :: "u32 \<Rightarrow> nat" where
  "opcode_number first_dword =
     (let op = nybble first_dword 28;
          op = (if op \<ge> 12 then 16 * op + nybble first_dword 24 else op)
      in if op \<ge> 0xF0 then 16 * op + nybble first_dword 20 else op)"

subsection \<open>Decoding one opcode\<close>

definition decode_store_static :: "u32 \<Rightarrow> vm_opcode decoder" where
  "decode_store_static d = do {
     second_dword \<leftarrow> GetNextDword;
     value \<leftarrow> GetNextVmInt (nybble d 24);
     State_Monad.return (StoreStatic (nybble d 24) (memory_access_type_of (nybble d 20))
       (nybble d 16) (address8 d second_dword) value)
   }"

definition decode_begin_cond :: "u32 \<Rightarrow> vm_opcode decoder" where
  "decode_begin_cond d = do {
     second_dword \<leftarrow> GetNextDword;
     value \<leftarrow> GetNextVmInt (nybble d 24);
     State_Monad.return (BeginConditionalBlock (nybble d 24) (memory_access_type_of (nybble d 20))
       (comparison_type_of (nybble d 16)) (address8 d second_dword) value)
   }"

definition decode_ctrl_loop :: "u32 \<Rightarrow> vm_opcode decoder" where
  "decode_ctrl_loop d =
     (if nybble d 24 = 0 then do {
        num_iters \<leftarrow> GetNextDword;
        State_Monad.return (StartLoop (nybble d 20) num_iters)
      }
      else State_Monad.return (EndLoop (nybble d 20)))"

definition decode_ldr_static :: "u32 \<Rightarrow> vm_opcode decoder" where
  "decode_ldr_static d = do {
     value \<leftarrow> GetNextQword;
     State_Monad.return (LoadRegisterStatic (nybble d 16) value)
   }"

definition decode_ldr_memory :: "u32 \<Rightarrow> vm_opcode decoder" where
  "decode_ldr_memory d = do {
     second_dword \<leftarrow> GetNextDword;
     State_Monad.return (LoadRegisterMemory (nybble d 24) (memory_access_type_of (nybble d 20))
       (nybble d 16) (nybble d 12 \<noteq> 0) (address8 d second_dword))
   }"

definition decode_str_static :: "u32 \<Rightarrow> vm_opcode decoder" where
  "decode_str_static d = do {
     value \<leftarrow> GetNextQword;
     State_Monad.return (StoreStaticToAddress (nybble d 24) (nybble d 16) (nybble d 12 \<noteq> 0)
       (nybble d 8 \<noteq> 0) (nybble d 4) value)
   }"

definition decode_math_static :: "u32 \<Rightarrow> vm_opcode decoder" where
  "decode_math_static d = do {
     value \<leftarrow> GetNextDword;
     State_Monad.return (PerformArithmeticStatic (nybble d 24) (nybble d 16)
       (arithmetic_type_of (nybble d 12)) value)
   }"

definition decode_math_reg :: "u32 \<Rightarrow> vm_opcode decoder" where
  "decode_math_reg d =
     (if nybble d 8 \<noteq> 0 then do {
        value \<leftarrow> GetNextVmInt (nybble d 24);
        State_Monad.return (PerformArithmeticRegister (nybble d 24)
          (arithmetic_type_of (nybble d 20)) (nybble d 16) (nybble d 12) (ImmOperand value))
      }
      else State_Monad.return (PerformArithmeticRegister (nybble d 24)
          (arithmetic_type_of (nybble d 20)) (nybble d 16) (nybble d 12) (RegOperand (nybble d 4))))"

definition decode_store_offset :: "u32 \<Rightarrow> store_offset decoder" where
  "decode_store_offset d =
     (if nybble d 8 = 0 then State_Monad.return OfsNone
      else if nybble d 8 = 1 then State_Monad.return (OfsReg (nybble d 4))
      else if nybble d 8 = 2 then do {
        rel_address \<leftarrow> GetNextAddress4 d;
        State_Monad.return (OfsImm rel_address)
      }
      else if nybble d 8 = 3 then
        State_Monad.return (OfsMemReg (memory_access_type_of (nybble d 4)))
      else if nybble d 8 = 4 then do {
        rel_address \<leftarrow> GetNextAddress4 d;
        State_Monad.return (OfsMemImm (memory_access_type_of (nybble d 4)) rel_address)
      }
      else if nybble d 8 = 5 then do {
        rel_address \<leftarrow> GetNextAddress4 d;
        State_Monad.return (OfsMemImmReg (memory_access_type_of (nybble d 4)) rel_address)
      }
      else State_Monad.return OfsNone)"

definition decode_str_register :: "u32 \<Rightarrow> vm_opcode decoder" where
  "decode_str_register d = do {
     ofs \<leftarrow> decode_store_offset d;
     State_Monad.return (StoreRegisterToAddress (nybble d 24) (nybble d 20) (nybble d 16)
       (nybble d 12 \<noteq> 0) ofs)
   }"

text \<open>The address operands that the register conditional and the debug log share.\<close>

definition decode_address_operand :: "u32 \<Rightarrow> nat \<Rightarrow> value_operand decoder" where
  "decode_address_operand d kind =
     (if kind = 0 then do {
        rel_address \<leftarrow> GetNextAddress4 d;
        State_Monad.return (MemoryRelAddr (memory_access_type_of (nybble d 4)) rel_address)
      }
      else if kind = 1 then
        State_Monad.return (MemoryOfsReg (memory_access_type_of (nybble d 4)) (nybble d 0))
      else if kind = 2 then do {
        rel_address \<leftarrow> GetNextAddress4 d;
        State_Monad.return (RegisterRelAddr (nybble d 4) rel_address)
      }
      else if kind = 3 then State_Monad.return (RegisterOfsReg (nybble d 4) (nybble d 0))
      else State_Monad.return (OtherOperand kind))"

definition decode_begin_reg_cond :: "u32 \<Rightarrow> vm_opcode decoder" where
  "decode_begin_reg_cond d = do {
     operand \<leftarrow>
       (if nybble d 8 = 4 then do {
          value \<leftarrow> GetNextVmInt (nybble d 20);
          State_Monad.return (StaticValue value)
        }
        else if nybble d 8 = 5 then State_Monad.return (OtherRegister (nybble d 4))
        else decode_address_operand d (nybble d 8));
     State_Monad.return (BeginRegisterConditionalBlock (nybble d 20)
       (comparison_type_of (nybble d 16)) (nybble d 12) operand)
   }"

definition decode_debug_log :: "u32 \<Rightarrow> vm_opcode decoder" where
  "decode_debug_log d = do {
     operand \<leftarrow>
       (if nybble d 8 = 4 then State_Monad.return (OtherRegister (nybble d 4))
        else decode_address_operand d (nybble d 8));
     State_Monad.return (DebugLog (nybble d 16) (word_of_nat (nybble d 12)) operand)
   }"

definition decode_save_restore :: "u32 \<Rightarrow> vm_opcode decoder" where
  "decode_save_restore d = State_Monad.return
     (SaveRestoreRegister (nybble d 16) (nybble d 8) (save_restore_op_of (nybble d 4)))"

definition decode_save_restore_mask :: "u32 \<Rightarrow> vm_opcode decoder" where
  "decode_save_restore_mask d = State_Monad.return
     (SaveRestoreRegisterMask (save_restore_op_of (nybble d 20))
       (map (\<lambda>i. d AND push_bit i 1 \<noteq> 0) [0..<16]))"

text \<open>The switch over the opcode; \<open>None\<close> is an opcode that cannot be decoded.\<close>

definition decode_opcode :: "u32 \<Rightarrow> vm_opcode option decoder" where
  "decode_opcode d =
     (let op = opcode_number d;
          some = (\<lambda>p. do { x \<leftarrow> p; State_Monad.return (Some x) })
      in if op = 0 then some (decode_store_static d)
         else if op = 1 then some (decode_begin_cond d)
         else if op = 2 then State_Monad.return (Some EndConditionalBlock)
         else if op = 3 then some (decode_ctrl_loop d)
         else if op = 4 then some (decode_ldr_static d)
         else if op = 5 then some (decode_ldr_memory d)
         else if op = 6 then some (decode_str_static d)
         else if op = 7 then some (decode_math_static d)
         else if op = 8 then
           State_Monad.return (Some (BeginKeypressConditionalBlock (d AND 0x0FFFFFFF)))
         else if op = 9 then some (decode_math_reg d)
         else if op = 10 then some (decode_str_register d)
         else if op = 0xC0 then some (decode_begin_reg_cond d)
         else if op = 0xC1 then some (decode_save_restore d)
         else if op = 0xC2 then some (decode_save_restore_mask d)
         else if op = 0xFFF then some (decode_debug_log d)
         else State_Monad.return None)"

text \<open>
  \<open>DecodeNextOpcode\<close>: the opcode when the decoding is valid, and the machine with the
  sticky flag \<open>decode_success\<close>.
\<close>

definition DecodeNextOpcode :: "vm \<Rightarrow> vm_opcode option \<times> vm" where
  "DecodeNextOpcode m =
     (case run_state GetNextDword (m, decode_success m) of
        (first_dword, (m1, valid1)) \<Rightarrow>
          if \<not> valid1 then (None, m1\<lparr>decode_success := decode_success m1 \<and> valid1\<rparr>)
          else
            case run_state (decode_opcode first_dword) (m1, valid1) of
              (opcode, (m2, valid2)) \<Rightarrow>
                let valid = (valid2 \<and> opcode \<noteq> None)
                in (if valid then opcode else None,
                    m2\<lparr>decode_success := decode_success m2 \<and> valid\<rparr>))"

subsection \<open>What every decoding does to the machine\<close>

text \<open>
  A decoder only moves the instruction pointer forward, never past the end of the program,
  and never makes an invalid decoding valid.
\<close>

definition advances :: "vm \<times> bool \<Rightarrow> vm \<times> bool \<Rightarrow> bool" where
  "advances s s' \<longleftrightarrow>
     (\<exists>ip. fst s' = (fst s)\<lparr>instruction_ptr := ip\<rparr> \<and> instruction_ptr (fst s) \<le> ip \<and>
           (ip \<le> num_opcodes (fst s) \<or> ip = instruction_ptr (fst s)) \<and> (snd s' \<longrightarrow> snd s))"

definition progressive :: "'a decoder \<Rightarrow> bool" where
  "progressive p \<longleftrightarrow> (\<forall>s. advances s (snd (run_state p s)))"

lemma advances_refl [simp]: "advances s s"
  by (auto simp: advances_def intro!: exI [of _ "instruction_ptr (fst s)"])

lemma advances_trans:
  assumes "advances s t" and "advances t u"
  shows "advances s u"
proof -
  from assms(1) obtain ip where t: "fst t = (fst s)\<lparr>instruction_ptr := ip\<rparr>"
    "instruction_ptr (fst s) \<le> ip" "ip \<le> num_opcodes (fst s) \<or> ip = instruction_ptr (fst s)"
    "snd t \<longrightarrow> snd s" unfolding advances_def by blast
  from assms(2) obtain ip' where u: "fst u = (fst t)\<lparr>instruction_ptr := ip'\<rparr>"
    "instruction_ptr (fst t) \<le> ip'" "ip' \<le> num_opcodes (fst t) \<or> ip' = instruction_ptr (fst t)"
    "snd u \<longrightarrow> snd t" unfolding advances_def by blast
  show ?thesis unfolding advances_def
    by (rule exI [of _ ip']) (use t u in auto)
qed

lemma progressive_return [simp, intro]: "progressive (State_Monad.return x)"
  by (simp add: progressive_def)

lemma progressive_bind [intro]:
  "\<lbrakk>progressive p; \<And>x. progressive (f x)\<rbrakk> \<Longrightarrow> progressive (State_Monad.bind p f)"
  unfolding progressive_def
  by (auto split: prod.split) (metis advances_trans snd_conv)

lemma progressive_GetNextDword [simp, intro]: "progressive GetNextDword"
proof -
  have "advances (m, v) (snd (run_state GetNextDword (m, v)))" for m v
    unfolding advances_def
    by (rule exI [of _ "if instruction_ptr m \<ge> num_opcodes m then instruction_ptr m
          else Suc (instruction_ptr m)"])
      (simp add: GetNextDword_def)
  then show ?thesis by (auto simp: progressive_def)
qed

lemma progressive_if [intro]:
  "\<lbrakk>b \<Longrightarrow> progressive p; \<not> b \<Longrightarrow> progressive q\<rbrakk> \<Longrightarrow> progressive (if b then p else q)"
  by simp

lemmas decoder_defs =
  GetNextVmInt_def GetNextQword_def GetNextAddress4_def
  decode_store_static_def decode_begin_cond_def decode_ctrl_loop_def decode_ldr_static_def
  decode_ldr_memory_def decode_str_static_def decode_math_static_def decode_math_reg_def
  decode_store_offset_def decode_str_register_def decode_address_operand_def
  decode_begin_reg_cond_def decode_debug_log_def decode_save_restore_def
  decode_save_restore_mask_def

lemma progressive_decode_opcode: "progressive (decode_opcode d)"
  unfolding decode_opcode_def Let_def decoder_defs
  by (intro progressive_if progressive_bind progressive_return progressive_GetNextDword)

lemma DecodeNextOpcode_cases:
  assumes "DecodeNextOpcode m = (r, m')"
  obtains ip b where "m' = m\<lparr>instruction_ptr := ip, decode_success := b\<rparr>"
    "instruction_ptr m \<le> ip" "ip \<le> num_opcodes m \<or> ip = instruction_ptr m"
    "r \<noteq> None \<longrightarrow> instruction_ptr m < ip \<and> ip \<le> num_opcodes m \<and> b \<and> decode_success m"
    "r = None \<longrightarrow> \<not> b"
proof (cases "instruction_ptr m < num_opcodes m \<and> decode_success m")
  case False
  then show ?thesis
    using assms that [of _ "if instruction_ptr m < num_opcodes m then Suc (instruction_ptr m)
        else instruction_ptr m"]
    by (auto simp: DecodeNextOpcode_def GetNextDword_def split: if_splits)
next
  case True
  let ?d = "program m ! instruction_ptr m"
  let ?m1 = "m\<lparr>instruction_ptr := Suc (instruction_ptr m)\<rparr>"
  obtain op m2 v where r: "run_state (decode_opcode ?d) (?m1, True) = (op, (m2, v))"
    by (metis surj_pair)
  have "advances (?m1, True) (m2, v)"
    using progressive_decode_opcode [of ?d] r unfolding progressive_def by (metis snd_conv)
  then obtain ip where ip: "m2 = m\<lparr>instruction_ptr := ip\<rparr>" "Suc (instruction_ptr m) \<le> ip"
    "ip \<le> num_opcodes m \<or> ip = Suc (instruction_ptr m)"
    by (auto simp: advances_def)
  then have le: "ip \<le> num_opcodes m" using True by auto
  have eq: "DecodeNextOpcode m =
     (if v \<and> op \<noteq> None then op else None, m2\<lparr>decode_success := v \<and> op \<noteq> None\<rparr>)"
    using True r ip by (simp add: DecodeNextOpcode_def GetNextDword_def Let_def)
  show ?thesis
    using assms eq ip le True that [of "v \<and> op \<noteq> None" ip] by (auto split: if_splits)
qed

lemma DecodeNextOpcode_Some:
  assumes "DecodeNextOpcode m = (Some op, m')"
  obtains ip where "m' = m\<lparr>instruction_ptr := ip\<rparr>"
    "instruction_ptr m < ip" "ip \<le> num_opcodes m" "decode_success m"
proof -
  from DecodeNextOpcode_cases [OF assms] obtain ip b where
    *: "m' = m\<lparr>instruction_ptr := ip, decode_success := b\<rparr>"
    "instruction_ptr m < ip \<and> ip \<le> num_opcodes m \<and> b \<and> decode_success m"
    by (metis option.distinct(1))
  then have "m' = m\<lparr>instruction_ptr := ip\<rparr>" by simp
  with * that show ?thesis by blast
qed

end
