(* ===== verification/CheatVmExec.thy ===== *)
theory CheatVmExec
  imports CheatVmDecode
begin

text \<open>
  Execution of the cheat virtual machine (\<open>dmnt_cheat_vm.cpp\<close>, from \<open>SkipConditionalBlock\<close>
  to \<open>Execute\<close>). The attached process is a state \<open>'w\<close> that the debugger interface reads and
  writes; a read that fails leaves the destination as it was. The machine is little endian:
  a read of \<open>n\<close> bytes replaces the low \<open>n\<close> bytes of its destination. Shifting a 64-bit value
  by 64 or more has no defined result in C++, so it is a parameter of the model. The
  execution loop may run forever; it takes fuel, one unit per decoded opcode.
\<close>

subsection \<open>The attached process\<close>

record 'w vm_env =
  main_nso_base :: u64
  heap_base :: u64
  keys_held :: u64
  read_memory :: "'w \<Rightarrow> u64 \<Rightarrow> nat \<Rightarrow> u8 list option"
  write_memory :: "'w \<Rightarrow> u64 \<Rightarrow> u8 list \<Rightarrow> 'w"
  debug_log :: "'w \<Rightarrow> u32 \<Rightarrow> u64 \<Rightarrow> 'w"
  wide_shift_left :: "u64 \<Rightarrow> u64 \<Rightarrow> u64"
  wide_shift_right :: "u64 \<Rightarrow> u64 \<Rightarrow> u64"

definition le_bytes :: "nat \<Rightarrow> u64 \<Rightarrow> u8 list" where
  "le_bytes n v = map (\<lambda>i. ucast (drop_bit (8 * i) v)) [0..<n]"

fun le_value :: "u8 list \<Rightarrow> u64" where
  "le_value [] = 0"
| "le_value (b # bs) = ucast b OR push_bit 8 (le_value bs)"

definition read_into :: "'w vm_env \<Rightarrow> 'w \<Rightarrow> u64 \<Rightarrow> nat \<Rightarrow> u64 \<Rightarrow> u64" where
  "read_into env w address n old =
     (case read_memory env w address n of
        None \<Rightarrow> old
      | Some bs \<Rightarrow> (old AND NOT (mask (8 * n))) OR take_bit (8 * n) (le_value bs))"

definition valid_width :: "nat \<Rightarrow> bool" where
  "valid_width n \<longleftrightarrow> n = 1 \<or> n = 2 \<or> n = 4 \<or> n = 8"

text \<open>The guarded read and write: only the widths 1, 2, 4 and 8 touch memory.\<close>

definition guarded_read :: "'w vm_env \<Rightarrow> 'w \<Rightarrow> u64 \<Rightarrow> nat \<Rightarrow> u64 \<Rightarrow> u64" where
  "guarded_read env w address n old =
     (if valid_width n then read_into env w address n old else old)"

definition guarded_write :: "'w vm_env \<Rightarrow> 'w \<Rightarrow> u64 \<Rightarrow> nat \<Rightarrow> u64 \<Rightarrow> 'w" where
  "guarded_write env w address n v =
     (if valid_width n then write_memory env w address (le_bytes n v) else w)"

subsection \<open>Helpers of the class\<close>

definition GetVmInt :: "u64 \<Rightarrow> nat \<Rightarrow> u64" where
  "GetVmInt value bit_width =
     (if bit_width = 1 then ucast (ucast value :: u8)
      else if bit_width = 2 then ucast (ucast value :: u16)
      else if bit_width = 4 then ucast (ucast value :: u32)
      else if bit_width = 8 then value
      else 0)"

definition GetCheatProcessAddress :: "'w vm_env \<Rightarrow> memory_access_type \<Rightarrow> u64 \<Rightarrow> u64" where
  "GetCheatProcessAddress env mem_type rel_address =
     (case mem_type of Heap \<Rightarrow> heap_base env + rel_address
      | _ \<Rightarrow> main_nso_base env + rel_address)"

definition ResetState :: "vm \<Rightarrow> vm" where
  "ResetState m =
     m\<lparr>registers := replicate NumRegisters 0, saved_values := replicate NumRegisters 0,
       loop_tops := replicate NumRegisters 0, instruction_ptr := 0, condition_depth := 0,
       decode_success := True\<rparr>"

record cheat_entry =
  enabled :: bool
  definition_num_opcodes :: nat
  definition_opcodes :: "u32 list"

text \<open>\<open>LoadProgram\<close>: the copy loop and the loop over the cheats.\<close>

fun copy_opcodes :: "vm \<Rightarrow> u32 list \<Rightarrow> vm" where
  "copy_opcodes m [] = m"
| "copy_opcodes m (x # xs) =
     copy_opcodes (m\<lparr>program := (program m)[num_opcodes m := x],
                     num_opcodes := Suc (num_opcodes m)\<rparr>) xs"

fun load_cheats :: "vm \<Rightarrow> cheat_entry list \<Rightarrow> bool \<times> vm" where
  "load_cheats m [] = (True, m)"
| "load_cheats m (c # cs) =
     (if enabled c then
        if definition_num_opcodes c + num_opcodes m > MaximumProgramOpcodeCount
        then (False, m\<lparr>num_opcodes := 0\<rparr>)
        else load_cheats (copy_opcodes m (take (definition_num_opcodes c) (definition_opcodes c))) cs
      else load_cheats m cs)"

definition LoadProgram :: "vm \<Rightarrow> cheat_entry list \<Rightarrow> bool \<times> vm" where
  "LoadProgram m cheats = load_cheats (m\<lparr>num_opcodes := 0\<rparr>) cheats"

subsection \<open>Skipping a conditional block\<close>

function skip_loop :: "nat \<Rightarrow> vm \<Rightarrow> vm" where
  "skip_loop desired_depth m =
     (if condition_depth m > desired_depth then
        (case DecodeNextOpcode m of
           (None, m') \<Rightarrow> m'
         | (Some skip_opcode, m') \<Rightarrow>
             skip_loop desired_depth
               (if begin_conditional_block skip_opcode
                then m'\<lparr>condition_depth := condition_depth m' + 1\<rparr>
                else if skip_opcode = EndConditionalBlock
                then m'\<lparr>condition_depth := condition_depth m' - 1\<rparr>
                else m'))
      else m)"
  by pat_completeness auto
termination
  by (relation "measure (\<lambda>(d, m). num_opcodes m - instruction_ptr m)")
    (auto dest!: sym [of "(Some _, _)" "DecodeNextOpcode _"] elim!: DecodeNextOpcode_Some)

declare skip_loop.simps [simp del]

text \<open>\<open>None\<close> is the abort for a conditional depth of zero.\<close>

definition SkipConditionalBlock :: "vm \<Rightarrow> vm option" where
  "SkipConditionalBlock m =
     (if condition_depth m > 0 then Some (skip_loop (condition_depth m - 1) m) else None)"

subsection \<open>Arithmetic and comparison\<close>

definition condition_met :: "comparison_type \<Rightarrow> u64 \<Rightarrow> u64 \<Rightarrow> bool" where
  "condition_met c src_value cond_value =
     (case c of
        CmpGT \<Rightarrow> src_value > cond_value
      | CmpGE \<Rightarrow> src_value \<ge> cond_value
      | CmpLT \<Rightarrow> src_value < cond_value
      | CmpLE \<Rightarrow> src_value \<le> cond_value
      | CmpEQ \<Rightarrow> src_value = cond_value
      | CmpNE \<Rightarrow> src_value \<noteq> cond_value
      | CmpOther _ \<Rightarrow> False)"

definition shift_left :: "'w vm_env \<Rightarrow> u64 \<Rightarrow> u64 \<Rightarrow> u64" where
  "shift_left env x n = (if n < 64 then push_bit (unat n) x else wide_shift_left env x n)"

definition shift_right :: "'w vm_env \<Rightarrow> u64 \<Rightarrow> u64 \<Rightarrow> u64" where
  "shift_right env x n = (if n < 64 then drop_bit (unat n) x else wide_shift_right env x n)"

text \<open>The static form handles the first five operations and leaves the register otherwise.\<close>

definition static_arithmetic :: "'w vm_env \<Rightarrow> arithmetic_type \<Rightarrow> u64 \<Rightarrow> u64 \<Rightarrow> u64" where
  "static_arithmetic env math_type x value =
     (case math_type of
        Addition \<Rightarrow> x + value
      | Subtraction \<Rightarrow> x - value
      | Multiplication \<Rightarrow> x * value
      | LeftShift \<Rightarrow> shift_left env x value
      | RightShift \<Rightarrow> shift_right env x value
      | _ \<Rightarrow> x)"

definition register_arithmetic :: "'w vm_env \<Rightarrow> arithmetic_type \<Rightarrow> u64 \<Rightarrow> u64 \<Rightarrow> u64" where
  "register_arithmetic env math_type x y =
     (case math_type of
        Addition \<Rightarrow> x + y
      | Subtraction \<Rightarrow> x - y
      | Multiplication \<Rightarrow> x * y
      | LeftShift \<Rightarrow> shift_left env x y
      | RightShift \<Rightarrow> shift_right env x y
      | LogicalAnd \<Rightarrow> x AND y
      | LogicalOr \<Rightarrow> x OR y
      | LogicalNot \<Rightarrow> NOT x
      | LogicalXor \<Rightarrow> x XOR y
      | NoArithmetic \<Rightarrow> x
      | OtherArithmetic _ \<Rightarrow> 0)"

text \<open>Applying a bit width: an unknown width changes nothing.\<close>

definition apply_width :: "nat \<Rightarrow> u64 \<Rightarrow> u64" where
  "apply_width bit_width v =
     (if bit_width = 1 then ucast (ucast v :: u8)
      else if bit_width = 2 then ucast (ucast v :: u16)
      else if bit_width = 4 then ucast (ucast v :: u32)
      else if bit_width = 8 then v
      else v)"

text \<open>A register read at a bit width: an unknown width reads zero.\<close>

definition masked_value :: "nat \<Rightarrow> u64 \<Rightarrow> u64" where
  "masked_value bit_width v =
     (if bit_width = 1 then ucast (ucast (v AND 0xFF) :: u8)
      else if bit_width = 2 then ucast (ucast (v AND 0xFFFF) :: u16)
      else if bit_width = 4 then ucast (ucast (v AND 0xFFFFFFFF) :: u32)
      else if bit_width = 8 then v AND 0xFFFFFFFFFFFFFFFF
      else 0)"

subsection \<open>One opcode\<close>

type_synonym 'w machine = "vm \<times> 'w"

abbreviation reg :: "vm \<Rightarrow> nat \<Rightarrow> u64" where
  "reg m i \<equiv> registers m ! i"

definition set_reg :: "nat \<Rightarrow> u64 \<Rightarrow> vm \<Rightarrow> vm" where
  "set_reg i v m = m\<lparr>registers := (registers m)[i := v]\<rparr>"

definition exec_store_static ::
  "'w vm_env \<Rightarrow> nat \<Rightarrow> memory_access_type \<Rightarrow> nat \<Rightarrow> u64 \<Rightarrow> u64 \<Rightarrow> 'w machine \<Rightarrow> 'w machine" where
  "exec_store_static env bit_width mem_type offset_register rel_address value = (\<lambda>(m, w).
     let dst_address = GetCheatProcessAddress env mem_type (rel_address + reg m offset_register);
         dst_value = GetVmInt value bit_width
     in (m, guarded_write env w dst_address bit_width dst_value))"

text \<open>Skipping when a condition does not hold; \<open>None\<close> is the abort.\<close>

definition skip_unless :: "bool \<Rightarrow> 'w machine \<Rightarrow> 'w machine option" where
  "skip_unless cond_met = (\<lambda>(m, w).
     if cond_met then Some (m, w)
     else map_option (\<lambda>m'. (m', w)) (SkipConditionalBlock m))"

definition exec_begin_cond ::
  "'w vm_env \<Rightarrow> nat \<Rightarrow> memory_access_type \<Rightarrow> comparison_type \<Rightarrow> u64 \<Rightarrow> u64 \<Rightarrow>
     'w machine \<Rightarrow> 'w machine option" where
  "exec_begin_cond env bit_width mem_type cond_type rel_address value = (\<lambda>(m, w).
     let src_address = GetCheatProcessAddress env mem_type rel_address;
         src_value = guarded_read env w src_address bit_width 0;
         cond_value = GetVmInt value bit_width
     in skip_unless (condition_met cond_type src_value cond_value) (m, w))"

definition exec_end_cond :: "vm \<Rightarrow> vm" where
  "exec_end_cond m =
     (if condition_depth m > 0 then m\<lparr>condition_depth := condition_depth m - 1\<rparr> else m)"

definition exec_start_loop :: "nat \<Rightarrow> u32 \<Rightarrow> vm \<Rightarrow> vm" where
  "exec_start_loop reg_index num_iters m =
     (set_reg reg_index (ucast num_iters) m)
       \<lparr>loop_tops := (loop_tops m)[reg_index := instruction_ptr m]\<rparr>"

definition exec_end_loop :: "nat \<Rightarrow> vm \<Rightarrow> vm" where
  "exec_end_loop reg_index m =
     (let m = set_reg reg_index (reg m reg_index - 1) m
      in if reg m reg_index \<noteq> 0
         then m\<lparr>instruction_ptr := loop_tops m ! reg_index\<rparr> else m)"

definition exec_ldr_memory ::
  "'w vm_env \<Rightarrow> nat \<Rightarrow> memory_access_type \<Rightarrow> nat \<Rightarrow> bool \<Rightarrow> u64 \<Rightarrow> 'w machine \<Rightarrow> 'w machine" where
  "exec_ldr_memory env bit_width mem_type reg_index load_from_reg rel_address = (\<lambda>(m, w).
     let src_address = (if load_from_reg then reg m reg_index + rel_address
                        else GetCheatProcessAddress env mem_type rel_address)
     in (set_reg reg_index (guarded_read env w src_address bit_width (reg m reg_index)) m, w))"

definition exec_str_static ::
  "'w vm_env \<Rightarrow> nat \<Rightarrow> nat \<Rightarrow> bool \<Rightarrow> bool \<Rightarrow> nat \<Rightarrow> u64 \<Rightarrow> 'w machine \<Rightarrow> 'w machine" where
  "exec_str_static env bit_width reg_index increment_reg add_offset_reg offset_reg_index value
     = (\<lambda>(m, w).
     let dst_address = reg m reg_index + (if add_offset_reg then reg m offset_reg_index else 0);
         w = guarded_write env w dst_address bit_width value
     in (if increment_reg then set_reg reg_index (reg m reg_index + of_nat bit_width) m else m, w))"

definition exec_math_static ::
  "'w vm_env \<Rightarrow> nat \<Rightarrow> nat \<Rightarrow> arithmetic_type \<Rightarrow> u32 \<Rightarrow> vm \<Rightarrow> vm" where
  "exec_math_static env bit_width reg_index math_type value m =
     set_reg reg_index
       (apply_width bit_width (static_arithmetic env math_type (reg m reg_index) (ucast value))) m"

definition exec_keypress :: "'w vm_env \<Rightarrow> u32 \<Rightarrow> 'w machine \<Rightarrow> 'w machine option" where
  "exec_keypress env key_mask =
     skip_unless (\<not> (ucast key_mask AND keys_held env \<noteq> ucast key_mask))"

definition exec_math_reg ::
  "'w vm_env \<Rightarrow> nat \<Rightarrow> arithmetic_type \<Rightarrow> nat \<Rightarrow> nat \<Rightarrow> register_operand \<Rightarrow> vm \<Rightarrow> vm" where
  "exec_math_reg env bit_width math_type dst_reg_index src_reg_1_index src2 m =
     (let operand_1_value = reg m src_reg_1_index;
          operand_2_value = (case src2 of ImmOperand value \<Rightarrow> GetVmInt value bit_width
                             | RegOperand i \<Rightarrow> reg m i)
      in set_reg dst_reg_index
           (apply_width bit_width (register_arithmetic env math_type operand_1_value operand_2_value)) m)"

definition exec_str_register ::
  "'w vm_env \<Rightarrow> nat \<Rightarrow> nat \<Rightarrow> nat \<Rightarrow> bool \<Rightarrow> store_offset \<Rightarrow> 'w machine \<Rightarrow> 'w machine" where
  "exec_str_register env bit_width str_reg_index addr_reg_index increment_reg ofs = (\<lambda>(m, w).
     let dst_value = reg m str_reg_index;
         addr = reg m addr_reg_index;
         dst_address = (case ofs of
             OfsNone \<Rightarrow> addr
           | OfsReg i \<Rightarrow> addr + reg m i
           | OfsImm a \<Rightarrow> addr + a
           | OfsMemReg t \<Rightarrow> GetCheatProcessAddress env t addr
           | OfsMemImm t a \<Rightarrow> GetCheatProcessAddress env t a
           | OfsMemImmReg t a \<Rightarrow> GetCheatProcessAddress env t (addr + a));
         w = guarded_write env w dst_address bit_width dst_value
     in (if increment_reg then set_reg addr_reg_index (addr + of_nat bit_width) m else m, w))"

text \<open>The value of an operand that is read from memory or a register.\<close>

definition operand_address :: "'w vm_env \<Rightarrow> vm \<Rightarrow> value_operand \<Rightarrow> u64" where
  "operand_address env m operand =
     (case operand of
        MemoryRelAddr t a \<Rightarrow> GetCheatProcessAddress env t a
      | MemoryOfsReg t i \<Rightarrow> GetCheatProcessAddress env t (reg m i)
      | RegisterRelAddr i a \<Rightarrow> reg m i + a
      | RegisterOfsReg i j \<Rightarrow> reg m i + reg m j
      | _ \<Rightarrow> 0)"

definition operand_value :: "'w vm_env \<Rightarrow> nat \<Rightarrow> value_operand \<Rightarrow> 'w machine \<Rightarrow> u64" where
  "operand_value env bit_width operand = (\<lambda>(m, w).
     case operand of
       StaticValue v \<Rightarrow> GetVmInt v bit_width
     | OtherRegister i \<Rightarrow> masked_value bit_width (reg m i)
     | _ \<Rightarrow> guarded_read env w (operand_address env m operand) bit_width 0)"

definition exec_begin_reg_cond ::
  "'w vm_env \<Rightarrow> nat \<Rightarrow> comparison_type \<Rightarrow> nat \<Rightarrow> value_operand \<Rightarrow> 'w machine \<Rightarrow> 'w machine option" where
  "exec_begin_reg_cond env bit_width cond_type val_reg_index operand = (\<lambda>(m, w).
     let src_value = masked_value bit_width (reg m val_reg_index);
         cond_value = operand_value env bit_width operand (m, w)
     in skip_unless (condition_met cond_type src_value cond_value) (m, w))"

definition exec_save_restore :: "nat \<Rightarrow> nat \<Rightarrow> save_restore_op \<Rightarrow> vm \<Rightarrow> vm" where
  "exec_save_restore dst_index src_index op_type m =
     (case op_type of
        OpClearRegs \<Rightarrow> set_reg dst_index 0 m
      | OpClearSaved \<Rightarrow> m\<lparr>saved_values := (saved_values m)[dst_index := 0]\<rparr>
      | OpSave \<Rightarrow> m\<lparr>saved_values := (saved_values m)[dst_index := reg m src_index]\<rparr>
      | _ \<Rightarrow> set_reg dst_index (saved_values m ! src_index) m)"

text \<open>The masked form on a pair of arrays, one index after the other.\<close>

fun mask_copy :: "bool \<Rightarrow> bool list \<Rightarrow> nat \<Rightarrow> u64 list \<Rightarrow> u64 list \<Rightarrow> u64 list" where
  "mask_copy clear [] i src dst = dst"
| "mask_copy clear (b # bs) i src dst =
     mask_copy clear bs (Suc i) src
       (if b then dst[i := (if clear then 0 else src ! i)] else dst)"

definition exec_save_restore_mask :: "save_restore_op \<Rightarrow> bool list \<Rightarrow> vm \<Rightarrow> vm" where
  "exec_save_restore_mask op_type should_operate m =
     (case op_type of
        OpClearSaved \<Rightarrow> m\<lparr>saved_values := mask_copy True should_operate 0 (registers m) (saved_values m)\<rparr>
      | OpSave \<Rightarrow> m\<lparr>saved_values := mask_copy False should_operate 0 (registers m) (saved_values m)\<rparr>
      | OpClearRegs \<Rightarrow> m\<lparr>registers := mask_copy True should_operate 0 (saved_values m) (registers m)\<rparr>
      | _ \<Rightarrow> m\<lparr>registers := mask_copy False should_operate 0 (saved_values m) (registers m)\<rparr>)"

definition exec_debug_log ::
  "'w vm_env \<Rightarrow> nat \<Rightarrow> u32 \<Rightarrow> value_operand \<Rightarrow> 'w machine \<Rightarrow> 'w machine" where
  "exec_debug_log env bit_width log_id operand = (\<lambda>(m, w).
     (m, debug_log env w log_id (operand_value env bit_width operand (m, w))))"

fun exec_opcode :: "'w vm_env \<Rightarrow> vm_opcode \<Rightarrow> 'w machine \<Rightarrow> 'w machine option" where
  "exec_opcode env (StoreStatic b t r a v) s = Some (exec_store_static env b t r a v s)"
| "exec_opcode env (BeginConditionalBlock b t c a v) s = exec_begin_cond env b t c a v s"
| "exec_opcode env EndConditionalBlock (m, w) = Some (exec_end_cond m, w)"
| "exec_opcode env (StartLoop r n) (m, w) = Some (exec_start_loop r n m, w)"
| "exec_opcode env (EndLoop r) (m, w) = Some (exec_end_loop r m, w)"
| "exec_opcode env (LoadRegisterStatic r v) (m, w) = Some (set_reg r v m, w)"
| "exec_opcode env (LoadRegisterMemory b t r f a) s = Some (exec_ldr_memory env b t r f a s)"
| "exec_opcode env (StoreStaticToAddress b r i ad o' v) s = Some (exec_str_static env b r i ad o' v s)"
| "exec_opcode env (PerformArithmeticStatic b r t v) (m, w) = Some (exec_math_static env b r t v m, w)"
| "exec_opcode env (BeginKeypressConditionalBlock k) s = exec_keypress env k s"
| "exec_opcode env (PerformArithmeticRegister b t d s1 s2) (m, w) =
     Some (exec_math_reg env b t d s1 s2 m, w)"
| "exec_opcode env (StoreRegisterToAddress b sr ar i ofs) s = Some (exec_str_register env b sr ar i ofs s)"
| "exec_opcode env (BeginRegisterConditionalBlock b c r operand) s =
     exec_begin_reg_cond env b c r operand s"
| "exec_opcode env (SaveRestoreRegister d s' op) (m, w) = Some (exec_save_restore d s' op m, w)"
| "exec_opcode env (SaveRestoreRegisterMask op bs) (m, w) = Some (exec_save_restore_mask op bs m, w)"
| "exec_opcode env (DebugLog b i operand) s = Some (exec_debug_log env b i operand s)"

subsection \<open>The execution loop\<close>

datatype 'w step_result = Continue "'w machine" | Finished "'w machine" | VmAbort

definition vm_step :: "'w vm_env \<Rightarrow> 'w machine \<Rightarrow> 'w step_result" where
  "vm_step env = (\<lambda>(m, w).
     case DecodeNextOpcode m of
       (None, m') \<Rightarrow> Finished (m', w)
     | (Some cur_opcode, m') \<Rightarrow>
         let m'' = (if begin_conditional_block cur_opcode
                    then m'\<lparr>condition_depth := condition_depth m' + 1\<rparr> else m')
         in (case exec_opcode env cur_opcode (m'', w) of
               None \<Rightarrow> VmAbort
             | Some s \<Rightarrow> Continue s))"

datatype 'w run_result = Done "'w machine" | RunAbort | OutOfFuel "'w machine"

fun exec_loop :: "nat \<Rightarrow> 'w vm_env \<Rightarrow> 'w machine \<Rightarrow> 'w run_result" where
  "exec_loop 0 env s = OutOfFuel s"
| "exec_loop (Suc fuel) env s =
     (case vm_step env s of
        Finished s' \<Rightarrow> Done s'
      | VmAbort \<Rightarrow> RunAbort
      | Continue s' \<Rightarrow> exec_loop fuel env s')"

definition Execute :: "nat \<Rightarrow> 'w vm_env \<Rightarrow> 'w machine \<Rightarrow> 'w run_result" where
  "Execute fuel env = (\<lambda>(m, w). exec_loop fuel env (ResetState m, w))"

end
