(* ===== verification/CheatVmEncode.thy ===== *)
theory CheatVmEncode
  imports CheatVmDecode
begin

text \<open>
  The documented layout of the cheat instructions as an encoder, and the proof that the
  decoder inverts it. The layouts are the comments of \<open>DecodeNextOpcode\<close>, digit by digit
  (\<open>0TMR00AA AAAAAAAA YYYYYYYY (YYYYYYYY)\<close> and so on); the register of the two loop
  instructions is where the code reads it, one digit to the left of where its comment
  puts it.
\<close>

subsection \<open>Dwords from hexadecimal digits\<close>

definition dword :: "nat \<Rightarrow> nat \<Rightarrow> nat \<Rightarrow> nat \<Rightarrow> nat \<Rightarrow> nat \<Rightarrow> nat \<Rightarrow> nat \<Rightarrow> u32" where
  "dword h7 h6 h5 h4 h3 h2 h1 h0 =
     word_of_nat (((((((h7 * 16 + h6) * 16 + h5) * 16 + h4) * 16 + h3) * 16 + h2) * 16 + h1) * 16 + h0)"

lemma unat_and_mask: "unat (d AND mask n :: 'a::len word) = unat d mod 2 ^ n"
  using unsigned_take_bit_eq [of n d, where 'a=nat]
  by (simp only: take_bit_eq_mask [symmetric]) (simp only: take_bit_eq_mod [where 'a=nat])

lemma unat_drop: "unat (drop_bit s d :: 'a::len word) = unat d div 2 ^ s"
  using unsigned_drop_bit_eq [of s d, where 'a=nat] unsigned_less [of d, where 'a=nat]
  by (simp only: drop_bit_eq_div [where 'a=nat] take_bit_eq_mod [where 'a=nat] mod_less)

lemma low_masks:
  "(0xF :: u32) = mask 4" "(0xFF :: u32) = mask 8" "(0x0FFFFFFF :: u32) = mask 28"
  by (simp_all add: mask_eq_exp_minus_1)

lemma nybble_unat: "nybble d s = unat d div 2 ^ s mod 16"
  unfolding nybble_def low_masks unat_and_mask unat_drop by simp

lemma unat_low:
  "unat (d AND 0xF :: u32) = unat d mod 16"
  "unat (d AND 0xFF :: u32) = unat d mod 256"
  "unat (d AND 0x0FFFFFFF :: u32) = unat d mod 2 ^ 28"
  unfolding low_masks unat_and_mask by simp_all

lemma unat_word32: "x < 2 ^ 32 \<Longrightarrow> unat (word_of_nat x :: u32) = x"
  by (rule of_nat_inverse [OF refl]) simp

lemma unat_ucast_64: "unat (ucast (d :: u32) :: u64) = unat d"
  using unsigned_less [of d, where 'a=nat]
  by (simp add: unsigned_ucast_eq take_bit_eq_mod [where 'a=nat])

lemma digit_div: "(b :: nat) < 16 \<Longrightarrow> (a * 16 + b) div 16 = a"
  by simp

lemma digit_mod: "(b :: nat) < 16 \<Longrightarrow> (a * 16 + b) mod 16 = b"
  by simp

lemma unat_dword:
  assumes "h7 < 16" "h6 < 16" "h5 < 16" "h4 < 16" "h3 < 16" "h2 < 16" "h1 < 16" "h0 < 16"
  shows "unat (dword h7 h6 h5 h4 h3 h2 h1 h0) =
    ((((((h7 * 16 + h6) * 16 + h5) * 16 + h4) * 16 + h3) * 16 + h2) * 16 + h1) * 16 + h0"
  unfolding dword_def by (rule unat_word32) (use assms in simp)

lemma power_16:
  "(2 :: nat) ^ 4 = 16" "(2 :: nat) ^ 8 = 16 * 16" "(2 :: nat) ^ 12 = 16 * (16 * 16)"
  "(2 :: nat) ^ 16 = 16 * (16 * (16 * 16))" "(2 :: nat) ^ 20 = 16 * (16 * (16 * (16 * 16)))"
  "(2 :: nat) ^ 24 = 16 * (16 * (16 * (16 * (16 * 16))))"
  "(2 :: nat) ^ 28 = 16 * (16 * (16 * (16 * (16 * (16 * 16)))))"
  by simp_all

lemma nybble_dword:
  assumes "h7 < 16" "h6 < 16" "h5 < 16" "h4 < 16" "h3 < 16" "h2 < 16" "h1 < 16" "h0 < 16"
  shows "nybble (dword h7 h6 h5 h4 h3 h2 h1 h0) 28 = h7"
    "nybble (dword h7 h6 h5 h4 h3 h2 h1 h0) 24 = h6"
    "nybble (dword h7 h6 h5 h4 h3 h2 h1 h0) 20 = h5"
    "nybble (dword h7 h6 h5 h4 h3 h2 h1 h0) 16 = h4"
    "nybble (dword h7 h6 h5 h4 h3 h2 h1 h0) 12 = h3"
    "nybble (dword h7 h6 h5 h4 h3 h2 h1 h0) 8 = h2"
    "nybble (dword h7 h6 h5 h4 h3 h2 h1 h0) 4 = h1"
    "nybble (dword h7 h6 h5 h4 h3 h2 h1 h0) 0 = h0"
  unfolding nybble_unat unat_dword [OF assms]
  using assms
  by (simp_all only: power_16 div_mult2_eq digit_div digit_mod power_0 div_by_1 mod_less)

lemma dword_low:
  assumes "h7 < 16" "h6 < 16" "h5 < 16" "h4 < 16" "h3 < 16" "h2 < 16" "h1 < 16" "h0 < 16"
  shows "unat (dword h7 h6 h5 h4 h3 h2 h1 h0 AND 0xFF) = h1 * 16 + h0"
    "unat (dword h7 h6 h5 h4 h3 h2 h1 h0 AND 0xF) = h0"
proof -
  let ?y = "((((h7 * 16 + h6) * 16 + h5) * 16 + h4) * 16 + h3) * 16 + h2"
  have eq: "(?y * 16 + h1) * 16 + h0 = ?y * 256 + (h1 * 16 + h0)" by simp
  have "h1 * 16 + h0 < 256" using assms by simp
  then show "unat (dword h7 h6 h5 h4 h3 h2 h1 h0 AND 0xFF) = h1 * 16 + h0"
    unfolding unat_low unat_dword [OF assms] eq by (simp only: mod_mult_self3 mod_less)
  show "unat (dword h7 h6 h5 h4 h3 h2 h1 h0 AND 0xF) = h0"
    unfolding unat_low unat_dword [OF assms] using assms(8) by (rule digit_mod)
qed

subsection \<open>Values split over dwords\<close>

abbreviation low_dword :: "u64 \<Rightarrow> u32" where "low_dword a \<equiv> ucast a"
abbreviation high_dword :: "u64 \<Rightarrow> u32" where "high_dword a \<equiv> ucast (drop_bit 32 a)"

lemma u64_halves: "push_bit 32 (ucast (high_dword a)) OR ucast (low_dword a) = (a :: u64)"
  by (rule bit_word_eqI) (auto simp: bit_simps)

lemma high_part:
  assumes "unat (d :: u32) = unat (a :: u64) div 2 ^ 32"
  shows "push_bit 32 (ucast d) OR ucast (low_dword a) = a"
proof -
  have "ucast d = drop_bit 32 a"
    by (rule word_unat_eq_iff [THEN iffD2]) (simp only: unat_ucast_64 assms unat_drop)
  then show ?thesis
    by (simp only:, intro bit_word_eqI) (auto simp: bit_simps)
qed

text \<open>The digits of an address that stand in the first dword.\<close>

definition address_digit :: "nat \<Rightarrow> u64 \<Rightarrow> nat" where
  "address_digit i a = unat a div 2 ^ (32 + 4 * i) mod 16"

lemma address_digit_less [simp]: "address_digit i a < 16"
  by (simp add: address_digit_def)

lemma address_digits:
  "unat a < 2 ^ 40 \<Longrightarrow> address_digit 1 a * 16 + address_digit 0 a = unat a div 2 ^ 32"
  "unat a < 2 ^ 36 \<Longrightarrow> address_digit 0 a = unat a div 2 ^ 32"
proof -
  assume "unat a < 2 ^ 40"
  then have less: "unat a div 2 ^ 32 < 256" by (simp add: less_mult_imp_div_less)
  have "unat a div 2 ^ 36 = unat a div 2 ^ 32 div 16"
    by (simp add: div_mult2_eq [symmetric])
  then show "address_digit 1 a * 16 + address_digit 0 a = unat a div 2 ^ 32"
    unfolding address_digit_def using less by simp
next
  assume "unat a < 2 ^ 36"
  then have "unat a div 2 ^ 32 < 16" by (simp add: less_mult_imp_div_less)
  then show "address_digit 0 a = unat a div 2 ^ 32" by (simp add: address_digit_def)
qed

subsection \<open>The encoder\<close>

definition memory_number :: "memory_access_type \<Rightarrow> nat" where
  "memory_number t = (case t of MainNso \<Rightarrow> 0 | Heap \<Rightarrow> 1 | OtherMem n \<Rightarrow> n)"

definition comparison_number :: "comparison_type \<Rightarrow> nat" where
  "comparison_number c =
     (case c of CmpGT \<Rightarrow> 1 | CmpGE \<Rightarrow> 2 | CmpLT \<Rightarrow> 3 | CmpLE \<Rightarrow> 4 | CmpEQ \<Rightarrow> 5 | CmpNE \<Rightarrow> 6
      | CmpOther n \<Rightarrow> n)"

definition arithmetic_number :: "arithmetic_type \<Rightarrow> nat" where
  "arithmetic_number a =
     (case a of Addition \<Rightarrow> 0 | Subtraction \<Rightarrow> 1 | Multiplication \<Rightarrow> 2 | LeftShift \<Rightarrow> 3
      | RightShift \<Rightarrow> 4 | LogicalAnd \<Rightarrow> 5 | LogicalOr \<Rightarrow> 6 | LogicalNot \<Rightarrow> 7 | LogicalXor \<Rightarrow> 8
      | NoArithmetic \<Rightarrow> 9 | OtherArithmetic n \<Rightarrow> n)"

definition save_restore_number :: "save_restore_op \<Rightarrow> nat" where
  "save_restore_number r =
     (case r of OpRestore \<Rightarrow> 0 | OpSave \<Rightarrow> 1 | OpClearSaved \<Rightarrow> 2 | OpClearRegs \<Rightarrow> 3
      | OpOther n \<Rightarrow> n)"

text \<open>A value is one dword, or two at width 8.\<close>

definition encode_value :: "nat \<Rightarrow> u64 \<Rightarrow> u32 list" where
  "encode_value w v = (if w = 8 then [high_dword v, low_dword v] else [low_dword v])"

definition flag :: "bool \<Rightarrow> nat" where "flag b = (if b then 1 else 0)"

definition offset_digits :: "store_offset \<Rightarrow> nat \<times> nat \<times> nat \<times> u32 list" where
  "offset_digits ofs =
     (case ofs of
        OfsNone \<Rightarrow> (0, 0, 0, [])
      | OfsReg r \<Rightarrow> (1, r, 0, [])
      | OfsImm a \<Rightarrow> (2, 0, address_digit 0 a, [low_dword a])
      | OfsMemReg t \<Rightarrow> (3, memory_number t, 0, [])
      | OfsMemImm t a \<Rightarrow> (4, memory_number t, address_digit 0 a, [low_dword a])
      | OfsMemImmReg t a \<Rightarrow> (5, memory_number t, address_digit 0 a, [low_dword a]))"

text \<open>
  The kind, two digits and dwords of an operand, with the numbers the instruction uses for
  a register operand.
\<close>

definition operand_digits ::
  "nat \<Rightarrow> nat \<Rightarrow> value_operand \<Rightarrow> nat \<times> nat \<times> nat \<times> u32 list" where
  "operand_digits reg_kind w operand =
     (case operand of
        MemoryRelAddr t a \<Rightarrow> (0, memory_number t, address_digit 0 a, [low_dword a])
      | MemoryOfsReg t r \<Rightarrow> (1, memory_number t, r, [])
      | RegisterRelAddr r a \<Rightarrow> (2, r, address_digit 0 a, [low_dword a])
      | RegisterOfsReg r r' \<Rightarrow> (3, r, r', [])
      | StaticValue v \<Rightarrow> (4, 0, 0, encode_value w v)
      | OtherRegister r \<Rightarrow> (reg_kind, r, 0, [])
      | OtherOperand k \<Rightarrow> (k, 0, 0, []))"

definition mask_number :: "bool list \<Rightarrow> nat" where
  "mask_number bs = horner_sum of_bool 2 bs"

fun encode :: "vm_opcode \<Rightarrow> u32 list" where
  "encode (StoreStatic w t r a v) =
     dword 0 w (memory_number t) r 0 0 (address_digit 1 a) (address_digit 0 a)
       # low_dword a # encode_value w v"
| "encode (BeginConditionalBlock w t c a v) =
     dword 1 w (memory_number t) (comparison_number c) 0 0 (address_digit 1 a) (address_digit 0 a)
       # low_dword a # encode_value w v"
| "encode EndConditionalBlock = [dword 2 0 0 0 0 0 0 0]"
| "encode (StartLoop r n) = [dword 3 0 r 0 0 0 0 0, n]"
| "encode (EndLoop r) = [dword 3 1 r 0 0 0 0 0]"
| "encode (LoadRegisterStatic r v) = [dword 4 0 0 r 0 0 0 0, high_dword v, low_dword v]"
| "encode (LoadRegisterMemory w t r f a) =
     [dword 5 w (memory_number t) r (flag f) 0 (address_digit 1 a) (address_digit 0 a), low_dword a]"
| "encode (StoreStaticToAddress w r inc add off v) =
     [dword 6 w 0 r (flag inc) (flag add) off 0, high_dword v, low_dword v]"
| "encode (PerformArithmeticStatic w r a v) = [dword 7 w 0 r (arithmetic_number a) 0 0 0, v]"
| "encode (BeginKeypressConditionalBlock k) =
     [dword 8 (nybble k 24) (nybble k 20) (nybble k 16) (nybble k 12) (nybble k 8) (nybble k 4)
        (nybble k 0)]"
| "encode (PerformArithmeticRegister w a d s (RegOperand s')) =
     [dword 9 w (arithmetic_number a) d s 0 s' 0]"
| "encode (PerformArithmeticRegister w a d s (ImmOperand v)) =
     dword 9 w (arithmetic_number a) d s 1 0 0 # encode_value w v"
| "encode (StoreRegisterToAddress w s r inc ofs) =
     (case offset_digits ofs of (kind, x, y, rest) \<Rightarrow> dword 10 w s r (flag inc) kind x y # rest)"
| "encode (BeginRegisterConditionalBlock w c r operand) =
     (case operand_digits 5 w operand of
        (kind, x, y, rest) \<Rightarrow> dword 12 0 w (comparison_number c) r kind x y # rest)"
| "encode (SaveRestoreRegister d s op) = [dword 12 1 0 d 0 s (save_restore_number op) 0]"
| "encode (SaveRestoreRegisterMask op bs) =
     (let n = mask_number bs in
      [dword 12 2 (save_restore_number op) 0 (n div 4096 mod 16) (n div 256 mod 16)
         (n div 16 mod 16) (n mod 16)])"
| "encode (DebugLog w i operand) =
     (case operand_digits 4 w operand of
        (kind, x, y, rest) \<Rightarrow> dword 15 15 15 w (unat i) kind x y # rest)"

subsection \<open>Encodable instructions\<close>

definition memory_ok :: "memory_access_type \<Rightarrow> bool" where
  "memory_ok t = (case t of OtherMem n \<Rightarrow> 1 < n \<and> n < 16 | _ \<Rightarrow> True)"

definition comparison_ok :: "comparison_type \<Rightarrow> bool" where
  "comparison_ok c = (case c of CmpOther n \<Rightarrow> n = 0 \<or> (6 < n \<and> n < 16) | _ \<Rightarrow> True)"

definition arithmetic_ok :: "arithmetic_type \<Rightarrow> bool" where
  "arithmetic_ok a = (case a of OtherArithmetic n \<Rightarrow> 9 < n \<and> n < 16 | _ \<Rightarrow> True)"

definition save_restore_ok :: "save_restore_op \<Rightarrow> bool" where
  "save_restore_ok r = (case r of OpOther n \<Rightarrow> 3 < n \<and> n < 16 | _ \<Rightarrow> True)"

text \<open>A value fits its width; a width the machine does not know holds zero.\<close>

definition value_ok :: "nat \<Rightarrow> u64 \<Rightarrow> bool" where
  "value_ok w v \<longleftrightarrow> w < 16 \<and>
     (if w = 1 then unat v < 2 ^ 8 else if w = 2 then unat v < 2 ^ 16
      else if w = 4 then unat v < 2 ^ 32 else w = 8 \<or> v = 0)"

definition offset_ok :: "store_offset \<Rightarrow> bool" where
  "offset_ok ofs =
     (case ofs of
        OfsNone \<Rightarrow> True
      | OfsReg r \<Rightarrow> r < 16
      | OfsImm a \<Rightarrow> unat a < 2 ^ 36
      | OfsMemReg t \<Rightarrow> memory_ok t
      | OfsMemImm t a \<Rightarrow> memory_ok t \<and> unat a < 2 ^ 36
      | OfsMemImmReg t a \<Rightarrow> memory_ok t \<and> unat a < 2 ^ 36)"

text \<open>The operands an instruction can carry; \<open>statics\<close> tells whether a value is one.\<close>

definition operand_ok :: "bool \<Rightarrow> nat \<Rightarrow> value_operand \<Rightarrow> bool" where
  "operand_ok statics w operand =
     (case operand of
        MemoryRelAddr t a \<Rightarrow> memory_ok t \<and> unat a < 2 ^ 36
      | MemoryOfsReg t r \<Rightarrow> memory_ok t \<and> r < 16
      | RegisterRelAddr r a \<Rightarrow> r < 16 \<and> unat a < 2 ^ 36
      | RegisterOfsReg r r' \<Rightarrow> r < 16 \<and> r' < 16
      | StaticValue v \<Rightarrow> statics \<and> value_ok w v
      | OtherRegister r \<Rightarrow> r < 16
      | OtherOperand k \<Rightarrow> (if statics then 5 < k else 4 < k) \<and> k < 16)"

fun opcode_ok :: "vm_opcode \<Rightarrow> bool" where
  "opcode_ok (StoreStatic w t r a v) \<longleftrightarrow> memory_ok t \<and> r < 16 \<and> unat a < 2 ^ 40 \<and> value_ok w v"
| "opcode_ok (BeginConditionalBlock w t c a v) \<longleftrightarrow>
     memory_ok t \<and> comparison_ok c \<and> unat a < 2 ^ 40 \<and> value_ok w v"
| "opcode_ok EndConditionalBlock \<longleftrightarrow> True"
| "opcode_ok (StartLoop r n) \<longleftrightarrow> r < 16"
| "opcode_ok (EndLoop r) \<longleftrightarrow> r < 16"
| "opcode_ok (LoadRegisterStatic r v) \<longleftrightarrow> r < 16"
| "opcode_ok (LoadRegisterMemory w t r f a) \<longleftrightarrow> w < 16 \<and> memory_ok t \<and> r < 16 \<and> unat a < 2 ^ 40"
| "opcode_ok (StoreStaticToAddress w r inc add off v) \<longleftrightarrow> w < 16 \<and> r < 16 \<and> off < 16"
| "opcode_ok (PerformArithmeticStatic w r a v) \<longleftrightarrow> w < 16 \<and> r < 16 \<and> arithmetic_ok a"
| "opcode_ok (BeginKeypressConditionalBlock k) \<longleftrightarrow> unat k < 2 ^ 28"
| "opcode_ok (PerformArithmeticRegister w a d s (RegOperand s')) \<longleftrightarrow>
     w < 16 \<and> arithmetic_ok a \<and> d < 16 \<and> s < 16 \<and> s' < 16"
| "opcode_ok (PerformArithmeticRegister w a d s (ImmOperand v)) \<longleftrightarrow>
     arithmetic_ok a \<and> d < 16 \<and> s < 16 \<and> value_ok w v"
| "opcode_ok (StoreRegisterToAddress w s r inc ofs) \<longleftrightarrow> w < 16 \<and> s < 16 \<and> r < 16 \<and> offset_ok ofs"
| "opcode_ok (BeginRegisterConditionalBlock w c r operand) \<longleftrightarrow>
     w < 16 \<and> comparison_ok c \<and> r < 16 \<and> operand_ok True w operand"
| "opcode_ok (SaveRestoreRegister d s op) \<longleftrightarrow> d < 16 \<and> s < 16 \<and> save_restore_ok op"
| "opcode_ok (SaveRestoreRegisterMask op bs) \<longleftrightarrow> save_restore_ok op \<and> List.length bs = 16"
| "opcode_ok (DebugLog w i operand) \<longleftrightarrow> w < 16 \<and> unat i < 16 \<and> operand_ok False w operand"

lemma memory_roundtrip: "memory_ok t \<Longrightarrow> memory_access_type_of (memory_number t) = t \<and> memory_number t < 16"
  by (auto simp: memory_ok_def memory_access_type_of_def memory_number_def
      split: memory_access_type.splits)

lemma comparison_roundtrip:
  "comparison_ok c \<Longrightarrow> comparison_type_of (comparison_number c) = c \<and> comparison_number c < 16"
  by (auto simp: comparison_ok_def comparison_type_of_def comparison_number_def
      split: comparison_type.splits)

lemma arithmetic_roundtrip:
  "arithmetic_ok a \<Longrightarrow> arithmetic_type_of (arithmetic_number a) = a \<and> arithmetic_number a < 16"
  by (auto simp: arithmetic_ok_def arithmetic_type_of_def arithmetic_number_def
      split: arithmetic_type.splits)

lemma save_restore_roundtrip:
  "save_restore_ok r \<Longrightarrow> save_restore_op_of (save_restore_number r) = r \<and> save_restore_number r < 16"
  by (auto simp: save_restore_ok_def save_restore_op_of_def save_restore_number_def
      split: save_restore_op.splits)

subsection \<open>What a decoder reads\<close>

text \<open>\<open>reads p xs r\<close>: whenever the dwords \<open>xs\<close> come next, \<open>p\<close> consumes them and returns \<open>r\<close>.\<close>

definition upcoming :: "u32 list \<Rightarrow> vm \<Rightarrow> bool" where
  "upcoming xs m \<longleftrightarrow> instruction_ptr m + List.length xs \<le> num_opcodes m \<and>
     (\<forall>i < List.length xs. program m ! (instruction_ptr m + i) = xs ! i)"

definition reads :: "'a decoder \<Rightarrow> u32 list \<Rightarrow> 'a \<Rightarrow> bool" where
  "reads p xs r \<longleftrightarrow> (\<forall>m v. upcoming xs m \<longrightarrow>
     run_state p (m, v) = (r, (m\<lparr>instruction_ptr := instruction_ptr m + List.length xs\<rparr>, v)))"

lemma upcoming_append:
  "upcoming (xs @ ys) m \<longleftrightarrow>
     upcoming xs m \<and> upcoming ys (m\<lparr>instruction_ptr := instruction_ptr m + List.length xs\<rparr>)"
  unfolding upcoming_def
proof (intro iffI conjI allI impI; (elim conjE)?)
  fix i
  assume *: "\<forall>i < List.length (xs @ ys). program m ! (instruction_ptr m + i) = (xs @ ys) ! i"
  { assume "i < List.length xs" then show "program m ! (instruction_ptr m + i) = xs ! i"
      using * [rule_format, of i] by (simp add: nth_append) }
  { assume "i < List.length ys"
    then show "program (m\<lparr>instruction_ptr := instruction_ptr m + List.length xs\<rparr>) !
        (instruction_ptr (m\<lparr>instruction_ptr := instruction_ptr m + List.length xs\<rparr>) + i) = ys ! i"
      using * [rule_format, of "List.length xs + i"] by (simp add: nth_append add.assoc) }
next
  fix i
  assume "i < List.length (xs @ ys)"
    "\<forall>i < List.length xs. program m ! (instruction_ptr m + i) = xs ! i"
    "\<forall>i < List.length ys. program (m\<lparr>instruction_ptr := instruction_ptr m + List.length xs\<rparr>) !
        (instruction_ptr (m\<lparr>instruction_ptr := instruction_ptr m + List.length xs\<rparr>) + i) = ys ! i"
  then show "program m ! (instruction_ptr m + i) = (xs @ ys) ! i"
    by (cases "i < List.length xs")
      (auto simp: nth_append add.assoc dest: spec [of _ "i - List.length xs"])
qed simp_all

lemma reads_return: "reads (State_Monad.return x) [] x"
  by (simp add: reads_def)

lemma reads_bind:
  "\<lbrakk>reads p xs a; reads (f a) ys b\<rbrakk> \<Longrightarrow> reads (State_Monad.bind p f) (xs @ ys) b"
  unfolding reads_def upcoming_append by (simp add: add.assoc)

lemma reads_bind_return: "reads p xs a \<Longrightarrow> reads (State_Monad.bind p (\<lambda>x. State_Monad.return (g x))) xs (g a)"
  using reads_bind [of p xs a "\<lambda>x. State_Monad.return (g x)" "[]" "g a"] by (simp add: reads_return)

lemma reads_dword: "reads GetNextDword [d] d"
  by (auto simp: reads_def upcoming_def GetNextDword_def)

lemma reads_dword_bind: "reads (f d) xs r \<Longrightarrow> reads (State_Monad.bind GetNextDword f) (d # xs) r"
  using reads_bind [of GetNextDword "[d]" d f xs r] by (simp add: reads_dword)

lemma reads_DecodeNextOpcode:
  assumes "reads (decode_opcode d) xs (Some op)" and "upcoming (d # xs) m" and "decode_success m"
  shows "DecodeNextOpcode m =
    (Some op, m\<lparr>instruction_ptr := instruction_ptr m + List.length (d # xs)\<rparr>)"
proof -
  have "upcoming ([d] @ xs) m" using assms(2) by simp
  then have 1: "upcoming [d] m" and 2: "upcoming xs (m\<lparr>instruction_ptr := Suc (instruction_ptr m)\<rparr>)"
    unfolding upcoming_append by simp_all
  from 1 have "run_state GetNextDword (m, True) = (d, (m\<lparr>instruction_ptr := Suc (instruction_ptr m)\<rparr>, True))"
    using reads_dword [of d] by (simp add: reads_def)
  moreover have "run_state (decode_opcode d) (m\<lparr>instruction_ptr := Suc (instruction_ptr m)\<rparr>, True) =
      (Some op, (m\<lparr>instruction_ptr := Suc (instruction_ptr m) + List.length xs\<rparr>, True))"
    using assms(1) 2 by (simp add: reads_def)
  ultimately show ?thesis
    using assms(3) by (simp add: DecodeNextOpcode_def Let_def)
qed

subsection \<open>The operands\<close>

lemma ucast_ucast_small:
  fixes v :: u64
  shows "unat v < 2 ^ 8 \<Longrightarrow> ucast (ucast (low_dword v) :: u8) = v"
    "unat v < 2 ^ 16 \<Longrightarrow> ucast (ucast (low_dword v) :: u16) = v"
    "unat v < 2 ^ 32 \<Longrightarrow> ucast (low_dword v) = v"
proof -
  have t: "take_bit n v = v" if "unat v < 2 ^ n" for n
    by (rule word_unat_eq_iff [THEN iffD2])
      (use that unsigned_take_bit_eq [of n v, where 'a=nat] in
        \<open>simp add: take_bit_eq_mod [where 'a=nat]\<close>)
  have "ucast (ucast (low_dword v) :: u8) = take_bit 8 v"
    "ucast (ucast (low_dword v) :: u16) = take_bit 16 v" "ucast (low_dword v) = take_bit 32 v"
    by (auto intro!: bit_word_eqI simp: bit_simps)
  then show "unat v < 2 ^ 8 \<Longrightarrow> ucast (ucast (low_dword v) :: u8) = v"
    "unat v < 2 ^ 16 \<Longrightarrow> ucast (ucast (low_dword v) :: u16) = v"
    "unat v < 2 ^ 32 \<Longrightarrow> ucast (low_dword v) = v"
    using t by simp_all
qed

lemma reads_GetNextVmInt:
  assumes "value_ok w v"
  shows "reads (GetNextVmInt w) (encode_value w v) v"
proof (cases "w = 8")
  case True
  then show ?thesis
    unfolding GetNextVmInt_def encode_value_def
    using reads_return [of v] by (auto intro!: reads_dword_bind simp: u64_halves)
next
  case False
  then show ?thesis
    using assms reads_return [of v]
    unfolding GetNextVmInt_def encode_value_def value_ok_def
    by (auto intro!: reads_dword_bind simp: ucast_ucast_small split: if_splits)
qed

lemma reads_GetNextQword: "reads GetNextQword [high_dword v, low_dword v] v"
  unfolding GetNextQword_def
  using reads_return [of v] by (auto intro!: reads_dword_bind simp: u64_halves)

lemma reads_GetNextAddress4:
  assumes "unat (d AND 0xF) = address_digit 0 a" and "unat a < 2 ^ 36"
  shows "reads (GetNextAddress4 d) [low_dword a] a"
proof -
  have "push_bit 32 (ucast (d AND 0xF)) OR ucast (low_dword a) = a"
    by (rule high_part) (simp only: assms(1) address_digits(2) [OF assms(2)])
  then show ?thesis
    unfolding GetNextAddress4_def using reads_return [of a] by (auto intro!: reads_dword_bind)
qed

lemma reads_address4_dword:
  assumes "unat a < 2 ^ 36" "h7 < 16" "h6 < 16" "h5 < 16" "h4 < 16" "h3 < 16" "h2 < 16" "h1 < 16"
  shows "reads (GetNextAddress4 (dword h7 h6 h5 h4 h3 h2 h1 (address_digit 0 a))) [low_dword a] a"
  by (rule reads_GetNextAddress4 [OF dword_low(2) [OF assms(2-8) address_digit_less] assms(1)])

lemma address8_dword:
  assumes "unat a < 2 ^ 40" "h7 < 16" "h6 < 16" "h5 < 16" "h4 < 16" "h3 < 16" "h2 < 16"
  shows "address8 (dword h7 h6 h5 h4 h3 h2 (address_digit 1 a) (address_digit 0 a)) (low_dword a) = a"
  unfolding address8_def
  by (rule high_part)
    (simp only: dword_low(1) [OF assms(2-7) address_digit_less address_digit_less]
      address_digits(1) [OF assms(1)])

lemma flag_simps [simp]: "flag b < 16" "(flag b \<noteq> 0) = b" "(0 < flag b) = b" "(flag b = 0) = (\<not> b)"
  by (simp_all add: flag_def)

lemma reads_some:
  "reads p xs x \<Longrightarrow> reads (State_Monad.bind p (\<lambda>x. State_Monad.return (Some x))) xs (Some x)"
  by (rule reads_bind_return)

lemma reads_decode_store_offset:
  assumes "offset_digits ofs = (kind, x, y, rest)" and "offset_ok ofs"
    and "h7 < 16" "h6 < 16" "h5 < 16" "h4 < 16" "h3 < 16"
  shows "kind < 16 \<and> x < 16 \<and> y < 16 \<and>
    reads (decode_store_offset (dword h7 h6 h5 h4 h3 kind x y)) rest ofs"
proof -
  have b: "kind < 16" "x < 16" "y < 16"
    using assms(1,2) memory_roundtrip
    by (auto simp: offset_digits_def offset_ok_def split: store_offset.splits)
  note n = nybble_dword [OF assms(3-7) b]
  show ?thesis
    using assms(1,2) b memory_roundtrip
    unfolding decode_store_offset_def n offset_digits_def offset_ok_def
    by (auto split: store_offset.splits simp: assms(3-7)
        intro!: reads_return reads_bind_return reads_address4_dword)
qed

lemma reads_decode_address_operand:
  assumes "operand_digits reg_kind w operand = (kind, x, y, rest)" and "operand_ok statics w operand"
    and "\<And>v. operand \<noteq> StaticValue v" "\<And>r. operand \<noteq> OtherRegister r"
    and "h7 < 16" "h6 < 16" "h5 < 16" "h4 < 16" "h3 < 16"
  shows "kind < 16 \<and> x < 16 \<and> y < 16 \<and>
    reads (decode_address_operand (dword h7 h6 h5 h4 h3 kind x y) kind) rest operand"
proof -
  have b: "kind < 16" "x < 16" "y < 16"
    using assms(1-4) memory_roundtrip
    by (auto simp: operand_digits_def operand_ok_def split: value_operand.splits)
  note n = nybble_dword [OF assms(5-9) b]
  show ?thesis
    using assms(1-4) b memory_roundtrip
    unfolding decode_address_operand_def n operand_digits_def operand_ok_def
    by (auto split: value_operand.splits if_splits simp: assms(5-9)
        intro!: reads_return reads_bind_return reads_address4_dword)
qed

lemma four_digits:
  fixes n :: nat
  assumes "n < 2 ^ 16"
  shows "((n div 4096 mod 16 * 16 + n div 256 mod 16) * 16 + n div 16 mod 16) * 16 + n mod 16 = n"
proof -
  have "n div 4096 < 16" using assms by (simp add: less_mult_imp_div_less)
  then have 3: "n div 4096 mod 16 = n div 256 div 16" by (simp add: div_mult2_eq [symmetric])
  have 2: "n div 256 = n div 16 div 16" by (simp add: div_mult2_eq [symmetric])
  show ?thesis unfolding 3 div_mult_mod_eq unfolding 2 div_mult_mod_eq ..
qed

lemma bits_of_mask_number:
  assumes "List.length bs = 16" "h7 < 16" "h6 < 16" "h5 < 16" "h4 < 16"
  defines "n \<equiv> mask_number bs"
  shows "map (\<lambda>i. dword h7 h6 h5 h4 (n div 4096 mod 16) (n div 256 mod 16) (n div 16 mod 16) (n mod 16)
      AND push_bit i 1 \<noteq> 0) [0..<16] = bs"
proof -
  let ?d = "dword h7 h6 h5 h4 (n div 4096 mod 16) (n div 256 mod 16) (n div 16 mod 16) (n mod 16)"
  have "n < 2 ^ 16"
    using horner_sum_bound [of bs, where 'a=nat] assms(1) by (simp add: n_def mask_number_def)
  note n = four_digits [OF this]
  have u: "unat ?d mod 2 ^ 16 = n"
  proof -
    have "unat ?d = (((h7 * 16 + h6) * 16 + h5) * 16 + h4) * 2 ^ 16 + n"
      by (subst (4) n [symmetric], subst unat_dword) (use assms(2-5) in \<open>simp_all add: algebra_simps\<close>)
    then show ?thesis using \<open>n < 2 ^ 16\<close> by (simp only: mod_mult_self3 mod_less)
  qed
  have "bit ?d i = bs ! i" if "i < 16" for i
  proof -
    have "bit (unat ?d) i = bit (take_bit 16 (unat ?d)) i" using that by (simp add: bit_take_bit_iff)
    also have "\<dots> = bs ! i"
      unfolding take_bit_eq_mod [where 'a=nat] u unfolding n_def mask_number_def
      using that assms(1) by (simp add: bit_horner_sum_bit_iff)
    finally show ?thesis by (simp add: bit_unsigned_iff that)
  qed
  then have "?d AND push_bit i 1 \<noteq> 0 \<longleftrightarrow> bs ! i" if "i < 16" for i
    using that unfolding bit_iff_and_push_bit_not_eq_0 by simp
  then have "map (\<lambda>i. ?d AND push_bit i 1 \<noteq> 0) [0..<16] = map ((!) bs) [0..<16]"
    by (intro map_cong [OF refl]) (simp only: set_upt atLeastLessThan_iff)
  also have "\<dots> = bs" using assms(1) map_nth [of bs] by (simp only:)
  finally show ?thesis .
qed

subsection \<open>The decoder inverts the encoder\<close>

lemma opcode_number_dword:
  assumes "h7 < 16" "h6 < 16" "h5 < 16" "h4 < 16" "h3 < 16" "h2 < 16" "h1 < 16" "h0 < 16"
  shows "opcode_number (dword h7 h6 h5 h4 h3 h2 h1 h0) =
    (if h7 < 12 then h7 else if h7 = 15 then 16 * (16 * 15 + h6) + h5 else 16 * h7 + h6)"
  unfolding opcode_number_def nybble_dword [OF assms] using assms by (auto simp: Let_def)

lemma nybble_less: "nybble d s < 16"
  by (simp add: nybble_unat)

lemma keypress_digits:
  assumes "unat k < 2 ^ 28"
  shows "dword 8 (nybble k 24) (nybble k 20) (nybble k 16) (nybble k 12) (nybble k 8) (nybble k 4)
      (nybble k 0) AND 0x0FFFFFFF = k"
proof -
  note b = nybble_less [of k]
  have d: "unat k div 2 ^ (s + 4) * 16 + nybble k s = unat k div 2 ^ s" for s
    unfolding nybble_unat power_add by (simp add: div_mult2_eq)
  have top: "unat k div 2 ^ 28 = 0" using assms by simp
  have "nybble k 24 = unat k div 2 ^ 24" using d [of 24] top by simp
  then have "nybble k 24 * 16 + nybble k 20 = unat k div 2 ^ 20" using d [of 20] by simp
  then have "(nybble k 24 * 16 + nybble k 20) * 16 + nybble k 16 = unat k div 2 ^ 16"
    using d [of 16] by simp
  then have "((nybble k 24 * 16 + nybble k 20) * 16 + nybble k 16) * 16 + nybble k 12
      = unat k div 2 ^ 12"
    using d [of 12] by simp
  then have "(((nybble k 24 * 16 + nybble k 20) * 16 + nybble k 16) * 16 + nybble k 12) * 16
      + nybble k 8 = unat k div 2 ^ 8"
    using d [of 8] by simp
  then have "((((nybble k 24 * 16 + nybble k 20) * 16 + nybble k 16) * 16 + nybble k 12) * 16
      + nybble k 8) * 16 + nybble k 4 = unat k div 2 ^ 4"
    using d [of 4] by simp
  then have "(((((nybble k 24 * 16 + nybble k 20) * 16 + nybble k 16) * 16 + nybble k 12) * 16
      + nybble k 8) * 16 + nybble k 4) * 16 + nybble k 0 = unat k"
    using d [of 0] by simp
  then have "unat (dword 8 (nybble k 24) (nybble k 20) (nybble k 16) (nybble k 12) (nybble k 8)
      (nybble k 4) (nybble k 0)) = 8 * 2 ^ 28 + unat k"
    by (subst unat_dword) (simp_all add: b algebra_simps)
  then have "unat (dword 8 (nybble k 24) (nybble k 20) (nybble k 16) (nybble k 12) (nybble k 8)
      (nybble k 4) (nybble k 0) AND 0x0FFFFFFF) = unat k"
    unfolding unat_low using assms by (simp only: mod_mult_self3 mod_less)
  then show ?thesis by (simp only: word_unat_eq_iff)
qed

lemma reads_decode_conditional:
  assumes "operand_digits 5 w operand = (kind, x, y, rest)" and "operand_ok True w operand"
    and "w < 16" "c < 16" "r < 16"
  shows "reads (decode_begin_reg_cond (dword 12 0 w c r kind x y)) rest
    (BeginRegisterConditionalBlock w (comparison_type_of c) r operand)"
proof (cases "(\<exists>v. operand = StaticValue v) \<or> (\<exists>r. operand = OtherRegister r)")
  case True
  then show ?thesis
    using assms
    by (auto simp: operand_digits_def operand_ok_def decode_begin_reg_cond_def nybble_dword
        intro!: reads_return reads_bind_return reads_GetNextVmInt reads_bind [of _ _ _ _ "[]", simplified])
next
  case False
  then have ns: "operand \<noteq> StaticValue v" "operand \<noteq> OtherRegister r'" for v r' by auto
  have "kind \<noteq> 4 \<and> kind \<noteq> 5"
    using assms(1,2) ns by (auto simp: operand_digits_def operand_ok_def split: value_operand.splits)
  moreover have "kind < 16 \<and> x < 16 \<and> y < 16 \<and>
      reads (decode_address_operand (dword 12 0 w c r kind x y) kind) rest operand"
    by (rule reads_decode_address_operand [OF assms(1,2) ns]) (use assms(3-5) in simp_all)
  ultimately show ?thesis
    using assms(3-5) reads_bind_return [of "decode_address_operand (dword 12 0 w c r kind x y) kind" rest operand]
    by (simp add: decode_begin_reg_cond_def nybble_dword)
qed

lemma reads_decode_debug_log:
  assumes "operand_digits 4 w operand = (kind, x, y, rest)" and "operand_ok False w operand"
    and "w < 16" "unat i < 16"
  shows "reads (decode_debug_log (dword 15 15 15 w (unat i) kind x y)) rest (DebugLog w i operand)"
proof (cases "\<exists>r. operand = OtherRegister r")
  case True
  then show ?thesis
    using assms
    by (auto simp: operand_digits_def operand_ok_def decode_debug_log_def nybble_dword
        intro!: reads_return reads_bind_return)
next
  case False
  then have ns: "operand \<noteq> StaticValue v" "operand \<noteq> OtherRegister r'" for v r'
    using assms(2) by (auto simp: operand_ok_def)
  have "kind \<noteq> 4"
    using assms(1,2) ns by (auto simp: operand_digits_def operand_ok_def split: value_operand.splits)
  moreover have "kind < 16 \<and> x < 16 \<and> y < 16 \<and>
      reads (decode_address_operand (dword 15 15 15 w (unat i) kind x y) kind) rest operand"
    by (rule reads_decode_address_operand [OF assms(1,2) ns]) (use assms(3-4) in simp_all)
  ultimately show ?thesis
    using assms(3-4) reads_bind_return [of "decode_address_operand (dword 15 15 15 w (unat i) kind x y) kind" rest operand]
    by (simp add: decode_debug_log_def nybble_dword)
qed

text \<open>Each instruction, its first dword apart.\<close>

lemma reads_switch:
  assumes "opcode_number d = n" and "reads p xs op"
    and "decode_opcode d = (do { x \<leftarrow> p; State_Monad.return (Some x) })"
  shows "reads (decode_opcode d) xs (Some op)"
  unfolding assms(3) using assms(2) by (rule reads_some)

lemma value_ok_width: "value_ok w v \<Longrightarrow> w < 16"
  by (simp add: value_ok_def)

lemma reads_decode_opcode:
  assumes "opcode_ok op"
  shows "\<exists>d xs. encode op = d # xs \<and> reads (decode_opcode d) xs (Some op)"
proof (cases op)
  case (StoreStatic w t r a v)
  with assms show ?thesis
    using memory_roundtrip [of t] value_ok_width [of w v]
    by (auto simp: decode_opcode_def opcode_number_dword decode_store_static_def nybble_dword address8_dword [unfolded One_nat_def] intro!: reads_some reads_dword_bind reads_bind_return reads_GetNextVmInt)
next
  case (BeginConditionalBlock w t c a v)
  with assms show ?thesis
    using memory_roundtrip [of t] comparison_roundtrip [of c] value_ok_width [of w v]
    by (auto simp: decode_opcode_def opcode_number_dword decode_begin_cond_def nybble_dword address8_dword [unfolded One_nat_def] intro!: reads_some reads_dword_bind reads_bind_return reads_GetNextVmInt)
next
  case EndConditionalBlock
  then show ?thesis by (simp add: decode_opcode_def opcode_number_dword reads_return)
next
  case (StartLoop r n)
  with assms show ?thesis
    by (auto simp: decode_opcode_def opcode_number_dword decode_ctrl_loop_def nybble_dword
        intro!: reads_some reads_dword_bind reads_return)
next
  case (EndLoop r)
  with assms show ?thesis
    by (auto simp: decode_opcode_def opcode_number_dword decode_ctrl_loop_def nybble_dword
        intro!: reads_some reads_dword_bind reads_return)
next
  case (LoadRegisterStatic r v)
  with assms show ?thesis
    by (auto simp: decode_opcode_def opcode_number_dword decode_ldr_static_def nybble_dword
        intro!: reads_some reads_bind_return reads_GetNextQword)
next
  case (LoadRegisterMemory w t r f a)
  with assms show ?thesis
    using memory_roundtrip [of t]
    by (auto simp: decode_opcode_def opcode_number_dword decode_ldr_memory_def nybble_dword address8_dword [unfolded One_nat_def]
        intro!: reads_some reads_dword_bind reads_return)
next
  case (StoreStaticToAddress w r inc add off v)
  with assms show ?thesis
    by (auto simp: decode_opcode_def opcode_number_dword decode_str_static_def nybble_dword
        intro!: reads_some reads_bind_return reads_GetNextQword)
next
  case (PerformArithmeticStatic w r a v)
  with assms show ?thesis
    using arithmetic_roundtrip [of a]
    by (auto simp: decode_opcode_def opcode_number_dword decode_math_static_def nybble_dword
        intro!: reads_some reads_dword_bind reads_return)
next
  case (BeginKeypressConditionalBlock k)
  with assms show ?thesis
    using nybble_less
    by (simp add: decode_opcode_def opcode_number_dword keypress_digits reads_return)
next
  case (PerformArithmeticRegister w a d s s2)
  with assms show ?thesis
    using arithmetic_roundtrip [of a] value_ok_width [of w]
    by (cases s2) (auto simp: decode_opcode_def opcode_number_dword decode_math_reg_def nybble_dword
        intro!: reads_some reads_bind_return reads_return reads_GetNextVmInt)
next
  case (StoreRegisterToAddress w s r inc ofs)
  obtain kind x y rest where o: "offset_digits ofs = (kind, x, y, rest)" by (metis prod_cases4)
  have "kind < 16 \<and> x < 16 \<and> y < 16 \<and>
      reads (decode_store_offset (dword 10 w s r (flag inc) kind x y)) rest ofs"
    by (rule reads_decode_store_offset [OF o]) (use assms StoreRegisterToAddress in simp_all)
  with assms StoreRegisterToAddress o show ?thesis
    by (auto simp: decode_opcode_def opcode_number_dword decode_str_register_def nybble_dword
        intro!: reads_some reads_bind_return)
next
  case (BeginRegisterConditionalBlock w c r operand)
  obtain kind x y rest where o: "operand_digits 5 w operand = (kind, x, y, rest)" by (metis prod_cases4)
  have "kind < 16 \<and> x < 16 \<and> y < 16"
    using o assms BeginRegisterConditionalBlock memory_roundtrip
    by (auto simp: operand_digits_def operand_ok_def split: value_operand.splits)
  with assms BeginRegisterConditionalBlock o show ?thesis
    using reads_decode_conditional [OF o, of "comparison_number c" r] comparison_roundtrip [of c]
    by (auto simp: decode_opcode_def opcode_number_dword intro!: reads_some)
next
  case (SaveRestoreRegister d s r)
  with assms show ?thesis
    using save_restore_roundtrip [of r]
    by (auto simp: decode_opcode_def opcode_number_dword decode_save_restore_def nybble_dword
        intro!: reads_some reads_return)
next
  case (SaveRestoreRegisterMask r bs)
  with assms show ?thesis
    using save_restore_roundtrip [of r] bits_of_mask_number [of bs 12 2 "save_restore_number r" 0]
    by (simp add: decode_opcode_def opcode_number_dword decode_save_restore_mask_def nybble_dword Let_def)
      (simp add: reads_return)
next
  case (DebugLog w i operand)
  obtain kind x y rest where o: "operand_digits 4 w operand = (kind, x, y, rest)" by (metis prod_cases4)
  have "kind < 16 \<and> x < 16 \<and> y < 16"
    using o assms DebugLog memory_roundtrip
    by (auto simp: operand_digits_def operand_ok_def split: value_operand.splits)
  with assms DebugLog o show ?thesis
    using reads_decode_debug_log [OF o]
    by (auto simp: decode_opcode_def opcode_number_dword intro!: reads_some)
qed

end
