(* ===== verification/CheatVmRun.thy ===== *)
theory CheatVmRun
  imports CheatVmExec CheatVmEncode
begin

text \<open>
  Lemmas on runs of the cheat virtual machine: loading, the machine invariant, straight-line
  blocks, skipped blocks and loops. A program text is a list of opcodes that stands encoded
  at the instruction pointer (\<open>upcoming\<close>).
\<close>

subsection \<open>Loading\<close>

definition enabled_opcodes :: "cheat_entry list \<Rightarrow> u32 list" where
  "enabled_opcodes cheats =
     concat (map (\<lambda>c. take (definition_num_opcodes c) (definition_opcodes c)) (filter enabled cheats))"

definition cheat_ok :: "cheat_entry \<Rightarrow> bool" where
  "cheat_ok c \<longleftrightarrow> definition_num_opcodes c \<le> List.length (definition_opcodes c)"

lemma copy_opcodes_eq:
  assumes "num_opcodes m + List.length xs \<le> List.length (program m)"
  shows "copy_opcodes m xs =
    m\<lparr>program := take (num_opcodes m) (program m) @ xs
        @ drop (num_opcodes m + List.length xs) (program m),
      num_opcodes := num_opcodes m + List.length xs\<rparr>"
  using assms
proof (induction xs arbitrary: m)
  case Nil
  then show ?case by simp
next
  case (Cons x xs)
  let ?n = "num_opcodes m"
  have "take (Suc ?n) ((program m)[?n := x]) = take ?n (program m) @ [x]"
    using Cons.prems by (simp add: take_Suc_conv_app_nth)
  then show ?case using Cons.prems by (simp add: Cons.IH drop_update_cancel)
qed

lemma load_cheats_eq:
  assumes "\<forall>c \<in> set cheats. cheat_ok c" and "List.length (program m) = MaximumProgramOpcodeCount"
    and "num_opcodes m \<le> MaximumProgramOpcodeCount"
  shows "load_cheats m cheats = (ok, m') \<Longrightarrow>
    (if num_opcodes m + List.length (enabled_opcodes cheats) \<le> MaximumProgramOpcodeCount
     then ok \<and> m' = m\<lparr>program := take (num_opcodes m) (program m) @ enabled_opcodes cheats
             @ drop (num_opcodes m + List.length (enabled_opcodes cheats)) (program m),
           num_opcodes := num_opcodes m + List.length (enabled_opcodes cheats)\<rparr>
     else \<not> ok \<and> num_opcodes m' = 0)"
  using assms
proof (induction cheats arbitrary: m)
  case Nil
  then show ?case by (simp add: enabled_opcodes_def)
next
  case (Cons c cs)
  let ?xs = "take (definition_num_opcodes c) (definition_opcodes c)"
  obtain xs where xs: "?xs = xs" by blast
  have len: "List.length xs = definition_num_opcodes c"
    using Cons.prems(2) by (simp add: cheat_ok_def flip: xs)
  show ?case
  proof (cases "enabled c \<and> definition_num_opcodes c + num_opcodes m \<le> MaximumProgramOpcodeCount")
    case True
    let ?m1 = "copy_opcodes m xs"
    have m1: "?m1 = m\<lparr>program := take (num_opcodes m) (program m) @ xs
        @ drop (num_opcodes m + definition_num_opcodes c) (program m),
      num_opcodes := num_opcodes m + definition_num_opcodes c\<rparr>"
      using True Cons.prems len copy_opcodes_eq [of m xs] by simp
    have e: "enabled_opcodes (c # cs) = xs @ enabled_opcodes cs"
      using True by (simp add: enabled_opcodes_def xs)
    have "load_cheats ?m1 cs = (ok, m')" using Cons.prems(1) True by (simp add: xs)
    from Cons.IH [OF this] show ?thesis
      using Cons.prems True unfolding m1 e by (simp add: len add.assoc add.commute add.left_commute)
  next
    case False
    show ?thesis
    proof (cases "enabled c")
      case True
      then have "enabled_opcodes (c # cs) = xs @ enabled_opcodes cs" by (simp add: enabled_opcodes_def xs)
      then show ?thesis using False True Cons.prems(1) len by auto
    next
      case off: False
      then have "enabled_opcodes (c # cs) = enabled_opcodes cs" by (simp add: enabled_opcodes_def)
      then show ?thesis using off Cons.IH [of m] Cons.prems by simp
    qed
  qed
qed

subsection \<open>Register indices\<close>

definition offset_registers :: "store_offset \<Rightarrow> nat list" where
  "offset_registers ofs = (case ofs of OfsReg r \<Rightarrow> [r] | _ \<Rightarrow> [])"

definition operand_registers :: "value_operand \<Rightarrow> nat list" where
  "operand_registers operand =
     (case operand of MemoryOfsReg _ r \<Rightarrow> [r] | RegisterRelAddr r _ \<Rightarrow> [r]
      | RegisterOfsReg r r' \<Rightarrow> [r, r'] | OtherRegister r \<Rightarrow> [r] | _ \<Rightarrow> [])"

lemma registers_simps [simp]:
  "offset_registers OfsNone = []" "offset_registers (OfsReg r) = [r]" "offset_registers (OfsImm a) = []"
  "offset_registers (OfsMemReg t) = []" "offset_registers (OfsMemImm t a) = []"
  "offset_registers (OfsMemImmReg t a) = []"
  "operand_registers (MemoryRelAddr t a) = []" "operand_registers (MemoryOfsReg t r) = [r]"
  "operand_registers (RegisterRelAddr r a) = [r]" "operand_registers (RegisterOfsReg r r') = [r, r']"
  "operand_registers (StaticValue v) = []" "operand_registers (OtherRegister r) = [r]"
  "operand_registers (OtherOperand k) = []"
  by (simp_all add: offset_registers_def operand_registers_def)

text \<open>Every index at which an opcode reads or writes the register arrays.\<close>

fun opcode_registers :: "vm_opcode \<Rightarrow> nat list" where
  "opcode_registers (StoreStatic _ _ r _ _) = [r]"
| "opcode_registers (BeginConditionalBlock _ _ _ _ _) = []"
| "opcode_registers EndConditionalBlock = []"
| "opcode_registers (StartLoop r _) = [r]"
| "opcode_registers (EndLoop r) = [r]"
| "opcode_registers (LoadRegisterStatic r _) = [r]"
| "opcode_registers (LoadRegisterMemory _ _ r _ _) = [r]"
| "opcode_registers (StoreStaticToAddress _ r _ _ r' _) = [r, r']"
| "opcode_registers (PerformArithmeticStatic _ r _ _) = [r]"
| "opcode_registers (BeginKeypressConditionalBlock _) = []"
| "opcode_registers (PerformArithmeticRegister _ _ d s (RegOperand s')) = [d, s, s']"
| "opcode_registers (PerformArithmeticRegister _ _ d s (ImmOperand _)) = [d, s]"
| "opcode_registers (StoreRegisterToAddress _ s r _ ofs) = s # r # offset_registers ofs"
| "opcode_registers (BeginRegisterConditionalBlock _ _ r operand) = r # operand_registers operand"
| "opcode_registers (SaveRestoreRegister d s _) = [d, s]"
| "opcode_registers (SaveRestoreRegisterMask _ bs) = [0..<List.length bs]"
| "opcode_registers (DebugLog _ _ operand) = operand_registers operand"

definition below16 :: "nat list \<Rightarrow> bool" where
  "below16 rs = list_all (\<lambda>r. r < NumRegisters) rs"

lemma below16_simps [simp]:
  "below16 []" "below16 (r # rs) \<longleftrightarrow> r < 16 \<and> below16 rs" "below16 [0..<16]"
  by (simp_all add: below16_def NumRegisters_def list_all_iff)

definition returns :: "'a decoder \<Rightarrow> ('a \<Rightarrow> bool) \<Rightarrow> bool" where
  "returns p P \<longleftrightarrow> (\<forall>s. P (fst (run_state p s)))"

lemma returns_return: "P x \<Longrightarrow> returns (State_Monad.return x) P"
  by (simp add: returns_def)

lemma returns_bind:
  "\<lbrakk>returns p Q; \<And>x. Q x \<Longrightarrow> returns (f x) P\<rbrakk> \<Longrightarrow> returns (State_Monad.bind p f) P"
  unfolding returns_def by (simp split: prod.split) (metis fst_conv)

lemma returns_if: "\<lbrakk>returns p P; returns q P\<rbrakk> \<Longrightarrow> returns (if b then p else q) P"
  by simp

lemma returns_True: "returns p (\<lambda>_. True)"
  by (simp add: returns_def)

lemmas returns_bind_any = returns_bind [OF returns_True]

lemma returns_decode_store_offset:
  "returns (decode_store_offset d) (\<lambda>ofs. below16 (offset_registers ofs))"
  unfolding decode_store_offset_def
  by (auto intro!: returns_return returns_bind_any simp: nybble_less)

lemma returns_decode_address_operand:
  "returns (decode_address_operand d k) (\<lambda>operand. below16 (operand_registers operand))"
  unfolding decode_address_operand_def
  by (auto intro!: returns_return returns_bind_any simp: nybble_less)

lemma returns_decode_opcode:
  "returns (decode_opcode d) (\<lambda>r. case r of None \<Rightarrow> True | Some op \<Rightarrow> below16 (opcode_registers op))"
proof -
  have some: "returns (State_Monad.bind p (\<lambda>x. State_Monad.return (Some x)))
      (\<lambda>r. case r of None \<Rightarrow> True | Some op \<Rightarrow> below16 (opcode_registers op))"
    if "returns p (\<lambda>op. below16 (opcode_registers op))" for p
    by (rule returns_bind [OF that]) (simp add: returns_return)
  have 1: "returns (decode_begin_reg_cond d) (\<lambda>op. below16 (opcode_registers op))"
    unfolding decode_begin_reg_cond_def
    by (rule returns_bind [where Q = "\<lambda>operand. below16 (operand_registers operand)"])
      (auto intro!: returns_return returns_bind_any returns_decode_address_operand
        simp: nybble_less)
  have 2: "returns (decode_debug_log d) (\<lambda>op. below16 (opcode_registers op))"
    unfolding decode_debug_log_def
    by (rule returns_bind [where Q = "\<lambda>operand. below16 (operand_registers operand)"])
      (auto intro!: returns_return returns_decode_address_operand
        simp: nybble_less)
  have 3: "returns (decode_str_register d) (\<lambda>op. below16 (opcode_registers op))"
    unfolding decode_str_register_def
    by (rule returns_bind [OF returns_decode_store_offset]) (simp add: returns_return nybble_less)
  have rest:
    "returns (decode_store_static d) (\<lambda>op. below16 (opcode_registers op))"
    "returns (decode_begin_cond d) (\<lambda>op. below16 (opcode_registers op))"
    "returns (decode_ctrl_loop d) (\<lambda>op. below16 (opcode_registers op))"
    "returns (decode_ldr_static d) (\<lambda>op. below16 (opcode_registers op))"
    "returns (decode_ldr_memory d) (\<lambda>op. below16 (opcode_registers op))"
    "returns (decode_str_static d) (\<lambda>op. below16 (opcode_registers op))"
    "returns (decode_math_static d) (\<lambda>op. below16 (opcode_registers op))"
    "returns (decode_math_reg d) (\<lambda>op. below16 (opcode_registers op))"
    "returns (decode_save_restore d) (\<lambda>op. below16 (opcode_registers op))"
    "returns (decode_save_restore_mask d) (\<lambda>op. below16 (opcode_registers op))"
    by (auto intro!: returns_return returns_bind_any simp: nybble_less
        decode_store_static_def decode_begin_cond_def decode_ctrl_loop_def decode_ldr_static_def
        decode_ldr_memory_def decode_str_static_def decode_math_static_def decode_math_reg_def
        decode_save_restore_def decode_save_restore_mask_def)
  show ?thesis
    unfolding decode_opcode_def Let_def
    by (intro returns_if some 1 2 3 rest returns_return) simp_all
qed

lemma decoded_registers:
  assumes "DecodeNextOpcode m = (Some op, m')"
  shows "below16 (opcode_registers op)"
proof -
  obtain d s where "Some op = fst (run_state (decode_opcode d) s)"
    using assms by (auto simp: DecodeNextOpcode_def Let_def split: prod.splits if_splits)
      (metis fst_conv)
  then show ?thesis
    using returns_decode_opcode [of d] unfolding returns_def by (metis option.simps(5))
qed

subsection \<open>The machine invariant\<close>

definition vm_ok :: "vm \<Rightarrow> bool" where
  "vm_ok m \<longleftrightarrow>
     List.length (program m) = MaximumProgramOpcodeCount \<and>
     List.length (registers m) = NumRegisters \<and> List.length (saved_values m) = NumRegisters \<and>
     List.length (loop_tops m) = NumRegisters \<and>
     num_opcodes m \<le> MaximumProgramOpcodeCount \<and> instruction_ptr m \<le> num_opcodes m \<and>
     (\<forall>t \<in> set (loop_tops m). t \<le> num_opcodes m)"

definition same_code :: "vm \<Rightarrow> vm \<Rightarrow> bool" where
  "same_code m m' \<longleftrightarrow> program m' = program m \<and> num_opcodes m' = num_opcodes m"

lemma same_code_refl [simp]: "same_code m m" by (simp add: same_code_def)

lemma same_code_trans: "\<lbrakk>same_code a b; same_code b c\<rbrakk> \<Longrightarrow> same_code a c"
  by (simp add: same_code_def)

lemma vm_ok_DecodeNextOpcode:
  assumes "vm_ok m" and "DecodeNextOpcode m = (r, m')"
  shows "vm_ok m' \<and> same_code m m'"
  by (rule DecodeNextOpcode_cases [OF assms(2)]) (use assms(1) in \<open>auto simp: vm_ok_def same_code_def\<close>)

lemma vm_ok_depth [simp]: "vm_ok (m\<lparr>condition_depth := d\<rparr>) = vm_ok m"
  by (simp add: vm_ok_def)

lemma same_code_depth [simp]: "same_code (m\<lparr>condition_depth := d\<rparr>) m' = same_code m m'"
  "same_code m (m'\<lparr>condition_depth := d\<rparr>) = same_code m m'"
  by (simp_all add: same_code_def)

lemma vm_ok_skip_loop: "vm_ok m \<Longrightarrow> vm_ok (skip_loop d m) \<and> same_code m (skip_loop d m)"
proof (induction d m rule: skip_loop.induct)
  case (1 d m)
  show ?case
  proof (cases "condition_depth m > d")
    case False
    then show ?thesis using "1.prems" by (simp add: skip_loop.simps)
  next
    case True
    obtain r m' where r: "DecodeNextOpcode m = (r, m')" by (metis surj_pair)
    note ok = vm_ok_DecodeNextOpcode [OF "1.prems" r]
    show ?thesis
    proof (cases r)
      case None
      then show ?thesis using True r ok by (simp add: skip_loop.simps [of d m])
    next
      case (Some op)
      let ?m2 = "if begin_conditional_block op then m'\<lparr>condition_depth := condition_depth m' + 1\<rparr>
                else if op = EndConditionalBlock
                then m'\<lparr>condition_depth := condition_depth m' - 1\<rparr> else m'"
      have "vm_ok ?m2 \<and> same_code m ?m2" using ok by simp
      moreover have "skip_loop d m = skip_loop d ?m2"
        using True r Some by (simp add: skip_loop.simps [of d m])
      ultimately show ?thesis
        using "1.IH" [OF True r [symmetric] Some] same_code_trans by metis
    qed
  qed
qed

lemma length_mask_copy [simp]: "List.length (mask_copy cl bs i src dst) = List.length dst"
  by (induction bs arbitrary: i dst) simp_all

lemma vm_ok_set_reg [simp]: "vm_ok (set_reg i v m) = vm_ok m"
  by (simp add: vm_ok_def set_reg_def)

lemma set_reg_sel [simp]:
  "registers (set_reg i v m) = (registers m)[i := v]" "program (set_reg i v m) = program m"
  "num_opcodes (set_reg i v m) = num_opcodes m" "instruction_ptr (set_reg i v m) = instruction_ptr m"
  "condition_depth (set_reg i v m) = condition_depth m" "loop_tops (set_reg i v m) = loop_tops m"
  "decode_success (set_reg i v m) = decode_success m" "saved_values (set_reg i v m) = saved_values m"
  by (simp_all add: set_reg_def)

lemma same_code_set_reg [simp]: "same_code m (set_reg i v m') = same_code m m'"
  by (simp add: same_code_def)

lemma skip_unless_ok:
  assumes "skip_unless b (m, w) = Some (m', w')" and "vm_ok m"
  shows "vm_ok m' \<and> same_code m m'"
  using assms vm_ok_skip_loop [of m "condition_depth m - 1"]
  by (auto simp: skip_unless_def SkipConditionalBlock_def split: if_splits)

lemmas exec_defs =
  exec_store_static_def exec_begin_cond_def exec_end_cond_def exec_start_loop_def
  exec_ldr_memory_def exec_str_static_def exec_math_static_def exec_keypress_def
  exec_math_reg_def exec_str_register_def exec_begin_reg_cond_def exec_debug_log_def

lemma vm_ok_exec_opcode:
  assumes "exec_opcode env op (m, w) = Some (m', w')" and "vm_ok m"
    and "below16 (opcode_registers op)"
  shows "vm_ok m' \<and> same_code m m'"
proof (cases op)
  case (EndLoop r)
  have "loop_tops m ! r \<le> num_opcodes m"
    using assms(2,3) EndLoop by (simp add: vm_ok_def NumRegisters_def)
  then show ?thesis
    using assms EndLoop
    by (auto simp: exec_end_loop_def Let_def same_code_def vm_ok_def NumRegisters_def split: if_splits)
next
  case (BeginConditionalBlock b t c a v)
  then show ?thesis using assms(1) by (auto simp: exec_begin_cond_def Let_def intro!: skip_unless_ok [OF _ assms(2)])
next
  case (BeginKeypressConditionalBlock k)
  then show ?thesis using assms(1) by (auto simp: exec_keypress_def intro!: skip_unless_ok [OF _ assms(2)])
next
  case (BeginRegisterConditionalBlock b c r operand)
  then show ?thesis
    using assms(1) by (auto simp: exec_begin_reg_cond_def Let_def intro!: skip_unless_ok [OF _ assms(2)])
next
  case (StartLoop r n)
  then show ?thesis
    using assms by (auto simp: exec_start_loop_def vm_ok_def same_code_def dest!: set_update_subset_insert [THEN subsetD])
next
  case (SaveRestoreRegisterMask t bs)
  then show ?thesis
    using assms by (auto simp: exec_save_restore_mask_def vm_ok_def same_code_def split: save_restore_op.splits)
next
  case (SaveRestoreRegister d s t)
  then show ?thesis
    using assms by (auto simp: exec_save_restore_def vm_ok_def same_code_def split: save_restore_op.splits)
qed (use assms in \<open>auto simp: exec_store_static_def exec_end_cond_def exec_ldr_memory_def
    exec_str_static_def exec_math_static_def exec_math_reg_def exec_str_register_def
    exec_debug_log_def Let_def split: if_splits\<close>)

lemma vm_ok_step:
  assumes "vm_step env (m, w) = Continue (m', w') \<or> vm_step env (m, w) = Finished (m', w')"
    and "vm_ok m"
  shows "vm_ok m' \<and> same_code m m'"
proof -
  obtain r m1 where r: "DecodeNextOpcode m = (r, m1)" by (metis surj_pair)
  note ok = vm_ok_DecodeNextOpcode [OF assms(2) r]
  show ?thesis
  proof (cases r)
    case None
    then show ?thesis using assms(1) r ok by (auto simp: vm_step_def)
  next
    case (Some op)
    let ?m2 = "if begin_conditional_block op then m1\<lparr>condition_depth := condition_depth m1 + 1\<rparr> else m1"
    have e: "exec_opcode env op (?m2, w) = Some (m', w')"
      using assms(1) r Some by (auto simp: vm_step_def Let_def split: option.splits if_splits)
    have ok2: "vm_ok ?m2 \<and> same_code m ?m2" using ok by simp
    have "vm_ok m' \<and> same_code ?m2 m'"
      using vm_ok_exec_opcode [OF e] ok2 decoded_registers r Some by blast
    then show ?thesis using ok2 same_code_trans by blast
  qed
qed

subsection \<open>No abort\<close>

lemma vm_step_no_abort: "vm_step env s \<noteq> VmAbort"
proof -
  obtain m w where s: "s = (m, w)" by (cases s)
  have "exec_opcode env op (if begin_conditional_block op
      then m'\<lparr>condition_depth := condition_depth m' + 1\<rparr> else m', w) \<noteq> None" for op m'
    by (cases op) (auto simp: begin_conditional_block_def exec_begin_cond_def exec_keypress_def
        exec_begin_reg_cond_def skip_unless_def SkipConditionalBlock_def Let_def)
  then have ex: "\<exists>t. exec_opcode env op (if begin_conditional_block op
      then m'\<lparr>condition_depth := condition_depth m' + 1\<rparr> else m', w) = Some t" for op m'
    by (simp only: not_None_eq)
  obtain r m1 where r: "DecodeNextOpcode m = (r, m1)" by (metis surj_pair)
  show ?thesis
  proof (cases r)
    case None
    then show ?thesis by (simp add: s vm_step_def r)
  next
    case (Some op)
    obtain t where "exec_opcode env op (if begin_conditional_block op
      then m1\<lparr>condition_depth := condition_depth m1 + 1\<rparr> else m1, w) = Some t" using ex by blast
    then show ?thesis by (simp only: s vm_step_def r Some Let_def prod.case option.case) simp
  qed
qed

subsection \<open>Straight-line blocks\<close>

definition straight :: "vm_opcode \<Rightarrow> bool" where
  "straight op \<longleftrightarrow> (case op of
      EndConditionalBlock \<Rightarrow> False | StartLoop _ _ \<Rightarrow> False | EndLoop _ \<Rightarrow> False
    | _ \<Rightarrow> \<not> begin_conditional_block op)"

definition at :: "nat \<Rightarrow> 'w machine \<Rightarrow> 'w machine" where
  "at ip = (\<lambda>(m, w). (m\<lparr>instruction_ptr := ip\<rparr>, w))"

text \<open>The effect of a straight-line opcode; it does not depend on the instruction pointer.\<close>

definition effect :: "'w vm_env \<Rightarrow> vm_opcode \<Rightarrow> 'w machine \<Rightarrow> 'w machine" where
  "effect env op s = (case exec_opcode env op s of None \<Rightarrow> s | Some s' \<Rightarrow> s')"

definition block_effect :: "'w vm_env \<Rightarrow> vm_opcode list \<Rightarrow> 'w machine \<Rightarrow> 'w machine" where
  "block_effect env ops s = fold (effect env) ops s"

definition same_control :: "vm \<Rightarrow> vm \<Rightarrow> bool" where
  "same_control m m' \<longleftrightarrow> same_code m m' \<and> instruction_ptr m' = instruction_ptr m \<and>
     loop_tops m' = loop_tops m \<and> condition_depth m' = condition_depth m \<and>
     decode_success m' = decode_success m \<and>
     List.length (registers m') = List.length (registers m)"

lemma same_control_refl [simp]: "same_control m m" by (simp add: same_control_def)

lemma same_control_trans: "\<lbrakk>same_control a b; same_control b c\<rbrakk> \<Longrightarrow> same_control a c"
  by (auto simp: same_control_def same_code_def)

lemma set_reg_at: "set_reg i v (m\<lparr>instruction_ptr := ip\<rparr>) = (set_reg i v m)\<lparr>instruction_ptr := ip\<rparr>"
  by (simp add: set_reg_def)

lemma operand_value_at:
  "operand_value env b operand (m\<lparr>instruction_ptr := ip\<rparr>, w) = operand_value env b operand (m, w)"
  by (simp add: operand_value_def operand_address_def split: value_operand.split)

lemmas straight_defs =
  exec_store_static_def exec_ldr_memory_def exec_str_static_def exec_math_static_def
  exec_math_reg_def exec_str_register_def exec_debug_log_def exec_save_restore_def
  exec_save_restore_mask_def

lemma straight_effect:
  assumes "straight op"
  shows "exec_opcode env op s = Some (effect env op s)"
    and "effect env op (at ip s) = at ip (effect env op s)"
    and "same_control (fst s) (fst (effect env op s))"
proof -
  obtain m w where s: "s = (m, w)" by (cases s)
  show "exec_opcode env op s = Some (effect env op s)"
    using assms unfolding s effect_def
    by (cases op) (auto simp: straight_def begin_conditional_block_def)
  show "effect env op (at ip s) = at ip (effect env op s)"
    using assms unfolding s effect_def at_def
    by (cases op) (auto simp: straight_def begin_conditional_block_def straight_defs set_reg_at
        operand_value_at Let_def split: option.splits save_restore_op.splits register_operand.splits
        store_offset.splits)
  show "same_control (fst s) (fst (effect env op s))"
    using assms unfolding s effect_def
    by (cases op) (auto simp: straight_def begin_conditional_block_def straight_defs
        same_control_def same_code_def Let_def split: save_restore_op.splits)
qed

lemma block_effect_simps [simp]:
  "block_effect env [] s = s"
  "block_effect env (op # ops) s = block_effect env ops (effect env op s)"
  by (simp_all add: block_effect_def)

lemma block_effect_at:
  "list_all straight ops \<Longrightarrow> block_effect env ops (at ip s) = at ip (block_effect env ops s)"
  by (induction ops arbitrary: s) (simp_all add: straight_effect(2))

lemma block_effect_control:
  "list_all straight ops \<Longrightarrow> same_control (fst s) (fst (block_effect env ops s))"
proof (induction ops arbitrary: s)
  case (Cons op ops)
  then have "same_control (fst s) (fst (effect env op s))" by (simp add: straight_effect(3))
  moreover have "same_control (fst (effect env op s)) (fst (block_effect env ops (effect env op s)))"
    using Cons by simp
  ultimately show ?case by (simp add: same_control_trans)
qed simp

definition encode_all :: "vm_opcode list \<Rightarrow> u32 list" where
  "encode_all ops = concat (map encode ops)"

lemma encode_all_simps [simp]:
  "encode_all [] = []" "encode_all (op # ops) = encode op @ encode_all ops"
  "encode_all (xs @ ys) = encode_all xs @ encode_all ys"
  by (simp_all add: encode_all_def)

text \<open>Decoding one opcode of an encoded program.\<close>

lemma decode_upcoming:
  assumes "opcode_ok op" and "upcoming (encode op @ rest) m" and "decode_success m"
  shows "DecodeNextOpcode m =
      (Some op, m\<lparr>instruction_ptr := instruction_ptr m + List.length (encode op)\<rparr>)"
    and "upcoming rest (m\<lparr>instruction_ptr := instruction_ptr m + List.length (encode op)\<rparr>)"
proof -
  obtain d xs where e: "encode op = d # xs" and r: "reads (decode_opcode d) xs (Some op)"
    using reads_decode_opcode [OF assms(1)] by blast
  have u: "upcoming (encode op) m" "upcoming rest (m\<lparr>instruction_ptr := instruction_ptr m + List.length (encode op)\<rparr>)"
    using assms(2) unfolding upcoming_append by simp_all
  show "DecodeNextOpcode m =
      (Some op, m\<lparr>instruction_ptr := instruction_ptr m + List.length (encode op)\<rparr>)"
    unfolding e using u(1) by (intro reads_DecodeNextOpcode [OF r _ assms(3)]) (simp only: e)
  show "upcoming rest (m\<lparr>instruction_ptr := instruction_ptr m + List.length (encode op)\<rparr>)"
    by (rule u(2))
qed

lemma upcoming_same_control: "same_control m m' \<Longrightarrow> upcoming xs m' = upcoming xs m"
  by (simp add: upcoming_def same_control_def same_code_def)

lemma straight_step:
  assumes "opcode_ok op" "straight op" "upcoming (encode op) m" "decode_success m"
  shows "vm_step env (m, w) =
    Continue (at (instruction_ptr m + List.length (encode op)) (effect env op (m, w)))"
proof -
  have "DecodeNextOpcode m =
      (Some op, m\<lparr>instruction_ptr := instruction_ptr m + List.length (encode op)\<rparr>)"
    using decode_upcoming(1) [of op "[]"] assms by simp
  moreover have "\<not> begin_conditional_block op"
    using assms(2) by (auto simp: straight_def split: vm_opcode.splits)
  ultimately show ?thesis
    using straight_effect(2) [OF assms(2), of env _ "(m, w)"]
    by (simp add: vm_step_def at_def straight_effect(1) [OF assms(2)])
qed

lemma run_block:
  assumes "list_all opcode_ok ops" "list_all straight ops" "upcoming (encode_all ops) m"
    "decode_success m"
  shows "exec_loop (List.length ops + fuel) env (m, w) =
    exec_loop fuel env (at (instruction_ptr m + List.length (encode_all ops)) (block_effect env ops (m, w)))"
  using assms
proof (induction ops arbitrary: m w)
  case Nil
  then show ?case by (simp add: at_def)
next
  case (Cons op ops)
  obtain m' w' where e: "effect env op (m, w) = (m', w')" by (metis surj_pair)
  have sc: "same_control m m'" using straight_effect(3) [of op "(m, w)" env] Cons.prems e by simp
  let ?ip = "instruction_ptr m + List.length (encode op)"
  have u: "upcoming (encode op) m" "upcoming (encode_all ops) (m\<lparr>instruction_ptr := ?ip\<rparr>)"
    using Cons.prems(3) unfolding encode_all_simps upcoming_append by simp_all
  have u': "upcoming (encode_all ops) (m'\<lparr>instruction_ptr := ?ip\<rparr>)"
    using u(2) sc by (simp add: upcoming_def same_control_def same_code_def)
  have step: "vm_step env (m, w) = Continue (m'\<lparr>instruction_ptr := ?ip\<rparr>, w')"
    using straight_step [of op m env w] Cons.prems u(1) e by (simp add: at_def)
  have "exec_loop (List.length ops + fuel) env (m'\<lparr>instruction_ptr := ?ip\<rparr>, w') =
      exec_loop fuel env (at (?ip + List.length (encode_all ops))
        (block_effect env ops (m'\<lparr>instruction_ptr := ?ip\<rparr>, w')))"
    using Cons.IH [OF _ _ u', of w'] Cons.prems sc by (simp add: same_control_def)
  also have "block_effect env ops (m'\<lparr>instruction_ptr := ?ip\<rparr>, w') = at ?ip (block_effect env ops (m', w'))"
    using block_effect_at [of ops env ?ip "(m', w')"] Cons.prems by (simp add: at_def)
  finally show ?case
    using step by (simp add: e add.assoc) (simp add: at_def split: prod.split)
qed

subsection \<open>Conditional blocks\<close>

text \<open>The depth after a list of opcodes, when no block is closed that was not opened.\<close>

fun nesting :: "nat \<Rightarrow> vm_opcode list \<Rightarrow> nat option" where
  "nesting d [] = Some d"
| "nesting d (op # ops) =
     (if begin_conditional_block op then nesting (Suc d) ops
      else if op = EndConditionalBlock then (if d = 0 then None else nesting (d - 1) ops)
      else nesting d ops)"

lemma skip_loop_block:
  assumes "list_all opcode_ok body" "nesting d body = Some 0"
    "upcoming (encode_all (body @ [EndConditionalBlock])) m" "decode_success m"
    "condition_depth m = Suc (base + d)"
  shows "skip_loop base m =
    m\<lparr>instruction_ptr := instruction_ptr m + List.length (encode_all (body @ [EndConditionalBlock])),
      condition_depth := base\<rparr>"
  using assms
proof (induction body arbitrary: d m)
  case Nil
  then have "DecodeNextOpcode m =
      (Some EndConditionalBlock, m\<lparr>instruction_ptr := instruction_ptr m + 1\<rparr>)"
    using decode_upcoming(1) [of EndConditionalBlock "[]" m] by simp
  then show ?case
    using Nil.prems
    by (simp add: skip_loop.simps [of base m] skip_loop.simps [of base "_\<lparr>condition_depth := _\<rparr>"]
        begin_conditional_block_def)
next
  case (Cons op body)
  let ?m1 = "m\<lparr>instruction_ptr := instruction_ptr m + List.length (encode op)\<rparr>"
  have "upcoming (encode op @ encode_all (body @ [EndConditionalBlock])) m"
    using Cons.prems(3) by simp
  then have dec: "DecodeNextOpcode m = (Some op, ?m1)"
    and u: "upcoming (encode_all (body @ [EndConditionalBlock])) ?m1"
    using decode_upcoming [of op _ m] Cons.prems(1,4) by simp_all
  define d' where "d' = (if begin_conditional_block op then Suc d
      else if op = EndConditionalBlock then d - 1 else d)"
  have n: "nesting d' body = Some 0" and pos: "op = EndConditionalBlock \<longrightarrow> 0 < d"
    using Cons.prems(2) by (auto simp: d'_def begin_conditional_block_def split: if_splits)
  let ?m2 = "?m1\<lparr>condition_depth := Suc (base + d')\<rparr>"
  have "(if begin_conditional_block op then ?m1\<lparr>condition_depth := condition_depth ?m1 + 1\<rparr>
      else if op = EndConditionalBlock then ?m1\<lparr>condition_depth := condition_depth ?m1 - 1\<rparr>
      else ?m1) = ?m2"
    using Cons.prems(5) pos by (cases m) (auto simp: d'_def begin_conditional_block_def)
  then have "skip_loop base m = skip_loop base ?m2"
    using dec Cons.prems(5) by (subst skip_loop.simps) (simp only: option.case prod.case, simp)
  moreover have "skip_loop base ?m2 =
      ?m2\<lparr>instruction_ptr := instruction_ptr ?m2 + List.length (encode_all (body @ [EndConditionalBlock])),
        condition_depth := base\<rparr>"
    by (rule Cons.IH [OF _ n]) (use Cons.prems u in \<open>simp_all add: upcoming_def\<close>)
  ultimately show ?case by (simp add: add.assoc)
qed

text \<open>Whether the condition that an opcode tests holds.\<close>

definition condition_holds :: "'w vm_env \<Rightarrow> vm_opcode \<Rightarrow> 'w machine \<Rightarrow> bool" where
  "condition_holds env op = (\<lambda>(m, w).
     case op of
       BeginConditionalBlock b t c a v \<Rightarrow>
         condition_met c (guarded_read env w (GetCheatProcessAddress env t a) b 0) (GetVmInt v b)
     | BeginKeypressConditionalBlock k \<Rightarrow> ucast k AND keys_held env = ucast k
     | BeginRegisterConditionalBlock b c r operand \<Rightarrow>
         condition_met c (masked_value b (reg m r)) (operand_value env b operand (m, w))
     | _ \<Rightarrow> False)"

lemma exec_conditional:
  assumes "begin_conditional_block op"
  shows "exec_opcode env op (m, w) = skip_unless (condition_holds env op (m, w)) (m, w)"
  using assms
  by (cases op) (auto simp: begin_conditional_block_def condition_holds_def exec_begin_cond_def
      exec_keypress_def exec_begin_reg_cond_def Let_def)

lemma condition_holds_control [simp]:
  "condition_holds env op (m\<lparr>instruction_ptr := ip\<rparr>, w) = condition_holds env op (m, w)"
  "condition_holds env op (m\<lparr>condition_depth := d\<rparr>, w) = condition_holds env op (m, w)"
  by (auto simp: condition_holds_def operand_value_def operand_address_def split: vm_opcode.splits
      value_operand.splits)

lemma conditional_step:
  assumes "begin_conditional_block op" "opcode_ok op" "list_all opcode_ok body"
    "nesting 0 body = Some 0" "decode_success m"
    "upcoming (encode_all (op # body @ [EndConditionalBlock])) m"
  shows "vm_step env (m, w) =
    Continue
      (if condition_holds env op (m, w)
       then m\<lparr>instruction_ptr := instruction_ptr m + List.length (encode op),
              condition_depth := Suc (condition_depth m)\<rparr>
       else m\<lparr>instruction_ptr := instruction_ptr m
                + List.length (encode_all (op # body @ [EndConditionalBlock]))\<rparr>, w)"
proof -
  let ?m1 = "m\<lparr>instruction_ptr := instruction_ptr m + List.length (encode op)\<rparr>"
  let ?m2 = "?m1\<lparr>condition_depth := Suc (condition_depth m)\<rparr>"
  have "upcoming (encode op @ encode_all (body @ [EndConditionalBlock])) m"
    using assms(6) by simp
  then have dec: "DecodeNextOpcode m = (Some op, ?m1)"
    and u: "upcoming (encode_all (body @ [EndConditionalBlock])) ?m1"
    using decode_upcoming [of op _ m] assms(2,5) by simp_all
  have skip: "skip_loop (condition_depth m) ?m2 =
      ?m2\<lparr>instruction_ptr := instruction_ptr ?m2 + List.length (encode_all (body @ [EndConditionalBlock])),
        condition_depth := condition_depth m\<rparr>"
    by (rule skip_loop_block [OF assms(3,4)]) (use u assms(5) in \<open>simp_all add: upcoming_def\<close>)
  have e: "exec_opcode env op (?m2, w) = skip_unless (condition_holds env op (m, w)) (?m2, w)"
    unfolding exec_conditional [OF assms(1), of env ?m2 w] by simp
  show ?thesis
    using dec assms(1) e skip
    by (simp add: vm_step_def Let_def skip_unless_def SkipConditionalBlock_def add.assoc)
qed

subsection \<open>Counted loops\<close>

text \<open>The registers an opcode may write.\<close>

fun written_registers :: "vm_opcode \<Rightarrow> nat list" where
  "written_registers (StartLoop r _) = [r]"
| "written_registers (EndLoop r) = [r]"
| "written_registers (LoadRegisterStatic r _) = [r]"
| "written_registers (LoadRegisterMemory _ _ r _ _) = [r]"
| "written_registers (StoreStaticToAddress _ r inc _ _ _) = (if inc then [r] else [])"
| "written_registers (PerformArithmeticStatic _ r _ _) = [r]"
| "written_registers (PerformArithmeticRegister _ _ d _ _) = [d]"
| "written_registers (StoreRegisterToAddress _ _ r inc _) = (if inc then [r] else [])"
| "written_registers (SaveRestoreRegister d _ _) = [d]"
| "written_registers (SaveRestoreRegisterMask _ bs) = filter (\<lambda>i. bs ! i) [0..<List.length bs]"
| "written_registers _ = []"

lemma nth_mask_copy:
  "mask_copy cl bs i src dst ! k =
     (if i \<le> k \<and> k < i + List.length bs \<and> k < List.length dst \<and> bs ! (k - i)
      then (if cl then 0 else src ! k) else dst ! k)"
proof (induction bs arbitrary: i dst)
  case (Cons b bs)
  show ?case
  proof (cases "k = i")
    case True
    then show ?thesis using Cons.IH [of "Suc i"] by (cases "i < List.length dst") (simp_all add: list_update_beyond)
  next
    case False
    then have "i \<le> k \<Longrightarrow> (b # bs) ! (k - i) = bs ! (k - Suc i)"
      by (simp add: nth_Cons' diff_Suc_eq_diff_pred [symmetric])
    then show ?thesis using False by (auto simp: Cons.IH)
  qed
qed auto

lemma effect_unwritten:
  assumes "straight op" "r \<notin> set (written_registers op)"
  shows "reg (fst (effect env op s)) r = reg (fst s) r"
proof -
  obtain m w where s: "s = (m, w)" by (cases s)
  show ?thesis
    using assms unfolding s effect_def
    by (cases op) (auto simp: straight_def begin_conditional_block_def straight_defs nth_mask_copy
        Let_def split: save_restore_op.splits if_splits)
qed

lemma block_unwritten:
  assumes "list_all straight ops" "list_all (\<lambda>op. r \<notin> set (written_registers op)) ops"
  shows "reg (fst (block_effect env ops s)) r = reg (fst s) r"
  using assms
proof (induction ops arbitrary: s)
  case (Cons op ops)
  then show ?case using effect_unwritten [of op r env s] by simp
qed simp

text \<open>One iteration: the body, then the count down.\<close>

definition iteration :: "'w vm_env \<Rightarrow> nat \<Rightarrow> vm_opcode list \<Rightarrow> 'w machine \<Rightarrow> 'w machine" where
  "iteration env r body s =
     (case block_effect env body s of (m, w) \<Rightarrow> (set_reg r (reg m r - 1) m, w))"

lemma iteration_control:
  assumes "list_all straight body"
  shows "same_control (fst s) (fst (iteration env r body s))"
proof -
  have "same_control m (set_reg i v m)" for m i v by (simp add: same_control_def)
  then show ?thesis
    using block_effect_control [OF assms, of s env]
    by (auto simp: iteration_def split: prod.split intro: same_control_trans)
qed

lemma iteration_at:
  "list_all straight body \<Longrightarrow> iteration env r body (at ip s) = at ip (iteration env r body s)"
  by (simp add: iteration_def block_effect_at)
    (simp add: at_def set_reg_at split: prod.split)

lemma at_at [simp]: "at ip (at ip' s) = at ip s"
  by (cases s) (simp add: at_def)

lemma end_loop_step:
  assumes "upcoming (encode (EndLoop r)) m" "decode_success m" "r < 16"
    "r < List.length (registers m)"
  shows "vm_step env (m, w) =
    Continue
      (at (if reg m r - 1 \<noteq> 0 then loop_tops m ! r else Suc (instruction_ptr m))
         (set_reg r (reg m r - 1) m, w))"
proof -
  have "DecodeNextOpcode m = (Some (EndLoop r), m\<lparr>instruction_ptr := Suc (instruction_ptr m)\<rparr>)"
    using decode_upcoming(1) [of "EndLoop r" "[]" m] assms by simp
  then show ?thesis
    using assms(4)
    by (simp add: vm_step_def begin_conditional_block_def exec_end_loop_def Let_def at_def set_reg_at)
qed

lemma run_iteration:
  assumes body: "list_all opcode_ok body" "list_all straight body"
      "list_all (\<lambda>op. r \<notin> set (written_registers op)) body"
    and u: "upcoming (encode_all (body @ [EndLoop r])) m"
    and m: "decode_success m" "r < 16" "r < List.length (registers m)"
  shows "exec_loop (Suc (List.length body) + fuel) env (m, w) =
    exec_loop fuel env
      (at (if reg m r - 1 \<noteq> 0 then loop_tops m ! r
           else instruction_ptr m + List.length (encode_all (body @ [EndLoop r])))
         (iteration env r body (m, w)))"
proof -
  let ?ip = "instruction_ptr m + List.length (encode_all body)"
  obtain m' w' where b: "block_effect env body (m, w) = (m', w')" by (metis surj_pair)
  have sc: "same_control m m'" using block_effect_control [OF body(2), of "(m, w)" env] b by simp
  have r: "reg m' r = reg m r" using block_unwritten [OF body(2,3), of env "(m, w)"] b by simp
  have "upcoming (encode_all body @ encode (EndLoop r)) m" using u by simp
  then have u1: "upcoming (encode_all body) m"
    and u2: "upcoming (encode (EndLoop r)) (m\<lparr>instruction_ptr := ?ip\<rparr>)"
    unfolding upcoming_append by simp_all
  have u3: "upcoming (encode (EndLoop r)) (m'\<lparr>instruction_ptr := ?ip\<rparr>)"
    using u2 sc by (simp add: upcoming_def same_control_def same_code_def)
  have "exec_loop (List.length body + Suc fuel) env (m, w) =
      exec_loop (Suc fuel) env (m'\<lparr>instruction_ptr := ?ip\<rparr>, w')"
    using run_block [OF body(1,2) u1 m(1), of "Suc fuel" env w] b by (simp add: at_def)
  also have "\<dots> = exec_loop fuel env
      (at (if reg m r - 1 \<noteq> 0 then loop_tops m ! r else Suc ?ip) (set_reg r (reg m r - 1) m', w'))"
    using end_loop_step [OF u3, of env w'] m sc r
    by (simp add: same_control_def at_def set_reg_at)
  finally show ?thesis
    using r by (simp add: iteration_def b)
qed

lemma run_iterations:
  assumes body: "list_all opcode_ok body" "list_all straight body"
      "list_all (\<lambda>op. r \<notin> set (written_registers op)) body"
    and u: "upcoming (encode_all (body @ [EndLoop r])) m"
    and m: "decode_success m" "r < 16" "r < List.length (registers m)"
      "loop_tops m ! r = instruction_ptr m"
    and k: "unat (reg m r) = Suc k"
  shows "exec_loop (Suc k * Suc (List.length body) + fuel) env (m, w) =
    exec_loop fuel env
      (at (instruction_ptr m + List.length (encode_all (body @ [EndLoop r])))
         ((iteration env r body ^^ Suc k) (m, w)))"
  using u m k
proof (induction k arbitrary: m w)
  case 0
  then have "reg m r = 1" by (simp add: word_unat_eq_iff)
  then have "reg m r - 1 = 0" by simp
  then show ?case using run_iteration [OF body 0(1-4), of fuel env w] by simp
next
  case (Suc k)
  have ne: "reg m r - 1 \<noteq> 0" and un: "unat (reg m r - 1) = Suc k"
    using Suc.prems(6) unat_minus_one [of "reg m r"] by (cases "reg m r = 0"; force)+
  obtain m' w' where i: "iteration env r body (m, w) = (m', w')" by (metis surj_pair)
  have sc: "same_control m m'" using iteration_control [OF body(2), of "(m, w)" env r] i by simp
  have "reg m' r = reg m r - 1"
    using i block_unwritten [OF body(2,3), of env "(m, w)"] block_effect_control [OF body(2), of "(m, w)" env]
      Suc.prems(4)
    by (auto simp: iteration_def same_control_def split: prod.splits)
  then have un': "unat (reg m' r) = Suc k" using un by simp
  have same: "m'\<lparr>instruction_ptr := loop_tops m ! r\<rparr> = m'"
    using sc Suc.prems(5) by (simp add: same_control_def)
  have "exec_loop (Suc (List.length body) + (Suc k * Suc (List.length body) + fuel)) env (m, w) =
      exec_loop (Suc k * Suc (List.length body) + fuel) env (m', w')"
    using run_iteration [OF body Suc.prems(1-4), of "Suc k * Suc (List.length body) + fuel" env w] ne
    by (simp add: i at_def same del: mult_Suc)
  also have "\<dots> = exec_loop fuel env
      (at (instruction_ptr m' + List.length (encode_all (body @ [EndLoop r])))
         ((iteration env r body ^^ Suc k) (m', w')))"
    by (rule Suc.IH) (use Suc.prems sc un' in \<open>auto simp: same_control_def same_code_def upcoming_def\<close>)
  finally show ?case
    using sc by (simp add: same_control_def funpow_Suc_right i algebra_simps del: funpow.simps)
qed

subsection \<open>Programs without backward jumps\<close>

text \<open>No dword of the program has the first two digits of the instruction that ends a loop.\<close>

definition no_end_loop :: "vm \<Rightarrow> bool" where
  "no_end_loop m \<longleftrightarrow>
     (\<forall>d \<in> set (take (num_opcodes m) (program m)). nybble d 28 = 3 \<longrightarrow> nybble d 24 = 0)"

lemma opcode_number_three: "opcode_number d = 3 \<Longrightarrow> nybble d 28 = 3"
  by (auto simp: opcode_number_def Let_def split: if_splits)

lemma decoded_end_loop:
  assumes "DecodeNextOpcode m = (Some (EndLoop r), m')" and "no_end_loop m" and "vm_ok m"
  shows False
proof -
  let ?d = "program m ! instruction_ptr m"
  let ?P = "\<lambda>x. \<forall>r. x = Some (EndLoop r) \<longrightarrow> nybble ?d 28 = 3 \<and> nybble ?d 24 \<noteq> 0"
  have some: "returns (State_Monad.bind p (\<lambda>x. State_Monad.return (Some x))) ?P"
    if "returns p (\<lambda>op. \<forall>r. op = EndLoop r \<longrightarrow> nybble ?d 28 = 3 \<and> nybble ?d 24 \<noteq> 0)" for p
    by (rule returns_bind [OF that]) (simp add: returns_return)
  have "returns (decode_opcode ?d) ?P"
    unfolding decode_opcode_def Let_def
    by (auto intro!: some returns_return returns_bind_any simp: opcode_number_three
        decode_store_static_def decode_begin_cond_def decode_ctrl_loop_def decode_ldr_static_def
        decode_ldr_memory_def decode_str_static_def decode_math_static_def decode_math_reg_def
        decode_str_register_def decode_begin_reg_cond_def decode_debug_log_def
        decode_save_restore_def decode_save_restore_mask_def)
  moreover obtain s where "Some (EndLoop r) = fst (run_state (decode_opcode ?d) s)"
    and lt: "instruction_ptr m < num_opcodes m"
    using assms(1) by (auto simp: DecodeNextOpcode_def GetNextDword_def Let_def split: prod.splits if_splits)
      (metis fst_conv)
  ultimately have "nybble ?d 28 = 3" "nybble ?d 24 \<noteq> 0" unfolding returns_def by metis+
  moreover have "?d \<in> set (take (num_opcodes m) (program m))"
    using lt assms(3) by (auto simp: vm_ok_def in_set_conv_nth intro!: exI [of _ "instruction_ptr m"])
  ultimately show False using assms(2) by (auto simp: no_end_loop_def)
qed

lemma skip_loop_ip: "instruction_ptr m \<le> instruction_ptr (skip_loop d m)"
proof (induction d m rule: skip_loop.induct)
  case (1 d m)
  obtain r m' where r: "DecodeNextOpcode m = (r, m')" by (metis surj_pair)
  have le: "instruction_ptr m \<le> instruction_ptr m'" by (rule DecodeNextOpcode_cases [OF r]) simp
  show ?case
  proof (cases "condition_depth m > d \<and> r \<noteq> None")
    case False
    then show ?thesis using r le by (auto simp: skip_loop.simps [of d m])
  next
    case True
    then obtain op where op: "r = Some op" by blast
    note IH = "1.IH" [OF _ r [symmetric] op]
    show ?thesis
      using IH True r op le by (auto simp: skip_loop.simps [of d m] begin_conditional_block_def)
  qed
qed

lemma exec_opcode_ip:
  assumes "exec_opcode env op (m, w) = Some (m', w')" and "\<And>r. op \<noteq> EndLoop r"
  shows "instruction_ptr m \<le> instruction_ptr m'"
proof (cases "straight op")
  case True
  have "effect env op (m, w) = (m', w')"
    using straight_effect(1) [OF True, of env "(m, w)"] assms(1) by simp
  then show ?thesis
    using straight_effect(3) [OF True, of "(m, w)" env] by (simp add: same_control_def)
next
  case False
  show ?thesis
  proof (cases "begin_conditional_block op")
    case True
    then show ?thesis
      using assms(1) skip_loop_ip [of m] exec_conditional [OF True, of env m w]
      by (auto simp: skip_unless_def SkipConditionalBlock_def split: if_splits)
  next
    case no: False
    then show ?thesis
      using False assms by (cases op) (auto simp: straight_def exec_end_cond_def exec_start_loop_def)
  qed
qed

lemma forward_step:
  assumes "vm_step env (m, w) = Continue (m', w')" and "no_end_loop m" and "vm_ok m"
  shows "instruction_ptr m < instruction_ptr m' \<and> instruction_ptr m' \<le> num_opcodes m'"
proof -
  obtain r m1 where r: "DecodeNextOpcode m = (r, m1)" by (metis surj_pair)
  obtain op where op: "r = Some op"
    using assms(1) r by (cases r) (auto simp: vm_step_def)
  have ne: "op \<noteq> EndLoop i" for i using decoded_end_loop assms(2,3) r op by blast
  have lt: "instruction_ptr m < instruction_ptr m1"
    using r op by (auto elim!: DecodeNextOpcode_Some)
  let ?m2 = "if begin_conditional_block op then m1\<lparr>condition_depth := condition_depth m1 + 1\<rparr> else m1"
  have "exec_opcode env op (?m2, w) = Some (m', w')"
    using assms(1) r op by (auto simp: vm_step_def Let_def split: option.splits if_splits)
  from exec_opcode_ip [OF this ne] lt have "instruction_ptr m < instruction_ptr m'"
    by (simp split: if_splits)
  moreover have "vm_ok m'" using vm_ok_step [of env m w m' w'] assms by simp
  ultimately show ?thesis by (simp add: vm_ok_def)
qed

lemma forward_run:
  assumes "vm_ok m" "no_end_loop m" "num_opcodes m - instruction_ptr m < fuel"
  shows "\<exists>s. exec_loop fuel env (m, w) = Done s"
  using assms
proof (induction fuel arbitrary: m w)
  case (Suc fuel)
  show ?case
  proof (cases "vm_step env (m, w)")
    case (Continue s)
    obtain m' w' where s: "s = (m', w')" by (cases s)
    have ok: "vm_ok m'" "same_code m m'" using vm_ok_step [of env m w m' w'] Continue s Suc.prems(1) by simp_all
    have "instruction_ptr m < instruction_ptr m' \<and> instruction_ptr m' \<le> num_opcodes m'"
      using forward_step [of env m w m' w'] Continue s Suc.prems by simp
    then have "\<exists>s. exec_loop fuel env (m', w') = Done s"
      using ok Suc.prems by (intro Suc.IH) (auto simp: same_code_def no_end_loop_def)
    then show ?thesis using Continue s by simp
  qed (use vm_step_no_abort [of env "(m, w)"] in auto)
qed simp

lemma ResetState_ok: "vm_ok m \<Longrightarrow> vm_ok (ResetState m)"
  by (auto simp: vm_ok_def ResetState_def NumRegisters_def)

lemma exec_loop_no_abort: "exec_loop fuel env s \<noteq> RunAbort"
  by (induction fuel arbitrary: s) (auto split: step_result.splits simp: vm_step_no_abort)

lemma exec_loop_add:
  "exec_loop f env s = OutOfFuel t \<Longrightarrow> exec_loop (f + g) env s = exec_loop g env t"
  by (induction f arbitrary: s) (auto split: step_result.splits)

lemma exec_loop_keeps_ok:
  assumes "exec_loop fuel env (m, w) = Done (m', w') \<or> exec_loop fuel env (m, w) = OutOfFuel (m', w')"
    and "vm_ok m"
  shows "vm_ok m' \<and> same_code m m'"
  using assms
proof (induction fuel arbitrary: m w)
  case (Suc fuel)
  show ?case
  proof (cases "vm_step env (m, w)")
    case (Continue s)
    obtain m1 w1 where s: "s = (m1, w1)" by (cases s)
    have ok: "vm_ok m1" "same_code m m1" using vm_ok_step [of env m w m1 w1] Continue s Suc.prems(2) by simp_all
    have "vm_ok m' \<and> same_code m1 m'" using Suc Continue s ok by (intro Suc.IH) auto
    then show ?thesis using ok same_code_trans by blast
  next
    case (Finished s)
    then have "vm_step env (m, w) = Finished (m', w')" using Suc.prems(1) by simp
    then show ?thesis using vm_ok_step [of env m w m' w'] Suc.prems(2) by simp
  next
    case VmAbort
    then show ?thesis using vm_step_no_abort by blast
  qed
qed simp

subsection \<open>Bytes of a value\<close>

lemma bit_le_value:
  "bit (le_value bs) i \<longleftrightarrow> i < 64 \<and> i < 8 * List.length bs \<and> bit (bs ! (i div 8)) (i mod 8)"
proof (induction bs arbitrary: i)
  case (Cons b bs)
  show ?case
  proof (cases "i < 8")
    case True
    then show ?thesis by (simp add: bit_simps)
  next
    case False
    have high: "\<not> bit b i" using False bit_imp_le_length [of b i] by auto
    have "i div 8 = Suc ((i - 8) div 8)" "i mod 8 = (i - 8) mod 8"
      using False by (simp_all add: le_div_geq le_mod_geq)
    then show ?thesis using False high Cons.IH [of "i - 8"] by (auto simp: bit_simps)
  qed
qed simp

lemma le_bytes_value: "\<lbrakk>List.length bs = n; n \<le> 8\<rbrakk> \<Longrightarrow> le_bytes n (le_value bs) = bs"
proof (rule nth_equalityI)
  fix i assume n: "List.length bs = n" "n \<le> 8" and "i < List.length (le_bytes n (le_value bs))"
  then have i: "i < n" by (simp add: le_bytes_def)
  show "le_bytes n (le_value bs) ! i = bs ! i"
  proof (rule bit_word_eqI)
    fix j assume "j < LENGTH(8)"
    then have "8 * i + j < 64" "8 * i + j < 8 * n" "(8 * i + j) div 8 = i" "(8 * i + j) mod 8 = j" using i n by auto
    then show "bit (le_bytes n (le_value bs) ! i) j \<longleftrightarrow> bit (bs ! i) j"
      using i n \<open>j < LENGTH(8)\<close> by (simp add: le_bytes_def bit_simps bit_le_value add.commute)
  qed
qed (simp add: le_bytes_def)

end
