(* ===== verification/CheatVmProps.thy ===== *)
theory CheatVmProps
  imports CheatVmRun
begin

text \<open>
  Properties of the cheat virtual machine: the instruction set decodes as documented, the
  program loads whole or not at all, no program aborts the virtual machine or leaves its
  state, and the control-flow instructions mean what a structured program means by them.
\<close>

subsection \<open>Data for the witnesses\<close>

text \<open>A process whose memory is a function from addresses to bytes.\<close>

definition byte_env :: "(u64 \<Rightarrow> u8) vm_env" where
  "byte_env =
     \<lparr>main_nso_base = 0x1000, heap_base = 0x8000, keys_held = 0x3,
      read_memory = (\<lambda>w a n. Some (map (\<lambda>i. w (a + word_of_nat i)) [0..<n])),
      write_memory = (\<lambda>w a bs. fold (\<lambda>i w. w(a + word_of_nat i := bs ! i)) [0..<List.length bs] w),
      debug_log = (\<lambda>w i v. w),
      wide_shift_left = (\<lambda>x n. 0), wide_shift_right = (\<lambda>x n. 0)\<rparr>"

definition vm_with :: "vm_opcode list \<Rightarrow> vm" where
  "vm_with ops =
     ResetState (vm_fresh\<lparr>program := encode_all ops @ replicate (0x400 - List.length (encode_all ops)) 0,
       num_opcodes := List.length (encode_all ops)\<rparr>)"

lemma upcoming_vm_with: "upcoming (encode_all ops) (vm_with ops)"
  by (simp add: upcoming_def vm_with_def ResetState_def nth_append)

lemma vm_with_simps [simp]:
  "decode_success (vm_with ops)" "instruction_ptr (vm_with ops) = 0" "condition_depth (vm_with ops) = 0"
  "registers (vm_with ops) = replicate 16 0" "loop_tops (vm_with ops) = replicate 16 0"
  "saved_values (vm_with ops) = replicate 16 0"
  "num_opcodes (vm_with ops) = List.length (encode_all ops)"
  "program (vm_with ops) = encode_all ops @ replicate (0x400 - List.length (encode_all ops)) 0"
  by (simp_all add: vm_with_def ResetState_def NumRegisters_def)

lemma vm_with_ok: "List.length (encode_all ops) \<le> 0x400 \<Longrightarrow> vm_ok (vm_with ops)"
  by (simp add: vm_ok_def MaximumProgramOpcodeCount_def NumRegisters_def)

subsection \<open>Decoding\<close>


definition demo_op :: vm_opcode where
  "demo_op = BeginRegisterConditionalBlock 4 CmpNE 3 (RegisterRelAddr 5 0x312345678)"

lemma demo_op_ok: "opcode_ok demo_op"
  by (simp add: demo_op_def comparison_ok_def operand_ok_def)


text \<open>
  The register of a loop instruction is not where its comment puts it: the encoding
  \<open>300R0000 VVVVVVVV\<close> of the comment decodes to a loop on register 0 for every R.
\<close>

theorem documented_loop_register_is_ignored:
  assumes "r < 16" and "upcoming [dword 3 0 0 r 0 0 0 0, n] m" and "decode_success m"
  shows "fst (DecodeNextOpcode m) = Some (StartLoop 0 n)"
proof -
  have "reads (decode_opcode (dword 3 0 0 r 0 0 0 0)) [n] (Some (StartLoop 0 n))"
    using assms(1)
    by (auto simp: decode_opcode_def opcode_number_dword decode_ctrl_loop_def nybble_dword
        intro!: reads_some reads_dword_bind reads_return)
  from reads_DecodeNextOpcode [OF this assms(2,3)] show ?thesis by simp
qed

definition documented_loop_vm :: vm where
  "documented_loop_vm = ResetState (vm_fresh\<lparr>program := [0x30050000, 7], num_opcodes := 2\<rparr>)"

lemma documented_loop_register_is_ignored_witness:
  "dword 3 0 0 5 0 0 0 0 = 0x30050000 \<and>
   fst (DecodeNextOpcode documented_loop_vm) = Some (StartLoop 0 7)"
proof -
  have d: "dword 3 0 0 5 0 0 0 0 = 0x30050000" by (simp add: dword_def)
  have "upcoming [dword 3 0 0 5 0 0 0 0, 7] documented_loop_vm"
    unfolding d by (auto simp: upcoming_def documented_loop_vm_def ResetState_def less_Suc_eq numeral_2_eq_2)
  from documented_loop_register_is_ignored [OF _ this] d show ?thesis
    by (simp add: documented_loop_vm_def ResetState_def)
qed

subsection \<open>Loading\<close>

text \<open>
  \<open>LoadProgram\<close> concatenates the opcodes of the enabled cheats, in order, when they fit in
  the program memory; otherwise it fails and leaves an empty program.
\<close>

theorem load_program_whole_or_empty:
  assumes "\<forall>c \<in> set cheats. cheat_ok c" and "List.length (program m) = MaximumProgramOpcodeCount"
    and "LoadProgram m cheats = (ok, m')"
  shows "ok = (List.length (enabled_opcodes cheats) \<le> MaximumProgramOpcodeCount) \<and>
    num_opcodes m' = (if ok then List.length (enabled_opcodes cheats) else 0) \<and>
    (ok \<longrightarrow> take (num_opcodes m') (program m') = enabled_opcodes cheats)"
proof -
  have "load_cheats (m\<lparr>num_opcodes := 0\<rparr>) cheats = (ok, m')"
    using assms(3) by (simp add: LoadProgram_def)
  from load_cheats_eq [OF assms(1) _ _ this] assms(2) show ?thesis
    by (simp split: if_splits)
qed

definition demo_cheats :: "cheat_entry list" where
  "demo_cheats =
     [\<lparr>enabled = True, definition_num_opcodes = 2, definition_opcodes = [1, 2, 99]\<rparr>,
      \<lparr>enabled = False, definition_num_opcodes = 1, definition_opcodes = [3]\<rparr>,
      \<lparr>enabled = True, definition_num_opcodes = 1, definition_opcodes = [4]\<rparr>]"

lemma load_program_whole_or_empty_witness:
  "fst (LoadProgram vm_fresh demo_cheats) \<and>
   take 3 (program (snd (LoadProgram vm_fresh demo_cheats))) = [1, 2, 4]"
proof -
  have e: "enabled_opcodes demo_cheats = [1, 2, 4]"
    by (simp add: enabled_opcodes_def demo_cheats_def numeral_2_eq_2)
  obtain ok m' where l: "LoadProgram vm_fresh demo_cheats = (ok, m')" by (metis surj_pair)
  have "\<forall>c \<in> set demo_cheats. cheat_ok c" by (simp add: demo_cheats_def cheat_ok_def)
  moreover have "List.length (program vm_fresh) = MaximumProgramOpcodeCount" by (simp add: vm_fresh_def)
  ultimately show ?thesis
    using load_program_whole_or_empty [OF _ _ l] unfolding e l
    by (auto simp: MaximumProgramOpcodeCount_def numeral_3_eq_3)
qed

subsection \<open>Safety of every run\<close>

text \<open>
  No program, from no state, makes \<open>Execute\<close> reach the abort of \<open>SkipConditionalBlock\<close>:
  the conditional depth has always been incremented before a block is skipped.
\<close>

theorem execute_never_aborts: "Execute fuel env (m, w) \<noteq> RunAbort"
  by (simp add: Execute_def exec_loop_no_abort)

text \<open>
  C2. A run stays inside the machine: it never writes the program, the instruction pointer and
  every loop target stay within the program and every array keeps its length, after any
  number of instructions of any program.
\<close>

theorem execute_stays_in_bounds:
  assumes "vm_ok m"
    and "Execute fuel env (m, w) = Done (m', w') \<or> Execute fuel env (m, w) = OutOfFuel (m', w')"
  shows "vm_ok m' \<and> program m' = program m \<and> num_opcodes m' = num_opcodes m"
  using exec_loop_keeps_ok [of fuel env "ResetState m" w m' w'] ResetState_ok [OF assms(1)] assms(2)
  by (simp add: Execute_def same_code_def ResetState_def)

lemma execute_stays_in_bounds_witness:
  "vm_ok (fst (case Execute 0 byte_env (vm_with [demo_op], \<lambda>_. 0) of OutOfFuel s \<Rightarrow> s))"
proof -
  have ok: "vm_ok (vm_with [demo_op])"
    by (rule vm_with_ok) (simp add: demo_op_def operand_digits_def)
  have "Execute 0 byte_env (vm_with [demo_op], \<lambda>_. 0) = OutOfFuel (ResetState (vm_with [demo_op]), \<lambda>_. 0)"
    by (simp add: Execute_def)
  then show ?thesis
    using execute_stays_in_bounds [OF ok, of 0 byte_env "\<lambda>_. 0" "ResetState (vm_with [demo_op])" "\<lambda>_. 0"]
    by simp
qed

text \<open>
  Every register index of a decoded instruction is one of the sixteen registers: no
  instruction reads or writes outside the register, saved-value and loop arrays.
\<close>

theorem decoded_registers_in_range:
  assumes "DecodeNextOpcode m = (Some op, m')"
  shows "\<forall>r \<in> set (opcode_registers op). r < NumRegisters"
  using decoded_registers [OF assms] by (simp add: below16_def list_all_iff)

lemma decoded_registers_in_range_witness: "list_all (\<lambda>r. r < NumRegisters) (opcode_registers demo_op)"
  unfolding list_all_iff
  using decoded_registers_in_range [of "vm_with [demo_op]" demo_op] upcoming_vm_with [of "[demo_op]"]
    decode_upcoming(1) [OF demo_op_ok, of "[]" "vm_with [demo_op]"]
  by simp

subsection \<open>Control flow\<close>

text \<open>
  C10. A conditional block means what it says: when its condition holds, execution enters the
  block, one level deeper; when it does not, execution continues behind the end of the block
  that matches it, however blocks nest inside, at the same depth, with registers, saved
  values and process memory untouched.
\<close>

theorem conditional_block_enters_or_skips:
  assumes "begin_conditional_block op" "opcode_ok op" "list_all opcode_ok body"
    "nesting 0 body = Some 0" "decode_success m"
    "upcoming (encode_all (op # body @ [EndConditionalBlock])) m"
  shows "vm_step env (m, w) =
    Continue
      (if condition_holds env op (m, w)
       then m\<lparr>instruction_ptr := instruction_ptr m + List.length (encode op),
              condition_depth := Suc (condition_depth m)\<rparr>
       else m\<lparr>instruction_ptr := instruction_ptr m
                + List.length (encode_all (op # body @ [EndConditionalBlock]))\<rparr>, w)"
  by (rule conditional_step [OF assms])

definition demo_body :: "vm_opcode list" where
  "demo_body =
     [BeginKeypressConditionalBlock 1, LoadRegisterStatic 2 7, EndConditionalBlock,
      LoadRegisterStatic 3 9]"

definition demo_cond :: vm_opcode where "demo_cond = BeginKeypressConditionalBlock 4"

lemma conditional_block_enters_or_skips_witness:
  "vm_step byte_env (vm_with (demo_cond # demo_body @ [EndConditionalBlock]), \<lambda>_. 0) =
    Continue ((vm_with (demo_cond # demo_body @ [EndConditionalBlock]))\<lparr>instruction_ptr := 10\<rparr>, \<lambda>_. 0)"
proof -
  have c: "begin_conditional_block demo_cond" "opcode_ok demo_cond"
    by (simp_all add: demo_cond_def begin_conditional_block_def)
  have b: "list_all opcode_ok demo_body" by (simp add: demo_body_def)
  have n: "nesting 0 demo_body = Some 0" by (simp add: demo_body_def begin_conditional_block_def)
  have no: "\<not> condition_holds byte_env demo_cond (m, w)" for m w
  proof -
    have "(4 :: u64) AND 3 = 0" by simp
    then show ?thesis by (simp add: condition_holds_def demo_cond_def byte_env_def)
  qed
  show ?thesis
    using conditional_block_enters_or_skips [OF c b n, of "vm_with (demo_cond # demo_body @ [EndConditionalBlock])"
        byte_env "\<lambda>_. 0"] upcoming_vm_with [of "demo_cond # demo_body @ [EndConditionalBlock]"] no
    by (simp add: demo_body_def demo_cond_def)
qed

text \<open>
  C11. A counted loop runs its body exactly as often as its count says: from the instruction
  that starts a loop with a positive count, over a straight-line body that does not write the
  loop register, execution reaches the instruction behind the loop after that many
  iterations of the body, and nothing else has happened.
\<close>

theorem counted_loop_iterates:
  assumes body: "list_all opcode_ok body" "list_all straight body"
      "list_all (\<lambda>op. r \<notin> set (written_registers op)) body"
    and u: "upcoming (encode_all (StartLoop r n # body @ [EndLoop r])) m"
    and m: "vm_ok m" "decode_success m" "r < 16" "0 < n"
  shows "exec_loop (1 + unat n * (List.length body + 1) + fuel) env (m, w) =
    exec_loop fuel env
      (at (instruction_ptr m + List.length (encode_all (StartLoop r n # body @ [EndLoop r])))
         ((iteration env r body ^^ unat n)
            (exec_start_loop r n (m\<lparr>instruction_ptr := instruction_ptr m + 2\<rparr>), w)))"
proof -
  let ?m0 = "m\<lparr>instruction_ptr := instruction_ptr m + 2\<rparr>"
  let ?m1 = "exec_start_loop r n ?m0"
  have len: "List.length (registers m) = 16" "List.length (loop_tops m) = 16"
    using m(1) by (simp_all add: vm_ok_def NumRegisters_def)
  have "upcoming (encode (StartLoop r n) @ encode_all (body @ [EndLoop r])) m" using u by simp
  then have dec: "DecodeNextOpcode m = (Some (StartLoop r n), ?m0)"
    and u0: "upcoming (encode_all (body @ [EndLoop r])) ?m0"
    using decode_upcoming [of "StartLoop r n" _ m] m by simp_all
  have u1: "upcoming (encode_all (body @ [EndLoop r])) ?m1"
    using u0 by (simp add: upcoming_def exec_start_loop_def)
  obtain k where k: "unat n = Suc k"
    using m(4) by (cases "unat n") (auto simp: unat_eq_0 word_neq_0_conv)
  have "unat (reg ?m1 r) = Suc k"
    using k len m(3) by (simp add: exec_start_loop_def unat_ucast_64)
  note run = run_iterations [OF body u1 _ m(3) _ _ this, of fuel env w]
  have "vm_step env (m, w) = Continue (?m1, w)"
    using dec by (simp add: vm_step_def begin_conditional_block_def)
  moreover have "1 + unat n * (List.length body + 1) + fuel = Suc (Suc k * Suc (List.length body) + fuel)"
    by (simp add: k)
  ultimately have "exec_loop (1 + unat n * (List.length body + 1) + fuel) env (m, w) =
      exec_loop (Suc k * Suc (List.length body) + fuel) env (?m1, w)"
    by (simp only: exec_loop.simps step_result.case)
  also have "\<dots> = exec_loop fuel env
      (at (instruction_ptr ?m1 + List.length (encode_all (body @ [EndLoop r])))
         ((iteration env r body ^^ Suc k) (?m1, w)))"
    using run len m by (simp add: exec_start_loop_def)
  also have "instruction_ptr ?m1 + List.length (encode_all (body @ [EndLoop r])) =
      instruction_ptr m + List.length (encode_all (StartLoop r n # body @ [EndLoop r]))"
    by (simp add: exec_start_loop_def)
  finally show ?thesis unfolding k .
qed

definition demo_loop_body :: "vm_opcode list" where
  "demo_loop_body = [PerformArithmeticStatic 8 2 Addition 5]"

lemma counted_loop_iterates_witness:
  "exec_loop (1 + unat (3 :: u32) * (List.length demo_loop_body + 1) + 0) byte_env
     (vm_with (StartLoop 1 3 # demo_loop_body @ [EndLoop 1]), \<lambda>_. 0) =
   OutOfFuel
     (at 5 ((iteration byte_env 1 demo_loop_body ^^ 3)
       (exec_start_loop 1 3
          ((vm_with (StartLoop 1 3 # demo_loop_body @ [EndLoop 1]))\<lparr>instruction_ptr := 2\<rparr>), \<lambda>_. 0)))"
proof -
  let ?p = "StartLoop 1 3 # demo_loop_body @ [EndLoop 1]"
  have b: "list_all opcode_ok demo_loop_body" "list_all straight demo_loop_body"
    "list_all (\<lambda>op. 1 \<notin> set (written_registers op)) demo_loop_body"
    by (simp_all add: demo_loop_body_def straight_def begin_conditional_block_def arithmetic_ok_def)
  have l: "List.length (encode_all ?p) = 5" by (simp add: demo_loop_body_def)
  have ok: "vm_ok (vm_with ?p)" by (rule vm_with_ok) (simp add: demo_loop_body_def)
  have u3: "unat (3 :: u32) = 3" by simp
  show ?thesis
    using counted_loop_iterates [OF b upcoming_vm_with [of ?p] ok, of 0 byte_env "\<lambda>_. 0"]
    unfolding l u3 by (simp flip: numeral_2_eq_2)
qed

text \<open>
  A program without the instruction that ends a loop terminates: it decodes at most as
  many instructions as the program has dwords, whatever the process memory holds.
\<close>

theorem loop_free_program_terminates:
  assumes "vm_ok m" and "no_end_loop m"
  shows "\<exists>s. Execute (Suc (num_opcodes m)) env (m, w) = Done s"
  using forward_run [of "ResetState m" "Suc (num_opcodes m)" env w] ResetState_ok [OF assms(1)] assms(2)
  by (simp add: Execute_def ResetState_def no_end_loop_def)

lemma loop_free_program_terminates_witness:
  "\<exists>s. Execute 4 byte_env (vm_with [LoadRegisterStatic 2 7], \<lambda>_. 0) = Done s"
proof -
  let ?p = "[LoadRegisterStatic 2 7]"
  have ok: "vm_ok (vm_with ?p)" by (rule vm_with_ok) simp
  have "no_end_loop (vm_with ?p)"
    by (simp add: no_end_loop_def nybble_dword) (simp add: nybble_def)
  from loop_free_program_terminates [OF ok this] show ?thesis by (simp add: numeral_eq_Suc)
qed

text \<open>
  The interpreter has no bound of its own: a program that reloads its loop register
  inside the loop never ends, so \<open>Execute\<close> does not return for any amount of fuel.
\<close>

theorem reloading_loop_never_ends:
  assumes "vm_ok m" and "upcoming (encode_all [LoadRegisterStatic 0 2, EndLoop 0]) (ResetState m)"
  shows "\<exists>s. Execute fuel env (m, w) = OutOfFuel s"
proof -
  let ?p = "[LoadRegisterStatic 0 2, EndLoop 0]"
  have two: "(2 :: u64) - 1 \<noteq> 0" by simp
  have loop: "\<exists>s. exec_loop fuel env (m, w) = OutOfFuel s \<and> exec_loop (Suc fuel) env (m, w) \<noteq> Done t"
    if "upcoming (encode_all ?p) m" "decode_success m" "instruction_ptr m = 0"
      "loop_tops m ! 0 = 0" "0 < List.length (registers m)" for fuel m w t
    using that
  proof (induction fuel arbitrary: m w rule: nat_less_induct)
    case (1 fuel)
    let ?m1 = "set_reg 0 2 m"
    have u: "upcoming (encode (LoadRegisterStatic 0 2)) m"
      "upcoming (encode (EndLoop 0)) (?m1\<lparr>instruction_ptr := 3\<rparr>)"
      using 1(2,4) unfolding encode_all_simps upcoming_append by (simp_all add: upcoming_def numeral_3_eq_3)
    have s1: "vm_step env (m, w) = Continue (?m1\<lparr>instruction_ptr := 3\<rparr>, w)"
      using straight_step [of "LoadRegisterStatic 0 2" m env w] u(1) 1(3,4)
      by (simp add: straight_def begin_conditional_block_def effect_def at_def)
    let ?m2 = "set_reg 0 1 (?m1\<lparr>instruction_ptr := 0\<rparr>)"
    have s2: "vm_step env (?m1\<lparr>instruction_ptr := 3\<rparr>, w) = Continue (?m2, w)"
      using end_loop_step [OF u(2), of env w] 1(3,5,6) two by (simp add: at_def set_reg_at)
    show ?case
    proof (cases fuel)
      case 0
      then show ?thesis using s1 by simp
    next
      case (Suc f)
      show ?thesis
      proof (cases f)
        case 0
        then show ?thesis using Suc s1 s2 by simp
      next
        case (Suc f')
        have "\<exists>s. exec_loop f' env (?m2, w) = OutOfFuel s \<and> exec_loop (Suc f') env (?m2, w) \<noteq> Done t"
          by (rule 1(1) [rule_format])
            (use \<open>fuel = Suc f\<close> Suc 1(2-6) in \<open>simp_all add: upcoming_def\<close>)
        then show ?thesis using \<open>fuel = Suc f\<close> Suc s1 s2 by simp
      qed
    qed
  qed
  have "List.length (registers (ResetState m)) = 16" "loop_tops (ResetState m) ! 0 = 0"
    by (simp_all add: ResetState_def NumRegisters_def)
  then show ?thesis
    using loop [of "ResetState m" fuel w] assms(2) by (simp add: Execute_def ResetState_def)
qed

lemma reloading_loop_never_ends_witness:
  "\<exists>s. Execute 1000000 byte_env (vm_with [LoadRegisterStatic 0 2, EndLoop 0], \<lambda>_. 0) = OutOfFuel s"
proof -
  let ?p = "[LoadRegisterStatic 0 2, EndLoop 0]"
  have ok: "vm_ok (vm_with ?p)" by (rule vm_with_ok) simp
  have "ResetState (vm_with ?p) = vm_with ?p" by (simp add: vm_with_def ResetState_def)
  then show ?thesis using reloading_loop_never_ends [OF ok] upcoming_vm_with [of ?p] by simp
qed

subsection \<open>Arithmetic, loads and saved registers\<close>

lemma apply_width_take_bit:
  assumes "valid_width b"
  shows "apply_width b v = take_bit (8 * b) v"
  using assms unfolding valid_width_def apply_width_def
  by (elim disjE) (auto intro!: bit_word_eqI simp: bit_simps)

lemma uint_apply_width:
  assumes "valid_width b"
  shows "uint (apply_width b v) = uint v mod 2 ^ (8 * b)"
  unfolding apply_width_take_bit [OF assms]
  using unsigned_take_bit_eq [of "8 * b" v, where 'a=int] by (simp only: take_bit_eq_mod [where 'a=int])

text \<open>
  Register arithmetic is arithmetic modulo the width: for the widths 1, 2, 4 and 8 the
  destination receives sum, difference or product of the 64-bit operands modulo two to
  the number of bits, and no other register changes.
\<close>

theorem arithmetic_is_modulo_the_width:
  fixes m :: vm and s t :: nat
  assumes "valid_width b" and "d < List.length (registers m)"
  defines "x \<equiv> uint (reg m s)" and "y \<equiv> uint (reg m t)"
  shows "uint (reg (exec_math_reg env b Addition d s (RegOperand t) m) d) = (x + y) mod 2 ^ (8 * b) \<and>
    uint (reg (exec_math_reg env b Subtraction d s (RegOperand t) m) d) = (x - y) mod 2 ^ (8 * b) \<and>
    uint (reg (exec_math_reg env b Multiplication d s (RegOperand t) m) d) = (x * y) mod 2 ^ (8 * b) \<and>
    (\<forall>op k. k = d \<or> reg (exec_math_reg env b op d s (RegOperand t) m) k = reg m k)"
proof -
  have dvd: "(2 :: int) ^ (8 * b) dvd 2 ^ 64"
    using assms(1) by (intro le_imp_power_dvd) (auto simp: valid_width_def)
  have *: "a mod 2 ^ 64 mod 2 ^ (8 * b) = a mod 2 ^ (8 * b)" for a :: int
    using dvd by (simp add: mod_mod_cancel)
  have "uint (p + q) mod 2 ^ (8 * b) = (uint p + uint q) mod 2 ^ (8 * b)"
    "uint (p - q) mod 2 ^ (8 * b) = (uint p - uint q) mod 2 ^ (8 * b)"
    "uint (p * q) mod 2 ^ (8 * b) = (uint p * uint q) mod 2 ^ (8 * b)" for p q :: u64
    using * by (simp_all add: uint_word_ariths)
  moreover have "k = d \<or> reg (exec_math_reg env b op d s (RegOperand t) m) k = reg m k" for op k
    by (cases "k = d") (simp_all add: exec_math_reg_def Let_def)
  ultimately show ?thesis
    using assms(2) unfolding x_def y_def
    by (intro conjI allI) (simp_all add: exec_math_reg_def register_arithmetic_def Let_def uint_apply_width [OF assms(1)])
qed

lemma arithmetic_is_modulo_the_width_witness:
  "uint (reg (exec_math_reg byte_env 1 Addition 0 1 (RegOperand 1)
     (vm_fresh\<lparr>registers := 0 # 0xC8 # replicate 14 0\<rparr>)) 0) = 0x90"
  using arithmetic_is_modulo_the_width [of 1 0 "vm_fresh\<lparr>registers := 0 # 0xC8 # replicate 14 0\<rparr>" byte_env 1 1]
  by (simp add: valid_width_def)

text \<open>
  A load narrower than a register replaces only the low bytes: bit by bit, the register
  holds the bytes read, little endian, below the width and its old contents above. Loading
  through a register therefore leaves the high bytes of the address in the result.
\<close>

theorem narrow_load_keeps_high_bytes:
  fixes m :: vm and f :: bool and env :: "'w vm_env" and t :: memory_access_type and rel :: u64
  assumes "valid_width b" and "r < List.length (registers m)" and "i < 64"
  defines "a \<equiv> (if f then reg m r + rel else GetCheatProcessAddress env t rel)"
  assumes "read_memory env w a b = Some bs" and "List.length bs = b"
  shows "bit (reg (fst (exec_ldr_memory env b t r f rel (m, w))) r) i =
    (if i < 8 * b then bit (bs ! (i div 8)) (i mod 8) else bit (reg m r) i)"
  using assms
  by (simp add: exec_ldr_memory_def Let_def guarded_read_def read_into_def bit_simps bit_le_value)

lemma narrow_load_keeps_high_bytes_witness:
  "bit (reg (fst (exec_ldr_memory byte_env 1 MainNso 0 True 0
      ((vm_fresh\<lparr>registers := replicate 16 0x100\<rparr>), \<lambda>_. 0x41))) 0) 8 \<and>
   bit (reg (fst (exec_ldr_memory byte_env 1 MainNso 0 True 0
      ((vm_fresh\<lparr>registers := replicate 16 0x100\<rparr>), \<lambda>_. 0x41))) 0) 6"
proof -
  have "bit (0x100 :: u64) 8" "bit (0x41 :: u8) 6" by simp_all
  then show ?thesis
    using narrow_load_keeps_high_bytes [of 1 0 "vm_fresh\<lparr>registers := replicate 16 0x100\<rparr>" 8
        byte_env "\<lambda>_. 0x41" True 0 MainNso "[0x41]"]
      narrow_load_keeps_high_bytes [of 1 0 "vm_fresh\<lparr>registers := replicate 16 0x100\<rparr>" 6
        byte_env "\<lambda>_. 0x41" True 0 MainNso "[0x41]"]
    by (simp add: valid_width_def byte_env_def)
qed

text \<open>
  Saving registers under a mask and restoring them under the same mask gives the masked
  registers their old values back, whatever happened to the registers in between, and
  leaves the others alone.
\<close>

theorem save_then_restore:
  assumes "vm_ok m" and "List.length (registers m') = NumRegisters"
    and "saved_values m' = saved_values (exec_save_restore_mask OpSave bs m)"
    and "List.length bs = NumRegisters" and "i < NumRegisters"
  shows "reg (exec_save_restore_mask OpRestore bs m') i = (if bs ! i then reg m i else reg m' i)"
  using assms by (simp add: exec_save_restore_mask_def nth_mask_copy vm_ok_def)

lemma save_then_restore_witness:
  "reg (exec_save_restore_mask OpRestore (True # replicate 15 False)
     (exec_save_restore_mask OpSave (True # replicate 15 False)
       (vm_fresh\<lparr>registers := replicate 16 5\<rparr>)\<lparr>registers := replicate 16 9\<rparr>)) 0 = 5"
proof -
  have ok: "vm_ok (vm_fresh\<lparr>registers := replicate 16 5\<rparr>)"
    by (simp add: vm_ok_def vm_fresh_def MaximumProgramOpcodeCount_def NumRegisters_def)
  show ?thesis
    using save_then_restore [OF ok, of "exec_save_restore_mask OpSave (True # replicate 15 False)
       (vm_fresh\<lparr>registers := replicate 16 5\<rparr>)\<lparr>registers := replicate 16 9\<rparr>" "True # replicate 15 False" 0]
    by (simp add: NumRegisters_def)
qed

end
