(* ===== verification/CheatText.thy ===== *)
theory CheatText
  imports CheatVmExec
begin

text \<open>
  The cheat table of the cheat process manager and its text files
  (\<open>dmnt/source/cheat/impl/dmnt_cheat_api.cpp\<close>): resetting and searching entries, the parsers
  of cheats and of toggles and the printer of toggles. A text is the list of the bytes before
  its terminator; a parser that moves an index over the text is a recursion on what is left.
  The sizes of the arrays of an entry are those of a structure declared elsewhere.
\<close>

subsection \<open>Entries\<close>

text \<open>An entry of the virtual machine's program together with its number and name.\<close>

record cheat = cheat_entry +
  cheat_id :: nat
  readable_name :: "u8 list"

text \<open>\<open>sizeof readable_name\<close>, the number of opcodes, the size of a build id, and the bytes that follow the name in memory.\<close>

record cheat_layout =
  name_size :: nat
  opcodes_size :: nat
  build_id_size :: nat
  name_tail :: "cheat \<Rightarrow> u8 list"

definition MaxCheatCount :: nat where "MaxCheatCount = 0x80"

definition cheat_zero :: "cheat_layout \<Rightarrow> cheat" where
  "cheat_zero l =
     \<lparr>enabled = False, definition_num_opcodes = 0, definition_opcodes = replicate (opcodes_size l) 0,
      cheat_id = 0, readable_name = replicate (name_size l) 0\<rparr>"

definition ResetCheatEntry :: "cheat_layout \<Rightarrow> nat \<Rightarrow> cheat list \<Rightarrow> cheat list" where
  "ResetCheatEntry l i cs = (if i < MaxCheatCount then cs[i := (cheat_zero l)\<lparr>cheat_id := i\<rparr>] else cs)"

definition ResetAllCheatEntries :: "cheat_layout \<Rightarrow> cheat list \<Rightarrow> cheat list" where
  "ResetAllCheatEntries l cs = fold (ResetCheatEntry l) [0..<MaxCheatCount] cs"

definition GetCheatEntryById :: "nat \<Rightarrow> nat option" where
  "GetCheatEntryById i = (if i < MaxCheatCount then Some i else None)"

text \<open>Up to the first NUL.\<close>

definition c_string :: "u8 list \<Rightarrow> u8 list" where
  "c_string bs = takeWhile (\<lambda>b. b \<noteq> 0) bs"

definition strncmp_eq :: "nat \<Rightarrow> u8 list \<Rightarrow> u8 list \<Rightarrow> bool" where
  "strncmp_eq n a b \<longleftrightarrow> c_string (take n a) = c_string (take n b)"

text \<open>Searches that skip the master cheat.\<close>

definition GetCheatEntryByReadableName :: "cheat_layout \<Rightarrow> u8 list \<Rightarrow> cheat list \<Rightarrow> nat option" where
  "GetCheatEntryByReadableName l name cs =
     find (\<lambda>i. strncmp_eq (name_size l) (readable_name (cs ! i)) name) [1..<MaxCheatCount]"

definition GetFreeCheatEntry :: "cheat list \<Rightarrow> nat option" where
  "GetFreeCheatEntry cs = find (\<lambda>i. definition_num_opcodes (cs ! i) = 0) [1..<MaxCheatCount]"

subsection \<open>Characters\<close>

definition isspace :: "u8 \<Rightarrow> bool" where
  "isspace b \<longleftrightarrow> b = 0x20 \<or> 9 \<le> b \<and> b \<le> 13"

definition hex_digit :: "u8 \<Rightarrow> nat option" where
  "hex_digit b =
     (if 0x30 \<le> b \<and> b \<le> 0x39 then Some (unat b - 0x30)
      else if 0x41 \<le> b \<and> b \<le> 0x46 then Some (unat b - 0x41 + 10)
      else if 0x61 \<le> b \<and> b \<le> 0x66 then Some (unat b - 0x61 + 10)
      else None)"

definition isxdigit :: "u8 \<Rightarrow> bool" where
  "isxdigit b \<longleftrightarrow> hex_digit b \<noteq> None"

definition strtoul16 :: "u8 list \<Rightarrow> u32" where
  "strtoul16 bs = of_nat (fold (\<lambda>b v. 16 * v + the (hex_digit b)) bs 0)"

definition tolower :: "u8 \<Rightarrow> u8" where
  "tolower b = (if 0x41 \<le> b \<and> b \<le> 0x5A then b + 0x20 else b)"

definition strcasecmp_eq :: "u8 list \<Rightarrow> u8 list \<Rightarrow> bool" where
  "strcasecmp_eq a b \<longleftrightarrow> map tolower (c_string a) = map tolower (c_string b)"

subsection \<open>Parsing cheats\<close>

text \<open>
  Storing a name: the terminator is written behind the bytes that fit; behind a name as long as
  the array, it would be outside of it.
\<close>

definition store_name :: "nat \<Rightarrow> u8 list \<Rightarrow> u8 list \<Rightarrow> u8 list" where
  "store_name size' name old =
     (let n = min (List.length name) size' in (take n name @ drop n old)[n := 0])"

definition set_cheat_name :: "cheat_layout \<Rightarrow> nat \<Rightarrow> u8 list \<Rightarrow> cheat list \<Rightarrow> cheat list" where
  "set_cheat_name l i name cs =
     cs[i := (cs ! i)\<lparr>readable_name := store_name (name_size l) name (readable_name (cs ! i))\<rparr>]"

definition add_opcode :: "nat \<Rightarrow> u32 \<Rightarrow> cheat list \<Rightarrow> cheat list" where
  "add_opcode i x cs =
     (let c = cs ! i; n = definition_num_opcodes c
      in cs[i := c\<lparr>definition_opcodes := (definition_opcodes c)[n := x], definition_num_opcodes := Suc n\<rparr>])"

text \<open>A name up to a closing bracket, with the text behind it.\<close>

definition read_name :: "u8 \<Rightarrow> u8 list \<Rightarrow> (u8 list \<times> u8 list) option" where
  "read_name closing s =
     (case dropWhile (\<lambda>b. b \<noteq> closing) s of
        [] \<Rightarrow> None
      | _ # rest \<Rightarrow> Some (takeWhile (\<lambda>b. b \<noteq> closing) s, rest))"

lemma read_name_shorter: "read_name closing s = Some (name, rest) \<Longrightarrow> List.length rest < List.length s"
  using length_dropWhile_le [of "\<lambda>b. b \<noteq> closing" s]
  by (auto simp: read_name_def split: list.splits)

function (sequential) parse_cheats ::
  "cheat_layout \<Rightarrow> u8 list \<Rightarrow> nat option \<Rightarrow> cheat list \<Rightarrow> bool \<times> cheat list" where
  "parse_cheats l [] cur cs = (True, cs)"
| "parse_cheats l (c # s) cur cs =
     (if isspace c then parse_cheats l s cur cs
      else if c = 0x5B then
        (case GetFreeCheatEntry cs of
           None \<Rightarrow> (False, cs)
         | Some i \<Rightarrow>
             (case read_name 0x5D s of
                None \<Rightarrow> (False, cs)
              | Some (name, rest) \<Rightarrow> parse_cheats l rest (Some i) (set_cheat_name l i name cs)))
      else if c = 0x7B then
        (if definition_num_opcodes (cs ! 0) > 0 then (False, cs)
         else
           (case read_name 0x7D s of
              None \<Rightarrow> (False, cs)
            | Some (name, rest) \<Rightarrow> parse_cheats l rest (Some 0) (set_cheat_name l 0 name cs)))
      else if isxdigit c then
        (case cur of
           None \<Rightarrow> (False, cs)
         | Some i \<Rightarrow>
             if definition_num_opcodes (cs ! i) \<ge> opcodes_size l then (False, cs)
             else if List.length s < 7 \<or> \<not> list_all isxdigit (take 7 s) then (False, cs)
             else parse_cheats l (drop 7 s) cur (add_opcode i (strtoul16 (c # take 7 s)) cs))
      else (False, cs))"
  by pat_completeness auto
termination
  by (relation "measure (\<lambda>(l, s, cur, cs). List.length s)") (auto dest!: read_name_shorter)

text \<open>Enabling what was parsed: the master cheat always, the others by default or not.\<close>

definition enable_parsed :: "bool \<Rightarrow> cheat list \<Rightarrow> cheat list" where
  "enable_parsed by_default cs =
     map (\<lambda>(i, c). if definition_num_opcodes c > 0 then c\<lparr>enabled := (i = 0 \<or> by_default)\<rparr> else c)
       (enumerate 0 cs)"

definition ParseCheats :: "cheat_layout \<Rightarrow> bool \<Rightarrow> u8 list \<Rightarrow> cheat list \<Rightarrow> bool \<times> cheat list" where
  "ParseCheats l by_default s cs =
     (let (ok, cs) = parse_cheats l s None cs
      in if ok then (True, enable_parsed by_default cs) else (False, cs))"

subsection \<open>Parsing toggles\<close>

text \<open>
  The end of a toggle of at least one character, counted from its start in the text \<open>t\<close> with
  its terminator; \<open>n\<close> is the number of characters before the terminator.
\<close>

function toggle_end :: "u8 list \<Rightarrow> nat \<Rightarrow> nat \<Rightarrow> nat option" where
  "toggle_end t n k =
     (if isspace (t ! k) then Some k
      else if k + 1 \<ge> n \<or> k + 1 \<ge> 8 then None
      else toggle_end t n (k + 1))"
  by pat_completeness auto
termination
  by (relation "measure (\<lambda>(t, n, k). n - k)") auto

declare toggle_end.simps [simp del]

text \<open>The words of \<open>1\<close>, \<open>true\<close>, \<open>on\<close>, \<open>0\<close>, \<open>false\<close> and \<open>off\<close>.\<close>

definition words_on :: "u8 list list" where
  "words_on = [[0x31], [0x74, 0x72, 0x75, 0x65], [0x6F, 0x6E]]"

definition words_off :: "u8 list list" where
  "words_off = [[0x30], [0x66, 0x61, 0x6C, 0x73, 0x65], [0x6F, 0x66, 0x66]]"

definition apply_toggle :: "cheat_layout \<Rightarrow> u8 list \<Rightarrow> u8 list \<Rightarrow> cheat list \<Rightarrow> cheat list" where
  "apply_toggle l name toggle cs =
     (case GetCheatEntryByReadableName l (take (name_size l) name) cs of
        None \<Rightarrow> cs
      | Some i \<Rightarrow>
          if list_ex (strcasecmp_eq toggle) words_on then cs[i := (cs ! i)\<lparr>enabled := True\<rparr>]
          else if list_ex (strcasecmp_eq toggle) words_off then cs[i := (cs ! i)\<lparr>enabled := False\<rparr>]
          else cs)"

text \<open>
  The first character of a toggle is taken without a look at it, and the search for its end
  starts one further: at the end of the text, that is the byte \<open>beyond\<close> the terminator.
\<close>

function (sequential) ParseCheatToggles ::
  "cheat_layout \<Rightarrow> u8 \<Rightarrow> u8 list \<Rightarrow> cheat list \<Rightarrow> bool \<times> cheat list" where
  "ParseCheatToggles l beyond [] cs = (True, cs)"
| "ParseCheatToggles l beyond (c # s) cs =
     (if isspace c then ParseCheatToggles l beyond s cs
      else if c = 0x5B then
        (case read_name 0x5D s of
           None \<Rightarrow> (False, cs)
         | Some (name, rest) \<Rightarrow>
             let s = dropWhile isspace rest; t = s @ [0, beyond]
             in case toggle_end t (List.length s) 1 of
                  None \<Rightarrow> (False, cs)
                | Some k \<Rightarrow> ParseCheatToggles l beyond (drop (k + 1) s) (apply_toggle l name (take k t) cs))
      else (False, cs))"
  by pat_completeness auto
termination
proof (relation "measure (\<lambda>(l, beyond, s, cs). List.length s)", goal_cases)
  case (3 l beyond c s cs x name rest s' t k)
  have "List.length s' \<le> List.length rest" using 3 length_dropWhile_le by simp
  then show ?case using 3 read_name_shorter by fastforce
qed auto

subsection \<open>Printing toggles\<close>

text \<open>\<open>true\<close> and \<open>false\<close>, each with a newline; the name in brackets is cut to the buffer of 0x100.\<close>

definition toggle_word :: "bool \<Rightarrow> u8 list" where
  "toggle_word on = (if on then [0x74, 0x72, 0x75, 0x65] else [0x66, 0x61, 0x6C, 0x73, 0x65]) @ [0x0A]"

definition toggle_name :: "cheat_layout \<Rightarrow> cheat \<Rightarrow> u8 list" where
  "toggle_name l c = take 0xFF (0x5B # c_string (readable_name c @ name_tail l c) @ [0x5D, 0x0A])"

end
