(* ===== verification/CheatManager.thy ===== *)
theory CheatManager
  imports CheatText
begin

text \<open>
  The cheat process manager (\<open>CheatProcessManager\<close> of
  \<open>dmnt/source/cheat/impl/dmnt_cheat_api.cpp\<close>) and the service over it
  (\<open>dmnt_cheat_service.cpp\<close>). Every operation holds the cheat lock, so it is one step on the
  state; the files, the kernel, \<open>pm\<close> and the loader are functions on the state \<open>'k\<close> outside.
\<close>

datatype 'r cheat_error =
    ResultCheatNotAttached | ResultCheatUnknownId | ResultCheatCannotDisable | ResultCheatInvalid
  | ResultCheatOutOfResource | ResultCheatNullBuffer | ResultFrozenAddressNotFound
  | ResultFrozenAddressOutOfResource | ResultFrozenAddressAlreadyExists | ResultFrozenAddressInvalidWidth
  | CheatSystemError 'r

definition MaxFrozenAddressCount :: nat where "MaxFrozenAddressCount = 0x80"

record frozen_value =
  frozen_value_of :: u64
  frozen_width :: nat

text \<open>An ordered map from addresses, as the list of its entries in the order of the addresses.\<close>

type_synonym frozen_map = "(u64 \<times> frozen_value) list"

record cheat_metadata =
  md_process_id :: u64
  md_program_id :: u64
  main_nso_extents :: "u64 \<times> u64"
  heap_extents :: "u64 \<times> u64"
  alias_extents :: "u64 \<times> u64"
  aslr_extents :: "u64 \<times> u64"
  main_nso_build_id :: "u8 list"

definition metadata_zero :: "cheat_layout \<Rightarrow> cheat_metadata" where
  "metadata_zero l =
     \<lparr>md_process_id = 0, md_program_id = 0, main_nso_extents = (0, 0), heap_extents = (0, 0),
      alias_extents = (0, 0), aslr_extents = (0, 0), main_nso_build_id = replicate (build_id_size l) 0\<rparr>"

record memory_info =
  mem_addr :: u64
  mem_size :: u64
  mem_perm :: u32

record module_info =
  mod_build_id :: "u8 list"
  mod_base_address :: u64
  mod_size :: u64

text \<open>A file that cannot be opened, one that cannot be sized, held or read, or its bytes.\<close>

datatype file_answer = CannotOpen | CannotRead | Contents "u8 list"

record ('r, 'k) cheat_env =
  cheat_layout_of :: cheat_layout
  invalid_handle :: u32
  process_id_of :: "'k \<Rightarrow> u32 \<Rightarrow> 'r + u64"
  application_process_id :: "'k \<Rightarrow> 'r + u64"
  close_handle :: "'k \<Rightarrow> u32 \<Rightarrow> ('r + unit) \<times> 'k"
  pm_process_info :: "'k \<Rightarrow> u64 \<Rightarrow> ('r + u32 \<times> u64 \<times> bool) \<times> 'k"
  pm_start_process :: "'k \<Rightarrow> u64 \<Rightarrow> ('r + unit) \<times> 'k"
  address_space_info :: "'k \<Rightarrow> u32 \<Rightarrow> 'r + (u64 \<times> u64) \<times> (u64 \<times> u64) \<times> (u64 \<times> u64)"
  ldr_module_info :: "'k \<Rightarrow> u64 \<Rightarrow> 'r + module_info list"
  debug_active_process :: "'k \<Rightarrow> u64 \<Rightarrow> ('r + u32) \<times> 'k"
  read_process_memory :: "'k \<Rightarrow> u32 \<Rightarrow> u64 \<Rightarrow> nat \<Rightarrow> 'r + u8 list"
  write_process_memory :: "'k \<Rightarrow> u32 \<Rightarrow> u64 \<Rightarrow> u8 list \<Rightarrow> ('r + unit) \<times> 'k"
  query_process_memory :: "'k \<Rightarrow> u32 \<Rightarrow> u64 \<Rightarrow> 'r + memory_info"
  read_text_file :: "'k \<Rightarrow> string \<Rightarrow> file_answer"
  open_new_file :: "'k \<Rightarrow> string \<Rightarrow> bool \<times> 'k"
  write_file_at :: "'k \<Rightarrow> string \<Rightarrow> nat \<Rightarrow> u8 list \<Rightarrow> bool \<times> 'k"
  heap_byte :: "'k \<Rightarrow> u8"
  vm_keys_held :: "'k \<Rightarrow> u64"
  vm_debug_log :: "'k \<Rightarrow> u32 \<Rightarrow> u64 \<Rightarrow> 'k"
  vm_wide_shift_left :: "u64 \<Rightarrow> u64 \<Rightarrow> u64"
  vm_wide_shift_right :: "u64 \<Rightarrow> u64 \<Rightarrow> u64"

record 'k cheat_manager =
  cheat_debug_handle :: u32
  cheat_metadata_of :: cheat_metadata
  needs_reload_vm :: bool
  cheat_vm :: vm
  enable_cheats_by_default :: bool
  always_save_cheat_toggles :: bool
  should_save_cheat_toggles :: bool
  cheat_entries :: "cheat list"
  frozen_addresses_map :: frozen_map
  debug_events_event :: bool
  cheat_process_event :: bool
  cheat_world :: 'k

text \<open>The files that exist on the card decide about two switches when the manager is created.\<close>

definition cheat_manager_initial ::
  "('r, 'k) cheat_env \<Rightarrow> bool \<Rightarrow> bool \<Rightarrow> 'k \<Rightarrow> 'k cheat_manager" where
  "cheat_manager_initial env by_default always_save k =
     \<lparr>cheat_debug_handle = invalid_handle env, cheat_metadata_of = metadata_zero (cheat_layout_of env), needs_reload_vm = False,
      cheat_vm = vm_fresh, enable_cheats_by_default = by_default, always_save_cheat_toggles = always_save,
      should_save_cheat_toggles = False,
      cheat_entries = replicate MaxCheatCount (cheat_zero (cheat_layout_of env)),
      frozen_addresses_map = [], debug_events_event = False, cheat_process_event = False, cheat_world = k\<rparr>"

definition sys :: "'r + 'a \<Rightarrow> ('r cheat_error, 'a) outcome" where
  "sys r = (case r of Inl e \<Rightarrow> Err (CheatSystemError e) | Inr v \<Rightarrow> Ok v)"

lemma sys_simps [simp]: "sys (Inl e) = Err (CheatSystemError e)" "sys (Inr v) = Ok v"
  by (simp_all add: sys_def)

text \<open>\<open>R_ABORT_UNLESS\<close>, and its variant that aborts for a new process only.\<close>

definition ABORT_IF_FAILED ::
  "('r cheat_error, 'b) outcome \<Rightarrow> 's \<Rightarrow> ('b \<Rightarrow> ('r cheat_error, 'a) outcome \<times> 's) \<Rightarrow> ('r cheat_error, 'a) outcome \<times> 's" where
  "ABORT_IF_FAILED r s f = (case r of Ok v \<Rightarrow> f v | _ \<Rightarrow> (Abort, s))"

lemma ABORT_IF_FAILED_simps [simp]:
  "ABORT_IF_FAILED (Ok v) s f = f v" "ABORT_IF_FAILED (Err e) s f = (Abort, s)" "ABORT_IF_FAILED Abort s f = (Abort, s)"
  by (simp_all add: ABORT_IF_FAILED_def)

subsection \<open>Files\<close>

definition hex_char :: "nat \<Rightarrow> char" where
  "hex_char n = ''0123456789abcdef'' ! n"

fun hex_digits :: "nat \<Rightarrow> nat \<Rightarrow> string" where
  "hex_digits 0 v = []"
| "hex_digits (Suc n) v = hex_digits n (v div 16) @ [hex_char (v mod 16)]"

definition cheat_path :: "u64 \<Rightarrow> u8 list \<Rightarrow> string" where
  "cheat_path program_id build_id =
     ''sdmc:/ReiNX/contents/'' @ hex_digits 16 (unat program_id) @ ''/cheats/'' @
     concat (map (\<lambda>b. hex_digits 2 (unat b)) (take 8 build_id)) @ ''.txt''"

definition toggles_path :: "u64 \<Rightarrow> string" where
  "toggles_path program_id = ''sdmc:/ReiNX/contents/'' @ hex_digits 16 (unat program_id) @ ''/cheats/toggles.txt''"

definition LoadCheats ::
  "('r, 'k) cheat_env \<Rightarrow> u64 \<Rightarrow> u8 list \<Rightarrow> 'k cheat_manager \<Rightarrow> bool \<times> 'k cheat_manager" where
  "LoadCheats env program_id build_id s =
     (let l = cheat_layout_of env;
          s = s\<lparr>cheat_entries := ResetAllCheatEntries l (cheat_entries s), needs_reload_vm := True\<rparr>
      in case read_text_file env (cheat_world s) (cheat_path program_id build_id) of
           Contents text \<Rightarrow>
             (let (ok, cs) = ParseCheats l (enable_cheats_by_default s) (c_string text) (cheat_entries s)
              in (ok, s\<lparr>cheat_entries := cs, needs_reload_vm := True\<rparr>))
         | _ \<Rightarrow> (False, s))"

text \<open>The byte behind the terminator that ends the text.\<close>

definition byte_beyond :: "('r, 'k) cheat_env \<Rightarrow> 'k \<Rightarrow> u8 list \<Rightarrow> u8" where
  "byte_beyond env k text =
     (let n = List.length (c_string text) + 1; t = text @ [0]
      in if n < List.length t then t ! n else heap_byte env k)"

definition LoadCheatToggles ::
  "('r, 'k) cheat_env \<Rightarrow> u64 \<Rightarrow> 'k cheat_manager \<Rightarrow> bool \<times> 'k cheat_manager" where
  "LoadCheatToggles env program_id s =
     (let s = s\<lparr>should_save_cheat_toggles := False\<rparr>
      in case read_text_file env (cheat_world s) (toggles_path program_id) of
           CannotOpen \<Rightarrow> (True, s)
         | CannotRead \<Rightarrow> (False, s)
         | Contents text \<Rightarrow>
             (let (ok, cs) = ParseCheatToggles (cheat_layout_of env) (byte_beyond env (cheat_world s) text)
                               (c_string text) (cheat_entries s)
              in (ok, s\<lparr>cheat_entries := cs, should_save_cheat_toggles := ok\<rparr>)))"

text \<open>A write that fails leaves the offset where it is.\<close>

fun write_pieces ::
  "('r, 'k) cheat_env \<Rightarrow> string \<Rightarrow> nat \<Rightarrow> u8 list list \<Rightarrow> 'k \<Rightarrow> 'k" where
  "write_pieces env path offset [] k = k"
| "write_pieces env path offset (p # ps) k =
     (let (ok, k) = write_file_at env k path offset p
      in write_pieces env path (if ok then offset + List.length p else offset) ps k)"

definition toggle_pieces :: "cheat_layout \<Rightarrow> cheat list \<Rightarrow> u8 list list" where
  "toggle_pieces l cs =
     concat (map (\<lambda>c. [toggle_name l c, toggle_word (enabled c)])
       (filter (\<lambda>c. definition_num_opcodes c \<noteq> 0) (tl cs)))"

definition SaveCheatToggles :: "('r, 'k) cheat_env \<Rightarrow> u64 \<Rightarrow> 'k cheat_manager \<Rightarrow> 'k cheat_manager" where
  "SaveCheatToggles env program_id s =
     (let path = toggles_path program_id; (ok, k) = open_new_file env (cheat_world s) path
      in s\<lparr>cheat_world :=
           (if ok then write_pieces env path 0 (toggle_pieces (cheat_layout_of env) (cheat_entries s)) k else k)\<rparr>)"

subsection \<open>The attached process\<close>

definition CloseActiveCheatProcess ::
  "('r, 'k) cheat_env \<Rightarrow> 'k cheat_manager \<Rightarrow> ('r cheat_error, unit) outcome \<times> 'k cheat_manager" where
  "CloseActiveCheatProcess env s =
     (if cheat_debug_handle s \<noteq> invalid_handle env then
        (let (r, k) = close_handle env (cheat_world s) (cheat_debug_handle s); s = s\<lparr>cheat_world := k\<rparr>
         in ABORT_IF_FAILED (sys r) s (\<lambda>_.
            let s = s\<lparr>cheat_debug_handle := invalid_handle env\<rparr>;
                s = (if always_save_cheat_toggles s \<or> should_save_cheat_toggles s
                     then (SaveCheatToggles env (md_program_id (cheat_metadata_of s)) s)
                            \<lparr>should_save_cheat_toggles := False\<rparr>
                     else s)
            in (Ok (), s\<lparr>cheat_metadata_of := metadata_zero (cheat_layout_of env),
                         cheat_entries := ResetAllCheatEntries (cheat_layout_of env) (cheat_entries s),
                         needs_reload_vm := True, frozen_addresses_map := [], cheat_process_event := True\<rparr>)))
      else (Ok (), s))"

definition is_active :: "('r, 'k) cheat_env \<Rightarrow> 'k cheat_manager \<Rightarrow> bool" where
  "is_active env s \<longleftrightarrow>
     cheat_debug_handle s \<noteq> invalid_handle env \<and>
     (case process_id_of env (cheat_world s) (cheat_debug_handle s) of Inl _ \<Rightarrow> False | Inr _ \<Rightarrow> True) \<and>
     (case application_process_id env (cheat_world s) of
        Inl _ \<Rightarrow> False | Inr pid \<Rightarrow> pid = md_process_id (cheat_metadata_of s))"

definition HasActiveCheatProcess ::
  "('r, 'k) cheat_env \<Rightarrow> 'k cheat_manager \<Rightarrow> ('r cheat_error, bool) outcome \<times> 'k cheat_manager" where
  "HasActiveCheatProcess env s =
     (if is_active env s then (Ok True, s)
      else let (r, s) = CloseActiveCheatProcess env s in R_TRY r s (\<lambda>_. (Ok False, s)))"

subsection \<open>Memory of the process\<close>

text \<open>The bytes of a frozen value that a write covers, from its first byte on.\<close>

definition overwrite :: "u64 \<Rightarrow> u8 list \<Rightarrow> u64" where
  "overwrite v bs = le_value (take 8 bs @ drop (List.length bs) (le_bytes 8 v))"

text \<open>The loop over the frozen addresses ends at the first one behind the written range.\<close>

fun update_frozen :: "u64 \<Rightarrow> u8 list \<Rightarrow> frozen_map \<Rightarrow> frozen_map" where
  "update_frozen proc_addr bs [] = []"
| "update_frozen proc_addr bs ((address, v) # rest) =
     (let end' = proc_addr + of_nat (List.length bs)
      in if address \<ge> end' then (address, v) # rest
         else (address,
               if proc_addr \<le> address \<and> address < end'
               then v\<lparr>frozen_value_of := overwrite (frozen_value_of v) (drop (unat (address - proc_addr)) bs)\<rparr>
               else v) # update_frozen proc_addr bs rest)"

text \<open>What the virtual machine and the clients do with the memory: the frozen addresses and the outside.\<close>

definition write_unsafe ::
  "('r, 'k) cheat_env \<Rightarrow> u32 \<Rightarrow> u64 \<Rightarrow> u8 list \<Rightarrow> frozen_map \<times> 'k \<Rightarrow> ('r cheat_error, unit) outcome \<times> frozen_map \<times> 'k" where
  "write_unsafe env h proc_addr bs w =
     (let (r, k) = write_process_memory env (snd w) h proc_addr bs
      in R_TRY (sys r) (fst w, k) (\<lambda>_. (Ok (), update_frozen proc_addr bs (fst w), k)))"

definition ReadCheatProcessMemoryUnsafe ::
  "('r, 'k) cheat_env \<Rightarrow> u64 \<Rightarrow> nat \<Rightarrow> 'k cheat_manager \<Rightarrow> ('r cheat_error, u8 list) outcome" where
  "ReadCheatProcessMemoryUnsafe env proc_addr size' s =
     sys (read_process_memory env (cheat_world s) (cheat_debug_handle s) proc_addr size')"

definition with_memory :: "'k cheat_manager \<Rightarrow> frozen_map \<times> 'k \<Rightarrow> 'k cheat_manager" where
  "with_memory s w = s\<lparr>frozen_addresses_map := fst w, cheat_world := snd w\<rparr>"

definition WriteCheatProcessMemoryUnsafe ::
  "('r, 'k) cheat_env \<Rightarrow> u64 \<Rightarrow> u8 list \<Rightarrow> 'k cheat_manager \<Rightarrow> ('r cheat_error, unit) outcome \<times> 'k cheat_manager" where
  "WriteCheatProcessMemoryUnsafe env proc_addr bs s =
     (let (r, w) = write_unsafe env (cheat_debug_handle s) proc_addr bs (frozen_addresses_map s, cheat_world s)
      in (r, with_memory s w))"

text \<open>The walks over the mappings, which end when the addresses wrap or a query fails.\<close>

partial_function (option) count_mappings :: "(u64 \<Rightarrow> 'r + memory_info) \<Rightarrow> u64 \<Rightarrow> nat \<Rightarrow> nat option" where
  "count_mappings query address count =
     (case query address of
        Inl _ \<Rightarrow> Some count
      | Inr mi \<Rightarrow>
          let count = (if mem_perm mi \<noteq> 0 then count + 1 else count); address = mem_addr mi + mem_size mi
          in if address \<noteq> 0 then count_mappings query address count else Some count)"

partial_function (option) collect_mappings ::
  "(u64 \<Rightarrow> 'r + memory_info) \<Rightarrow> nat \<Rightarrow> nat \<Rightarrow> u64 \<Rightarrow> nat \<Rightarrow> memory_info list \<Rightarrow> memory_info list option" where
  "collect_mappings query max_count offset address total_count out =
     (case query address of
        Inl _ \<Rightarrow> Some out
      | Inr mi \<Rightarrow>
          let out' = (if mem_perm mi \<noteq> 0 \<and> offset \<le> total_count \<and> List.length out < max_count then out @ [mi] else out);
              total_count = (if mem_perm mi \<noteq> 0 then total_count + 1 else total_count);
              address = mem_addr mi + mem_size mi
          in if address \<noteq> 0 \<and> List.length out' < max_count
             then collect_mappings query max_count offset address total_count out' else Some out')"

declare count_mappings.simps [code] collect_mappings.simps [code]

subsection \<open>Cheats\<close>

definition GetCheatCount :: "'k cheat_manager \<Rightarrow> nat" where
  "GetCheatCount s = List.length (filter (\<lambda>c. definition_num_opcodes c \<noteq> 0) (cheat_entries s))"

fun collect_cheats :: "nat \<Rightarrow> nat \<Rightarrow> nat \<Rightarrow> cheat list \<Rightarrow> cheat list" where
  "collect_cheats max_count offset total_count [] = []"
| "collect_cheats 0 offset total_count (c # cs) = []"
| "collect_cheats (Suc n) offset total_count (c # cs) =
     (if definition_num_opcodes c \<noteq> 0 then
        (if total_count + 1 > offset then c # collect_cheats n offset (total_count + 1) cs
         else collect_cheats (Suc n) offset (total_count + 1) cs)
      else collect_cheats (Suc n) offset total_count cs)"

definition GetCheats :: "nat \<Rightarrow> nat \<Rightarrow> 'k cheat_manager \<Rightarrow> cheat list" where
  "GetCheats max_count offset s = collect_cheats max_count offset 0 (cheat_entries s)"

definition GetCheatById :: "nat \<Rightarrow> 'k cheat_manager \<Rightarrow> ('r cheat_error, cheat) outcome" where
  "GetCheatById id' s =
     (case GetCheatEntryById id' of
        None \<Rightarrow> Err ResultCheatUnknownId
      | Some i \<Rightarrow> if definition_num_opcodes (cheat_entries s ! i) \<noteq> 0 then Ok (cheat_entries s ! i) else Err ResultCheatUnknownId)"

definition ToggleCheat :: "nat \<Rightarrow> 'k cheat_manager \<Rightarrow> ('r cheat_error, unit) outcome \<times> 'k cheat_manager" where
  "ToggleCheat id' s =
     (case GetCheatEntryById id' of
        None \<Rightarrow> (Err ResultCheatUnknownId, s)
      | Some i \<Rightarrow>
          let c = cheat_entries s ! i
          in R_UNLESS (definition_num_opcodes c \<noteq> 0) ResultCheatUnknownId s (
             R_UNLESS (id' \<noteq> 0) ResultCheatCannotDisable s (
             (Ok (), s\<lparr>cheat_entries := (cheat_entries s)[i := c\<lparr>enabled := \<not> enabled c\<rparr>],
                       needs_reload_vm := True\<rparr>))))"

record cheat_definition =
  def_name :: "u8 list"
  def_num_opcodes :: nat
  def_opcodes :: "u32 list"

text \<open>The number of the new cheat is not reported.\<close>

definition AddCheat ::
  "('r, 'k) cheat_env \<Rightarrow> cheat_definition \<Rightarrow> bool \<Rightarrow> 'k cheat_manager \<Rightarrow>
     ('r cheat_error, unit) outcome \<times> 'k cheat_manager" where
  "AddCheat env d on s =
     R_UNLESS (def_num_opcodes d \<noteq> 0) ResultCheatInvalid s (
     R_UNLESS (def_num_opcodes d \<le> opcodes_size (cheat_layout_of env)) ResultCheatInvalid s (
     case GetFreeCheatEntry (cheat_entries s) of
       None \<Rightarrow> (Err ResultCheatOutOfResource, s)
     | Some i \<Rightarrow>
         (Ok (), s\<lparr>cheat_entries := (cheat_entries s)[i := (cheat_entries s ! i)
                     \<lparr>enabled := on, readable_name := def_name d, definition_num_opcodes := def_num_opcodes d,
                      definition_opcodes := def_opcodes d\<rparr>],
                   needs_reload_vm := True\<rparr>)))"

definition RemoveCheat ::
  "('r, 'k) cheat_env \<Rightarrow> nat \<Rightarrow> 'k cheat_manager \<Rightarrow> ('r cheat_error, unit) outcome \<times> 'k cheat_manager" where
  "RemoveCheat env id' s =
     R_UNLESS (id' < MaxCheatCount) ResultCheatUnknownId s (
       (Ok (), s\<lparr>cheat_entries := ResetCheatEntry (cheat_layout_of env) id' (cheat_entries s), needs_reload_vm := True\<rparr>))"

subsection \<open>Frozen addresses\<close>

fun collect_frozen :: "nat \<Rightarrow> nat \<Rightarrow> nat \<Rightarrow> frozen_map \<Rightarrow> frozen_map" where
  "collect_frozen max_count offset total_count [] = []"
| "collect_frozen 0 offset total_count (x # xs) = []"
| "collect_frozen (Suc n) offset total_count (x # xs) =
     (if offset \<le> total_count then x # collect_frozen n offset (total_count + 1) xs
      else collect_frozen (Suc n) offset (total_count + 1) xs)"

definition GetFrozenAddress :: "u64 \<Rightarrow> 'k cheat_manager \<Rightarrow> ('r cheat_error, u64 \<times> frozen_value) outcome" where
  "GetFrozenAddress address s =
     (case map_of (frozen_addresses_map s) address of
        None \<Rightarrow> Err ResultFrozenAddressNotFound | Some v \<Rightarrow> Ok (address, v))"

fun insert_frozen :: "u64 \<Rightarrow> frozen_value \<Rightarrow> frozen_map \<Rightarrow> frozen_map" where
  "insert_frozen address v [] = [(address, v)]"
| "insert_frozen address v ((a, w) # rest) =
     (if address < a then (address, v) # (a, w) # rest
      else if address = a then (address, v) # rest
      else (a, w) # insert_frozen address v rest)"

text \<open>The value is zero but for the bytes read.\<close>

definition EnableFrozenAddress ::
  "('r, 'k) cheat_env \<Rightarrow> u64 \<Rightarrow> nat \<Rightarrow> 'k cheat_manager \<Rightarrow> ('r cheat_error, u64) outcome \<times> 'k cheat_manager" where
  "EnableFrozenAddress env address width s =
     R_UNLESS (List.length (frozen_addresses_map s) < MaxFrozenAddressCount) ResultFrozenAddressOutOfResource s (
     R_UNLESS (map_of (frozen_addresses_map s) address = None) ResultFrozenAddressAlreadyExists s (
     R_TRY (ReadCheatProcessMemoryUnsafe env address width s) s (\<lambda>bs.
     let v = \<lparr>frozen_value_of = overwrite 0 bs, frozen_width = width\<rparr>
     in (Ok (frozen_value_of v),
         s\<lparr>frozen_addresses_map := insert_frozen address v (frozen_addresses_map s)\<rparr>))))"

definition DisableFrozenAddress ::
  "u64 \<Rightarrow> 'k cheat_manager \<Rightarrow> ('r cheat_error, unit) outcome \<times> 'k cheat_manager" where
  "DisableFrozenAddress address s =
     R_UNLESS (map_of (frozen_addresses_map s) address \<noteq> None) ResultFrozenAddressNotFound s (
       (Ok (), s\<lparr>frozen_addresses_map := filter (\<lambda>x. fst x \<noteq> address) (frozen_addresses_map s)\<rparr>))"

end
