(* ===== verification/CheatService.thy ===== *)
theory CheatService
  imports CheatManager
begin

text \<open>
  Attaching to the application, one round of the threads of the cheat process manager
  (\<open>dmnt_cheat_api.cpp\<close>), and the commands of the cheat service (\<open>dmnt_cheat_service.cpp\<close>).
  The virtual machine runs on the memory of the manager, so what a cheat writes also reaches
  the frozen addresses.
\<close>

subsection \<open>Attaching\<close>

definition R_ABORT_UNLESS_IF_NEW_PROCESS ::
  "bool \<Rightarrow> ('r cheat_error, 'b) outcome \<Rightarrow> 's \<Rightarrow> ('b \<Rightarrow> ('r cheat_error, 'a) outcome \<times> 's) \<Rightarrow>
     ('r cheat_error, 'a) outcome \<times> 's" where
  "R_ABORT_UNLESS_IF_NEW_PROCESS on_process_launch r s f =
     (if on_process_launch then ABORT_IF_FAILED r s f else R_TRY r s f)"

definition set_metadata :: "(cheat_metadata \<Rightarrow> cheat_metadata) \<Rightarrow> 'k cheat_manager \<Rightarrow> 'k cheat_manager" where
  "set_metadata f s = s\<lparr>cheat_metadata_of := f (cheat_metadata_of s)\<rparr>"

definition on_world :: "('k \<Rightarrow> 'b \<times> 'k) \<Rightarrow> 'k cheat_manager \<Rightarrow> 'b \<times> 'k cheat_manager" where
  "on_world f s = (let (r, k) = f (cheat_world s) in (r, s\<lparr>cheat_world := k\<rparr>))"

definition start_process ::
  "('r, 'k) cheat_env \<Rightarrow> u64 \<Rightarrow> 'k cheat_manager \<Rightarrow> ('r cheat_error, unit) outcome \<times> 'k cheat_manager" where
  "start_process env pid s =
     (let (r, s) = on_world (\<lambda>k. pm_start_process env k pid) s in ABORT_IF_FAILED (sys r) s (\<lambda>_. (Ok (), s)))"

text \<open>The handle of the process serves to learn its address space and whether cheats are wanted.\<close>

definition attach_extents ::
  "('r, 'k) cheat_env \<Rightarrow> bool \<Rightarrow> 'k cheat_manager \<Rightarrow>
     ('k cheat_manager \<Rightarrow> ('r cheat_error, unit) outcome \<times> 'k cheat_manager) \<Rightarrow>
     ('r cheat_error, unit) outcome \<times> 'k cheat_manager" where
  "attach_extents env on_process_launch s f =
     (let (r, s) = on_world (\<lambda>k. pm_process_info env k (md_process_id (cheat_metadata_of s))) s
      in R_ABORT_UNLESS_IF_NEW_PROCESS on_process_launch (sys r) s (\<lambda>(h, prog, cheat_enabled).
         let s = set_metadata (\<lambda>m. m\<lparr>md_program_id := prog\<rparr>) s
         in ABORT_IF_FAILED (sys (address_space_info env (cheat_world s) h)) s (\<lambda>(heap, alias, aslr).
            let s = set_metadata (\<lambda>m. m\<lparr>heap_extents := heap, alias_extents := alias, aslr_extents := aslr\<rparr>) s;
                (r, s) = (if h \<noteq> invalid_handle env then on_world (\<lambda>k. close_handle env k h) s else (Inr (), s))
            in ABORT_IF_FAILED (sys r) s (\<lambda>_.
               R_UNLESS (\<not> on_process_launch \<or> cheat_enabled) ResultCheatNotAttached s (f s)))))"

text \<open>An application has two modules; only a forced attach accepts one.\<close>

definition main_module :: "bool \<Rightarrow> module_info list \<Rightarrow> module_info option" where
  "main_module on_process_launch mods =
     (if List.length mods = 2 then Some (mods ! 1)
      else if List.length mods = 1 \<and> \<not> on_process_launch then Some (mods ! 0)
      else None)"

definition attach_modules ::
  "('r, 'k) cheat_env \<Rightarrow> bool \<Rightarrow> 'k cheat_manager \<Rightarrow>
     ('k cheat_manager \<Rightarrow> ('r cheat_error, unit) outcome \<times> 'k cheat_manager) \<Rightarrow>
     ('r cheat_error, unit) outcome \<times> 'k cheat_manager" where
  "attach_modules env on_process_launch s f =
     R_ABORT_UNLESS_IF_NEW_PROCESS on_process_launch
       (sys (ldr_module_info env (cheat_world s) (md_process_id (cheat_metadata_of s)))) s (\<lambda>mods.
       case main_module on_process_launch mods of
         None \<Rightarrow> (Err ResultCheatNotAttached, s)
       | Some x \<Rightarrow>
           f (set_metadata (\<lambda>m. m\<lparr>main_nso_extents := (mod_base_address x, mod_size x),
                main_nso_build_id := take (build_id_size (cheat_layout_of env)) (mod_build_id x)\<rparr>) s))"

definition attach_cheats ::
  "('r, 'k) cheat_env \<Rightarrow> bool \<Rightarrow> 'k cheat_manager \<Rightarrow>
     ('k cheat_manager \<Rightarrow> ('r cheat_error, unit) outcome \<times> 'k cheat_manager) \<Rightarrow>
     ('r cheat_error, unit) outcome \<times> 'k cheat_manager" where
  "attach_cheats env on_process_launch s f =
     (let md = cheat_metadata_of s; (ok, s) = LoadCheats env (md_program_id md) (main_nso_build_id md) s;
          (ok, s) = (if ok then LoadCheatToggles env (md_program_id md) s else (False, s))
      in R_UNLESS (ok \<or> \<not> on_process_launch) ResultCheatNotAttached s (f s))"

definition attach_debug ::
  "('r, 'k) cheat_env \<Rightarrow> bool \<Rightarrow> 'k cheat_manager \<Rightarrow> ('r cheat_error, unit) outcome \<times> 'k cheat_manager" where
  "attach_debug env on_process_launch s =
     (let (r, s) = on_world (\<lambda>k. debug_active_process env k (md_process_id (cheat_metadata_of s))) s
      in R_ABORT_UNLESS_IF_NEW_PROCESS on_process_launch (sys r) s (\<lambda>h.
         (Ok (), s\<lparr>cheat_debug_handle := h\<rparr>)))"

text \<open>The process guard: a failed attach starts the new process all the same.\<close>

definition process_guard ::
  "('r, 'k) cheat_env \<Rightarrow> bool \<Rightarrow> ('r cheat_error, unit) outcome \<times> 'k cheat_manager \<Rightarrow>
     ('r cheat_error, unit) outcome \<times> 'k cheat_manager" where
  "process_guard env on_process_launch x =
     (case x of
        (Err e, s) \<Rightarrow>
          (let (r, s) = (if on_process_launch then start_process env (md_process_id (cheat_metadata_of s)) s else (Ok (), s))
           in R_TRY r s (\<lambda>_. (Err e, set_metadata (\<lambda>m. m\<lparr>md_process_id := 0\<rparr>) s)))
      | _ \<Rightarrow> x)"

definition attach_found ::
  "('r, 'k) cheat_env \<Rightarrow> bool \<Rightarrow> 'k cheat_manager \<Rightarrow> ('r cheat_error, unit) outcome \<times> 'k cheat_manager" where
  "attach_found env on_process_launch s =
     (let (r, s) = process_guard env on_process_launch
                     (attach_extents env on_process_launch s (\<lambda>s.
                      attach_modules env on_process_launch s (\<lambda>s.
                      attach_cheats env on_process_launch s (\<lambda>s. attach_debug env on_process_launch s))))
      in R_TRY r s (\<lambda>_.
         let (r, s) = (if on_process_launch then start_process env (md_process_id (cheat_metadata_of s)) s else (Ok (), s))
         in R_TRY r s (\<lambda>_. (Ok (), s\<lparr>debug_events_event := True, cheat_process_event := True\<rparr>))))"

definition AttachToApplicationProcess ::
  "('r, 'k) cheat_env \<Rightarrow> bool \<Rightarrow> 'k cheat_manager \<Rightarrow> ('r cheat_error, unit) outcome \<times> 'k cheat_manager" where
  "AttachToApplicationProcess env on_process_launch s =
     (let (r, s) = HasActiveCheatProcess env s
      in R_TRY r s (\<lambda>active.
         if active \<and> \<not> on_process_launch then (Ok (), s)
         else
           let (r, s) = CloseActiveCheatProcess env s
           in R_TRY r s (\<lambda>_.
              R_ABORT_UNLESS_IF_NEW_PROCESS on_process_launch (sys (application_process_id env (cheat_world s))) s (\<lambda>pid.
              attach_found env on_process_launch (set_metadata (\<lambda>m. m\<lparr>md_process_id := pid\<rparr>) s)))))"

definition ForceOpenCheatProcess ::
  "('r, 'k) cheat_env \<Rightarrow> 'k cheat_manager \<Rightarrow> ('r cheat_error, unit) outcome \<times> 'k cheat_manager" where
  "ForceOpenCheatProcess env s = AttachToApplicationProcess env False s"

subsection \<open>The threads\<close>

text \<open>What the virtual machine sees of the manager.\<close>

definition vm_env_of :: "('r, 'k) cheat_env \<Rightarrow> 'k cheat_manager \<Rightarrow> (frozen_map \<times> 'k) vm_env" where
  "vm_env_of env s =
     \<lparr>main_nso_base = fst (main_nso_extents (cheat_metadata_of s)), heap_base = fst (heap_extents (cheat_metadata_of s)),
      keys_held = vm_keys_held env (cheat_world s),
      read_memory = (\<lambda>w a n. case read_process_memory env (snd w) (cheat_debug_handle s) a n of Inl _ \<Rightarrow> None | Inr bs \<Rightarrow> Some bs),
      write_memory = (\<lambda>w a bs. snd (write_unsafe env (cheat_debug_handle s) a bs w)),
      debug_log = (\<lambda>w i v. (fst w, vm_debug_log env (snd w) i v)),
      wide_shift_left = vm_wide_shift_left env, wide_shift_right = vm_wide_shift_right env\<rparr>"

definition write_frozen :: "('r, 'k) cheat_env \<Rightarrow> u32 \<Rightarrow> u64 \<times> frozen_value \<Rightarrow> 'k \<Rightarrow> 'k" where
  "write_frozen env h x k =
     snd (write_process_memory env k h (fst x) (le_bytes (frozen_width (snd x)) (frozen_value_of (snd x))))"

definition apply_frozen :: "('r, 'k) cheat_env \<Rightarrow> 'k cheat_manager \<Rightarrow> 'k cheat_manager" where
  "apply_frozen env s =
     s\<lparr>cheat_world := fold (write_frozen env (cheat_debug_handle s)) (frozen_addresses_map s) (cheat_world s)\<rparr>"

text \<open>Reloading the program, when the table has changed.\<close>

definition reload_vm :: "'k cheat_manager \<Rightarrow> bool \<times> 'k cheat_manager" where
  "reload_vm s =
     (if \<not> needs_reload_vm s then (True, s)
      else let (ok, m) = LoadProgram (cheat_vm s) (map cheat_entry.truncate (cheat_entries s))
           in (ok, s\<lparr>cheat_vm := m\<rparr>))"

text \<open>
  One round of the virtual machine thread, with the fuel of the execution; \<open>None\<close> when the
  fuel is used up.
\<close>

definition vm_round ::
  "nat \<Rightarrow> ('r, 'k) cheat_env \<Rightarrow> 'k cheat_manager \<Rightarrow> (('r cheat_error, unit) outcome \<times> 'k cheat_manager) option" where
  "vm_round fuel env s =
     (case HasActiveCheatProcess env s of
        (Ok True, s) \<Rightarrow>
          (let (ok, s) = reload_vm s; s = (if ok then s\<lparr>needs_reload_vm := False\<rparr> else s)
           in if ok \<and> num_opcodes (cheat_vm s) \<noteq> 0 then
                (case Execute fuel (vm_env_of env s) (cheat_vm s, (frozen_addresses_map s, cheat_world s)) of
                   Done (m, w) \<Rightarrow> Some (Ok (), apply_frozen env (with_memory (s\<lparr>cheat_vm := m\<rparr>) w))
                 | RunAbort \<Rightarrow> Some (Abort, s)
                 | OutOfFuel _ \<Rightarrow> None)
              else Some (Ok (), apply_frozen env s))
      | (Ok False, s) \<Rightarrow> Some (Ok (), s)
      | (Err e, s) \<Rightarrow> Some (Err e, s)
      | (Abort, s) \<Rightarrow> Some (Abort, s))"

subsection \<open>Commands\<close>

datatype cheat_cmd =
    HasCheatProcess | GetCheatProcessMetadata | ForceOpen
  | GetCheatProcessMappingCount | GetCheatProcessMappings bool nat nat
  | ReadCheatProcessMemory bool nat u64 nat | WriteCheatProcessMemory bool "u8 list" u64 nat | QueryCheatProcessMemory u64
  | CmdGetCheatCount | CmdGetCheats bool nat nat | CmdGetCheatById nat | CmdToggleCheat nat
  | CmdAddCheat cheat_definition bool | CmdRemoveCheat nat
  | GetFrozenAddressCount | GetFrozenAddresses bool nat nat | CmdGetFrozenAddress u64
  | CmdEnableFrozenAddress u64 u64 | CmdDisableFrozenAddress u64

datatype cheat_reply =
    Nothing | Flag bool | Metadata cheat_metadata | Count nat | Mappings "memory_info list" | Bytes "u8 list"
  | Mapping memory_info | Cheats "cheat list" | Cheat cheat | FrozenList frozen_map | Frozen "u64 \<times> frozen_value" | Value u64

definition replied ::
  "('a \<Rightarrow> cheat_reply) \<Rightarrow> ('r cheat_error, 'a) outcome \<times> 's \<Rightarrow> ('r cheat_error, cheat_reply) outcome \<times> 's" where
  "replied f x = (case x of (r, s) \<Rightarrow> R_TRY r s (\<lambda>v. (Ok (f v), s)))"

text \<open>A walk that does not end.\<close>

definition walked ::
  "('a \<Rightarrow> cheat_reply) \<Rightarrow> 's \<Rightarrow> 'a option \<Rightarrow> (('r cheat_error, cheat_reply) outcome \<times> 's) option" where
  "walked f s r = map_option (\<lambda>v. (Ok (f v), s)) r"

definition ensured ::
  "('r, 'k) cheat_env \<Rightarrow> 'k cheat_manager \<Rightarrow>
     ('k cheat_manager \<Rightarrow> (('r cheat_error, cheat_reply) outcome \<times> 'k cheat_manager) option) \<Rightarrow>
     (('r cheat_error, cheat_reply) outcome \<times> 'k cheat_manager) option" where
  "ensured env s f =
     (case HasActiveCheatProcess env s of
        (Ok True, s) \<Rightarrow> f s
      | (Ok False, s) \<Rightarrow> Some (Err ResultCheatNotAttached, s)
      | (Err e, s) \<Rightarrow> Some (Err e, s)
      | (Abort, s) \<Rightarrow> Some (Abort, s))"

definition need_buffer ::
  "bool \<Rightarrow> 's \<Rightarrow> (('r cheat_error, cheat_reply) outcome \<times> 's) option \<Rightarrow> (('r cheat_error, cheat_reply) outcome \<times> 's) option" where
  "need_buffer present s x = (if present then x else Some (Err ResultCheatNullBuffer, s))"

definition valid_freeze_width :: "u64 \<Rightarrow> bool" where
  "valid_freeze_width width \<longleftrightarrow> width > 0 \<and> width \<le> 8 \<and> width AND (width - 1) = 0"

fun cheat_call ::
  "('r, 'k) cheat_env \<Rightarrow> cheat_cmd \<Rightarrow> 'k cheat_manager \<Rightarrow> (('r cheat_error, cheat_reply) outcome \<times> 'k cheat_manager) option" where
  "cheat_call env HasCheatProcess s = Some (replied Flag (HasActiveCheatProcess env s))"
| "cheat_call env GetCheatProcessMetadata s = ensured env s (\<lambda>s. Some (Ok (Metadata (cheat_metadata_of s)), s))"
| "cheat_call env ForceOpen s =
     Some (case ForceOpenCheatProcess env s of (Ok _, s) \<Rightarrow> (Ok Nothing, s) | (Err _, s) \<Rightarrow> (Err ResultCheatNotAttached, s) | (Abort, s) \<Rightarrow> (Abort, s))"
| "cheat_call env GetCheatProcessMappingCount s = ensured env s (\<lambda>s.
     walked Count s (count_mappings (query_process_memory env (cheat_world s) (cheat_debug_handle s)) 0 0))"
| "cheat_call env (GetCheatProcessMappings buffer max_count offset) s = need_buffer buffer s (ensured env s (\<lambda>s.
     walked Mappings s (collect_mappings (query_process_memory env (cheat_world s) (cheat_debug_handle s)) max_count offset 0 0 [])))"
| "cheat_call env (ReadCheatProcessMemory buffer buffer_size address out_size) s = need_buffer buffer s (ensured env s (\<lambda>s.
     Some (replied Bytes (ReadCheatProcessMemoryUnsafe env address (min out_size buffer_size) s, s))))"
| "cheat_call env (WriteCheatProcessMemory buffer bs address in_size) s = need_buffer buffer s (ensured env s (\<lambda>s.
     Some (replied (\<lambda>_. Nothing) (WriteCheatProcessMemoryUnsafe env address (take in_size bs) s))))"
| "cheat_call env (QueryCheatProcessMemory address) s = ensured env s (\<lambda>s.
     Some (replied Mapping (sys (query_process_memory env (cheat_world s) (cheat_debug_handle s) address), s)))"
| "cheat_call env CmdGetCheatCount s = ensured env s (\<lambda>s. Some (Ok (Count (GetCheatCount s)), s))"
| "cheat_call env (CmdGetCheats buffer max_count offset) s =
     need_buffer buffer s (ensured env s (\<lambda>s. Some (Ok (Cheats (GetCheats max_count offset s)), s)))"
| "cheat_call env (CmdGetCheatById i) s = ensured env s (\<lambda>s. Some (replied Cheat (GetCheatById i s, s)))"
| "cheat_call env (CmdToggleCheat i) s = ensured env s (\<lambda>s. Some (replied (\<lambda>_. Nothing) (ToggleCheat i s)))"
| "cheat_call env (CmdAddCheat d on) s = ensured env s (\<lambda>s. Some (replied (\<lambda>_. Nothing) (AddCheat env d on s)))"
| "cheat_call env (CmdRemoveCheat i) s = ensured env s (\<lambda>s. Some (replied (\<lambda>_. Nothing) (RemoveCheat env i s)))"
| "cheat_call env GetFrozenAddressCount s = ensured env s (\<lambda>s. Some (Ok (Count (List.length (frozen_addresses_map s))), s))"
| "cheat_call env (GetFrozenAddresses buffer max_count offset) s =
     need_buffer buffer s (ensured env s (\<lambda>s. Some (Ok (FrozenList (collect_frozen max_count offset 0 (frozen_addresses_map s))), s)))"
| "cheat_call env (CmdGetFrozenAddress a) s = ensured env s (\<lambda>s. Some (replied Frozen (GetFrozenAddress a s, s)))"
| "cheat_call env (CmdEnableFrozenAddress a width) s =
     (if valid_freeze_width width
      then ensured env s (\<lambda>s. Some (replied Value (EnableFrozenAddress env a (unat width) s)))
      else Some (Err ResultFrozenAddressInvalidWidth, s))"
| "cheat_call env (CmdDisableFrozenAddress a) s = ensured env s (\<lambda>s. Some (replied (\<lambda>_. Nothing) (DisableFrozenAddress a s)))"

text \<open>A client's command, a launched application and a round of the virtual machine are the steps.\<close>

datatype cheat_event = Command cheat_cmd | Launched | Round nat

fun cheat_step :: "('r, 'k) cheat_env \<Rightarrow> cheat_event \<Rightarrow> 'k cheat_manager \<Rightarrow> 'k cheat_manager option" where
  "cheat_step env (Command c) s = map_option snd (cheat_call env c s)"
| "cheat_step env Launched s = Some (snd (AttachToApplicationProcess env True s))"
| "cheat_step env (Round fuel) s = map_option snd (vm_round fuel env s)"

end
