(* ===== verification/CheatInvariant.thy ===== *)
theory CheatInvariant
  imports CheatService CheatVmRun
begin

text \<open>
  The invariant of the cheat process manager: the table has well-formed entries, the frozen
  addresses are ordered, few and of a valid width, and the program of the virtual machine is
  that of the enabled cheats unless a reload is due.
\<close>

subsection \<open>The memory the virtual machine relies on\<close>

text \<open>
  The contract of the memory behind the virtual machine: what every write and log entry
  keeps, a whole execution keeps.
\<close>

locale cheat_memory =
  fixes vmenv :: "'w vm_env" and keeps :: "'w \<Rightarrow> bool"
  assumes write_keeps: "keeps w \<Longrightarrow> keeps (write_memory vmenv w a bs)"
    and log_keeps: "keeps w \<Longrightarrow> keeps (debug_log vmenv w i v)"
begin

lemma guarded_write_keeps: "keeps w \<Longrightarrow> keeps (guarded_write vmenv w a n v)"
  by (simp add: guarded_write_def write_keeps)

lemma skip_unless_keeps: "skip_unless c (m, w) = Some (m', w') \<Longrightarrow> w' = w"
  by (auto simp: skip_unless_def split: if_splits)

lemma exec_opcode_keeps:
  assumes "exec_opcode vmenv op (m, w) = Some (m', w')" "keeps w"
  shows "keeps w'"
  using assms
  by (cases op)
    (auto simp: exec_store_static_def exec_str_static_def exec_str_register_def exec_debug_log_def exec_ldr_memory_def
      exec_begin_cond_def exec_begin_reg_cond_def exec_keypress_def Let_def guarded_write_keeps log_keeps
      dest: skip_unless_keeps)

lemma vm_step_keeps:
  "\<lbrakk>vm_step vmenv (m, w) = Continue (m', w'); keeps w\<rbrakk> \<Longrightarrow> keeps w'"
  "\<lbrakk>vm_step vmenv (m, w) = Finished (m', w'); keeps w\<rbrakk> \<Longrightarrow> keeps w'"
  by (auto simp: vm_step_def Let_def exec_opcode_keeps split: prod.splits option.splits)

lemma exec_loop_keeps: "\<lbrakk>exec_loop fuel vmenv (m, w) = Done (m', w'); keeps w\<rbrakk> \<Longrightarrow> keeps w'"
proof (induction fuel arbitrary: m w)
  case (Suc fuel)
  show ?case
  proof (cases "vm_step vmenv (m, w)")
    case (Continue s)
    obtain m1 w1 where s: "s = (m1, w1)" by fastforce
    then have "exec_loop fuel vmenv (m1, w1) = Done (m', w')" using Suc.prems(1) Continue by simp
    then show ?thesis using Suc.IH vm_step_keeps(1) Continue s Suc.prems(2) by blast
  next
    case (Finished s)
    then show ?thesis using Suc.prems vm_step_keeps(2) by simp
  next
    case VmAbort
    then show ?thesis using Suc.prems by simp
  qed
qed simp

lemma execute_keeps: "\<lbrakk>Execute fuel vmenv (m, w) = Done (m', w'); keeps w\<rbrakk> \<Longrightarrow> keeps w'"
  by (simp add: Execute_def exec_loop_keeps)

end

subsection \<open>Frozen addresses\<close>

text \<open>A write changes values only: the addresses and widths are the shape of the map.\<close>

definition frozen_shape :: "frozen_map \<Rightarrow> (u64 \<times> nat) list" where
  "frozen_shape = map (\<lambda>x. (fst x, frozen_width (snd x)))"

lemma frozen_shape_simps [simp]:
  "frozen_shape [] = []" "frozen_shape ((a, v) # xs) = (a, frozen_width v) # frozen_shape xs"
  by (simp_all add: frozen_shape_def)

lemma update_frozen_shape [simp]: "frozen_shape (update_frozen p bs fz) = frozen_shape fz"
  by (induction p bs fz rule: update_frozen.induct) (simp_all add: Let_def)

lemma write_unsafe_shape [simp]: "frozen_shape (fst (snd (write_unsafe env h p bs w))) = frozen_shape (fst w)"
  by (simp add: write_unsafe_def R_TRY_def split: prod.split outcome.split)

interpretation frozen_memory: cheat_memory "vm_env_of env s" "\<lambda>w. frozen_shape (fst w) = shape"
  by unfold_locales (simp_all add: vm_env_of_def)

definition shape_ok :: "(u64 \<times> nat) list \<Rightarrow> bool" where
  "shape_ok sh \<longleftrightarrow> sorted_wrt (<) (map fst sh) \<and> List.length sh \<le> MaxFrozenAddressCount \<and> (\<forall>x \<in> set sh. valid_width (snd x))"

abbreviation frozen_ok :: "frozen_map \<Rightarrow> bool" where
  "frozen_ok fz \<equiv> shape_ok (frozen_shape fz)"

lemma map_fst_shape [simp]: "map fst (frozen_shape fz) = map fst fz" "List.length (frozen_shape fz) = List.length fz"
  by (simp_all add: frozen_shape_def)

lemma set_insert_frozen: "set (map fst (insert_frozen a v fz)) = insert a (set (map fst fz))"
  by (induction a v fz rule: insert_frozen.induct) auto

lemma sorted_insert_frozen:
  "sorted_wrt (<) (map fst fz) \<Longrightarrow> sorted_wrt (<) (map fst (insert_frozen a v fz))"
proof (induction a v fz rule: insert_frozen.induct)
  case (2 a v b w rest)
  then show ?case using set_insert_frozen [of a v rest] by (auto simp: less_le_not_le)
qed simp

lemma length_insert_frozen: "map_of fz a = None \<Longrightarrow> List.length (insert_frozen a v fz) = Suc (List.length fz)"
  by (induction a v fz rule: insert_frozen.induct) (auto split: if_splits)

lemma set_shape_insert: "set (frozen_shape (insert_frozen a v fz)) \<subseteq> insert (a, frozen_width v) (set (frozen_shape fz))"
  by (induction a v fz rule: insert_frozen.induct) auto

lemma frozen_ok_insert:
  assumes "frozen_ok fz" "map_of fz a = None" "List.length fz < MaxFrozenAddressCount" "valid_width (frozen_width v)"
  shows "frozen_ok (insert_frozen a v fz)"
  using assms sorted_insert_frozen [of fz a v] length_insert_frozen [OF assms(2), of v] set_shape_insert [of a v fz]
  by (auto simp: shape_ok_def)

lemma frozen_ok_filter: "frozen_ok fz \<Longrightarrow> frozen_ok (filter P fz)"
proof -
  assume ok: "frozen_ok fz"
  have "sorted_wrt (<) (map fst (filter P fz))"
    using ok by (simp add: shape_ok_def sorted_wrt_map sorted_wrt_filter)
  moreover have "List.length (filter P fz) \<le> MaxFrozenAddressCount"
    using ok order_trans [OF length_filter_le [of P fz]] by (simp add: shape_ok_def)
  moreover have "set (frozen_shape (filter P fz)) \<subseteq> set (frozen_shape fz)" by (auto simp: frozen_shape_def)
  ultimately show "frozen_ok (filter P fz)" using ok by (auto simp: shape_ok_def)
qed

lemma valid_freeze_width:
  assumes "valid_freeze_width width"
  shows "valid_width (unat width)"
proof -
  have word: "unat width = k \<Longrightarrow> width = of_nat k" for k by (drule sym) simp
  have "unat width \<le> 8" using assms by (simp add: valid_freeze_width_def word_le_nat_alt)
  then have "unat width = 0 \<or> unat width = 1 \<or> unat width = 2 \<or> unat width = 3 \<or> unat width = 4 \<or> unat width = 5 \<or>
      unat width = 6 \<or> unat width = 7 \<or> unat width = 8" by linarith
  then show ?thesis
    using assms by (elim disjE) (auto simp: valid_freeze_width_def valid_width_def dest!: word)
qed

subsection \<open>The table\<close>

definition entry_ok :: "cheat_layout \<Rightarrow> cheat \<Rightarrow> bool" where
  "entry_ok l c \<longleftrightarrow> List.length (readable_name c) = name_size l \<and>
     List.length (definition_opcodes c) = opcodes_size l \<and> definition_num_opcodes c \<le> opcodes_size l"

definition table_ok :: "cheat_layout \<Rightarrow> cheat list \<Rightarrow> bool" where
  "table_ok l cs \<longleftrightarrow> List.length cs = MaxCheatCount \<and> (\<forall>c \<in> set cs. entry_ok l c)"

lemma entry_ok_simps [simp]:
  "entry_ok l (c\<lparr>enabled := on\<rparr>) = entry_ok l c" "entry_ok l (c\<lparr>cheat_id := i\<rparr>) = entry_ok l c"
  "entry_ok l (cheat_zero l)"
  by (simp_all add: entry_ok_def cheat_zero_def)

lemma table_ok_nth: "\<lbrakk>table_ok l cs; i < MaxCheatCount\<rbrakk> \<Longrightarrow> entry_ok l (cs ! i)"
  by (simp add: table_ok_def)

lemma table_ok_update: "\<lbrakk>table_ok l cs; i < MaxCheatCount \<Longrightarrow> entry_ok l c\<rbrakk> \<Longrightarrow> table_ok l (cs[i := c])"
proof (cases "i < MaxCheatCount")
  case False
  then show "table_ok l cs \<Longrightarrow> table_ok l (cs[i := c])" by (simp add: table_ok_def list_update_beyond)
qed (auto simp: table_ok_def dest!: set_update_subset_insert [THEN subsetD])

lemma table_ok_Reset: "table_ok l cs \<Longrightarrow> table_ok l (ResetCheatEntry l i cs)"
  by (simp add: ResetCheatEntry_def table_ok_update)

lemma table_ok_ResetAll: "table_ok l cs \<Longrightarrow> table_ok l (ResetAllCheatEntries l cs)"
proof -
  have "table_ok l cs \<Longrightarrow> table_ok l (fold (ResetCheatEntry l) is cs)" for "is"
    by (induction "is" arbitrary: cs) (simp_all add: table_ok_Reset)
  then show "table_ok l cs \<Longrightarrow> table_ok l (ResetAllCheatEntries l cs)" by (simp add: ResetAllCheatEntries_def)
qed

lemma GetFreeCheatEntry_dest:
  assumes "GetFreeCheatEntry cs = Some i"
  shows "1 \<le> i" "i < MaxCheatCount" "definition_num_opcodes (cs ! i) = 0"
  using assms by (auto simp: GetFreeCheatEntry_def find_Some_iff)

lemma length_store_name: "List.length old = n \<Longrightarrow> List.length (store_name n name old) = n"
  by (simp add: store_name_def Let_def min_def)

lemma table_ok_set_name: "table_ok l cs \<Longrightarrow> table_ok l (set_cheat_name l i name cs)"
  unfolding set_cheat_name_def
  by (rule table_ok_update) (auto dest: table_ok_nth simp: entry_ok_def length_store_name)

lemma table_ok_add_opcode:
  "\<lbrakk>table_ok l cs; definition_num_opcodes (cs ! i) < opcodes_size l\<rbrakk> \<Longrightarrow> table_ok l (add_opcode i x cs)"
  unfolding add_opcode_def Let_def
  by (rule table_ok_update) (auto dest: table_ok_nth simp: entry_ok_def)

lemma parse_cheats_ok: "table_ok l cs \<Longrightarrow> table_ok l (snd (parse_cheats l s cur cs))"
  by (induction l s cur cs rule: parse_cheats.induct)
    (auto split: option.split simp: table_ok_set_name table_ok_add_opcode)

lemma ParseCheats_ok:
  assumes "table_ok l cs"
  shows "table_ok l (snd (ParseCheats l d s cs))"
proof -
  obtain ok cs' where p: "parse_cheats l s None cs = (ok, cs')" by fastforce
  then have "table_ok l cs'" using parse_cheats_ok [OF assms, of s None] by simp
  then have "table_ok l (enable_parsed d cs')"
    by (auto simp: table_ok_def enable_parsed_def in_set_enumerate_eq)
  then show ?thesis using \<open>table_ok l cs'\<close> by (simp add: ParseCheats_def p)
qed

lemma apply_toggle_ok: "table_ok l cs \<Longrightarrow> table_ok l (apply_toggle l name t cs)"
  by (auto simp: apply_toggle_def split: option.split intro!: table_ok_update dest: table_ok_nth)

lemma ParseCheatToggles_ok: "table_ok l cs \<Longrightarrow> table_ok l (snd (ParseCheatToggles l beyond s cs))"
proof (induction l beyond s cs rule: ParseCheatToggles.induct)
  case (2 l beyond c s cs)
  then show ?case by (auto split: option.split simp: apply_toggle_ok Let_def simp del: ParseCheatToggles.simps(1))
qed simp

subsection \<open>The manager\<close>

definition vm_sized :: "vm \<Rightarrow> bool" where
  "vm_sized m \<longleftrightarrow> List.length (program m) = MaximumProgramOpcodeCount \<and> num_opcodes m \<le> MaximumProgramOpcodeCount"

definition table_opcodes :: "cheat list \<Rightarrow> u32 list" where
  "table_opcodes cs = enabled_opcodes (map cheat_entry.truncate cs)"

definition synced :: "'k cheat_manager \<Rightarrow> bool" where
  "synced s \<longleftrightarrow> (needs_reload_vm s \<or>
     take (num_opcodes (cheat_vm s)) (program (cheat_vm s)) = table_opcodes (cheat_entries s))"

definition manager_ok :: "('r, 'k) cheat_env \<Rightarrow> 'k cheat_manager \<Rightarrow> bool" where
  "manager_ok env s \<longleftrightarrow>
     table_ok (cheat_layout_of env) (cheat_entries s) \<and> frozen_ok (frozen_addresses_map s) \<and>
     (cheat_debug_handle s = invalid_handle env \<longrightarrow> frozen_addresses_map s = []) \<and>
     vm_sized (cheat_vm s) \<and> synced s"

text \<open>The parts the invariant speaks of.\<close>

definition core :: "'k cheat_manager \<Rightarrow> u32 \<times> cheat list \<times> bool \<times> vm \<times> frozen_map" where
  "core s = (cheat_debug_handle s, cheat_entries s, needs_reload_vm s, cheat_vm s, frozen_addresses_map s)"

lemma manager_ok_core: "core s = core t \<Longrightarrow> manager_ok env s = manager_ok env t"
  by (simp add: manager_ok_def core_def synced_def)

lemma core_simps [simp]:
  "core (s\<lparr>cheat_world := k\<rparr>) = core s" "core (s\<lparr>cheat_metadata_of := md\<rparr>) = core s"
  "core (s\<lparr>should_save_cheat_toggles := b\<rparr>) = core s" "core (s\<lparr>cheat_process_event := b\<rparr>) = core s"
  "core (s\<lparr>debug_events_event := b\<rparr>) = core s" "core (set_metadata f s) = core s"
  "core (SaveCheatToggles env p s) = core s"
  by (simp_all add: core_def set_metadata_def SaveCheatToggles_def Let_def split: prod.split)

lemma core_on_world: "on_world f s = (r, t) \<Longrightarrow> core t = core s"
  by (auto simp: on_world_def split: prod.splits)

text \<open>A new table is fine when a reload is due.\<close>

lemma manager_ok_table:
  assumes "manager_ok env s" "table_ok (cheat_layout_of env) cs"
  shows "manager_ok env (s\<lparr>cheat_entries := cs, needs_reload_vm := True\<rparr>)"
  using assms by (simp add: manager_ok_def synced_def)

lemma manager_ok_initial:
  "manager_ok env (cheat_manager_initial env d a k)"
proof -
  have "enabled_opcodes (map cheat_entry.truncate (replicate n (cheat_zero l))) = []" for n l
    by (induction n) (simp_all add: enabled_opcodes_def cheat_zero_def cheat_entry.truncate_def)
  then show ?thesis
    by (simp add: manager_ok_def cheat_manager_initial_def table_ok_def vm_sized_def vm_fresh_def synced_def
        table_opcodes_def shape_ok_def)
qed

end
