(* ===== verification/CheatSteps.thy ===== *)
theory CheatSteps
  imports CheatInvariant
begin

text \<open>Every step of the cheat process manager preserves its invariant.\<close>

subsection \<open>Loading and closing\<close>

lemma LoadCheats_ok:
  assumes "manager_ok env s"
  shows "manager_ok env (snd (LoadCheats env p b s))" "frozen_addresses_map (snd (LoadCheats env p b s)) = frozen_addresses_map s"
    "needs_reload_vm (snd (LoadCheats env p b s))"
proof -
  let ?l = "cheat_layout_of env"
  let ?s = "s\<lparr>cheat_entries := ResetAllCheatEntries ?l (cheat_entries s), needs_reload_vm := True\<rparr>"
  have t: "table_ok ?l (ResetAllCheatEntries ?l (cheat_entries s))"
    using assms by (simp add: manager_ok_def table_ok_ResetAll)
  have s: "manager_ok env ?s" by (rule manager_ok_table [OF assms t])
  have "manager_ok env (?s\<lparr>cheat_entries := snd (ParseCheats ?l d tx (ResetAllCheatEntries ?l (cheat_entries s))), needs_reload_vm := True\<rparr>)" for d tx
    by (rule manager_ok_table [OF s ParseCheats_ok [OF t]])
  then show "manager_ok env (snd (LoadCheats env p b s))" using s
    by (simp add: LoadCheats_def Let_def split: file_answer.split prod.split) (metis snd_conv)
  show "frozen_addresses_map (snd (LoadCheats env p b s)) = frozen_addresses_map s" "needs_reload_vm (snd (LoadCheats env p b s))"
    by (simp_all add: LoadCheats_def Let_def split: file_answer.split prod.split)
qed

text \<open>Reading the toggles changes the table without asking for a reload: the cheats were just read.\<close>

lemma LoadCheatToggles_ok:
  assumes "manager_ok env s" "needs_reload_vm s"
  shows "manager_ok env (snd (LoadCheatToggles env p s))"
    "frozen_addresses_map (snd (LoadCheatToggles env p s)) = frozen_addresses_map s"
proof -
  let ?l = "cheat_layout_of env"
  have parsed: "manager_ok env (s\<lparr>cheat_entries := cs, should_save_cheat_toggles := u\<rparr>)"
    if "table_ok ?l cs" for cs u
  proof -
    have "core (s\<lparr>cheat_entries := cs, needs_reload_vm := True\<rparr>) = core (s\<lparr>cheat_entries := cs, should_save_cheat_toggles := u\<rparr>)"
      using assms(2) by (simp add: core_def)
    from manager_ok_core [OF this] show ?thesis using manager_ok_table [OF assms(1) that] by blast
  qed
  have "table_ok ?l (cheat_entries s)" using assms(1) by (simp add: manager_ok_def)
  then have toggled: "table_ok ?l cs" if "ParseCheatToggles ?l b tx (cheat_entries s) = (ok, cs)" for b tx ok cs
    using ParseCheatToggles_ok that by (metis snd_conv)
  have "manager_ok env (s\<lparr>should_save_cheat_toggles := u\<rparr>)" for u
    using assms(1) manager_ok_core [OF core_simps(3)] by blast
  then show "manager_ok env (snd (LoadCheatToggles env p s))"
    using parsed toggled by (simp add: LoadCheatToggles_def Let_def split: file_answer.split prod.split)
  show "frozen_addresses_map (snd (LoadCheatToggles env p s)) = frozen_addresses_map s"
    by (simp add: LoadCheatToggles_def Let_def split: file_answer.split prod.split)
qed

lemma manager_ok_closed:
  assumes "manager_ok env s"
  shows "manager_ok env (s\<lparr>cheat_debug_handle := invalid_handle env,
    cheat_entries := ResetAllCheatEntries (cheat_layout_of env) (cheat_entries s), needs_reload_vm := True, frozen_addresses_map := []\<rparr>)"
  using assms by (simp add: manager_ok_def synced_def table_ok_ResetAll shape_ok_def)

lemma SaveCheatToggles_sel [simp]:
  "cheat_entries (SaveCheatToggles env p s) = cheat_entries s" "cheat_debug_handle (SaveCheatToggles env p s) = cheat_debug_handle s"
  "cheat_vm (SaveCheatToggles env p s) = cheat_vm s" "cheat_metadata_of (SaveCheatToggles env p s) = cheat_metadata_of s"
  by (simp_all add: SaveCheatToggles_def Let_def split: prod.split)

lemma CloseActive_cases:
  assumes "CloseActiveCheatProcess env s = (r, t)"
  shows "r = Ok () \<and> cheat_debug_handle t = invalid_handle env \<and>
      (core t = core s \<or>
       core t = core (s\<lparr>cheat_debug_handle := invalid_handle env,
         cheat_entries := ResetAllCheatEntries (cheat_layout_of env) (cheat_entries s), needs_reload_vm := True, frozen_addresses_map := []\<rparr>)) \<or>
    r = Abort \<and> core t = core s"
proof (cases "cheat_debug_handle s = invalid_handle env")
  case True
  then show ?thesis using assms by (simp add: CloseActiveCheatProcess_def)
next
  case False
  obtain x k where x: "close_handle env (cheat_world s) (cheat_debug_handle s) = (x, k)" by fastforce
  show ?thesis
  proof (cases x)
    case (Inl e)
    then have "r = Abort" "t = s\<lparr>cheat_world := k\<rparr>" using assms False x by (simp_all add: CloseActiveCheatProcess_def)
    then show ?thesis by simp
  next
    case (Inr u)
    let ?s = "s\<lparr>cheat_world := k, cheat_debug_handle := invalid_handle env\<rparr>"
    define v where "v = (if always_save_cheat_toggles s \<or> should_save_cheat_toggles s
        then (SaveCheatToggles env (md_program_id (cheat_metadata_of s)) ?s)\<lparr>should_save_cheat_toggles := False\<rparr> else ?s)"
    have v: "cheat_entries v = cheat_entries s" "cheat_debug_handle v = invalid_handle env" "cheat_vm v = cheat_vm s"
      by (simp_all add: v_def)
    have "r = Ok ()" "t = v\<lparr>cheat_metadata_of := metadata_zero (cheat_layout_of env),
        cheat_entries := ResetAllCheatEntries (cheat_layout_of env) (cheat_entries v),
        needs_reload_vm := True, frozen_addresses_map := [], cheat_process_event := True\<rparr>"
      using assms False x Inr
      by (cases "always_save_cheat_toggles s \<or> should_save_cheat_toggles s"; simp add: CloseActiveCheatProcess_def Let_def v_def)+
    then show ?thesis by (simp add: core_def v)
  qed
qed

lemma CloseActive_ok:
  assumes "manager_ok env s" "CloseActiveCheatProcess env s = (r, t)"
  shows "manager_ok env t" "r = Ok () \<Longrightarrow> frozen_addresses_map t = []"
proof -
  have same: "core t = core s \<Longrightarrow> manager_ok env t" using manager_ok_core assms(1) by blast
  have closed: "core t = core (s\<lparr>cheat_debug_handle := invalid_handle env,
      cheat_entries := ResetAllCheatEntries (cheat_layout_of env) (cheat_entries s), needs_reload_vm := True,
      frozen_addresses_map := []\<rparr>) \<Longrightarrow> manager_ok env t"
    using manager_ok_core manager_ok_closed [OF assms(1)] by blast
  show ok: "manager_ok env t" using CloseActive_cases [OF assms(2)] same closed by blast
  show "frozen_addresses_map t = []" if "r = Ok ()"
    using CloseActive_cases [OF assms(2)] ok that by (auto simp: manager_ok_def)
qed

lemma HasActive_ok:
  assumes "manager_ok env s" "HasActiveCheatProcess env s = (r, t)"
  shows "manager_ok env t" "r = Ok True \<Longrightarrow> t = s \<and> is_active env s" "r \<noteq> Err e" "r = Ok False \<Longrightarrow> frozen_addresses_map t = []"
proof -
  obtain r1 t1 where c: "CloseActiveCheatProcess env s = (r1, t1)" by fastforce
  note close = CloseActive_ok [OF assms(1) c]
  have cases: "r1 = Ok () \<or> r1 = Abort" using CloseActive_cases [OF c] by blast
  show "manager_ok env t" "r = Ok True \<Longrightarrow> t = s \<and> is_active env s" "r \<noteq> Err e" "r = Ok False \<Longrightarrow> frozen_addresses_map t = []"
    using assms close cases by (auto simp: HasActiveCheatProcess_def c split: if_splits)
qed

subsection \<open>Attaching\<close>

text \<open>While a process is attached to, nothing is frozen.\<close>

definition attaching :: "('r, 'k) cheat_env \<Rightarrow> 'k cheat_manager \<Rightarrow> bool" where
  "attaching env s \<longleftrightarrow> manager_ok env s \<and> frozen_addresses_map s = []"

lemma attaching_core: "core s = core t \<Longrightarrow> attaching env s = attaching env t"
  using manager_ok_core [of s t env] by (auto simp: attaching_def core_def)

lemma attaching_set_metadata [simp]: "attaching env (set_metadata f s) = attaching env s"
  by (rule attaching_core) simp

lemma attaching_on_world: "on_world f s = (r, t) \<Longrightarrow> attaching env t = attaching env s"
  by (rule attaching_core) (rule core_on_world)

lemma on_world_attaching: "\<lbrakk>on_world f s = (r, t); attaching env s\<rbrakk> \<Longrightarrow> attaching env t"
  using attaching_on_world [of f s r t env] by simp

lemma IF_NEW_state:
  "\<lbrakk>P s; \<And>v. P (snd (f v))\<rbrakk> \<Longrightarrow> P (snd (R_ABORT_UNLESS_IF_NEW_PROCESS b r s f))"
  "\<lbrakk>P s; \<And>v. P (snd (f v))\<rbrakk> \<Longrightarrow> P (snd (ABORT_IF_FAILED r s f))"
  by (simp_all add: R_ABORT_UNLESS_IF_NEW_PROCESS_def ABORT_IF_FAILED_def R_TRY_def split: outcome.split)

lemmas attaching_steps =
  IF_NEW_state [where P = "attaching env" for env]
  R_UNLESS_state [where P = "attaching env" for env]
  R_TRY_state [where P = "attaching env" for env]

lemma attach_debug_ok: "attaching env s \<Longrightarrow> attaching env (snd (attach_debug env b s))"
proof -
  assume a: "attaching env s"
  obtain r t where t: "on_world (\<lambda>k. debug_active_process env k (md_process_id (cheat_metadata_of s))) s = (r, t)" by fastforce
  have t': "attaching env t" using attaching_on_world [OF t] a by blast
  then have "attaching env (t\<lparr>cheat_debug_handle := h\<rparr>)" for h
    by (simp add: attaching_def manager_ok_def synced_def shape_ok_def)
  then show ?thesis unfolding attach_debug_def t Let_def prod.case
    by (intro attaching_steps t') simp
qed

lemma attach_cheats_ok:
  assumes "attaching env s" "\<And>s. attaching env s \<Longrightarrow> attaching env (snd (f s))"
  shows "attaching env (snd (attach_cheats env b s f))"
proof -
  let ?md = "cheat_metadata_of s"
  obtain ok t where t: "LoadCheats env (md_program_id ?md) (main_nso_build_id ?md) s = (ok, t)" by fastforce
  have m: "manager_ok env s" "frozen_addresses_map s = []" using assms(1) by (simp_all add: attaching_def)
  have t': "attaching env t" "needs_reload_vm t"
    using LoadCheats_ok [OF m(1), of "md_program_id ?md" "main_nso_build_id ?md"] m(2) by (simp_all add: t attaching_def)
  obtain ok' u where u: "(if ok then LoadCheatToggles env (md_program_id ?md) t else (False, t)) = (ok', u)" by fastforce
  have "attaching env u"
    using u t' LoadCheatToggles_ok [of env t "md_program_id ?md"] by (auto simp: attaching_def split: if_splits)
  then show ?thesis unfolding attach_cheats_def Let_def t prod.case u
    by (intro attaching_steps assms(2))
qed

lemma attach_modules_ok:
  assumes "attaching env s" "\<And>s. attaching env s \<Longrightarrow> attaching env (snd (f s))"
  shows "attaching env (snd (attach_modules env b s f))"
  unfolding attach_modules_def
  by (intro attaching_steps) (simp_all add: assms split: option.split)

lemma attach_extents_ok:
  assumes "attaching env s" "\<And>s. attaching env s \<Longrightarrow> attaching env (snd (f s))"
  shows "attaching env (snd (attach_extents env b s f))"
proof -
  obtain r t where t: "on_world (\<lambda>k. pm_process_info env k (md_process_id (cheat_metadata_of s))) s = (r, t)" by fastforce
  have t': "attaching env t" using attaching_on_world [OF t] assms(1) by blast
  show ?thesis unfolding attach_extents_def t Let_def prod.case
    by (intro attaching_steps t')
      (auto simp: t' split: prod.split intro!: attaching_steps assms(2) dest!: on_world_attaching [where env = env])
qed

lemma start_process_attaching: "attaching env s \<Longrightarrow> attaching env (snd (start_process env pid s))"
  by (auto simp: start_process_def ABORT_IF_FAILED_def split: prod.split outcome.split
      dest!: on_world_attaching [where env = env])

lemma process_guard_ok:
  assumes "attaching env (snd x)"
  shows "attaching env (snd (process_guard env b x))"
proof -
  obtain o1 s where x: "x = (o1, s)" by fastforce
  obtain r t where t: "(if b then start_process env (md_process_id (cheat_metadata_of s)) s else (Ok (), s)) = (r, t)" by fastforce
  have "attaching env t"
    using t start_process_attaching [of env s "md_process_id (cheat_metadata_of s)"] assms x by (auto split: if_splits)
  then have "attaching env (snd (process_guard env b (Err e, s)))" for e
    unfolding process_guard_def outcome.case prod.case t Let_def by (intro attaching_steps) simp_all
  then show ?thesis using assms x by (cases o1) (simp_all add: process_guard_def)
qed

lemma attach_found_ok:
  assumes "attaching env s"
  shows "attaching env (snd (attach_found env b s))"
proof -
  let ?x = "process_guard env b (attach_extents env b s (\<lambda>s. attach_modules env b s (\<lambda>s. attach_cheats env b s (\<lambda>s. attach_debug env b s))))"
  obtain r t where t: "?x = (r, t)" by fastforce
  have "attaching env (snd ?x)"
    by (intro process_guard_ok attach_extents_ok attach_modules_ok attach_cheats_ok attach_debug_ok assms)
  then have t': "attaching env t" by (simp add: t)
  obtain r2 u where u: "(if b then start_process env (md_process_id (cheat_metadata_of t)) t else (Ok (), t)) = (r2, u)" by fastforce
  have u': "attaching env u"
    using u start_process_attaching [OF t', of "md_process_id (cheat_metadata_of t)"] t' by (auto split: if_splits)
  have "attaching env (u\<lparr>debug_events_event := True, cheat_process_event := True\<rparr>)"
    using u' attaching_core [of "u\<lparr>debug_events_event := True, cheat_process_event := True\<rparr>" u env] by simp
  then show ?thesis unfolding attach_found_def t Let_def prod.case u
    by (intro attaching_steps t' u') simp
qed

lemma Attach_ok:
  assumes "manager_ok env s"
  shows "manager_ok env (snd (AttachToApplicationProcess env b s))"
proof -
  obtain r t where t: "HasActiveCheatProcess env s = (r, t)" by fastforce
  have t': "manager_ok env t" by (rule HasActive_ok(1) [OF assms t])
  obtain r2 u where u: "CloseActiveCheatProcess env t = (r2, u)" by fastforce
  have u': "manager_ok env u" by (rule CloseActive_ok(1) [OF t' u])
  have "manager_ok env (snd (attach_found env b (set_metadata f u)))" if "r2 = Ok ()" for f
    using attach_found_ok [of env "set_metadata f u" b] attaching_set_metadata [of env f u] u' CloseActive_ok(2) [OF t' u that]
    by (simp add: attaching_def)
  then show ?thesis unfolding AttachToApplicationProcess_def t Let_def prod.case u
    by (intro R_TRY_state [where P = "manager_ok env"] IF_NEW_state [where P = "manager_ok env"] t')
      (auto simp: t' u' intro!: R_TRY_state [where P = "manager_ok env"] IF_NEW_state [where P = "manager_ok env"])
qed

end
