(* ===== verification/CheatReach.thy ===== *)
theory CheatReach
  imports CheatSteps
begin

text \<open>
  The rounds of the virtual machine thread and the commands of the clients keep the invariant
  of the cheat process manager, so every state it can reach has it.
\<close>

subsection \<open>A round of the virtual machine\<close>

lemma load_cheats_sized: "List.length (program (snd (load_cheats m cs))) = List.length (program m)"
proof -
  have copy: "List.length (program (copy_opcodes m xs)) = List.length (program m)" for m xs
    by (induction m xs rule: copy_opcodes.induct) simp_all
  show ?thesis by (induction m cs rule: load_cheats.induct) (simp_all add: copy)
qed

lemma table_cheats_ok: "table_ok l cs \<Longrightarrow> \<forall>c \<in> set (map cheat_entry.truncate cs). cheat_ok c"
  by (auto simp: table_ok_def entry_ok_def cheat_ok_def cheat_entry.truncate_def)

text \<open>The program that is loaded is the one of the table, or none when it is too long.\<close>

lemma LoadProgram_table:
  assumes "table_ok l cs" "vm_sized m" "LoadProgram m (map cheat_entry.truncate cs) = (ok, m')"
  shows "vm_sized m'" "ok \<longleftrightarrow> List.length (table_opcodes cs) \<le> MaximumProgramOpcodeCount"
    "ok \<Longrightarrow> take (num_opcodes m') (program m') = table_opcodes cs"
proof -
  let ?m = "m\<lparr>num_opcodes := 0\<rparr>"
  have run: "load_cheats ?m (map cheat_entry.truncate cs) = (ok, m')" using assms(3) by (simp add: LoadProgram_def)
  have "List.length (program m') = MaximumProgramOpcodeCount"
    using load_cheats_sized [of ?m "map cheat_entry.truncate cs"] run assms(2) by (simp add: vm_sized_def)
  note eq = load_cheats_eq [OF table_cheats_ok [OF assms(1)] _ _ run]
  show "vm_sized m'" "ok \<longleftrightarrow> List.length (table_opcodes cs) \<le> MaximumProgramOpcodeCount"
    "ok \<Longrightarrow> take (num_opcodes m') (program m') = table_opcodes cs"
    using eq assms(2) \<open>List.length (program m') = MaximumProgramOpcodeCount\<close>
    by (auto simp: vm_sized_def table_opcodes_def split: if_splits)
qed

text \<open>With the flag of the reload cleared as the round does it after a success.\<close>

lemma reload_ok:
  assumes "manager_ok env s" "reload_vm s = (ok, t)"
  shows "manager_ok env (if ok then t\<lparr>needs_reload_vm := False\<rparr> else t)" "ok \<or> needs_reload_vm t"
    "cheat_debug_handle t = cheat_debug_handle s" "cheat_entries t = cheat_entries s"
proof -
  obtain r m where r: "LoadProgram (cheat_vm s) (map cheat_entry.truncate (cheat_entries s)) = (r, m)" by fastforce
  have ok: "table_ok (cheat_layout_of env) (cheat_entries s)" "vm_sized (cheat_vm s)"
    using assms(1) by (simp_all add: manager_ok_def)
  note load = LoadProgram_table [OF ok r]
  show "manager_ok env (if ok then t\<lparr>needs_reload_vm := False\<rparr> else t)" "ok \<or> needs_reload_vm t"
    "cheat_debug_handle t = cheat_debug_handle s" "cheat_entries t = cheat_entries s"
    using assms load r by (auto simp: reload_vm_def manager_ok_def synced_def split: if_splits)
qed

lemma Execute_ok:
  assumes "vm_sized m" "Execute fuel vmenv (m, w) = Done (m', w')"
  shows "vm_sized m'" "take (num_opcodes m') (program m') = take (num_opcodes m) (program m)"
proof -
  have "vm_ok (ResetState m)" using assms(1) by (simp add: vm_ok_def vm_sized_def ResetState_def)
  then have "vm_ok m' \<and> same_code (ResetState m) m'"
    using exec_loop_keeps_ok assms(2) by (fastforce simp: Execute_def)
  then show "vm_sized m'" "take (num_opcodes m') (program m') = take (num_opcodes m) (program m)"
    using assms(1) by (simp_all add: vm_ok_def same_code_def vm_sized_def ResetState_def)
qed

lemma apply_frozen_core [simp]: "core (apply_frozen env s) = core s"
  by (simp add: apply_frozen_def)

lemma frozen_shape_Nil: "frozen_shape fz = frozen_shape gz \<Longrightarrow> fz = [] \<longleftrightarrow> gz = []"
  by (drule arg_cong [where f = List.length]) auto

text \<open>The machine ran on the memory of the manager.\<close>

lemma manager_ok_ran:
  assumes "manager_ok env s" "Execute fuel (vm_env_of env s) (cheat_vm s, (frozen_addresses_map s, cheat_world s)) = Done (m, w)"
  shows "manager_ok env (with_memory (s\<lparr>cheat_vm := m\<rparr>) w)"
proof -
  have shape: "frozen_shape (fst w) = frozen_shape (frozen_addresses_map s)"
    using frozen_memory.execute_keeps [OF assms(2)] by simp
  then have "fst w = [] \<longleftrightarrow> frozen_addresses_map s = []" by (rule frozen_shape_Nil)
  then show ?thesis
    using assms(1) shape Execute_ok [OF _ assms(2)] by (auto simp: manager_ok_def with_memory_def synced_def)
qed

lemma vm_round_ok:
  assumes "manager_ok env s" "vm_round fuel env s = Some (r, t)"
  shows "manager_ok env t"
proof -
  obtain h u where h: "HasActiveCheatProcess env s = (h, u)" by fastforce
  obtain ok v where v: "reload_vm u = (ok, v)" by fastforce
  have u: "manager_ok env u" by (rule HasActive_ok(1) [OF assms(1) h])
  note v_ok = reload_ok(1) [OF u v]
  have frozen: "manager_ok env (apply_frozen env y)" if "manager_ok env y" for y
    using that manager_ok_core [of "apply_frozen env y" y env] by simp
  show ?thesis
  proof (cases "h = Ok True \<and> ok")
    case True
    define x where "x = v\<lparr>needs_reload_vm := False\<rparr>"
    have x: "manager_ok env x" using v_ok True by (simp add: x_def)
    have "vm_round fuel env s =
      (if num_opcodes (cheat_vm x) \<noteq> 0 then
         (case Execute fuel (vm_env_of env x) (cheat_vm x, (frozen_addresses_map x, cheat_world x)) of
            Done (m, w) \<Rightarrow> Some (Ok (), apply_frozen env (with_memory (x\<lparr>cheat_vm := m\<rparr>) w))
          | RunAbort \<Rightarrow> Some (Abort, x)
          | OutOfFuel _ \<Rightarrow> None)
       else Some (Ok (), apply_frozen env x))"
      unfolding x_def using True by (simp add: vm_round_def h v Let_def)
    then show ?thesis
      using assms(2) x frozen manager_ok_ran [OF x]
      by (auto split: if_splits run_result.splits)
  next
    case False
    then have "t = u \<or> t = apply_frozen env v \<and> \<not> ok"
      using assms(2) by (auto simp: vm_round_def h v split: outcome.splits bool.splits if_splits)
    then show ?thesis using u v_ok frozen by auto
  qed
qed

subsection \<open>The commands\<close>

text \<open>The definition of a cheat arrives in a structure with arrays of a fixed size.\<close>

fun command_ok :: "cheat_layout \<Rightarrow> cheat_cmd \<Rightarrow> bool" where
  "command_ok l (CmdAddCheat d on) \<longleftrightarrow>
     List.length (def_name d) = name_size l \<and> List.length (def_opcodes d) = opcodes_size l"
| "command_ok l _ \<longleftrightarrow> True"

lemma manager_okD:
  assumes "manager_ok env s"
  shows "table_ok (cheat_layout_of env) (cheat_entries s)" "frozen_ok (frozen_addresses_map s)"
    "cheat_debug_handle s = invalid_handle env \<Longrightarrow> frozen_addresses_map s = []"
    "vm_sized (cheat_vm s)" "synced s"
  using assms by (simp_all add: manager_ok_def)

lemma ToggleCheat_ok:
  assumes "manager_ok env s"
  shows "manager_ok env (snd (ToggleCheat i s))"
proof (cases "GetCheatEntryById i")
  case None
  then show ?thesis using assms by (simp add: ToggleCheat_def)
next
  case (Some j)
  let ?c = "cheat_entries s ! j"
  have t: "table_ok (cheat_layout_of env) (cheat_entries s)" using assms by (simp add: manager_ok_def)
  have "table_ok (cheat_layout_of env) ((cheat_entries s)[j := ?c\<lparr>enabled := \<not> enabled ?c\<rparr>])"
    using table_ok_nth [OF t] by (intro table_ok_update t) simp
  then show ?thesis using Some assms by (simp add: ToggleCheat_def Let_def R_UNLESS_def manager_ok_table)
qed

lemma AddCheat_ok:
  assumes "manager_ok env s" "command_ok (cheat_layout_of env) (CmdAddCheat d on)"
  shows "manager_ok env (snd (AddCheat env d on s))"
proof -
  have t: "table_ok (cheat_layout_of env) (cheat_entries s)" using assms(1) by (simp add: manager_ok_def)
  have "table_ok (cheat_layout_of env) ((cheat_entries s)[i := (cheat_entries s ! i)
      \<lparr>enabled := on, readable_name := def_name d, definition_num_opcodes := def_num_opcodes d,
       definition_opcodes := def_opcodes d\<rparr>])" if "def_num_opcodes d \<le> opcodes_size (cheat_layout_of env)" for i
    using that assms(2) by (intro table_ok_update t) (simp add: entry_ok_def)
  then show ?thesis using assms(1) by (simp add: AddCheat_def R_UNLESS_def manager_ok_table split: option.split)
qed

lemma RemoveCheat_ok: "manager_ok env s \<Longrightarrow> manager_ok env (snd (RemoveCheat env i s))"
  by (simp add: RemoveCheat_def R_UNLESS_def manager_ok_table table_ok_Reset manager_okD(1))

text \<open>A process is attached whenever something is frozen.\<close>

lemma frozen_ok_change:
  assumes "manager_ok env s" "frozen_ok fz" "cheat_debug_handle s = invalid_handle env \<Longrightarrow> fz = []"
  shows "manager_ok env (s\<lparr>frozen_addresses_map := fz\<rparr>)" "manager_ok env (s\<lparr>frozen_addresses_map := fz, cheat_world := k\<rparr>)"
  using assms by (simp_all add: manager_ok_def synced_def)

lemma WriteUnsafe_ok:
  assumes "manager_ok env s"
  shows "manager_ok env (snd (WriteCheatProcessMemoryUnsafe env a bs s))"
proof -
  obtain r w where w: "write_unsafe env (cheat_debug_handle s) a bs (frozen_addresses_map s, cheat_world s) = (r, w)" by (metis surj_pair)
  have shape: "frozen_shape (fst w) = frozen_shape (frozen_addresses_map s)"
    using write_unsafe_shape [of env "cheat_debug_handle s" a bs "(frozen_addresses_map s, cheat_world s)"] by (simp add: w)
  then have "frozen_addresses_map s = [] \<Longrightarrow> fst w = []" using frozen_shape_Nil by blast
  then show ?thesis using manager_okD(2,3) [OF assms]
    by (simp add: WriteCheatProcessMemoryUnsafe_def w with_memory_def) (intro frozen_ok_change assms, simp_all add: shape)
qed

lemma EnableFrozen_ok:
  assumes "manager_ok env s" "cheat_debug_handle s \<noteq> invalid_handle env" "valid_width width"
  shows "manager_ok env (snd (EnableFrozenAddress env a width s))"
proof -
  have fz: "frozen_ok (frozen_addresses_map s)" using assms(1) by (simp add: manager_ok_def)
  have "manager_ok env (s\<lparr>frozen_addresses_map := insert_frozen a \<lparr>frozen_value_of = v, frozen_width = width\<rparr> (frozen_addresses_map s)\<rparr>)"
    if "map_of (frozen_addresses_map s) a = None" "List.length (frozen_addresses_map s) < MaxFrozenAddressCount" for v
    using that assms by (intro frozen_ok_change frozen_ok_insert fz) simp_all
  then show ?thesis unfolding EnableFrozenAddress_def
    by (intro R_UNLESS_state [where P = "manager_ok env"] R_TRY_state [where P = "manager_ok env"] assms(1)) (simp add: Let_def)
qed

lemma DisableFrozen_ok: "manager_ok env s \<Longrightarrow> manager_ok env (snd (DisableFrozenAddress a s))"
  using manager_okD(2,3) [of env s]
  by (simp add: DisableFrozenAddress_def R_UNLESS_def frozen_ok_change frozen_ok_filter)

lemma replied_state [simp]: "snd (replied f x) = snd x"
  by (simp add: replied_def R_TRY_def split: prod.split outcome.split)

lemma replied_dest: "replied f x = (r, t) \<Longrightarrow> t = snd x"
  using replied_state [of f x] by simp

text \<open>A command over an attached process: it keeps the invariant when its body does.\<close>

lemma ensured_ok:
  assumes "manager_ok env s" "ensured env s f = Some (r, t)"
    and "\<And>x. f s = Some x \<Longrightarrow> cheat_debug_handle s \<noteq> invalid_handle env \<Longrightarrow> manager_ok env (snd x)"
  shows "manager_ok env t"
proof -
  obtain h u where h: "HasActiveCheatProcess env s = (h, u)" by fastforce
  show ?thesis
    using assms HasActive_ok(1) [OF assms(1) h] HasActive_ok(2) [OF assms(1) h]
    by (auto simp: ensured_def h is_active_def split: outcome.splits bool.splits)
qed

lemma need_buffer_ok:
  assumes "manager_ok env s" "need_buffer b s x = Some (r, t)" "\<And>r t. x = Some (r, t) \<Longrightarrow> manager_ok env t"
  shows "manager_ok env t"
  using assms by (auto simp: need_buffer_def split: if_splits)

lemma walked_state: "walked f s r = Some x \<Longrightarrow> snd x = s"
  by (auto simp: walked_def)

lemma ForceOpen_ok:
  assumes "manager_ok env s" "cheat_call env ForceOpen s = Some (r, t)"
  shows "manager_ok env t"
proof -
  obtain r' t' where t: "AttachToApplicationProcess env False s = (r', t')" by fastforce
  have "manager_ok env t'" using Attach_ok [OF assms(1), of False] by (simp add: t)
  then show ?thesis using assms(2) by (cases r') (simp_all add: ForceOpenCheatProcess_def t)
qed

lemma cheat_call_ok:
  assumes "manager_ok env s" "command_ok (cheat_layout_of env) c" "cheat_call env c s = Some (r, t)"
  shows "manager_ok env t"
proof (cases c)
  case HasCheatProcess
  obtain h u where h: "HasActiveCheatProcess env s = (h, u)" by fastforce
  have "snd (replied Flag (h, u)) = t" using assms(3) HasCheatProcess by (simp add: h del: replied_state)
  then show ?thesis using HasActive_ok(1) [OF assms(1) h] by simp
next
  case ForceOpen
  then show ?thesis using ForceOpen_ok assms(1,3) by blast
next
  case (CmdEnableFrozenAddress a width)
  then show ?thesis
    using assms(1,3) EnableFrozen_ok [OF assms(1) _ valid_freeze_width]
    by (auto split: if_splits dest!: replied_dest elim!: ensured_ok [OF assms(1)])
qed (use assms in \<open>auto elim!: ensured_ok [rotated] need_buffer_ok [rotated] dest!: walked_state replied_dest
    simp: ToggleCheat_ok AddCheat_ok RemoveCheat_ok WriteUnsafe_ok DisableFrozen_ok\<close>)

subsection \<open>Reachable states\<close>

fun event_ok :: "cheat_layout \<Rightarrow> cheat_event \<Rightarrow> bool" where
  "event_ok l (Command c) \<longleftrightarrow> command_ok l c"
| "event_ok l _ \<longleftrightarrow> True"

inductive cheat_reachable :: "('r, 'k) cheat_env \<Rightarrow> 'k cheat_manager \<Rightarrow> bool" for env where
  created: "cheat_reachable env (cheat_manager_initial env by_default always_save k)"
| stepped: "\<lbrakk>cheat_reachable env s; event_ok (cheat_layout_of env) e; cheat_step env e s = Some t\<rbrakk> \<Longrightarrow> cheat_reachable env t"

lemma cheat_step_ok:
  assumes "manager_ok env s" "event_ok (cheat_layout_of env) e" "cheat_step env e s = Some t"
  shows "manager_ok env t"
proof (cases e)
  case (Command c)
  then show ?thesis using assms cheat_call_ok [of env s c] by auto
next
  case Launched
  then show ?thesis using assms(3) Attach_ok [OF assms(1), of True] by simp
next
  case (Round fuel)
  then show ?thesis using assms(3) vm_round_ok [OF assms(1), of fuel] by auto
qed

lemma reachable_manager_ok: "cheat_reachable env s \<Longrightarrow> manager_ok env s"
  by (induction rule: cheat_reachable.induct) (auto intro: manager_ok_initial cheat_step_ok)

end
