(* ===== verification/CheatParse.thy ===== *)
theory CheatParse
  imports CheatManager
begin

text \<open>
  Lemmas on the text files of the cheat process manager: the printed form of a list of
  cheats is parsed back into a fresh table, and the printed toggles restore the switches.
\<close>

subsection \<open>Hexadecimal numbers\<close>

definition hex_byte :: "nat \<Rightarrow> u8" where
  "hex_byte n = (if n < 10 then of_nat (0x30 + n) else of_nat (0x41 + n - 10))"

fun hex_bytes :: "nat \<Rightarrow> nat \<Rightarrow> u8 list" where
  "hex_bytes 0 v = []"
| "hex_bytes (Suc n) v = hex_bytes n (v div 16) @ [hex_byte (v mod 16)]"

lemma hex_digit_byte: "n < 16 \<Longrightarrow> hex_digit (hex_byte n) = Some n"
proof -
  have "\<forall>n \<in> set [0..<16]. hex_digit (hex_byte n) = Some n" by code_simp
  then show "n < 16 \<Longrightarrow> hex_digit (hex_byte n) = Some n" by simp
qed

lemma hex_byte_plain:
  assumes "n < 16"
  shows "isxdigit (hex_byte n)" "\<not> isspace (hex_byte n)" "hex_byte n \<noteq> 0x5B" "hex_byte n \<noteq> 0x7B"
proof -
  have "\<forall>n \<in> set [0..<16]. isxdigit (hex_byte n) \<and> \<not> isspace (hex_byte n) \<and> hex_byte n \<noteq> 0x5B \<and> hex_byte n \<noteq> 0x7B"
    by code_simp
  then show "isxdigit (hex_byte n)" "\<not> isspace (hex_byte n)" "hex_byte n \<noteq> 0x5B" "hex_byte n \<noteq> 0x7B"
    using assms by simp_all
qed

lemma length_hex_bytes [simp]: "List.length (hex_bytes n v) = n"
  by (induction n arbitrary: v) simp_all

lemma hex_bytes_digits: "\<forall>b \<in> set (hex_bytes n v). \<exists>d < 16. b = hex_byte d"
proof (induction n arbitrary: v)
  case (Suc n)
  have "v mod 16 < 16" by simp
  then have "\<exists>d < 16. hex_byte (v mod 16) = hex_byte d" by blast
  then show ?case using Suc [of "v div 16"] by simp
qed simp

lemma fold_hex_bytes:
  "v < 16 ^ n \<Longrightarrow> fold (\<lambda>b u. 16 * u + the (hex_digit b)) (hex_bytes n v) 0 = v"
proof (induction n arbitrary: v)
  case (Suc n)
  have "v div 16 < 16 ^ n" using Suc.prems by (simp add: div_less_iff_less_mult)
  then show ?case using Suc.IH by (simp add: hex_digit_byte)
qed simp

subsection \<open>Printing cheats\<close>

definition print_opcode :: "u32 \<Rightarrow> u8 list" where
  "print_opcode x = hex_bytes 8 (unat x) @ [0x0A]"

definition print_cheat :: "u8 list \<times> u32 list \<Rightarrow> u8 list" where
  "print_cheat c = 0x5B # fst c @ [0x5D, 0x0A] @ concat (map print_opcode (snd c))"

definition print_cheats :: "(u8 list \<times> u32 list) list \<Rightarrow> u8 list" where
  "print_cheats xs = concat (map print_cheat xs)"

lemma strtoul16_print: "strtoul16 (hex_bytes 8 (unat x)) = x"
proof -
  have "unat x < 16 ^ 8" using unsigned_less [of x, where 'a = nat] by simp
  then show ?thesis by (simp add: strtoul16_def fold_hex_bytes)
qed

lemma parse_opcode:
  assumes "definition_num_opcodes (cs ! i) < opcodes_size l"
  shows "parse_cheats l (print_opcode x @ s) (Some i) cs = parse_cheats l s (Some i) (add_opcode i x cs)"
proof -
  have len: "List.length (hex_bytes 8 (unat x)) = 8" by simp
  then obtain b bs where b: "hex_bytes 8 (unat x) = b # bs" by (cases "hex_bytes 8 (unat x)") auto
  then have bs: "List.length bs = 7" using len by simp
  have all: "\<forall>c \<in> set (b # bs). \<exists>d < 16. c = hex_byte d" using hex_bytes_digits [of 8 "unat x"] b by simp
  have "isxdigit b" "\<not> isspace b" "b \<noteq> 0x5B" "b \<noteq> 0x7B" using all hex_byte_plain by auto
  moreover have "list_all isxdigit bs" using all hex_byte_plain(1) by (auto simp: list_all_iff)
  moreover have "strtoul16 (b # bs) = x" using strtoul16_print [of x] b by simp
  ultimately show ?thesis
    using assms bs by (simp add: print_opcode_def b) (simp add: isspace_def)
qed

lemma add_opcode_sel:
  assumes "i < List.length cs"
  shows "definition_num_opcodes (add_opcode i x cs ! i) = Suc (definition_num_opcodes (cs ! i))"
    "List.length (add_opcode i x cs) = List.length cs"
  using assms by (simp_all add: add_opcode_def Let_def)

lemma parse_opcodes:
  "\<lbrakk>definition_num_opcodes (cs ! i) + List.length xs \<le> opcodes_size l; i < List.length cs\<rbrakk> \<Longrightarrow>
    parse_cheats l (concat (map print_opcode xs) @ s) (Some i) cs = parse_cheats l s (Some i) (fold (add_opcode i) xs cs)"
proof (induction xs arbitrary: cs)
  case (Cons x xs)
  then show ?case using parse_opcode [of cs i l x] add_opcode_sel [of i cs x] by simp
qed simp

text \<open>Adding opcodes to a fresh entry.\<close>

definition parsed_entry :: "cheat_layout \<Rightarrow> nat \<Rightarrow> u8 list \<times> u32 list \<Rightarrow> cheat" where
  "parsed_entry l i c =
     \<lparr>enabled = False, definition_num_opcodes = List.length (snd c),
      definition_opcodes = snd c @ replicate (opcodes_size l - List.length (snd c)) 0, cheat_id = i,
      readable_name = store_name (name_size l) (fst c) (replicate (name_size l) 0)\<rparr>"

lemma fold_add_opcode:
  assumes "i < List.length cs"
  shows "\<lbrakk>cs ! i = c\<lparr>definition_num_opcodes := n, definition_opcodes := pre @ replicate (List.length xs + k) 0\<rparr>;
    List.length pre = n\<rbrakk> \<Longrightarrow> fold (add_opcode i) xs cs =
      cs[i := c\<lparr>definition_num_opcodes := n + List.length xs, definition_opcodes := pre @ xs @ replicate k 0\<rparr>]"
  using assms
proof (induction xs arbitrary: cs pre n)
  case Nil
  then show ?case by (metis append_Nil append.assoc fold_simps(1) list.size(3) list_update_id add_0 add_0_right)
next
  case (Cons x xs)
  let ?cs = "add_opcode i x cs"
  have upd: "(pre @ replicate (List.length (x # xs) + k) 0)[n := x] = (pre @ [x]) @ replicate (List.length xs + k) 0"
    using Cons.prems(2) by (simp add: list_update_append)
  have "?cs ! i = c\<lparr>definition_num_opcodes := Suc n, definition_opcodes := (pre @ [x]) @ replicate (List.length xs + k) 0\<rparr>"
    using Cons.prems(1,3) upd by (simp add: add_opcode_def Let_def)
  from Cons.IH [OF this] Cons.prems(2,3) show ?case by (simp add: add_opcode_def Let_def)
qed

subsection \<open>The table while it is parsed\<close>

abbreviation fresh_entry :: "cheat_layout \<Rightarrow> nat \<Rightarrow> cheat" where
  "fresh_entry l i \<equiv> (cheat_zero l)\<lparr>cheat_id := i\<rparr>"

definition parsed_table :: "cheat_layout \<Rightarrow> (u8 list \<times> u32 list) list \<Rightarrow> cheat list" where
  "parsed_table l xs =
     map (\<lambda>i. if 1 \<le> i \<and> i \<le> List.length xs then parsed_entry l i (xs ! (i - 1)) else fresh_entry l i)
       [0..<MaxCheatCount]"

definition printable :: "cheat_layout \<Rightarrow> u8 list \<times> u32 list \<Rightarrow> bool" where
  "printable l c \<longleftrightarrow> 0x5D \<notin> set (fst c) \<and> snd c \<noteq> [] \<and> List.length (snd c) \<le> opcodes_size l"

lemma length_parsed_table [simp]: "List.length (parsed_table l xs) = MaxCheatCount"
  by (simp add: parsed_table_def)

lemma nth_parsed_table:
  "i < MaxCheatCount \<Longrightarrow> parsed_table l xs ! i =
    (if 1 \<le> i \<and> i \<le> List.length xs then parsed_entry l i (xs ! (i - 1)) else fresh_entry l i)"
  by (simp add: parsed_table_def)

lemma find_append: "find P (xs @ ys) = (case find P xs of None \<Rightarrow> find P ys | Some x \<Rightarrow> Some x)"
  by (induction xs) auto

lemma free_in_parsed_table:
  assumes "List.length xs < MaxCheatCount - 1" "\<forall>c \<in> set xs. printable l c"
  shows "GetFreeCheatEntry (parsed_table l xs) = Some (Suc (List.length xs))"
proof -
  let ?n = "Suc (List.length xs)"
  have used: "definition_num_opcodes (parsed_table l xs ! i) \<noteq> 0" if "i \<in> set [1..<?n]" for i
  proof -
    have i: "1 \<le> i" "i \<le> List.length xs" "i < MaxCheatCount" using that assms(1) by auto
    then have "i - 1 < List.length xs" by linarith
    then have "printable l (xs ! (i - 1))" using assms(2) nth_mem by blast
    then show ?thesis using i by (simp add: nth_parsed_table parsed_entry_def printable_def)
  qed
  have free: "definition_num_opcodes (parsed_table l xs ! ?n) = 0"
    using assms(1) by (simp add: nth_parsed_table cheat_zero_def)
  have none: "find (\<lambda>i. definition_num_opcodes (parsed_table l xs ! i) = 0) [1..<?n] = None"
    unfolding find_None_iff using used by blast
  have "[1..<MaxCheatCount] = [1..<?n] @ ?n # [Suc ?n..<MaxCheatCount]"
  proof -
    have n: "?n < MaxCheatCount" using assms(1) by simp
    have "[1..<?n + (MaxCheatCount - ?n)] = [1..<?n] @ [?n..<?n + (MaxCheatCount - ?n)]"
      by (rule upt_add_eq_append) simp
    then show ?thesis using n by (simp add: upt_conv_Cons)
  qed
  then have "GetFreeCheatEntry (parsed_table l xs) =
      find (\<lambda>i. definition_num_opcodes (parsed_table l xs ! i) = 0) ([1..<?n] @ ?n # [Suc ?n..<MaxCheatCount])"
    by (simp add: GetFreeCheatEntry_def)
  also have "\<dots> = Some ?n"
    using none free by (simp add: find_append)
  finally show ?thesis .
qed

lemma read_name_printed: "closing \<notin> set name \<Longrightarrow> read_name closing (name @ closing # s) = Some (name, s)"
proof -
  assume "closing \<notin> set name"
  then have "dropWhile (\<lambda>b. b \<noteq> closing) (name @ closing # s) = closing # s"
    "takeWhile (\<lambda>b. b \<noteq> closing) (name @ closing # s) = name"
    by (induction name) auto
  then show ?thesis by (simp add: read_name_def)
qed

lemma parse_one_cheat:
  assumes "List.length xs < MaxCheatCount - 1" "\<forall>x \<in> set xs. printable l x" "printable l c"
  shows "parse_cheats l (print_cheat c @ s) cur (parsed_table l xs) =
    parse_cheats l s (Some (Suc (List.length xs))) (parsed_table l (xs @ [c]))"
proof -
  let ?i = "Suc (List.length xs)"
  let ?t = "set_cheat_name l ?i (fst c) (parsed_table l xs)"
  let ?k = "opcodes_size l - List.length (snd c)"
  let ?e = "(fresh_entry l ?i)\<lparr>readable_name := store_name (name_size l) (fst c) (replicate (name_size l) 0)\<rparr>"
  have i: "?i < MaxCheatCount" using assms(1) by simp
  have entry: "?t ! ?i = ?e\<lparr>definition_num_opcodes := 0, definition_opcodes := [] @ replicate (List.length (snd c) + ?k) 0\<rparr>"
    using i assms(3) by (simp add: set_cheat_name_def nth_parsed_table cheat_zero_def printable_def)
  have "parse_cheats l (print_cheat c @ s) cur (parsed_table l xs) =
      parse_cheats l (0x0A # concat (map print_opcode (snd c)) @ s) (Some ?i) ?t"
    using assms(3) free_in_parsed_table [OF assms(1,2)] read_name_printed [of "0x5D" "fst c" "0x0A # concat (map print_opcode (snd c)) @ s"]
    by (simp add: print_cheat_def printable_def isspace_def)
  also have "\<dots> = parse_cheats l (concat (map print_opcode (snd c)) @ s) (Some ?i) ?t"
    by (simp add: isspace_def)
  also have "\<dots> = parse_cheats l s (Some ?i) (fold (add_opcode ?i) (snd c) ?t)"
    using entry i assms(3) by (intro parse_opcodes) (simp_all add: set_cheat_name_def printable_def)
  also have "fold (add_opcode ?i) (snd c) ?t =
      ?t[?i := ?e\<lparr>definition_num_opcodes := 0 + List.length (snd c), definition_opcodes := [] @ snd c @ replicate ?k 0\<rparr>]"
    using i by (intro fold_add_opcode entry) (simp_all add: set_cheat_name_def)
  also have "\<dots> = parsed_table l (xs @ [c])"
  proof (rule nth_equalityI)
    fix j assume j: "j < List.length (?t[?i := ?e\<lparr>definition_num_opcodes := 0 + List.length (snd c), definition_opcodes := [] @ snd c @ replicate ?k 0\<rparr>])"
    then have j: "j < MaxCheatCount" by (simp add: set_cheat_name_def)
    show "?t[?i := ?e\<lparr>definition_num_opcodes := 0 + List.length (snd c), definition_opcodes := [] @ snd c @ replicate ?k 0\<rparr>] ! j =
        parsed_table l (xs @ [c]) ! j"
    proof (cases "j = ?i")
      case True
      then show ?thesis using i by (simp add: set_cheat_name_def nth_parsed_table parsed_entry_def cheat_zero_def)
    next
      case False
      have "(xs @ [c]) ! (j - 1) = xs ! (j - 1)" if "1 \<le> j" "j \<le> List.length xs"
      proof -
        have "j - 1 < List.length xs" using that by linarith
        then show ?thesis by (simp add: nth_append)
      qed
      then show ?thesis using False j by (auto simp: set_cheat_name_def nth_parsed_table)
    qed
  qed (simp add: set_cheat_name_def)
  finally show ?thesis .
qed

lemma parse_printed:
  "\<lbrakk>List.length (xs @ ys) \<le> MaxCheatCount - 1; \<forall>x \<in> set (xs @ ys). printable l x\<rbrakk> \<Longrightarrow>
    parse_cheats l (print_cheats ys) cur (parsed_table l xs) = (True, parsed_table l (xs @ ys))"
proof (induction ys arbitrary: xs cur)
  case Nil
  then show ?case by (simp add: print_cheats_def)
next
  case (Cons y ys)
  have "parse_cheats l (print_cheats (y # ys)) cur (parsed_table l xs) =
      parse_cheats l (print_cheats ys) (Some (Suc (List.length xs))) (parsed_table l (xs @ [y]))"
    using Cons.prems parse_one_cheat [of xs l y "print_cheats ys" cur] by (simp add: print_cheats_def)
  also have "\<dots> = (True, parsed_table l ((xs @ [y]) @ ys))"
    using Cons.prems by (intro Cons.IH) simp_all
  finally show ?case by simp
qed

lemma length_ResetCheatEntry [simp]: "List.length (ResetCheatEntry l i cs) = List.length cs"
  by (simp add: ResetCheatEntry_def)

lemma fold_ResetCheatEntry:
  "\<lbrakk>n \<le> MaxCheatCount; List.length cs = MaxCheatCount\<rbrakk> \<Longrightarrow>
    fold (ResetCheatEntry l) [0..<n] cs = map (fresh_entry l) [0..<n] @ drop n cs"
proof (induction n)
  case (Suc n)
  have "drop n cs = cs ! n # drop (Suc n) cs" using Suc.prems by (simp add: Cons_nth_drop_Suc)
  then show ?case using Suc by (simp add: ResetCheatEntry_def list_update_append)
qed simp

lemma ResetAll_table:
  assumes "List.length cs = MaxCheatCount"
  shows "ResetAllCheatEntries l cs = parsed_table l []"
proof -
  have "ResetAllCheatEntries l cs = map (fresh_entry l) [0..<MaxCheatCount]"
    using fold_ResetCheatEntry [of MaxCheatCount cs l] assms by (simp add: ResetAllCheatEntries_def)
  then show ?thesis by (simp add: parsed_table_def)
qed

end
