(* ===== verification/CheatToggles.thy ===== *)
theory CheatToggles
  imports CheatParse
begin

text \<open>The printed toggles of a cheat table, parsed back.\<close>

subsection \<open>Names\<close>

lemma c_string_idem [simp]: "c_string (c_string s) = c_string s"
  unfolding c_string_def by simp

lemma c_string_append: "0 \<in> set a \<Longrightarrow> c_string (a @ b) = c_string a"
  by (induction a) (auto simp: c_string_def)

lemma length_c_string: "List.length (c_string s) \<le> List.length s"
  by (simp add: c_string_def length_takeWhile_le)

text \<open>A name that is printed whole and read back.\<close>

definition clean_name :: "cheat_layout \<Rightarrow> cheat \<Rightarrow> bool" where
  "clean_name l c \<longleftrightarrow>
     List.length (readable_name c) = name_size l \<and> 0 \<in> set (readable_name c) \<and>
     0x5D \<notin> set (c_string (readable_name c)) \<and> List.length (c_string (readable_name c)) + 3 \<le> 0xFF"

lemma toggle_name_clean:
  assumes "clean_name l c"
  shows "toggle_name l c = 0x5B # c_string (readable_name c) @ [0x5D, 0x0A]"
proof -
  have "List.length (0x5B # c_string (readable_name c) @ [0x5D, 0x0A]) \<le> 0xFF" "0 \<in> set (readable_name c)"
    using assms by (simp_all add: clean_name_def)
  then show ?thesis unfolding toggle_name_def by (simp only: c_string_append take_all)
qed

definition first_of_name :: "cheat list \<Rightarrow> nat \<Rightarrow> bool" where
  "first_of_name cs i \<longleftrightarrow>
     (\<forall>j \<in> set [1..<i]. c_string (readable_name (cs ! j)) \<noteq> c_string (readable_name (cs ! i)))"

lemma find_upt_first:
  assumes "a \<le> i" "i < b" "P i" "\<forall>j \<in> set [a..<i]. \<not> P j"
  shows "find P [a..<b] = Some i"
proof -
  have "[a..<b] = [a..<i] @ i # [Suc i..<b]"
    using upt_add_eq_append [OF assms(1), of "b - i"] assms(2) by (simp add: upt_conv_Cons)
  moreover have "find P [a..<i] = None" unfolding find_None_iff using assms(4) by blast
  ultimately show ?thesis using assms(3) by (simp add: find_append)
qed

lemma name_lookup:
  assumes "1 \<le> i" "i < MaxCheatCount" "first_of_name cs i"
    and "\<forall>j < MaxCheatCount. List.length (readable_name (cs ! j)) = name_size l"
  shows "GetCheatEntryByReadableName l (take (name_size l) (c_string (readable_name (cs ! i)))) cs = Some i"
proof -
  have short: "take (name_size l) (c_string (readable_name (cs ! i))) = c_string (readable_name (cs ! i))"
    using length_c_string [of "readable_name (cs ! i)"] assms(2,4) by simp
  have "strncmp_eq (name_size l) (readable_name (cs ! j)) (c_string (readable_name (cs ! i))) \<longleftrightarrow>
      c_string (readable_name (cs ! j)) = c_string (readable_name (cs ! i))" if "j < MaxCheatCount" for j
    using that assms(4) short by (simp add: strncmp_eq_def)
  then show ?thesis
    unfolding GetCheatEntryByReadableName_def short using assms(1-3)
    by (intro find_upt_first) (auto simp: first_of_name_def)
qed

subsection \<open>One toggle\<close>

lemma toggle_end_word:
  "toggle_end (toggle_word on @ s @ [0, beyond]) (List.length (toggle_word on @ s)) 1 = Some (if on then 4 else 5)"
  by (cases on) (simp_all add: toggle_word_def toggle_end.simps isspace_def)

lemma apply_word:
  assumes "GetCheatEntryByReadableName l (take (name_size l) name) cs = Some i"
  shows "apply_toggle l name (take (if on then 4 else 5) (toggle_word on @ s)) cs = cs[i := (cs ! i)\<lparr>enabled := on\<rparr>]"
  using assms
  by (cases on) (simp_all add: apply_toggle_def toggle_word_def words_on_def words_off_def strcasecmp_eq_def c_string_def tolower_def)

lemma parse_one_toggle:
  assumes "clean_name l c" "GetCheatEntryByReadableName l (take (name_size l) (c_string (readable_name c))) cs = Some i"
  shows "ParseCheatToggles l beyond (toggle_name l c @ toggle_word on @ s) cs =
    ParseCheatToggles l beyond s (cs[i := (cs ! i)\<lparr>enabled := on\<rparr>])"
proof -
  let ?name = "c_string (readable_name c)"
  have read: "read_name 0x5D (?name @ 0x5D # 0x0A # toggle_word on @ s) = Some (?name, 0x0A # toggle_word on @ s)"
    using assms(1) by (intro read_name_printed) (simp add: clean_name_def)
  have skip: "dropWhile isspace (0x0A # toggle_word on @ s) = toggle_word on @ s"
    by (simp add: toggle_word_def isspace_def)
  have rest: "drop ((if on then 4 else 5) + 1) (toggle_word on @ s) = s" by (simp add: toggle_word_def)
  have word: "take (if on then 4 else 5) ((toggle_word on @ s) @ [0, beyond]) = take (if on then 4 else 5) (toggle_word on @ s)"
    by (simp add: toggle_word_def)
  have "ParseCheatToggles l beyond (toggle_name l c @ toggle_word on @ s) cs =
      ParseCheatToggles l beyond (0x5B # (?name @ 0x5D # 0x0A # toggle_word on @ s)) cs"
    by (simp add: toggle_name_clean [OF assms(1)])
  also have "\<dots> = ParseCheatToggles l beyond (drop ((if on then 4 else 5) + 1) (toggle_word on @ s))
      (apply_toggle l ?name (take (if on then 4 else 5) ((toggle_word on @ s) @ [0, beyond])) cs)"
    unfolding ParseCheatToggles.simps(2) read option.case prod.case skip Let_def append_assoc toggle_end_word
    by (simp add: isspace_def)
  also have "\<dots> = ParseCheatToggles l beyond s (cs[i := (cs ! i)\<lparr>enabled := on\<rparr>])"
    unfolding rest word apply_word [OF assms(2)] ..
  finally show ?thesis .
qed

subsection \<open>All toggles\<close>

definition restore :: "cheat list \<Rightarrow> nat list \<Rightarrow> cheat list \<Rightarrow> cheat list" where
  "restore saved is cs = fold (\<lambda>i cs. cs[i := (cs ! i)\<lparr>enabled := enabled (saved ! i)\<rparr>]) is cs"

lemma restore_Cons: "restore saved (i # is) cs = restore saved is (cs[i := (cs ! i)\<lparr>enabled := enabled (saved ! i)\<rparr>])"
  by (simp add: restore_def)

lemma nth_restore:
  "\<lbrakk>set is \<subseteq> {0..<List.length cs}; i < List.length cs\<rbrakk> \<Longrightarrow>
    restore saved is cs ! i = (if i \<in> set is then (cs ! i)\<lparr>enabled := enabled (saved ! i)\<rparr> else cs ! i)"
proof (induction "is" arbitrary: cs)
  case (Cons j js)
  then show ?case by (cases "i = j") (simp_all add: restore_Cons)
qed (simp add: restore_def)

lemma length_restore [simp]: "List.length (restore saved is cs) = List.length cs"
  by (induction "is" arbitrary: cs) (simp_all add: restore_def)

definition same_names :: "cheat list \<Rightarrow> cheat list \<Rightarrow> bool" where
  "same_names saved cs \<longleftrightarrow> List.length cs = MaxCheatCount \<and> List.length saved = MaxCheatCount \<and>
     (\<forall>i < MaxCheatCount. readable_name (cs ! i) = readable_name (saved ! i))"

lemma same_names_update:
  "same_names saved cs \<Longrightarrow> same_names saved (cs[i := (cs ! i)\<lparr>enabled := on\<rparr>])"
  by (cases "i < List.length cs") (auto simp: same_names_def nth_list_update)

lemma parse_toggle_list:
  "\<lbrakk>same_names saved cs; \<forall>j < MaxCheatCount. List.length (readable_name (saved ! j)) = name_size l;
    \<forall>i \<in> set is. 1 \<le> i \<and> i < MaxCheatCount \<and> clean_name l (saved ! i) \<and> first_of_name saved i\<rbrakk> \<Longrightarrow>
    ParseCheatToggles l beyond (concat (concat (map (\<lambda>i. [toggle_name l (saved ! i), toggle_word (enabled (saved ! i))]) is))) cs =
      (True, restore saved is cs)"
proof (induction "is" arbitrary: cs)
  case Nil
  then show ?case by (simp add: restore_def)
next
  case (Cons i "is")
  have i: "1 \<le> i" "i < MaxCheatCount" "clean_name l (saved ! i)" "first_of_name saved i" using Cons.prems(3) by simp_all
  have names: "readable_name (cs ! j) = readable_name (saved ! j)" if "j < MaxCheatCount" for j
    using Cons.prems(1) that by (simp add: same_names_def)
  have "first_of_name cs i" using i names by (simp add: first_of_name_def)
  then have "GetCheatEntryByReadableName l (take (name_size l) (c_string (readable_name (saved ! i)))) cs = Some i"
    using name_lookup [OF i(1,2), of cs l] names i(2) Cons.prems(2) by simp
  note step = parse_one_toggle [OF i(3) this, of beyond "enabled (saved ! i)"]
  have "ParseCheatToggles l beyond
      (concat (concat (map (\<lambda>i. [toggle_name l (saved ! i), toggle_word (enabled (saved ! i))]) is)))
      (cs[i := (cs ! i)\<lparr>enabled := enabled (saved ! i)\<rparr>]) =
      (True, restore saved is (cs[i := (cs ! i)\<lparr>enabled := enabled (saved ! i)\<rparr>]))"
    using Cons.prems by (intro Cons.IH same_names_update) auto
  then show ?case by (simp add: step restore_Cons)
qed

definition used_cheats :: "cheat list \<Rightarrow> nat list" where
  "used_cheats cs = filter (\<lambda>i. definition_num_opcodes (cs ! i) \<noteq> 0) [1..<MaxCheatCount]"

lemma toggle_pieces_eq:
  assumes "List.length cs = MaxCheatCount"
  shows "toggle_pieces l cs =
    concat (map (\<lambda>i. [toggle_name l (cs ! i), toggle_word (enabled (cs ! i))]) (used_cheats cs))"
proof -
  have "tl cs = map ((!) cs) [1..<MaxCheatCount]"
    by (rule nth_equalityI) (simp_all add: assms nth_tl)
  then have "filter (\<lambda>c. definition_num_opcodes c \<noteq> 0) (tl cs) = map ((!) cs) (used_cheats cs)"
    by (simp add: filter_map used_cheats_def comp_def)
  then show ?thesis by (simp add: toggle_pieces_def comp_def)
qed

end
