(* ===== verification/CheatTrace.thy ===== *)
theory CheatTrace
  imports CheatReach CheatToggles
begin

text \<open>
  What the cheat process manager does to the outside when it attaches, the meaning of a write
  on the frozen addresses, and the pages of the lists it returns.
\<close>

subsection \<open>Observing the outside\<close>

text \<open>An observation of the outside that files and handles do not change.\<close>

definition undisturbed :: "('r, 'k) cheat_env \<Rightarrow> ('k \<Rightarrow> 'o) \<Rightarrow> bool" where
  "undisturbed env obs \<longleftrightarrow>
     (\<forall>k h. obs (snd (close_handle env k h)) = obs k) \<and> (\<forall>k p. obs (snd (open_new_file env k p)) = obs k) \<and>
     (\<forall>k p n bs. obs (snd (write_file_at env k p n bs)) = obs k) \<and>
     (\<forall>k pid. obs (snd (pm_process_info env k pid)) = obs k) \<and>
     (\<forall>k pid. obs (snd (debug_active_process env k pid)) = obs k)"

text \<open>The processes that \<open>pm\<close> was told to start, in order.\<close>

definition logs_starts :: "('r, 'k) cheat_env \<Rightarrow> ('k \<Rightarrow> u64 list) \<Rightarrow> bool" where
  "logs_starts env starts \<longleftrightarrow>
     undisturbed env starts \<and> undisturbed env (application_process_id env) \<and>
     (\<forall>k pid. starts (snd (pm_start_process env k pid)) = starts k @ [pid])"

lemma undisturbedD:
  assumes "undisturbed env obs"
  shows "close_handle env k h = (r1, k') \<Longrightarrow> obs k' = obs k" "open_new_file env k p = (r2, k') \<Longrightarrow> obs k' = obs k"
    "write_file_at env k p n bs = (r2, k') \<Longrightarrow> obs k' = obs k" "pm_process_info env k pid = (r3, k') \<Longrightarrow> obs k' = obs k"
    "debug_active_process env k pid = (r4, k') \<Longrightarrow> obs k' = obs k"
  using assms unfolding undisturbed_def by (metis snd_conv)+

lemma write_pieces_obs:
  assumes "undisturbed env obs"
  shows "obs (write_pieces env p n ps k) = obs k"
proof (induction ps arbitrary: n k)
  case (Cons x ps)
  obtain ok k' where k: "write_file_at env k p n x = (ok, k')" by (metis surj_pair)
  show ?case using Cons undisturbedD(3) [OF assms k] by (simp add: k)
qed simp

lemma Save_obs:
  assumes "undisturbed env obs"
  shows "obs (cheat_world (SaveCheatToggles env p s)) = obs (cheat_world s)"
proof -
  obtain ok k where k: "open_new_file env (cheat_world s) (toggles_path p) = (ok, k)" by (metis surj_pair)
  show ?thesis using undisturbedD(2) [OF assms k] by (simp add: SaveCheatToggles_def Let_def k write_pieces_obs [OF assms])
qed

lemma CloseActive_obs:
  assumes "undisturbed env obs"
  shows "obs (cheat_world (snd (CloseActiveCheatProcess env s))) = obs (cheat_world s)"
proof -
  obtain x k where x: "close_handle env (cheat_world s) (cheat_debug_handle s) = (x, k)" by (metis surj_pair)
  have "obs k = obs (cheat_world s)" by (rule undisturbedD(1) [OF assms x])
  then show ?thesis
    by (simp add: CloseActiveCheatProcess_def x Let_def ABORT_IF_FAILED_def Save_obs [OF assms] split: outcome.split)
qed

lemma HasActive_obs:
  assumes "undisturbed env obs"
  shows "obs (cheat_world (snd (HasActiveCheatProcess env s))) = obs (cheat_world s)"
proof -
  obtain r t where t: "CloseActiveCheatProcess env s = (r, t)" by (metis surj_pair)
  have "obs (cheat_world t) = obs (cheat_world s)" using CloseActive_obs [OF assms, of s] by (simp add: t)
  then show ?thesis by (simp add: HasActiveCheatProcess_def R_TRY_def t split: outcome.split)
qed

text \<open>While a process is attached to, its number and the observation stay.\<close>

definition observed :: "('k \<Rightarrow> 'o) \<Rightarrow> 'o \<Rightarrow> u64 \<Rightarrow> 'k cheat_manager \<Rightarrow> bool" where
  "observed obs v pid s \<longleftrightarrow> obs (cheat_world s) = v \<and> md_process_id (cheat_metadata_of s) = pid"

lemmas observed_steps =
  IF_NEW_state [where P = "observed obs v pid" for obs v pid]
  R_UNLESS_state [where P = "observed obs v pid" for obs v pid]
  R_TRY_state [where P = "observed obs v pid" for obs v pid]

lemma LoadCheats_sel [simp]:
  "cheat_world (snd (LoadCheats env p b s)) = cheat_world s" "cheat_metadata_of (snd (LoadCheats env p b s)) = cheat_metadata_of s"
  "cheat_world (snd (LoadCheatToggles env p s)) = cheat_world s" "cheat_metadata_of (snd (LoadCheatToggles env p s)) = cheat_metadata_of s"
  by (simp_all add: LoadCheats_def LoadCheatToggles_def Let_def split: file_answer.split prod.split)

lemma attach_debug_observed:
  assumes "undisturbed env obs" "observed obs v pid s"
  shows "observed obs v pid (snd (attach_debug env b s))"
proof -
  obtain r k where k: "debug_active_process env (cheat_world s) (md_process_id (cheat_metadata_of s)) = (r, k)" by (metis surj_pair)
  have "obs k = obs (cheat_world s)" by (rule undisturbedD(5) [OF assms(1) k])
  then have "observed obs v pid (s\<lparr>cheat_world := k\<rparr>)" using assms(2) by (simp add: observed_def)
  then show ?thesis unfolding attach_debug_def on_world_def k Let_def prod.case
    by (intro observed_steps) (simp_all add: observed_def)
qed

lemma attach_cheats_observed:
  assumes "observed obs v pid s" "\<And>s. observed obs v pid s \<Longrightarrow> observed obs v pid (snd (f s))"
  shows "observed obs v pid (snd (attach_cheats env b s f))"
proof -
  let ?md = "cheat_metadata_of s"
  obtain ok t where t: "LoadCheats env (md_program_id ?md) (main_nso_build_id ?md) s = (ok, t)" by (metis surj_pair)
  obtain ok' u where u: "(if ok then LoadCheatToggles env (md_program_id ?md) t else (False, t)) = (ok', u)" by (metis surj_pair)
  have "cheat_world t = cheat_world s" "cheat_metadata_of t = ?md"
    using LoadCheats_sel(1,2) [of env "md_program_id ?md" "main_nso_build_id ?md" s] by (simp_all add: t)
  then have "observed obs v pid u"
    using u assms(1) LoadCheats_sel(3,4) [of env "md_program_id ?md" t] by (cases ok) (auto simp: observed_def)
  then show ?thesis unfolding attach_cheats_def Let_def t prod.case u
    by (intro observed_steps assms(2))
qed

lemma attach_modules_observed:
  assumes "observed obs v pid s" "\<And>s. observed obs v pid s \<Longrightarrow> observed obs v pid (snd (f s))"
  shows "observed obs v pid (snd (attach_modules env b s f))"
proof -
  have "observed obs v pid (set_metadata (\<lambda>m. m\<lparr>main_nso_extents := e, main_nso_build_id := i\<rparr>) s)" for e i
    using assms(1) by (simp add: observed_def set_metadata_def)
  then show ?thesis unfolding attach_modules_def
    by (intro observed_steps) (simp_all add: assms split: option.split)
qed

lemma attach_extents_observed:
  assumes "undisturbed env obs" "observed obs v pid s" "\<And>s. observed obs v pid s \<Longrightarrow> observed obs v pid (snd (f s))"
  shows "observed obs v pid (snd (attach_extents env b s f))"
proof -
  obtain r t where t: "on_world (\<lambda>k. pm_process_info env k (md_process_id (cheat_metadata_of s))) s = (r, t)" by (metis surj_pair)
  have t': "observed obs v pid t"
    using t assms(2) undisturbedD(4) [OF assms(1)] by (auto simp: on_world_def observed_def split: prod.splits)
  have md: "observed obs v pid (set_metadata (\<lambda>m. m\<lparr>md_program_id := p\<rparr>) y) = observed obs v pid y"
    "observed obs v pid (set_metadata (\<lambda>m. m\<lparr>heap_extents := e1, alias_extents := e2, aslr_extents := e3\<rparr>) y) = observed obs v pid y"
    for p e1 e2 e3 y by (simp_all add: observed_def set_metadata_def)
  have close: "observed obs v pid u" if "on_world (\<lambda>k. close_handle env k h) y = (x, u)" "observed obs v pid y" for h y x u
    using that undisturbedD(1) [OF assms(1)] by (auto simp: on_world_def observed_def split: prod.splits)
  show ?thesis unfolding attach_extents_def t Let_def prod.case
    by (intro observed_steps t')
      (auto simp: t' md split: prod.split intro!: observed_steps assms(3) dest!: close)
qed

subsection \<open>Starting the process\<close>

lemma start_process_trace:
  assumes "logs_starts env starts" "start_process env pid s = (r, t)"
  shows "starts (cheat_world t) = starts (cheat_world s) @ [pid]" "cheat_metadata_of t = cheat_metadata_of s"
    "r = Ok () \<or> r = Abort"
proof -
  obtain x k where k: "pm_start_process env (cheat_world s) pid = (x, k)" by (metis surj_pair)
  have "starts (snd (pm_start_process env (cheat_world s) pid)) = starts (cheat_world s) @ [pid]"
    using assms(1) by (simp add: logs_starts_def)
  then show "starts (cheat_world t) = starts (cheat_world s) @ [pid]" "cheat_metadata_of t = cheat_metadata_of s"
    "r = Ok () \<or> r = Abort"
    using assms(2) by (cases x; auto simp: start_process_def on_world_def k)+
qed

lemma attach_body_observed:
  assumes "undisturbed env obs" "observed obs v pid s"
  shows "observed obs v pid (snd (attach_extents env b s (\<lambda>s. attach_modules env b s (\<lambda>s.
    attach_cheats env b s (\<lambda>s. attach_debug env b s)))))"
  by (intro attach_extents_observed attach_modules_observed attach_cheats_observed attach_debug_observed assms)

lemma attach_found_trace:
  assumes "logs_starts env starts" "observed starts v pid s" "attach_found env b s = (r, t)"
  shows "if b then r = Abort \<or> starts (cheat_world t) = v @ [pid] else starts (cheat_world t) = v"
proof -
  have un: "undisturbed env starts" using assms(1) by (simp add: logs_starts_def)
  obtain r1 t1 where t1: "attach_extents env b s (\<lambda>s. attach_modules env b s (\<lambda>s.
      attach_cheats env b s (\<lambda>s. attach_debug env b s))) = (r1, t1)" by (metis surj_pair)
  have ob: "starts (cheat_world t1) = v" "md_process_id (cheat_metadata_of t1) = pid"
    using attach_body_observed [OF un assms(2), of b] by (simp_all add: t1 observed_def)
  obtain r2 t2 where t2: "start_process env pid t1 = (r2, t2)" by (metis surj_pair)
  note start = start_process_trace [OF assms(1) t2]
  have run: "attach_found env b s =
    (let (r, s) = process_guard env b (r1, t1)
      in R_TRY r s (\<lambda>_.
         let (r, s) = (if b then start_process env (md_process_id (cheat_metadata_of s)) s else (Ok (), s))
         in R_TRY r s (\<lambda>_. (Ok (), s\<lparr>debug_events_event := True, cheat_process_event := True\<rparr>))))"
    unfolding attach_found_def t1 ..
  show ?thesis
    using assms(3) ob start unfolding run
    by (cases r1; cases b) (auto simp: process_guard_def t2 set_metadata_def R_TRY_def)
qed

lemma attach_trace:
  assumes "logs_starts env starts" "AttachToApplicationProcess env b s = (r, t)"
  shows "if b then r = Abort \<or> (\<exists>pid. application_process_id env (cheat_world s) = Inr pid \<and>
      starts (cheat_world t) = starts (cheat_world s) @ [pid])
    else starts (cheat_world t) = starts (cheat_world s)"
proof -
  have un: "undisturbed env starts" "undisturbed env (application_process_id env)" using assms(1) by (simp_all add: logs_starts_def)
  obtain r1 t1 where t1: "HasActiveCheatProcess env s = (r1, t1)" by (metis surj_pair)
  obtain r2 t2 where t2: "CloseActiveCheatProcess env t1 = (r2, t2)" by (metis surj_pair)
  have r1: "r1 \<noteq> Err e" for e
    using t1 CloseActive_cases [of env s] by (auto simp: HasActiveCheatProcess_def R_TRY_def split: if_splits prod.splits outcome.splits)
  have r2: "r2 \<noteq> Err e" for e using CloseActive_cases [OF t2] by auto
  have s1: "starts (cheat_world t1) = starts (cheat_world s)"
    "application_process_id env (cheat_world t1) = application_process_id env (cheat_world s)"
    using HasActive_obs [OF un(1), of s] HasActive_obs [OF un(2), of s] by (simp_all add: t1)
  have s2: "starts (cheat_world t2) = starts (cheat_world s)"
    "application_process_id env (cheat_world t2) = application_process_id env (cheat_world s)"
    using CloseActive_obs [OF un(1), of t1] CloseActive_obs [OF un(2), of t1] s1 by (simp_all add: t2)
  have found: "if b then r' = Abort \<or> starts (cheat_world t') = starts (cheat_world s) @ [pid]
      else starts (cheat_world t') = starts (cheat_world s)"
    if "attach_found env b (set_metadata (\<lambda>m. m\<lparr>md_process_id := pid\<rparr>) t2) = (r', t')" for pid r' t'
    by (rule attach_found_trace [OF assms(1) _ that]) (simp add: observed_def set_metadata_def s2)
  show ?thesis
    using assms(2) r1 r2 s1 s2 found
    by (auto simp: AttachToApplicationProcess_def t1 t2 R_TRY_def R_ABORT_UNLESS_IF_NEW_PROCESS_def ABORT_IF_FAILED_def sys_def
        split: outcome.splits if_splits sum.splits)
qed

subsection \<open>Writes and frozen addresses\<close>

lemma map_of_update_frozen:
  assumes "sorted_wrt (<) (map fst fz)"
  shows "map_of (update_frozen p bs fz) a =
    (if p \<le> a \<and> a < p + of_nat (List.length bs)
     then map_option (\<lambda>v. v\<lparr>frozen_value_of := overwrite (frozen_value_of v) (drop (unat (a - p)) bs)\<rparr>) (map_of fz a)
     else map_of fz a)"
  using assms
proof (induction p bs fz rule: update_frozen.induct)
  case (2 p bs address v rest)
  have later: "a > address" if "map_of rest a \<noteq> None"
    using 2(2) that by (auto simp: weak_map_of_SomeI dest!: map_of_SomeD)
  show ?case
  proof (cases "address \<ge> p + of_nat (List.length bs)")
    case True
    then have "map_of rest a = None" if "a < p + of_nat (List.length bs)" using later that by force
    then show ?thesis using True by (auto simp: Let_def)
  next
    case False
    then show ?thesis using 2 by (auto simp: Let_def)
  qed
qed simp

subsection \<open>Pages\<close>

lemma collect_cheats_page:
  "collect_cheats n offset seen cs = take n (drop (offset - seen) (filter (\<lambda>c. definition_num_opcodes c \<noteq> 0) cs))"
proof (induction n offset seen cs rule: collect_cheats.induct)
  case (3 n offset seen c cs)
  show ?case
  proof (cases "seen + 1 > offset")
    case False
    then have "offset - seen = Suc (offset - Suc seen)" by simp
    then show ?thesis using 3 False by simp
  qed (use 3 in simp)
qed simp_all

lemma collect_frozen_page: "collect_frozen n offset seen fz = take n (drop (offset - seen) fz)"
proof (induction n offset seen fz rule: collect_frozen.induct)
  case (3 n offset seen x xs)
  show ?case
  proof (cases "offset \<le> seen")
    case False
    then have "offset - seen = Suc (offset - Suc seen)" by simp
    then show ?thesis using 3 False by simp
  qed (use 3 in simp)
qed simp_all

subsection \<open>Walks over the mappings\<close>

text \<open>
  The kernel answers a query with the region that holds the address; the regions tile the
  address space, so the last one ends where the addresses wrap.
\<close>

definition covering :: "(u64 \<Rightarrow> 'r + memory_info) \<Rightarrow> bool" where
  "covering query \<longleftrightarrow> (\<forall>a mi. query a = Inr mi \<longrightarrow>
     unat (mem_addr mi) \<le> unat a \<and> unat a < unat (mem_addr mi) + unat (mem_size mi) \<and>
     unat (mem_addr mi) + unat (mem_size mi) \<le> 2 ^ 64)"

lemma covering_next:
  assumes "covering query" "query a = Inr mi" "mem_addr mi + mem_size mi \<noteq> 0"
  shows "unat a < unat (mem_addr mi + mem_size mi)"
proof -
  have c: "unat a < unat (mem_addr mi) + unat (mem_size mi)" "unat (mem_addr mi) + unat (mem_size mi) \<le> 2 ^ 64"
    using assms(1,2) by (simp_all add: covering_def)
  have "unat (mem_addr mi) + unat (mem_size mi) \<noteq> 2 ^ 64"
  proof
    assume "unat (mem_addr mi) + unat (mem_size mi) = 2 ^ 64"
    then have "unat (mem_addr mi + mem_size mi) = 0" by (simp add: unat_word_ariths)
    then show False using assms(3) by (simp add: unat_eq_0)
  qed
  then show ?thesis using c by (simp add: unat_word_ariths)
qed

lemma walk_regions:
  assumes "covering query"
  shows "\<exists>ms. (\<forall>count. count_mappings query a count = Some (count + List.length ms)) \<and>
    (\<forall>max_count offset seen out. List.length out \<le> max_count \<longrightarrow>
       collect_mappings query max_count offset a seen out =
       Some (out @ take (max_count - List.length out) (drop (offset - seen) ms)))"
proof (induction a rule: measure_induct_rule [of "\<lambda>a. 2 ^ 64 - unat a"])
  case (less a)
  show ?case
  proof (cases "query a")
    case (Inl e)
    then show ?thesis by (intro exI [of _ "[]"]) (simp add: count_mappings.simps collect_mappings.simps)
  next
    case (Inr mi)
    let ?next = "mem_addr mi + mem_size mi"
    let ?here = "if mem_perm mi \<noteq> 0 then [mi] else []"
    obtain ms where ms: "?next = 0 \<Longrightarrow> ms = []"
      "?next \<noteq> 0 \<Longrightarrow> (\<forall>count. count_mappings query ?next count = Some (count + List.length ms)) \<and>
        (\<forall>max_count offset seen out. List.length out \<le> max_count \<longrightarrow>
           collect_mappings query max_count offset ?next seen out =
           Some (out @ take (max_count - List.length out) (drop (offset - seen) ms)))"
    proof (cases "?next = 0")
      case False
      have "unat a < unat ?next" "unat ?next < 2 ^ 64"
        using covering_next [OF assms Inr False] unsigned_less [of ?next, where 'a = nat] by simp_all
      then have "2 ^ 64 - unat ?next < 2 ^ 64 - unat a" by linarith
      from less.IH [OF this] show ?thesis using that False by blast
    qed (use that in blast)
    have drop: "drop (offset - seen) (mi # ms) = (if offset \<le> seen then mi # drop (offset - Suc seen) ms else drop (offset - Suc seen) ms)"
      for offset seen
    proof (cases "offset \<le> seen")
      case False
      then have "offset - seen = Suc (offset - Suc seen)" by simp
      then show ?thesis using False by simp
    qed simp
    have "count_mappings query a count = Some (count + List.length (?here @ ms))" for count
      using ms by (subst count_mappings.simps) (simp add: Inr Let_def)
    moreover have "collect_mappings query max_count offset a seen out =
        Some (out @ take (max_count - List.length out) (drop (offset - seen) (?here @ ms)))"
      if "List.length out \<le> max_count" for max_count offset seen out
    proof -
      define m where "m = max_count - List.length out"
      then have m: "max_count = List.length out + m" using that by simp
      show ?thesis unfolding m using ms
        by (subst collect_mappings.simps) (cases m; auto simp: Inr Let_def drop)
    qed
    ultimately show ?thesis by blast
  qed
qed

subsection \<open>Text files\<close>

lemma c_string_all: "0 \<notin> set bs \<Longrightarrow> c_string bs = bs"
  by (auto simp: c_string_def takeWhile_eq_all_conv)

lemma c_string_print_cheats:
  assumes "\<forall>y \<in> set ys. 0 \<notin> set (fst y)"
  shows "c_string (print_cheats ys) = print_cheats ys"
proof (rule c_string_all)
  have "\<forall>n \<in> set [0..<16]. hex_byte n \<noteq> 0" by code_simp
  then have "0 \<notin> set (hex_bytes n v)" for n v using hex_bytes_digits [of n v] by fastforce
  then show "0 \<notin> set (print_cheats ys)"
    using assms by (auto simp: print_cheats_def print_cheat_def print_opcode_def)
qed

lemma c_string_store_name:
  assumes "0 \<notin> set name"
  shows "c_string (store_name n name (replicate n 0)) = take n name"
proof (cases "List.length name < n")
  case True
  then have "replicate (n - List.length name) (0 :: u8) = 0 # replicate (n - Suc (List.length name)) 0"
    by (metis Suc_diff_Suc replicate_Suc)
  then have "store_name n name (replicate n 0) = name @ 0 # replicate (n - Suc (List.length name)) 0"
    using True by (simp add: store_name_def Let_def list_update_append)
  then show ?thesis using True c_string_all [OF assms] c_string_append [of "name @ [0]"]
    by (simp add: c_string_def takeWhile_append1 assms)
next
  case False
  have "0 \<notin> set (take n name)" using assms by (meson in_set_takeD)
  then show ?thesis using False by (simp add: store_name_def Let_def list_update_beyond c_string_all)
qed

lemma nth_enable_parsed:
  "i < List.length cs \<Longrightarrow> enable_parsed d cs ! i =
    (if definition_num_opcodes (cs ! i) > 0 then (cs ! i)\<lparr>enabled := (i = 0 \<or> d)\<rparr> else cs ! i)"
  by (simp add: enable_parsed_def nth_enumerate_eq)

lemma c_string_toggles:
  assumes "\<forall>i \<in> set is. clean_name l (cs ! i)"
  shows "c_string (concat (concat (map (\<lambda>i. [toggle_name l (cs ! i), toggle_word (enabled (cs ! i))]) is))) =
    concat (concat (map (\<lambda>i. [toggle_name l (cs ! i), toggle_word (enabled (cs ! i))]) is))"
proof (rule c_string_all)
  have "0 \<notin> set (c_string bs)" for bs by (auto simp: c_string_def dest: set_takeWhileD)
  then show "0 \<notin> set (concat (concat (map (\<lambda>i. [toggle_name l (cs ! i), toggle_word (enabled (cs ! i))]) is)))"
    using assms by (auto simp: toggle_name_clean toggle_word_def split: if_splits)
qed

text \<open>A file that can be opened afresh and takes what is written at its end.\<close>

definition keeps_file :: "('r, 'k) cheat_env \<Rightarrow> string \<Rightarrow> bool" where
  "keeps_file env path \<longleftrightarrow>
     (\<forall>k. fst (open_new_file env k path) \<and> read_text_file env (snd (open_new_file env k path)) path = Contents []) \<and>
     (\<forall>k xs bs. read_text_file env k path = Contents xs \<longrightarrow>
        fst (write_file_at env k path (List.length xs) bs) \<and>
        read_text_file env (snd (write_file_at env k path (List.length xs) bs)) path = Contents (xs @ bs))"

lemma write_pieces_text:
  assumes "keeps_file env path"
  shows "read_text_file env k path = Contents xs \<Longrightarrow>
    read_text_file env (write_pieces env path (List.length xs) ps k) path = Contents (xs @ concat ps)"
proof (induction ps arbitrary: k xs)
  case (Cons q ps)
  obtain ok k' where k': "write_file_at env k path (List.length xs) q = (ok, k')" by (metis surj_pair)
  have "ok" "read_text_file env k' path = Contents (xs @ q)"
    using assms Cons.prems unfolding keeps_file_def by (metis k' fst_conv snd_conv)+
  then show ?case using Cons.IH [of k' "xs @ q"] by (simp add: k')
qed simp

lemma saved_text:
  assumes "keeps_file env (toggles_path p)"
  shows "read_text_file env (cheat_world (SaveCheatToggles env p s)) (toggles_path p) =
    Contents (concat (toggle_pieces (cheat_layout_of env) (cheat_entries s)))"
proof -
  obtain ok k where k: "open_new_file env (cheat_world s) (toggles_path p) = (ok, k)" by (metis surj_pair)
  have "ok" "read_text_file env k (toggles_path p) = Contents []"
    using assms unfolding keeps_file_def by (metis k fst_conv snd_conv)+
  then show ?thesis using write_pieces_text [OF assms, of k "[]"] by (simp add: SaveCheatToggles_def Let_def k)
qed

end
