(* ===== verification/CheatManagerProps.thy ===== *)
theory CheatManagerProps
  imports CheatTrace
begin

text \<open>Properties of the cheat process manager and its service.\<close>

subsection \<open>Reachable states\<close>

text \<open>
  C29. Every reachable state is well-typed: the table has its fixed number of entries, each with a
  name and opcodes of the size of the arrays and no more opcodes than fit; the frozen addresses
  are distinct and in order, at most 0x80, each of a width of 1, 2, 4 or 8 bytes, and there are
  none when no process is attached.
\<close>

theorem reachable_cheat_tables:
  assumes "cheat_reachable env s"
  shows "List.length (cheat_entries s) = MaxCheatCount \<and>
    (\<forall>c \<in> set (cheat_entries s). List.length (readable_name c) = name_size (cheat_layout_of env) \<and>
      List.length (definition_opcodes c) = opcodes_size (cheat_layout_of env) \<and>
      definition_num_opcodes c \<le> opcodes_size (cheat_layout_of env)) \<and>
    sorted_wrt (<) (map fst (frozen_addresses_map s)) \<and>
    List.length (frozen_addresses_map s) \<le> MaxFrozenAddressCount \<and>
    (\<forall>(a, v) \<in> set (frozen_addresses_map s). frozen_width v \<in> {1, 2, 4, 8}) \<and>
    (cheat_debug_handle s = invalid_handle env \<longrightarrow> frozen_addresses_map s = [])"
proof -
  note ok = manager_okD [OF reachable_manager_ok [OF assms]]
  have "\<forall>(a, v) \<in> set (frozen_addresses_map s). frozen_width v \<in> {1, 2, 4, 8}"
    using ok(2) by (auto simp: shape_ok_def frozen_shape_def valid_width_def)
  then show ?thesis using ok(1-3) by (simp add: table_ok_def entry_ok_def shape_ok_def)
qed

text \<open>
  C30. What runs is what is enabled: in a reachable state where no reload is due, the program of
  the virtual machine is the opcodes of the enabled cheats, in the order of the table.
\<close>

theorem reachable_program_in_sync:
  assumes "cheat_reachable env s" "\<not> needs_reload_vm s"
  shows "take (num_opcodes (cheat_vm s)) (program (cheat_vm s)) =
    concat (map (\<lambda>c. take (definition_num_opcodes c) (definition_opcodes c)) (filter enabled (cheat_entries s)))"
proof -
  have "table_opcodes cs = concat (map (\<lambda>c. take (definition_num_opcodes c) (definition_opcodes c)) (filter enabled cs))" for cs
    by (induction cs) (simp_all add: table_opcodes_def enabled_opcodes_def cheat_entry.truncate_def)
  then show ?thesis using manager_okD(5) [OF reachable_manager_ok [OF assms(1)]] assms(2) by (simp add: synced_def)
qed

subsection \<open>Starting applications\<close>

text \<open>
  C31. Attaching at the launch of an application starts it exactly once, whatever goes wrong on the
  way (an unwanted, unreadable or unattachable application is started all the same), unless
  the module aborts; a forced attach starts nothing.
\<close>

theorem launch_starts_application_once:
  assumes "logs_starts env starts"
  shows "(AttachToApplicationProcess env True s = (r, t) \<longrightarrow>
      r = Abort \<or> (\<exists>pid. application_process_id env (cheat_world s) = Inr pid \<and>
        starts (cheat_world t) = starts (cheat_world s) @ [pid])) \<and>
    (AttachToApplicationProcess env False s = (r, t) \<longrightarrow> starts (cheat_world t) = starts (cheat_world s))"
  using attach_trace [OF assms, of True] attach_trace [OF assms, of False] by simp

subsection \<open>Frozen addresses\<close>

text \<open>
  C32. A successful write through the manager is what the frozen addresses it covers hold from then
  on: a frozen address inside the written range takes the written bytes from its own first byte on and
  keeps the rest; every other frozen address keeps its value, so that the next round of the
  virtual machine undoes a write that starts behind the first byte of a frozen value.
\<close>

theorem write_updates_frozen_values:
  assumes "sorted_wrt (<) (map fst (frozen_addresses_map s))" "map_of (frozen_addresses_map s) a = Some v"
    and "WriteCheatProcessMemoryUnsafe env p bs s = (Ok (), t)"
  shows "\<exists>v'. map_of (frozen_addresses_map t) a = Some v' \<and> frozen_width v' = frozen_width v \<and>
    le_bytes 8 (frozen_value_of v') =
      (if p \<le> a \<and> a < p + of_nat (List.length bs)
       then take 8 (drop (unat (a - p)) bs) @ drop (List.length bs - unat (a - p)) (le_bytes 8 (frozen_value_of v))
       else le_bytes 8 (frozen_value_of v))"
proof -
  have "frozen_addresses_map t = update_frozen p bs (frozen_addresses_map s)"
    using assms(3) by (auto simp: WriteCheatProcessMemoryUnsafe_def write_unsafe_def with_memory_def R_TRY_def
        split: prod.splits outcome.splits)
  moreover have "le_bytes 8 (overwrite x xs) = take 8 xs @ drop (List.length xs) (le_bytes 8 x)" for x xs
    unfolding overwrite_def by (rule le_bytes_value) (simp_all add: le_bytes_def min_def)
  ultimately show ?thesis using assms(2) by (simp add: map_of_update_frozen [OF assms(1)])
qed

subsection \<open>Text files\<close>

text \<open>
  C33. A file that lists cheats, each a name in brackets followed by its opcodes in eight
  hexadecimal digits, is loaded as that list: the entries after the master cheat hold the
  names and opcodes in order, enabled or not as the default says, and the other entries are free.
\<close>

theorem printed_cheats_are_loaded:
  assumes "List.length (cheat_entries s) = MaxCheatCount" "List.length ys < MaxCheatCount"
    and "\<forall>y \<in> set ys. printable (cheat_layout_of env) y \<and> 0 \<notin> set (fst y)"
    and "read_text_file env (cheat_world s) (cheat_path p b) = Contents (print_cheats ys)"
    and "LoadCheats env p b s = (ok, t)"
  shows "ok \<and> needs_reload_vm t \<and>
    (\<forall>i < List.length ys.
      let c = cheat_entries t ! Suc i
       in take (definition_num_opcodes c) (definition_opcodes c) = snd (ys ! i) \<and>
          c_string (readable_name c) = take (name_size (cheat_layout_of env)) (fst (ys ! i)) \<and>
          enabled c = enable_cheats_by_default s) \<and>
    (\<forall>j < MaxCheatCount. List.length ys < j \<longrightarrow> definition_num_opcodes (cheat_entries t ! j) = 0)"
proof -
  let ?l = "cheat_layout_of env" and ?d = "enable_cheats_by_default s"
  have whole: "c_string (print_cheats ys) = print_cheats ys" using assms(3) by (intro c_string_print_cheats) simp
  have parsed: "parse_cheats ?l (print_cheats ys) None (parsed_table ?l []) = (True, parsed_table ?l ys)"
    using parse_printed [of "[]" ys ?l None] assms(2,3) by simp
  have run: "ok" "needs_reload_vm t" "cheat_entries t = enable_parsed ?d (parsed_table ?l ys)"
    using assms(5) by (auto simp: LoadCheats_def ResetAll_table [OF assms(1)] assms(4) whole ParseCheats_def parsed)
  have "let c = cheat_entries t ! Suc i
      in take (definition_num_opcodes c) (definition_opcodes c) = snd (ys ! i) \<and>
         c_string (readable_name c) = take (name_size ?l) (fst (ys ! i)) \<and> enabled c = ?d" if "i < List.length ys" for i
  proof -
    have "printable ?l (ys ! i)" "0 \<notin> set (fst (ys ! i))" "Suc i < MaxCheatCount" using assms(2,3) that by auto
    then show ?thesis using that
      by (simp add: run(3) nth_enable_parsed nth_parsed_table parsed_entry_def c_string_store_name printable_def)
  qed
  moreover have "definition_num_opcodes (cheat_entries t ! j) = 0" if "List.length ys < j" "j < MaxCheatCount" for j
    using that by (simp add: run(3) nth_enable_parsed nth_parsed_table cheat_zero_def)
  ultimately show ?thesis using run(1,2) by blast
qed

text \<open>
  C34. Saving the toggles and loading them again restores the switches of the cheats: with the
  names of the used cheats distinct and printed whole, every used cheat is enabled as it was when the
  file was written, and nothing else of the table changes.
\<close>

theorem saved_toggles_are_restored:
  assumes "keeps_file env (toggles_path p)" "SaveCheatToggles env p s = u"
    and "List.length (cheat_entries s) = MaxCheatCount"
    and "\<forall>i \<in> set [0..<MaxCheatCount]. List.length (readable_name (cheat_entries s ! i)) = name_size (cheat_layout_of env)"
    and "\<forall>i \<in> set (used_cheats (cheat_entries s)). clean_name (cheat_layout_of env) (cheat_entries s ! i) \<and>
      first_of_name (cheat_entries s) i"
    and "cheat_world v = cheat_world u" "same_names (cheat_entries s) (cheat_entries v)"
    and "LoadCheatToggles env p v = (ok, w)"
  shows "ok \<and> (\<forall>i < MaxCheatCount. cheat_entries w ! i =
      (if i \<in> set (used_cheats (cheat_entries s))
       then (cheat_entries v ! i)\<lparr>enabled := enabled (cheat_entries s ! i)\<rparr> else cheat_entries v ! i))"
proof -
  let ?l = "cheat_layout_of env" and ?cs = "cheat_entries s"
  let ?tx = "concat (toggle_pieces ?l ?cs)"
  have read: "read_text_file env (cheat_world v) (toggles_path p) = Contents ?tx"
    using saved_text [OF assms(1), of s] assms(2,6) by simp
  have used: "\<forall>i \<in> set (used_cheats ?cs). 1 \<le> i \<and> i < MaxCheatCount \<and> clean_name ?l (?cs ! i) \<and> first_of_name ?cs i"
    using assms(5) by (auto simp: used_cheats_def)
  have tx: "?tx = concat (concat (map (\<lambda>i. [toggle_name ?l (?cs ! i), toggle_word (enabled (?cs ! i))]) (used_cheats ?cs)))"
    by (simp add: toggle_pieces_eq [OF assms(3)])
  have parse: "ParseCheatToggles ?l b ?tx (cheat_entries v) = (True, restore ?cs (used_cheats ?cs) (cheat_entries v))" for b
    unfolding tx using assms(4,7) used by (intro parse_toggle_list) simp_all
  have whole: "c_string ?tx = ?tx" unfolding tx using used by (intro c_string_toggles) simp
  have w: "ok" "cheat_entries w = restore ?cs (used_cheats ?cs) (cheat_entries v)"
    using assms(8) by (auto simp: LoadCheatToggles_def Let_def read whole parse)
  have len: "List.length (cheat_entries v) = MaxCheatCount" using assms(7) by (simp add: same_names_def)
  have "cheat_entries w ! i = (if i \<in> set (used_cheats ?cs) then (cheat_entries v ! i)\<lparr>enabled := enabled (?cs ! i)\<rparr>
      else cheat_entries v ! i)" if "i < MaxCheatCount" for i
    unfolding w(2) by (rule nth_restore) (use used len that in auto)
  then show ?thesis using w(1) by blast
qed

subsection \<open>What the clients see\<close>

text \<open>
  The lists of cheats and of frozen addresses are paged faithfully: a client that asks for
  some entries behind an offset receives that slice of the list of used cheats, or of the frozen
  addresses, and the counts are the lengths of these lists.
\<close>

theorem pages_are_slices:
  "GetCheats n offset s = take n (drop offset (filter (\<lambda>c. definition_num_opcodes c \<noteq> 0) (cheat_entries s)))"
  "GetCheatCount s = List.length (filter (\<lambda>c. definition_num_opcodes c \<noteq> 0) (cheat_entries s))"
  "collect_frozen n offset 0 (frozen_addresses_map s) = take n (drop offset (frozen_addresses_map s))"
  by (simp_all add: GetCheats_def GetCheatCount_def collect_cheats_page collect_frozen_page)

text \<open>
  The walks over the mappings of the process end when the kernel answers each query with a
  region around the address, and both commands walk the same regions: the count is their number and
  the pages are slices of their list.
\<close>

theorem mapping_walks_end:
  assumes "is_active env s" "covering (query_process_memory env (cheat_world s) (cheat_debug_handle s))"
  shows "\<exists>ms. cheat_call env GetCheatProcessMappingCount s = Some (Ok (Count (List.length ms)), s) \<and>
    (\<forall>n offset. cheat_call env (GetCheatProcessMappings True n offset) s = Some (Ok (Mappings (take n (drop offset ms))), s))"
proof -
  have "HasActiveCheatProcess env s = (Ok True, s)" using assms(1) by (simp add: HasActiveCheatProcess_def)
  then have run: "ensured env s f = f s" for f by (simp add: ensured_def)
  show ?thesis using walk_regions [OF assms(2), of 0] by (auto simp: run walked_def need_buffer_def)
qed


subsection \<open>Witnesses\<close>

text \<open>
  An outside whose state is the toggle file and the started processes. The application does not
  ask for cheats, and the card has no cheats for it.
\<close>

definition sample_layout :: cheat_layout where
  "sample_layout = \<lparr>name_size = 8, opcodes_size = 4, build_id_size = 2, name_tail = (\<lambda>_. [])\<rparr>"

definition sample_outside :: "(unit, u8 list \<times> u64 list) cheat_env" where
  "sample_outside =
     \<lparr>cheat_layout_of = sample_layout, invalid_handle = 0, process_id_of = (\<lambda>_ _. Inr 5),
      application_process_id = (\<lambda>_. Inr 5), close_handle = (\<lambda>k _. (Inr (), k)),
      pm_process_info = (\<lambda>k _. (Inr (0x11, 0x100, False), k)), pm_start_process = (\<lambda>k pid. (Inr (), (fst k, snd k @ [pid]))),
      address_space_info = (\<lambda>_ _. Inr ((0x1000, 0x100), (0x2000, 0x100), (0, 0x10000))),
      ldr_module_info = (\<lambda>_ _. Inr [\<lparr>mod_build_id = [1, 2], mod_base_address = 0x4000, mod_size = 0x1000\<rparr>,
        \<lparr>mod_build_id = [3, 4], mod_base_address = 0x8000, mod_size = 0x1000\<rparr>]),
      debug_active_process = (\<lambda>k _. (Inr 0x22, k)), read_process_memory = (\<lambda>_ _ _ n. Inr (replicate n 0)),
      write_process_memory = (\<lambda>k _ _ _. (Inr (), k)),
      query_process_memory = (\<lambda>_ _ a. if a < 0x1000 then Inr \<lparr>mem_addr = 0, mem_size = 0x1000, mem_perm = 3\<rparr> else Inl ()),
      read_text_file = (\<lambda>k path. if path = toggles_path 0x100 then Contents (fst k) else CannotOpen),
      open_new_file = (\<lambda>k _. (True, ([], snd k))), write_file_at = (\<lambda>k _ n bs. (True, (take n (fst k) @ bs, snd k))),
      heap_byte = (\<lambda>_. 0), vm_keys_held = (\<lambda>_. 0), vm_debug_log = (\<lambda>k _ _. k),
      vm_wide_shift_left = (\<lambda>_ _. 0), vm_wide_shift_right = (\<lambda>_ _. 0)\<rparr>"

definition sample_created :: "(u8 list \<times> u64 list) cheat_manager" where
  "sample_created = cheat_manager_initial sample_outside True False ([], [])"

definition sample_forced :: "(u8 list \<times> u64 list) cheat_manager" where
  "sample_forced = snd (AttachToApplicationProcess sample_outside False sample_created)"

definition sample_added :: "(u8 list \<times> u64 list) cheat_manager" where
  "sample_added = snd (AddCheat sample_outside
     \<lparr>def_name = [0x41, 0, 0, 0, 0, 0, 0, 0], def_num_opcodes = 1, def_opcodes = [0xB0000000, 0, 0, 0]\<rparr> True sample_forced)"

lemmas attach_defs =
  AttachToApplicationProcess_def HasActiveCheatProcess_def is_active_def CloseActiveCheatProcess_def attach_found_def
  process_guard_def attach_extents_def attach_modules_def attach_cheats_def attach_debug_def main_module_def
  LoadCheats_def start_process_def on_world_def set_metadata_def R_ABORT_UNLESS_IF_NEW_PROCESS_def ABORT_IF_FAILED_def
  R_TRY_def R_UNLESS_def sys_def Let_def

lemma sample_paths: "cheat_path 0x100 [3, 4] \<noteq> toggles_path 0x100"
  by (simp add: cheat_path_def toggles_path_def hex_char_def numeral_2_eq_2)

text \<open>What the samples look like.\<close>

lemma sample_forced_eq:
  "sample_forced = sample_created\<lparr>cheat_debug_handle := 0x22, cheat_entries := parsed_table sample_layout [],
     needs_reload_vm := True, debug_events_event := True, cheat_process_event := True,
     cheat_metadata_of := \<lparr>md_process_id = 5, md_program_id = 0x100, main_nso_extents = (0x8000, 0x1000),
       heap_extents = (0x1000, 0x100), alias_extents = (0x2000, 0x100), aslr_extents = (0, 0x10000),
       main_nso_build_id = [3, 4]\<rparr>\<rparr>"
  by (simp add: sample_forced_def attach_defs sample_created_def sample_outside_def sample_layout_def
      cheat_manager_initial_def metadata_zero_def sample_paths ResetAll_table)

lemma sample_launched:
  "\<exists>t. AttachToApplicationProcess sample_outside True sample_created = (Err ResultCheatNotAttached, t)"
  by (simp add: attach_defs sample_created_def sample_outside_def cheat_manager_initial_def metadata_zero_def)

lemma sample_added_eq:
  "sample_added = sample_forced\<lparr>cheat_entries := (parsed_table sample_layout [])[1 := \<lparr>enabled = True, definition_num_opcodes = 1,
     definition_opcodes = [0xB0000000, 0, 0, 0], cheat_id = 1, readable_name = [0x41, 0, 0, 0, 0, 0, 0, 0]\<rparr>]\<rparr>"
  using free_in_parsed_table [of "[]" sample_layout]
  by (simp add: sample_added_def AddCheat_def R_UNLESS_def sample_outside_def sample_layout_def sample_forced_eq
      MaxCheatCount_def nth_parsed_table sample_created_def cheat_manager_initial_def cheat_zero_def)

lemma sample_added_opcodes: "table_opcodes (cheat_entries sample_added) = [0xB0000000]"
proof -
  have "table_opcodes (map (fresh_entry l) xs) = []" for l xs
    by (induction xs) (simp_all add: table_opcodes_def enabled_opcodes_def cheat_zero_def cheat_entry.truncate_def)
  moreover have "parsed_table sample_layout [] = fresh_entry sample_layout 0 # fresh_entry sample_layout 1 #
      map (fresh_entry sample_layout) [2..<MaxCheatCount]"
    by (simp add: parsed_table_def MaxCheatCount_def upt_conv_Cons numeral_2_eq_2)
  ultimately show ?thesis
    by (simp add: sample_added_eq table_opcodes_def enabled_opcodes_def cheat_zero_def cheat_entry.truncate_def)
qed

lemma sample_steps:
  "cheat_step sample_outside (Command ForceOpen) sample_created = Some sample_forced"
  "cheat_step sample_outside (Command (CmdAddCheat \<lparr>def_name = [0x41, 0, 0, 0, 0, 0, 0, 0], def_num_opcodes = 1,
     def_opcodes = [0xB0000000, 0, 0, 0]\<rparr> True)) sample_forced = Some sample_added"
proof -
  obtain r t where t: "AttachToApplicationProcess sample_outside False sample_created = (r, t)" by fastforce
  then show "cheat_step sample_outside (Command ForceOpen) sample_created = Some sample_forced"
    by (cases r) (simp_all add: ForceOpenCheatProcess_def sample_forced_def)
  have "HasActiveCheatProcess sample_outside sample_forced = (Ok True, sample_forced)"
    by (simp add: HasActiveCheatProcess_def is_active_def sample_forced_eq sample_outside_def)
  then show "cheat_step sample_outside (Command (CmdAddCheat \<lparr>def_name = [0x41, 0, 0, 0, 0, 0, 0, 0], def_num_opcodes = 1,
     def_opcodes = [0xB0000000, 0, 0, 0]\<rparr> True)) sample_forced = Some sample_added"
    by (simp add: ensured_def sample_added_def)
qed

lemma sample_reachable: "cheat_reachable sample_outside sample_created" "cheat_reachable sample_outside sample_added"
proof -
  have l: "name_size (cheat_layout_of sample_outside) = 8" "opcodes_size (cheat_layout_of sample_outside) = 4"
    by (simp_all add: sample_outside_def sample_layout_def)
  show c: "cheat_reachable sample_outside sample_created" unfolding sample_created_def by (rule created)
  show "cheat_reachable sample_outside sample_added"
    by (rule stepped [OF stepped [OF c _ sample_steps(1)] _ sample_steps(2)]) (simp_all add: l)
qed

text \<open>A round of the virtual machine over the added cheat, whose only opcode cannot be decoded.\<close>

lemma sample_round: "\<exists>t. cheat_step sample_outside (Round 1) sample_added = Some t \<and> \<not> needs_reload_vm t \<and>
  cheat_entries t = cheat_entries sample_added"
proof -
  have active: "HasActiveCheatProcess sample_outside sample_added = (Ok True, sample_added)"
    by (simp add: HasActiveCheatProcess_def is_active_def sample_added_eq sample_forced_eq sample_outside_def)
  obtain ok m where m: "LoadProgram (cheat_vm sample_added) (map cheat_entry.truncate (cheat_entries sample_added)) = (ok, m)"
    by fastforce
  note inv = manager_okD [OF reachable_manager_ok [OF sample_reachable(2)]]
  note load = LoadProgram_table [OF inv(1) inv(4) m]
  have ok: "ok" using load(2) by (simp add: sample_added_opcodes MaximumProgramOpcodeCount_def)
  have prog: "take (num_opcodes m) (program m) = [0xB0000000]" using load(3) ok by (simp add: sample_added_opcodes)
  have len: "num_opcodes m \<le> List.length (program m)" using load(1) by (simp add: vm_sized_def)
  have num: "num_opcodes m = 1" using arg_cong [OF prog, of List.length] len by simp
  have first: "program m ! 0 = 0xB0000000" using prog num by (cases "program m") simp_all
  have "opcode_number 0xB0000000 = 11" by code_simp
  then have "decode_opcode 0xB0000000 = State_Monad.return None" by (simp add: decode_opcode_def Let_def)
  then have finishes: "\<exists>m' w'. exec_loop (Suc 0) e (ResetState m, w) = Done (m', w')" for e :: "(frozen_map \<times> u8 list \<times> u64 list) vm_env" and w
    by (cases w) (simp add: vm_step_def DecodeNextOpcode_def GetNextDword_def ResetState_def num first State_Monad.return_def)
  have reload: "needs_reload_vm sample_added" by (simp add: sample_added_eq sample_forced_eq)
  let ?s = "sample_added\<lparr>cheat_vm := m, needs_reload_vm := False\<rparr>"
  obtain m' w' where run: "Execute 1 (vm_env_of sample_outside ?s) (m, (frozen_addresses_map ?s, cheat_world ?s)) = Done (m', w')"
    using finishes by (fastforce simp: Execute_def)
  show ?thesis using run
    by (simp add: vm_round_def active reload_vm_def reload m ok num apply_frozen_def with_memory_def Let_def)
qed

lemma reachable_cheat_tables_witness:
  "List.length (cheat_entries sample_added) = MaxCheatCount \<and> sorted_wrt (<) (map fst (frozen_addresses_map sample_added)) \<and>
   List.length (frozen_addresses_map sample_added) \<le> MaxFrozenAddressCount"
  using reachable_cheat_tables [OF sample_reachable(2)] by simp

lemma reachable_program_in_sync_witness:
  "\<exists>t. cheat_step sample_outside (Round 1) sample_added = Some t \<and>
    take (num_opcodes (cheat_vm t)) (program (cheat_vm t)) = [0xB0000000]"
proof -
  obtain t where t: "cheat_step sample_outside (Round 1) sample_added = Some t" "\<not> needs_reload_vm t"
    "cheat_entries t = cheat_entries sample_added" using sample_round by blast
  have "cheat_reachable sample_outside t" by (rule stepped [OF sample_reachable(2) _ t(1)]) simp
  then have "take (num_opcodes (cheat_vm t)) (program (cheat_vm t)) = concat (map (\<lambda>c. take (definition_num_opcodes c)
      (definition_opcodes c)) (filter enabled (cheat_entries sample_added)))"
    using reachable_program_in_sync t(2,3) by fastforce
  also have "\<dots> = table_opcodes (cheat_entries sample_added)"
    unfolding table_opcodes_def enabled_opcodes_def by (simp add: filter_map comp_def cheat_entry.truncate_def)
  finally show ?thesis using t(1) sample_added_opcodes by (intro exI [of _ t]) simp
qed

lemma launch_starts_application_once_witness:
  "\<exists>t. AttachToApplicationProcess sample_outside True sample_created = (Err ResultCheatNotAttached, t) \<and> snd (cheat_world t) = [5]"
proof -
  obtain t where t: "AttachToApplicationProcess sample_outside True sample_created = (Err ResultCheatNotAttached, t)"
    using sample_launched by blast
  have "logs_starts sample_outside snd" by (simp add: logs_starts_def undisturbed_def sample_outside_def)
  moreover have "cheat_world sample_created = ([], [])" "application_process_id sample_outside k = Inr 5" for k
    by (simp_all add: sample_created_def cheat_manager_initial_def sample_outside_def)
  ultimately have "snd (cheat_world t) = [5]" using launch_starts_application_once t by fastforce
  then show ?thesis using t by blast
qed

lemma write_updates_frozen_values_witness:
  "\<exists>t v. WriteCheatProcessMemoryUnsafe sample_outside 0x1010 [7, 8]
      (sample_created\<lparr>frozen_addresses_map := [(0x1010, \<lparr>frozen_value_of = 0, frozen_width = 4\<rparr>)]\<rparr>) = (Ok (), t) \<and>
    map_of (frozen_addresses_map t) 0x1010 = Some v \<and> le_bytes 8 (frozen_value_of v) = [7, 8, 0, 0, 0, 0, 0, 0]"
proof -
  let ?s = "sample_created\<lparr>frozen_addresses_map := [(0x1010, \<lparr>frozen_value_of = 0, frozen_width = 4\<rparr>)]\<rparr>"
  obtain t where t: "WriteCheatProcessMemoryUnsafe sample_outside 0x1010 [7, 8] ?s = (Ok (), t)"
    by (simp add: WriteCheatProcessMemoryUnsafe_def write_unsafe_def sample_outside_def)
  have bytes: "le_bytes 8 0 = [0, 0, 0, 0, 0, 0, 0, 0]" by (simp add: le_bytes_def upt_conv_Cons numeral_eq_Suc)
  have "\<exists>v. map_of (frozen_addresses_map t) 0x1010 = Some v \<and> le_bytes 8 (frozen_value_of v) = [7, 8, 0, 0, 0, 0, 0, 0]"
    using write_updates_frozen_values [where s = ?s and a = "0x1010" and v = "\<lparr>frozen_value_of = 0, frozen_width = 4\<rparr>", OF _ _ t]
    by (auto simp: bytes)
  then show ?thesis using t by blast
qed

lemma printed_cheats_are_loaded_witness:
  "\<exists>t. LoadCheats (sample_outside\<lparr>read_text_file := \<lambda>_ _. Contents (print_cheats [([0x41], [0x80000001, 7])])\<rparr>)
      0x100 [3, 4] sample_created = (True, t) \<and>
    take (definition_num_opcodes (cheat_entries t ! 1)) (definition_opcodes (cheat_entries t ! 1)) = [0x80000001, 7]"
proof -
  let ?env = "sample_outside\<lparr>read_text_file := \<lambda>_ _. Contents (print_cheats [([0x41], [0x80000001, 7])])\<rparr>"
  let ?ys = "[([0x41], [0x80000001, 7])] :: (u8 list \<times> u32 list) list"
  obtain ok t where t: "LoadCheats ?env 0x100 [3, 4] sample_created = (ok, t)" by fastforce
  have "List.length (cheat_entries sample_created) = MaxCheatCount" "List.length ?ys < MaxCheatCount"
    by (simp_all add: sample_created_def cheat_manager_initial_def MaxCheatCount_def)
  moreover have "\<forall>y \<in> set ?ys. printable (cheat_layout_of ?env) y \<and> 0 \<notin> set (fst y)"
    by (simp add: printable_def sample_outside_def sample_layout_def)
  moreover have "read_text_file ?env (cheat_world sample_created) (cheat_path 0x100 [3, 4]) = Contents (print_cheats ?ys)" by simp
  ultimately show ?thesis
    using printed_cheats_are_loaded [OF _ _ _ _ t, of ?ys] t by (auto simp: Let_def)
qed

lemma saved_toggles_are_restored_witness:
  "\<exists>w. LoadCheatToggles sample_outside 0x100 (SaveCheatToggles sample_outside 0x100
      (sample_created\<lparr>cheat_entries := parsed_table sample_layout [([0x41], [1])]\<rparr>)
      \<lparr>cheat_entries := (parsed_table sample_layout [([0x41], [1])])[1 := (parsed_entry sample_layout 1 ([0x41], [1]))\<lparr>enabled := True\<rparr>]\<rparr>) =
      (True, w) \<and> \<not> enabled (cheat_entries w ! 1)"
proof -
  let ?cs = "parsed_table sample_layout [([0x41], [1])]"
  let ?s = "sample_created\<lparr>cheat_entries := ?cs\<rparr>"
  let ?u = "SaveCheatToggles sample_outside 0x100 ?s"
  let ?v = "?u\<lparr>cheat_entries := ?cs[1 := (parsed_entry sample_layout 1 ([0x41], [1]))\<lparr>enabled := True\<rparr>]\<rparr>"
  have l: "cheat_layout_of sample_outside = sample_layout" by (simp add: sample_outside_def)
  have first: "?cs ! 1 = parsed_entry sample_layout 1 ([0x41], [1])" by (simp add: nth_parsed_table MaxCheatCount_def)
  have name: "readable_name (parsed_entry sample_layout (Suc 0) ([0x41], [1])) = [0x41, 0, 0, 0, 0, 0, 0, 0]"
    "name_size sample_layout = 8" by code_simp+
  have kept: "keeps_file sample_outside (toggles_path 0x100)" by (simp add: keeps_file_def sample_outside_def)
  have used: "used_cheats ?cs = [1]"
    by (auto simp: used_cheats_def nth_parsed_table MaxCheatCount_def parsed_entry_def cheat_zero_def upt_conv_Cons filter_empty_conv)
  obtain ok w where w: "LoadCheatToggles sample_outside 0x100 ?v = (ok, w)" by fastforce
  note props = saved_toggles_are_restored [OF kept refl _ _ _ _ _ w, of ?s]
  have names: "\<forall>i \<in> set [0..<MaxCheatCount]. List.length (readable_name (?cs ! i)) = name_size sample_layout"
    by (simp add: nth_parsed_table parsed_entry_def cheat_zero_def length_store_name)
  have clean: "clean_name sample_layout (?cs ! 1)" "first_of_name ?cs 1"
    unfolding first by (simp_all add: clean_name_def first_of_name_def name c_string_def)
  have same: "same_names ?cs (cheat_entries ?v)"
    by (auto simp: same_names_def nth_list_update first nth_parsed_table)
  have "ok" "\<not> enabled (cheat_entries w ! 1)"
    using props names clean same used first by (simp_all add: l MaxCheatCount_def parsed_entry_def)
  then show ?thesis using w by auto
qed

lemma sample_active: "is_active sample_outside sample_forced"
  by (simp add: is_active_def sample_forced_eq sample_outside_def)

lemma mapping_walks_end_witness:
  "\<exists>ms. cheat_call sample_outside GetCheatProcessMappingCount sample_forced = Some (Ok (Count (List.length ms)), sample_forced) \<and>
    cheat_call sample_outside (GetCheatProcessMappings True 1 0) sample_forced = Some (Ok (Mappings (take 1 ms)), sample_forced)"
proof -
  have "covering (query_process_memory sample_outside (cheat_world sample_forced) (cheat_debug_handle sample_forced))"
    by (auto simp: covering_def sample_outside_def word_less_nat_alt)
  from mapping_walks_end [OF sample_active this] show ?thesis by (metis drop0)
qed


end
