(* ===== verification/LdrCaps.thy ===== *)
theory LdrCaps
  imports NX_Prelude
begin

text \<open>
  Kernel capabilities of a program (\<open>loader/source/ldr_capabilities.cpp\<close>): the descriptors of
  the program (ACI) are validated against the restrictions its signer grants (ACID), and
  the program-info flags are read from and written to a descriptor list. A descriptor is a
  32-bit word whose kind is the number of its trailing ones. \<open>util::BitPack32\<close>, the
  program-info flag constants and the value of \<open>__builtin_ctz(0)\<close> are not in the source;
  they are the fields of \<open>caps_env\<close>.
\<close>

record caps_env =
  field_get :: "u32 \<Rightarrow> nat \<Rightarrow> nat \<Rightarrow> u32"  \<comment> \<open>value, index, count\<close>
  field_set :: "u32 \<Rightarrow> nat \<Rightarrow> nat \<Rightarrow> u32 \<Rightarrow> u32"
  ctz_of_zero :: nat
  ApplicationTypeMask :: u16
  InvalidType :: u16
  AllowDebug :: u16

datatype capability_id =
    KernelFlags | SyscallMask | MapRange | MapPage | InterruptPair | ApplicationType
  | KernelVersion | HandleTable | DebugFlags | Empty | UnknownId nat

definition capability_id_of :: "nat \<Rightarrow> capability_id" where
  "capability_id_of n =
     (if n = 3 then KernelFlags else if n = 4 then SyscallMask else if n = 6 then MapRange
      else if n = 7 then MapPage else if n = 11 then InterruptPair
      else if n = 13 then ApplicationType else if n = 14 then KernelVersion
      else if n = 15 then HandleTable else if n = 16 then DebugFlags
      else if n = 32 then Empty else UnknownId n)"

definition ctz :: "caps_env \<Rightarrow> u32 \<Rightarrow> nat" where
  "ctz env x = (if x = 0 then ctz_of_zero env else length (takeWhile (\<lambda>i. \<not> bit x i) [0..<32]))"

definition GetCapabilityId :: "caps_env \<Rightarrow> u32 \<Rightarrow> capability_id" where
  "GetCapabilityId env cap = capability_id_of (ctz env (NOT cap))"

subsection \<open>Fields\<close>

text \<open>The first field of a kind starts behind its identification bits.\<close>

definition GetMaximumThreadPriority :: "caps_env \<Rightarrow> u32 \<Rightarrow> u32" where
  "GetMaximumThreadPriority env c = field_get env c 4 6"
definition GetMinimumThreadPriority :: "caps_env \<Rightarrow> u32 \<Rightarrow> u32" where
  "GetMinimumThreadPriority env c = field_get env c 10 6"
definition GetMinimumCoreId :: "caps_env \<Rightarrow> u32 \<Rightarrow> u32" where
  "GetMinimumCoreId env c = field_get env c 16 8"
definition GetMaximumCoreId :: "caps_env \<Rightarrow> u32 \<Rightarrow> u32" where
  "GetMaximumCoreId env c = field_get env c 24 8"
definition GetMask :: "caps_env \<Rightarrow> u32 \<Rightarrow> u32" where
  "GetMask env c = field_get env c 5 24"
definition GetIndex :: "caps_env \<Rightarrow> u32 \<Rightarrow> u32" where
  "GetIndex env c = field_get env c 29 3"
definition GetAddressSize :: "caps_env \<Rightarrow> u32 \<Rightarrow> u32" where
  "GetAddressSize env c = field_get env c 7 24"
definition GetFlag :: "caps_env \<Rightarrow> u32 \<Rightarrow> bool" where
  "GetFlag env c = (field_get env c 31 1 \<noteq> 0)"
definition GetInterruptId0 :: "caps_env \<Rightarrow> u32 \<Rightarrow> u32" where
  "GetInterruptId0 env c = field_get env c 12 10"
definition GetInterruptId1 :: "caps_env \<Rightarrow> u32 \<Rightarrow> u32" where
  "GetInterruptId1 env c = field_get env c 22 10"
definition GetApplicationType :: "caps_env \<Rightarrow> u32 \<Rightarrow> u32" where
  "GetApplicationType env c = field_get env c 14 3"
definition GetSize :: "caps_env \<Rightarrow> u32 \<Rightarrow> u32" where
  "GetSize env c = field_get env c 16 10"
definition GetAllowDebug :: "caps_env \<Rightarrow> u32 \<Rightarrow> bool" where
  "GetAllowDebug env c = (field_get env c 17 1 \<noteq> 0)"
definition GetForceDebug :: "caps_env \<Rightarrow> u32 \<Rightarrow> bool" where
  "GetForceDebug env c = (field_get env c 18 1 \<noteq> 0)"

subsection \<open>Validity of one descriptor\<close>

fun KernelFlags_IsValid :: "caps_env \<Rightarrow> u32 \<Rightarrow> u32 list \<Rightarrow> bool" where
  "KernelFlags_IsValid env c [] = False"
| "KernelFlags_IsValid env c (r # kac) =
     (if GetCapabilityId env r = KernelFlags then
        (if GetMinimumThreadPriority env c < GetMinimumThreadPriority env r \<or>
            GetMaximumThreadPriority env c > GetMaximumThreadPriority env r \<or>
            GetMinimumThreadPriority env c > GetMaximumThreadPriority env c then False
         else if GetMinimumCoreId env c < GetMinimumCoreId env r \<or>
            GetMaximumCoreId env c > GetMaximumCoreId env r \<or>
            GetMinimumCoreId env c > GetMaximumCoreId env c then False
         else True)
      else KernelFlags_IsValid env c kac)"

fun SyscallMask_IsValid :: "caps_env \<Rightarrow> u32 \<Rightarrow> u32 list \<Rightarrow> bool" where
  "SyscallMask_IsValid env c [] = False"
| "SyscallMask_IsValid env c (r # kac) =
     (if GetCapabilityId env r = SyscallMask \<and> GetIndex env c = GetIndex env r \<and>
         GetMask env c = GetMask env r then True
      else SyscallMask_IsValid env c kac)"

definition SizeMax :: u32 where "SizeMax = 0x100000"

text \<open>The loop over the restrictions consumes two descriptors for a range.\<close>

fun map_range_loop :: "caps_env \<Rightarrow> u32 \<Rightarrow> u32 \<Rightarrow> u32 list \<Rightarrow> bool" where
  "map_range_loop env c next [] = False"
| "map_range_loop env c next (r # kac) =
     (if GetCapabilityId env r = MapRange then
        (case kac of
           [] \<Rightarrow> False
         | r_next # kac' \<Rightarrow>
             if GetCapabilityId env r_next \<noteq> MapRange then False
             else
               let start = GetAddressSize env c;
                   end' = start + GetAddressSize env next;
                   restriction_start = GetAddressSize env r;
                   restriction_size = GetAddressSize env r_next;
                   restriction_end = restriction_start + restriction_size
               in if restriction_size \<ge> SizeMax then map_range_loop env c next kac'
                  else if GetFlag env c = GetFlag env r \<and> GetFlag env next = GetFlag env r_next \<and>
                      restriction_start \<le> start \<and> start \<le> restriction_end \<and> end' \<le> restriction_end
                  then True
                  else map_range_loop env c next kac')
      else map_range_loop env c next kac)"

definition MapRange_IsValid :: "caps_env \<Rightarrow> u32 \<Rightarrow> u32 \<Rightarrow> u32 list \<Rightarrow> bool" where
  "MapRange_IsValid env c next_cap kac =
     (if GetCapabilityId env next_cap \<noteq> MapRange then False
      else if GetAddressSize env next_cap \<ge> SizeMax then False
      else map_range_loop env c next_cap kac)"

fun MapPage_IsValid :: "caps_env \<Rightarrow> u32 \<Rightarrow> u32 list \<Rightarrow> bool" where
  "MapPage_IsValid env c [] = False"
| "MapPage_IsValid env c (r # kac) =
     (if GetCapabilityId env r = MapPage \<and> c = r then True else MapPage_IsValid env c kac)"

definition EmptyInterruptId :: u32 where "EmptyInterruptId = 0x3FF"

fun IsSingleIdValid :: "caps_env \<Rightarrow> u32 \<Rightarrow> u32 list \<Rightarrow> bool" where
  "IsSingleIdValid env i [] = False"
| "IsSingleIdValid env i (r # kac) =
     (if GetCapabilityId env r = InterruptPair then
        (if GetInterruptId0 env r = EmptyInterruptId \<and> GetInterruptId1 env r = EmptyInterruptId
         then True
         else if GetInterruptId0 env r = i \<or> GetInterruptId1 env r = i then True
         else IsSingleIdValid env i kac)
      else IsSingleIdValid env i kac)"

definition InterruptPair_IsValid :: "caps_env \<Rightarrow> u32 \<Rightarrow> u32 list \<Rightarrow> bool" where
  "InterruptPair_IsValid env c kac =
     (IsSingleIdValid env (GetInterruptId0 env c) kac \<and> IsSingleIdValid env (GetInterruptId1 env c) kac)"

fun ApplicationType_IsValid :: "caps_env \<Rightarrow> u32 \<Rightarrow> u32 list \<Rightarrow> bool" where
  "ApplicationType_IsValid env c [] = False"
| "ApplicationType_IsValid env c (r # kac) =
     (if GetCapabilityId env r = ApplicationType then r = c else ApplicationType_IsValid env c kac)"

fun KernelVersion_IsValid :: "caps_env \<Rightarrow> u32 \<Rightarrow> u32 list \<Rightarrow> bool" where
  "KernelVersion_IsValid env c [] = False"
| "KernelVersion_IsValid env c (r # kac) =
     (if GetCapabilityId env r = KernelVersion then r = c else KernelVersion_IsValid env c kac)"

fun HandleTable_IsValid :: "caps_env \<Rightarrow> u32 \<Rightarrow> u32 list \<Rightarrow> bool" where
  "HandleTable_IsValid env c [] = False"
| "HandleTable_IsValid env c (r # kac) =
     (if GetCapabilityId env r = HandleTable then GetSize env c \<le> GetSize env r
      else HandleTable_IsValid env c kac)"

fun DebugFlags_IsValid :: "caps_env \<Rightarrow> u32 \<Rightarrow> u32 list \<Rightarrow> bool" where
  "DebugFlags_IsValid env c [] = False"
| "DebugFlags_IsValid env c (r # kac) =
     (if GetCapabilityId env r = DebugFlags then r AND c = c else DebugFlags_IsValid env c kac)"

text \<open>The identification bits of a kind below its marker bit.\<close>

definition IdBitsValue :: "nat \<Rightarrow> u32" where "IdBitsValue i = push_bit i 1 - 1"

definition ApplicationType_Encode :: "caps_env \<Rightarrow> u32 \<Rightarrow> u32" where
  "ApplicationType_Encode env app_type = field_set env (IdBitsValue 13) 14 3 app_type"

definition DebugFlags_Encode :: "caps_env \<Rightarrow> bool \<Rightarrow> bool \<Rightarrow> u32" where
  "DebugFlags_Encode env allow_debug force_debug =
     field_set env (field_set env (IdBitsValue 16) 17 1 (of_bool allow_debug)) 18 1 (of_bool force_debug)"

subsection \<open>The interface\<close>

datatype ldr_caps_error =
    InvalidCapability capability_id
  | UnknownCapability

definition single_cap_valid :: "caps_env \<Rightarrow> capability_id \<Rightarrow> u32 \<Rightarrow> u32 list \<Rightarrow> bool" where
  "single_cap_valid env i c kac =
     (case i of
        KernelFlags \<Rightarrow> KernelFlags_IsValid env c kac
      | SyscallMask \<Rightarrow> SyscallMask_IsValid env c kac
      | MapPage \<Rightarrow> MapPage_IsValid env c kac
      | InterruptPair \<Rightarrow> InterruptPair_IsValid env c kac
      | ApplicationType \<Rightarrow> ApplicationType_IsValid env c kac
      | KernelVersion \<Rightarrow> KernelVersion_IsValid env c kac
      | HandleTable \<Rightarrow> HandleTable_IsValid env c kac
      | DebugFlags \<Rightarrow> DebugFlags_IsValid env c kac
      | _ \<Rightarrow> False)"

fun validate_loop :: "caps_env \<Rightarrow> u32 list \<Rightarrow> u32 list \<Rightarrow> ldr_caps_error + unit" where
  "validate_loop env acid_caps [] = Inr ()"
| "validate_loop env acid_caps (cur_cap # aci_caps) =
     (let i = GetCapabilityId env cur_cap in
      case i of
        MapRange \<Rightarrow>
          (case aci_caps of
             [] \<Rightarrow> Inl (InvalidCapability MapRange)
           | next # aci_caps' \<Rightarrow>
               if MapRange_IsValid env cur_cap next acid_caps
               then validate_loop env acid_caps aci_caps'
               else Inl (InvalidCapability MapRange))
      | Empty \<Rightarrow> validate_loop env acid_caps aci_caps
      | UnknownId _ \<Rightarrow> Inl UnknownCapability
      | _ \<Rightarrow>
          if single_cap_valid env i cur_cap acid_caps then validate_loop env acid_caps aci_caps
          else Inl (InvalidCapability i))"

definition caps_of :: "u32 list \<Rightarrow> nat \<Rightarrow> u32 list" where
  "caps_of kac kac_size = take (kac_size div 4) kac"

definition ValidateCapabilities ::
  "caps_env \<Rightarrow> u32 list \<Rightarrow> nat \<Rightarrow> u32 list \<Rightarrow> nat \<Rightarrow> ldr_caps_error + unit" where
  "ValidateCapabilities env acid_kac acid_kac_size aci_kac aci_kac_size =
     validate_loop env (caps_of acid_kac acid_kac_size) (caps_of aci_kac aci_kac_size)"

definition info_flags_step :: "caps_env \<Rightarrow> u32 \<Rightarrow> u16 \<Rightarrow> u16" where
  "info_flags_step env cur_cap flags =
     (case GetCapabilityId env cur_cap of
        ApplicationType \<Rightarrow>
          (let app_type = GetApplicationType env cur_cap AND ucast (ApplicationTypeMask env)
           in if app_type \<noteq> ucast (InvalidType env) then flags OR ucast app_type else flags)
      | DebugFlags \<Rightarrow>
          (if GetAllowDebug env cur_cap then flags OR AllowDebug env else flags)
      | _ \<Rightarrow> flags)"

definition GetProgramInfoFlags :: "caps_env \<Rightarrow> u32 list \<Rightarrow> nat \<Rightarrow> u16" where
  "GetProgramInfoFlags env kac kac_size = fold (info_flags_step env) (caps_of kac kac_size) 0"

definition set_flags_cap :: "caps_env \<Rightarrow> u16 \<Rightarrow> u32 \<Rightarrow> u32" where
  "set_flags_cap env flags cur_cap =
     (case GetCapabilityId env cur_cap of
        ApplicationType \<Rightarrow> ApplicationType_Encode env (ucast (flags AND ApplicationTypeMask env))
      | DebugFlags \<Rightarrow> DebugFlags_Encode env (flags AND AllowDebug env \<noteq> 0) (GetForceDebug env cur_cap)
      | _ \<Rightarrow> cur_cap)"

definition SetProgramInfoFlags :: "caps_env \<Rightarrow> u16 \<Rightarrow> u32 list \<Rightarrow> nat \<Rightarrow> u32 list" where
  "SetProgramInfoFlags env flags kac kac_size =
     map (set_flags_cap env flags) (caps_of kac kac_size) @ drop (kac_size div 4) kac"

subsection \<open>The library as documented\<close>

text \<open>
  A field of a bit pack is read by masking and shifting down, and written by clearing its bits
  and inserting the low bits of the value; counting the trailing zeros of zero gives the
  width of the word.
\<close>

definition caps_env_ok :: "caps_env \<Rightarrow> bool" where
  "caps_env_ok env \<longleftrightarrow>
     (\<forall>v i c. field_get env v i c = take_bit c (drop_bit i v)) \<and>
     (\<forall>v i c x. field_set env v i c x =
        (v AND NOT (push_bit i (mask c))) OR push_bit i (take_bit c x)) \<and>
     ctz_of_zero env = 32 \<and>
     ApplicationTypeMask env = 3 \<and> InvalidType env = 3 \<and> AllowDebug env = 4"

definition bit_caps_env :: caps_env where
  "bit_caps_env =
     \<lparr>field_get = (\<lambda>v i c. take_bit c (drop_bit i v)),
      field_set = (\<lambda>v i c x. (v AND NOT (push_bit i (mask c))) OR push_bit i (take_bit c x)),
      ctz_of_zero = 32, ApplicationTypeMask = 3, InvalidType = 3, AllowDebug = 4\<rparr>"

lemma bit_caps_env_ok: "caps_env_ok bit_caps_env"
  by (simp add: caps_env_ok_def bit_caps_env_def)

subsection \<open>What a descriptor is allowed, as sets and intervals\<close>

text \<open>The first restriction of a kind.\<close>

definition restriction :: "caps_env \<Rightarrow> capability_id \<Rightarrow> u32 list \<Rightarrow> u32 option" where
  "restriction env i kac = find (\<lambda>r. GetCapabilityId env r = i) kac"

text \<open>The ranges of a restriction list, paired as the kernel pairs them, up to a broken pair.\<close>

fun range_pairs :: "caps_env \<Rightarrow> u32 list \<Rightarrow> (u32 \<times> u32) list" where
  "range_pairs env [] = []"
| "range_pairs env (r # kac) =
     (if GetCapabilityId env r = MapRange then
        (case kac of
           [] \<Rightarrow> []
         | r' # kac' \<Rightarrow> if GetCapabilityId env r' \<noteq> MapRange then [] else (r, r') # range_pairs env kac')
      else range_pairs env kac)"

definition addresses :: "caps_env \<Rightarrow> u32 \<Rightarrow> u32 \<Rightarrow> nat set" where
  "addresses env c c' =
     {unat (GetAddressSize env c) ..< unat (GetAddressSize env c) + unat (GetAddressSize env c')}"

definition priorities :: "caps_env \<Rightarrow> u32 \<Rightarrow> u32 set" where
  "priorities env c = {GetMinimumThreadPriority env c .. GetMaximumThreadPriority env c}"

definition cores :: "caps_env \<Rightarrow> u32 \<Rightarrow> u32 set" where
  "cores env c = {GetMinimumCoreId env c .. GetMaximumCoreId env c}"

lemma KernelFlags_IsValid_iff:
  "KernelFlags_IsValid env c kac \<longleftrightarrow>
     (\<exists>r. restriction env KernelFlags kac = Some r \<and>
        priorities env c \<noteq> {} \<and> priorities env c \<subseteq> priorities env r \<and>
        cores env c \<noteq> {} \<and> cores env c \<subseteq> cores env r)"
proof (induction kac)
  case (Cons r kac)
  then show ?case
    by (auto simp: restriction_def priorities_def cores_def not_less not_le)
qed (simp add: restriction_def)

lemma SyscallMask_IsValid_iff:
  "SyscallMask_IsValid env c kac \<longleftrightarrow>
     (\<exists>r \<in> set kac. GetCapabilityId env r = SyscallMask \<and> GetIndex env r = GetIndex env c \<and>
        GetMask env r = GetMask env c)"
  by (induction kac) auto

lemma MapPage_IsValid_iff:
  "MapPage_IsValid env c kac \<longleftrightarrow> c \<in> set kac \<and> GetCapabilityId env c = MapPage"
  by (induction kac) auto

text \<open>The interrupts a restriction list grants; the pair of empty ids grants all.\<close>

definition granted_interrupts :: "caps_env \<Rightarrow> u32 list \<Rightarrow> u32 set" where
  "granted_interrupts env kac =
     (\<Union>r \<in> {r \<in> set kac. GetCapabilityId env r = InterruptPair}.
        if GetInterruptId0 env r = EmptyInterruptId \<and> GetInterruptId1 env r = EmptyInterruptId
        then UNIV else {GetInterruptId0 env r, GetInterruptId1 env r})"

lemma IsSingleIdValid_iff: "IsSingleIdValid env i kac \<longleftrightarrow> i \<in> granted_interrupts env kac"
  by (induction kac) (auto simp: granted_interrupts_def)

lemma first_match_iff:
  "ApplicationType_IsValid env c kac \<longleftrightarrow> restriction env ApplicationType kac = Some c"
  "KernelVersion_IsValid env c kac \<longleftrightarrow> restriction env KernelVersion kac = Some c"
  "HandleTable_IsValid env c kac \<longleftrightarrow>
     (\<exists>r. restriction env HandleTable kac = Some r \<and> GetSize env c \<le> GetSize env r)"
  "DebugFlags_IsValid env c kac \<longleftrightarrow>
     (\<exists>r. restriction env DebugFlags kac = Some r \<and> r AND c = c)"
  by (induction kac) (auto simp: restriction_def)

text \<open>Fields are small, so the end of a range does not wrap around.\<close>

lemma field_bound:
  assumes "caps_env_ok env"
  shows "unat (field_get env v i n) < 2 ^ n"
proof -
  have "unat (field_get env v i n) = take_bit n (unat (drop_bit i v))"
    using assms unsigned_take_bit_eq [of n "drop_bit i v", where 'a=nat] by (simp add: caps_env_ok_def)
  then show ?thesis by simp
qed

lemma range_end:
  assumes "caps_env_ok env"
  shows "unat (GetAddressSize env c + GetAddressSize env c') =
    unat (GetAddressSize env c) + unat (GetAddressSize env c')"
  using field_bound [OF assms, of c 7 24] field_bound [OF assms, of c' 7 24]
  by (simp add: GetAddressSize_def unat_word_ariths)

definition range_permitted :: "caps_env \<Rightarrow> u32 list \<Rightarrow> u32 \<Rightarrow> u32 \<Rightarrow> bool" where
  "range_permitted env kac c c' \<longleftrightarrow>
     GetAddressSize env c' < SizeMax \<and>
     (\<exists>(r, r') \<in> set (range_pairs env kac).
        GetAddressSize env r' < SizeMax \<and> GetFlag env c = GetFlag env r \<and> GetFlag env c' = GetFlag env r' \<and>
        unat (GetAddressSize env r) \<le> unat (GetAddressSize env c) \<and>
        unat (GetAddressSize env c) + unat (GetAddressSize env c') \<le>
          unat (GetAddressSize env r) + unat (GetAddressSize env r'))"

lemma map_range_loop_iff:
  assumes "caps_env_ok env"
  shows "map_range_loop env c c' kac \<longleftrightarrow>
    (\<exists>(r, r') \<in> set (range_pairs env kac).
        GetAddressSize env r' < SizeMax \<and> GetFlag env c = GetFlag env r \<and> GetFlag env c' = GetFlag env r' \<and>
        unat (GetAddressSize env r) \<le> unat (GetAddressSize env c) \<and>
        unat (GetAddressSize env c) + unat (GetAddressSize env c') \<le>
          unat (GetAddressSize env r) + unat (GetAddressSize env r'))"
  using assms
proof (induction env kac rule: range_pairs.induct)
  case (2 env r kac)
  show ?case
  proof (cases "GetCapabilityId env r = MapRange")
    case False
    then show ?thesis using "2.IH" "2.prems" by simp
  next
    case True
    show ?thesis
    proof (cases kac)
      case (Cons r' kac')
      show ?thesis
      proof (cases "GetCapabilityId env r' = MapRange")
        case same: True
        show ?thesis
          using "2.IH" "2.prems" True Cons same
          by (auto simp: Let_def word_le_nat_alt word_less_nat_alt range_end [OF "2.prems"] not_le not_less)
      qed (use True Cons in simp)
    qed (use True in simp)
  qed
qed simp

subsection \<open>The specification of a descriptor list\<close>

datatype item = Single u32 | Range u32 u32

text \<open>A descriptor list as items; a range needs two descriptors of its kind.\<close>

fun items :: "caps_env \<Rightarrow> u32 list \<Rightarrow> item list option" where
  "items env [] = Some []"
| "items env (c # cs) =
     (if GetCapabilityId env c = MapRange then
        (case cs of
           [] \<Rightarrow> None
         | c' # cs' \<Rightarrow> if GetCapabilityId env c' = MapRange
                      then map_option ((#) (Range c c')) (items env cs') else None)
      else map_option ((#) (Single c)) (items env cs))"

definition permitted :: "caps_env \<Rightarrow> u32 list \<Rightarrow> item \<Rightarrow> bool" where
  "permitted env kac it =
     (case it of
        Range c c' \<Rightarrow> range_permitted env kac c c'
      | Single c \<Rightarrow>
         (case GetCapabilityId env c of
            KernelFlags \<Rightarrow> (\<exists>r. restriction env KernelFlags kac = Some r \<and>
              priorities env c \<noteq> {} \<and> priorities env c \<subseteq> priorities env r \<and>
              cores env c \<noteq> {} \<and> cores env c \<subseteq> cores env r)
          | SyscallMask \<Rightarrow> (\<exists>r \<in> set kac. GetCapabilityId env r = SyscallMask \<and>
              GetIndex env r = GetIndex env c \<and> GetMask env r = GetMask env c)
          | MapPage \<Rightarrow> c \<in> set kac
          | InterruptPair \<Rightarrow> {GetInterruptId0 env c, GetInterruptId1 env c} \<subseteq> granted_interrupts env kac
          | ApplicationType \<Rightarrow> restriction env ApplicationType kac = Some c
          | KernelVersion \<Rightarrow> restriction env KernelVersion kac = Some c
          | HandleTable \<Rightarrow> (\<exists>r. restriction env HandleTable kac = Some r \<and> GetSize env c \<le> GetSize env r)
          | DebugFlags \<Rightarrow> (\<exists>r. restriction env DebugFlags kac = Some r \<and> r AND c = c)
          | Empty \<Rightarrow> True
          | _ \<Rightarrow> False))"

lemma permitted_single:
  assumes "GetCapabilityId env c = i" "i \<noteq> MapRange" "i \<noteq> Empty" "\<And>n. i \<noteq> UnknownId n"
  shows "permitted env kac (Single c) \<longleftrightarrow> single_cap_valid env i c kac"
  using assms
  by (cases i) (auto simp: permitted_def single_cap_valid_def KernelFlags_IsValid_iff
      SyscallMask_IsValid_iff MapPage_IsValid_iff InterruptPair_IsValid_def IsSingleIdValid_iff
      first_match_iff)

lemma validate_loop_iff:
  assumes "caps_env_ok env"
  shows "validate_loop env kac aci = Inr () \<longleftrightarrow>
    (\<exists>its. items env aci = Some its \<and> (\<forall>it \<in> set its. permitted env kac it))"
  using assms
proof (induction env aci rule: items.induct)
  case (2 env c cs)
  show ?case
  proof (cases "GetCapabilityId env c = MapRange")
    case True
    show ?thesis
    proof (cases cs)
      case (Cons c' cs')
      have "MapRange_IsValid env c c' kac \<longleftrightarrow> GetCapabilityId env c' = MapRange \<and> permitted env kac (Range c c')"
        by (auto simp: MapRange_IsValid_def permitted_def range_permitted_def map_range_loop_iff [OF "2.prems"] not_le)
      then show ?thesis
        using True Cons "2.IH" "2.prems" by (auto split: if_splits)
    qed (use True in simp)
  next
    case False
    note IH = "2.IH"(2) [OF False "2.prems"]
    show ?thesis
    proof (cases "\<exists>n. GetCapabilityId env c = UnknownId n")
      case True
      then show ?thesis by (auto simp: permitted_def)
    next
      case known: False
      show ?thesis
      proof (cases "GetCapabilityId env c = Empty")
        case True
        then show ?thesis using IH by (auto simp: permitted_def)
      next
        case ne: False
        have "permitted env kac (Single c) \<longleftrightarrow> single_cap_valid env (GetCapabilityId env c) c kac"
          using False known ne by (intro permitted_single) auto
        then show ?thesis
          using IH False known ne by (cases "GetCapabilityId env c") auto
      qed
    qed
  qed
qed simp

subsection \<open>Reading and writing the program-info flags\<close>

lemma takeWhile_upt:
  assumes "k < n" "P k = False" "\<And>i. i < k \<Longrightarrow> P i"
  shows "takeWhile P [0..<n] = [0..<k]"
proof -
  have "[0..<n] = [0..<k] @ k # [Suc k..<n]"
    using assms(1) by (metis upt_add_eq_append upt_rec le_add_diff_inverse less_imp_le_nat zero_le)
  then show ?thesis using assms by (subst \<open>[0..<n] = _\<close>, subst takeWhile_append2) auto
qed

lemma ctz_eq:
  assumes "k < 32" "bit x k" "\<And>i. i < k \<Longrightarrow> \<not> bit x i"
  shows "ctz env x = k"
proof -
  have "x \<noteq> 0" using assms(2) by auto
  then show ?thesis using takeWhile_upt [of k 32 "\<lambda>i. \<not> bit x i"] assms by (simp add: ctz_def)
qed

lemma bit_IdBitsValue: "bit (IdBitsValue k) i \<longleftrightarrow> i < k \<and> i < 32"
proof -
  have "IdBitsValue k = mask k" by (simp add: IdBitsValue_def mask_eq_exp_minus_1)
  then show ?thesis by (auto simp: bit_simps)
qed

lemma bit_field_set:
  assumes "caps_env_ok env"
  shows "bit (field_set env v i c x) k \<longleftrightarrow> k < 32 \<and>
    (if i \<le> k \<and> k < i + c then bit x (k - i) else bit v k)"
  using assms by (auto simp: caps_env_ok_def bit_simps)

lemma bit_field_get:
  assumes "caps_env_ok env"
  shows "bit (field_get env v i c) k \<longleftrightarrow> k < c \<and> k < 32 \<and> i + k < 32 \<and> bit v (i + k)"
  using assms bit_imp_le_length [of v "i + k"] by (auto simp: caps_env_ok_def bit_simps)

lemma GetCapabilityId_eq:
  assumes "k < 32" "\<not> bit c k" "\<And>i. i < k \<Longrightarrow> bit c i"
  shows "GetCapabilityId env c = capability_id_of k"
  unfolding GetCapabilityId_def using assms by (subst ctz_eq [of k]) (auto simp: bit_simps)

lemma Encode_ids:
  assumes "caps_env_ok env"
  shows "GetCapabilityId env (ApplicationType_Encode env t) = ApplicationType"
    and "GetCapabilityId env (DebugFlags_Encode env a f) = DebugFlags"
proof -
  have "GetCapabilityId env (ApplicationType_Encode env t) = capability_id_of 13"
    by (rule GetCapabilityId_eq)
      (auto simp: ApplicationType_Encode_def bit_field_set [OF assms] bit_IdBitsValue)
  then show "GetCapabilityId env (ApplicationType_Encode env t) = ApplicationType"
    by (simp add: capability_id_of_def)
  have "GetCapabilityId env (DebugFlags_Encode env a f) = capability_id_of 16"
    by (rule GetCapabilityId_eq)
      (auto simp: DebugFlags_Encode_def bit_field_set [OF assms] bit_IdBitsValue)
  then show "GetCapabilityId env (DebugFlags_Encode env a f) = DebugFlags"
    by (simp add: capability_id_of_def)
qed

lemma GetApplicationType_Encode:
  assumes "caps_env_ok env"
  shows "GetApplicationType env (ApplicationType_Encode env t) = take_bit 3 t"
  by (rule bit_word_eqI)
    (auto simp: GetApplicationType_def ApplicationType_Encode_def bit_field_get [OF assms]
      bit_field_set [OF assms] bit_simps)

lemma one_bit_flag:
  assumes "caps_env_ok env"
  shows "field_get env v i 1 \<noteq> 0 \<longleftrightarrow> i < 32 \<and> bit v i"
proof
  assume "field_get env v i 1 \<noteq> 0"
  then obtain k where "bit (field_get env v i 1) k" using bit_eq_iff by (metis bit_0_eq bot_apply bot_bool_def)
  then show "i < 32 \<and> bit v i" by (auto simp: bit_field_get [OF assms])
next
  assume "i < 32 \<and> bit v i"
  then have "bit (field_get env v i 1) 0" by (simp add: bit_field_get [OF assms])
  then show "field_get env v i 1 \<noteq> 0" by auto
qed

lemma Debug_Encode:
  assumes "caps_env_ok env"
  shows "GetAllowDebug env (DebugFlags_Encode env a f) = a"
    and "GetForceDebug env (DebugFlags_Encode env a f) = f"
  unfolding GetAllowDebug_def GetForceDebug_def one_bit_flag [OF assms]
  by (auto simp: DebugFlags_Encode_def bit_field_set [OF assms] bit_simps)

lemma set_flags_cap_id:
  assumes "caps_env_ok env"
  shows "GetCapabilityId env (set_flags_cap env flags c) = GetCapabilityId env c"
  by (cases "GetCapabilityId env c") (simp_all add: set_flags_cap_def Encode_ids [OF assms])

text \<open>What the flags of a list written with \<open>flags\<close> are.\<close>

definition type_bits :: "u16 \<Rightarrow> u16" where
  "type_bits flags = (if flags AND 3 = 3 then 0 else flags AND 3)"

lemma bit_three: "bit (3 :: 'a :: len word) k \<longleftrightarrow> k < 2 \<and> k < LENGTH('a)"
proof -
  have "(3 :: 'a word) = mask 2" by (simp add: mask_eq_exp_minus_1)
  then show ?thesis by (simp only: bit_mask_iff) auto
qed

lemma and_two_power: "a AND 2 ^ n = (if bit a n then 2 ^ n else (0 :: 'a :: len word))"
  by (rule bit_word_eqI) (auto simp: bit_and_iff bit_exp_iff)

lemma info_flags_step_set:
  assumes "caps_env_ok env"
  shows "info_flags_step env (set_flags_cap env flags c) acc = acc OR
    (case GetCapabilityId env c of ApplicationType \<Rightarrow> type_bits flags
       | DebugFlags \<Rightarrow> flags AND 4 | _ \<Rightarrow> 0)"
proof (cases "GetCapabilityId env c")
  case ApplicationType
  have mask: "ApplicationTypeMask env = 3" "InvalidType env = 3" using assms by (simp_all add: caps_env_ok_def)
  let ?t = "take_bit 3 (ucast (flags AND 3)) AND ucast (3 :: u16) :: u32"
  have t: "?t = ucast (flags AND 3)" 
    by (rule bit_word_eqI) (auto simp add: bit_simps bit_three simp del: bit_numeral_word_iff)
  have narrow: "ucast (ucast (flags AND 3) :: u32) = flags AND 3"
    by (rule bit_word_eqI) (auto simp: bit_simps)
  have three: "ucast (3 :: u16) = (3 :: u32)" by simp
  have eq: "(ucast (flags AND 3) :: u32) = 3 \<longleftrightarrow> flags AND 3 = 3"
  proof
    assume "(ucast (flags AND 3) :: u32) = 3"
    then have "ucast (ucast (flags AND 3) :: u32) = (ucast (3 :: u32) :: u16)" by (simp only:)
    then show "flags AND 3 = 3" by (simp add: narrow)
  qed (simp add: three)
  show ?thesis
    using ApplicationType t narrow eq unfolding three
    by (simp add: info_flags_step_def set_flags_cap_id [OF assms] set_flags_cap_def
        GetApplicationType_Encode [OF assms] Encode_ids [OF assms] mask type_bits_def Let_def)
next
  case DebugFlags
  have "AllowDebug env = 4" using assms by (simp add: caps_env_ok_def)
  moreover have "flags AND 4 \<noteq> 0 \<longrightarrow> flags AND 4 = 4"
    using and_two_power [of flags 2] by (simp split: if_splits)
  ultimately show ?thesis
    using DebugFlags
    by (auto simp: info_flags_step_def set_flags_cap_id [OF assms] set_flags_cap_def
        Debug_Encode [OF assms] Encode_ids [OF assms])
qed (simp_all add: info_flags_step_def set_flags_cap_def)

lemma fold_info_flags:
  assumes "caps_env_ok env"
  shows "fold (info_flags_step env) (map (set_flags_cap env flags) caps) acc =
    acc OR (if ApplicationType \<in> GetCapabilityId env ` set caps then type_bits flags else 0)
        OR (if DebugFlags \<in> GetCapabilityId env ` set caps then flags AND 4 else 0)"
proof (induction caps arbitrary: acc)
  case (Cons c caps)
  show ?case
    by (cases "GetCapabilityId env c")
      (simp_all add: Cons.IH info_flags_step_set [OF assms] or.assoc or.left_commute or.commute or.left_idem
        del: fold_map)
qed simp

end
