(* ===== verification/LdrCapsProps.thy ===== *)
theory LdrCapsProps
  imports LdrCaps
begin

text \<open>
  Properties of the kernel capability validation and of the program-info flags.
\<close>

text \<open>A restriction list with one range of sixteen pages, and a request inside it.\<close>

definition demo_acid :: "u32 list" where "demo_acid = [0xF, 0x803F, 0x83F]"
definition demo_aci :: "u32 list" where "demo_aci = [0x823F, 0x23F, 0xF, 0xFFFFFFFF]"

lemma demo_ids:
  "map (GetCapabilityId bit_caps_env) demo_acid = [SyscallMask, MapRange, MapRange]"
  "map (GetCapabilityId bit_caps_env) demo_aci = [MapRange, MapRange, SyscallMask, Empty]"
  unfolding demo_acid_def demo_aci_def bit_caps_env_def by code_simp+

lemma demo_items: "items bit_caps_env demo_aci = Some [Range 0x823F 0x23F, Single 0xF, Single 0xFFFFFFFF]"
  unfolding demo_aci_def bit_caps_env_def by code_simp

lemma demo_accepted:
  "ValidateCapabilities bit_caps_env demo_acid 12 demo_aci 16 = Inr ()"
  unfolding demo_acid_def demo_aci_def bit_caps_env_def by code_simp

text \<open>
  C4. \<open>ValidateCapabilities\<close> accepts a descriptor list exactly when it splits into descriptors
  and well-formed range pairs that the restriction list permits: kernel flags within the
  first restriction's intervals, system-call masks and pages among the granted ones,
  interrupts in the granted set, application type and kernel version equal to the first
  restriction, handle table no larger, debug flags a subset, ranges contained in a range.
\<close>

theorem capabilities_accepted_iff:
  assumes "caps_env_ok env"
  shows "ValidateCapabilities env acid acid_size aci aci_size = Inr () \<longleftrightarrow>
    (\<exists>its. items env (caps_of aci aci_size) = Some its \<and>
       (\<forall>it \<in> set its. permitted env (caps_of acid acid_size) it))"
  unfolding ValidateCapabilities_def by (rule validate_loop_iff [OF assms])

lemma capabilities_accepted_iff_witness:
  "permitted bit_caps_env demo_acid (Range 0x823F 0x23F)"
proof -
  have "caps_of demo_acid 12 = demo_acid" "caps_of demo_aci 16 = demo_aci"
    by (simp_all add: caps_of_def demo_acid_def demo_aci_def)
  then show ?thesis
    using capabilities_accepted_iff [OF bit_caps_env_ok, of demo_acid 12 demo_aci 16] demo_accepted demo_items
    by simp
qed

text \<open>
  C5. No accepted program maps memory it was not granted: every address of every range of an
  accepted descriptor list lies in one granted range with the same two flags, and is below
  the size limit.
\<close>

theorem accepted_ranges_are_granted:
  assumes "caps_env_ok env" and "ValidateCapabilities env acid acid_size aci aci_size = Inr ()"
    and "items env (caps_of aci aci_size) = Some its" and "Range c c' \<in> set its"
  shows "\<exists>(r, r') \<in> set (range_pairs env (caps_of acid acid_size)).
    addresses env c c' \<subseteq> addresses env r r' \<and> GetFlag env c = GetFlag env r \<and>
    GetFlag env c' = GetFlag env r' \<and> GetAddressSize env c' < SizeMax"
proof -
  have "permitted env (caps_of acid acid_size) (Range c c')"
    using assms validate_loop_iff [OF assms(1)] by (auto simp: ValidateCapabilities_def)
  then show ?thesis
    by (force simp: permitted_def range_permitted_def addresses_def)
qed

lemma accepted_ranges_are_granted_witness:
  "\<exists>(r, r') \<in> set (range_pairs bit_caps_env (caps_of demo_acid 12)).
    addresses bit_caps_env 0x823F 0x23F \<subseteq> addresses bit_caps_env r r'"
proof -
  have "caps_of demo_aci 16 = demo_aci" by (simp add: caps_of_def demo_aci_def)
  then have "items bit_caps_env (caps_of demo_aci 16) = Some [Range 0x823F 0x23F, Single 0xF, Single 0xFFFFFFFF]"
    using demo_items by simp
  from accepted_ranges_are_granted [OF bit_caps_env_ok demo_accepted this, of "0x823F" "0x23F"]
  show ?thesis by (auto simp: case_prod_beta)
qed

text \<open>
  Flags written into a descriptor list are the flags read back: the application type when
  the list has a descriptor for it and the type is not the invalid one, and the debug flag
  when the list has a descriptor for it.
\<close>

theorem info_flags_roundtrip:
  fixes kac :: "u32 list" and size' :: nat
  assumes "caps_env_ok env"
  defines "ids \<equiv> GetCapabilityId env ` set (caps_of kac size')"
  shows "GetProgramInfoFlags env (SetProgramInfoFlags env flags kac size') size' =
    (if ApplicationType \<in> ids \<and> flags AND 3 \<noteq> 3 then flags AND 3 else 0) OR
    (if DebugFlags \<in> ids then flags AND 4 else 0)"
proof -
  have "caps_of (SetProgramInfoFlags env flags kac size') size' =
      map (set_flags_cap env flags) (caps_of kac size')"
    by (auto simp: caps_of_def SetProgramInfoFlags_def)
  then show ?thesis
    unfolding ids_def
    by (simp add: GetProgramInfoFlags_def fold_info_flags [OF assms(1)] type_bits_def del: fold_map)
qed

text \<open>The descriptors of an application type, a page and debug flags.\<close>

definition demo_kac :: "u32 list" where "demo_kac = [0x1FFF, 0x7F, 0x4FFFF]"

lemma info_flags_roundtrip_witness:
  "GetProgramInfoFlags bit_caps_env (SetProgramInfoFlags bit_caps_env 5 demo_kac 12) 12 = 5"
proof -
  have "GetCapabilityId bit_caps_env ` set (caps_of demo_kac 12) = {ApplicationType, MapPage, DebugFlags}"
    unfolding demo_kac_def bit_caps_env_def by code_simp
  then show ?thesis
    using info_flags_roundtrip [OF bit_caps_env_ok, where kac = demo_kac and size' = 12 and flags = 5] by simp
qed

text \<open>
  Writing flags changes nothing but the flags: every descriptor keeps its kind, those of
  other kinds and those beyond the size are untouched, and debug descriptors keep their
  force-debug bit.
\<close>

theorem set_flags_changes_only_flags:
  fixes kac :: "u32 list" and size' :: nat and flags :: u16
  assumes "caps_env_ok env" and "i < length kac"
  defines "kac' \<equiv> SetProgramInfoFlags env flags kac size'"
  shows "length kac' = length kac \<and>
    GetCapabilityId env (kac' ! i) = GetCapabilityId env (kac ! i) \<and>
    (GetCapabilityId env (kac ! i) \<notin> {ApplicationType, DebugFlags} \<or> size' div 4 \<le> i \<longrightarrow> kac' ! i = kac ! i) \<and>
    (GetCapabilityId env (kac ! i) = DebugFlags \<longrightarrow>
       GetForceDebug env (kac' ! i) = GetForceDebug env (kac ! i))"
proof -
  have nth: "kac' ! i = (if i < size' div 4 then set_flags_cap env flags (kac ! i) else kac ! i)"
    using assms(2) by (auto simp: kac'_def SetProgramInfoFlags_def caps_of_def nth_append)
  have "length kac' = length kac" by (simp add: kac'_def SetProgramInfoFlags_def caps_of_def)
  moreover have "set_flags_cap env flags c = c" if "GetCapabilityId env c \<notin> {ApplicationType, DebugFlags}" for c
    using that by (cases "GetCapabilityId env c") (simp_all add: set_flags_cap_def)
  moreover have "GetForceDebug env (set_flags_cap env flags c) = GetForceDebug env c"
    if "GetCapabilityId env c = DebugFlags" for c
    using that by (simp add: set_flags_cap_def Debug_Encode [OF assms(1)])
  ultimately show ?thesis
    unfolding nth using set_flags_cap_id [OF assms(1)] by simp
qed

lemma set_flags_changes_only_flags_witness:
  "SetProgramInfoFlags bit_caps_env 5 demo_kac 12 ! 1 = 0x7F"
proof -
  have "GetCapabilityId bit_caps_env (demo_kac ! 1) = MapPage"
    unfolding demo_kac_def bit_caps_env_def by code_simp
  then show ?thesis
    using set_flags_changes_only_flags [where env = bit_caps_env, OF bit_caps_env_ok, where i = 1 and kac = demo_kac and flags = 5 and size' = 12]
    by (simp add: demo_kac_def)
qed

end
