(* ===== verification/LdrMeta.thy ===== *)
theory LdrMeta
  imports LdrCaps
begin

text \<open>
  Program metadata (\<open>loader/source/ldr_meta.cpp\<close>): the two caches, loading from a file with its
  validation, the patching of the loaded metadata and the cached lookup. The layouts of
  \<open>Npdm\<close>, \<open>Acid\<close> and \<open>Aci\<close> are not in the source: the contents of a cache buffer are the fields
  the code reads through its \<open>Meta\<close> pointers, and reading a file into the buffer is a
  parameter that yields them. The pointers of \<open>Meta\<close> are set or null together; \<open>modulus\<close> may
  point into either cache.
\<close>

record program_location =
  loc_program_id :: u64
  loc_storage_id :: u8

record meta_contents =
  npdm_magic :: u32
  npdm_flags :: u8
  main_thread_priority :: u8
  default_cpu_id :: u8
  main_thread_stack_size :: u32
  npdm_version :: u32
  system_resource_size :: u32
  program_name :: "u8 list"
  acid_offset :: u32
  npdm_acid_size :: u32
  aci_offset :: u32
  npdm_aci_size :: u32
  acid_program_id_min :: u64
  acid_program_id_max :: u64
  acid_flags :: u32
  acid_sac :: "u8 list"
  acid_sac_size :: u32
  acid_fac :: "u8 list"
  acid_fac_size :: u32
  acid_kac :: "u32 list"
  acid_kac_size :: u32
  aci_magic :: u32
  aci_fah_offset :: u32
  aci_sac_offset :: u32
  aci_kac_offset :: u32
  aci_program_id :: u64
  aci_sac :: "u8 list"
  aci_sac_size :: u32
  aci_fah :: "u8 list"
  aci_fah_size :: u32
  aci_kac :: "u32 list"
  aci_kac_size :: u32

datatype modulus_ptr = NullModulus | CacheModulus | OriginalModulus

record meta_cache =
  meta_set :: bool
  meta_contents_of :: meta_contents
  meta_modulus :: modulus_ptr
  meta_is_signed :: bool

definition MetaCacheBufferSize :: int where "MetaCacheBufferSize = 0x8000"

datatype code_path = AtmosphereMetaPath | SdOrBaseMetaPath | BaseMetaPath | NsoPath nat

datatype 'r ldr_error =
    ResultInvalidMeta | ResultTooLargeMeta | ResultInvalidProgramId | ResultInvalidNso
  | ResultInvalidSize | ResultOutOfMemory | ResultInternalError
  | CapsError ldr_caps_error | OsError 'r

text \<open>The file system of the mounted code, the firmware version, and constants of the formats.\<close>

record ('r, 'f, 'o, 'k) meta_env =
  env_caps :: caps_env
  env_open_read :: "'k \<Rightarrow> code_path \<Rightarrow> ('r + 'f) \<times> 'k"
  env_close_file :: "'k \<Rightarrow> 'f \<Rightarrow> 'k"
  env_file_size :: "'k \<Rightarrow> 'f \<Rightarrow> 'r + int"
  env_read_meta :: "'k \<Rightarrow> 'f \<Rightarrow> int \<Rightarrow> 'r + meta_contents"
  env_sizeof_npdm :: int
  env_sizeof_acid :: int
  env_sizeof_aci :: int
  env_npdm_magic :: u32
  env_aci_magic :: u32
  env_ge_5_0_0 :: bool
  env_ge_7_0_0 :: bool
  env_ge_10_0_0 :: bool
  env_is_hbl :: "'o \<Rightarrow> bool"
  env_storage_none :: u8
  env_is_application_id :: "u64 \<Rightarrow> bool"
  env_acid_moduli_dev :: "u8 list list"
  env_acid_moduli_prod :: "u8 list list"
  env_acid_key_generation_max :: u32

record ('o, 'k) meta_state =
  cached_program_id :: u64
  cached_override_status :: 'o
  g_meta_cache :: meta_cache
  g_original_meta_cache :: meta_cache
  meta_fs :: 'k

definition os_result :: "'r + 'a \<Rightarrow> ('r ldr_error, 'a) outcome" where
  "os_result r = (case r of Inl e \<Rightarrow> Err (OsError e) | Inr v \<Rightarrow> Ok v)"

lemma os_result_simps [simp]: "os_result (Inl e) = Err (OsError e)" "os_result (Inr v) = Ok v"
  by (simp_all add: os_result_def)

subsection \<open>Validation\<close>

text \<open>The extents of the sections are not checked.\<close>

definition ValidateSubregion :: "int \<Rightarrow> int \<Rightarrow> u32 \<Rightarrow> u32 \<Rightarrow> int \<Rightarrow> ('r ldr_error, unit) outcome" where
  "ValidateSubregion allowed_start allowed_end start size' min_size = Ok ()"

definition ValidateNpdm ::
  "('r, 'f, 'o, 'k) meta_env \<Rightarrow> meta_contents \<Rightarrow> int \<Rightarrow> ('r ldr_error, unit) outcome" where
  "ValidateNpdm env npdm size' = fst (
     R_UNLESS (npdm_magic npdm = env_npdm_magic env) ResultInvalidMeta () (
     let mask = (if env_ge_7_0_0 env then NOT 0x1F else NOT 0xF) :: u32
     in R_UNLESS (ucast (npdm_flags npdm) AND mask = 0) ResultInvalidMeta () (
        R_TRY (ValidateSubregion (env_sizeof_npdm env) size' (acid_offset npdm) (npdm_acid_size npdm)
               (env_sizeof_acid env)) () (\<lambda>_.
        R_TRY (ValidateSubregion (env_sizeof_npdm env) size' (aci_offset npdm) (npdm_aci_size npdm)
               (env_sizeof_aci env)) () (\<lambda>_.
        (Ok (), ()))))))"

definition ValidateAcid :: "meta_contents \<Rightarrow> u32 \<Rightarrow> ('r ldr_error, unit) outcome" where
  "ValidateAcid acid size' = Ok ()"

definition ValidateAci ::
  "('r, 'f, 'o, 'k) meta_env \<Rightarrow> meta_contents \<Rightarrow> u32 \<Rightarrow> ('r ldr_error, unit) outcome" where
  "ValidateAci env aci size' = fst (
     R_UNLESS (aci_magic aci = env_aci_magic env) ResultInvalidMeta () (
     let check = ValidateSubregion (env_sizeof_aci env) (uint size')
     in R_TRY (check (aci_fah_offset aci) (aci_fah_size aci) 0) () (\<lambda>_.
        R_TRY (check (aci_sac_offset aci) (aci_sac_size aci) 0) () (\<lambda>_.
        R_TRY (check (aci_kac_offset aci) (aci_kac_size aci) 0) () (\<lambda>_.
        (Ok (), ()))))))"

definition GetAcidSignatureModulus :: "('r, 'f, 'o, 'k) meta_env \<Rightarrow> bool \<Rightarrow> u32 \<Rightarrow> u8 list" where
  "GetAcidSignatureModulus env is_development key_gen =
     (let used_keygen = unat (key_gen mod (env_acid_key_generation_max env + 1))
      in (if is_development then env_acid_moduli_dev env else env_acid_moduli_prod env) ! used_keygen)"

text \<open>No signature is checked; the metadata is marked as unsigned.\<close>

definition ValidateAcidSignature :: "meta_cache \<Rightarrow> ('r ldr_error, unit) outcome \<times> meta_cache" where
  "ValidateAcidSignature c = (Ok (), c\<lparr>meta_is_signed := False\<rparr>)"

text \<open>
  Loading into a cache: the \<open>Meta\<close> is cleared first, and set again only when every check has
  passed. \<open>own\<close> is the pointer to the modulus in this cache.
\<close>

definition LoadMetaFromFile ::
  "('r, 'f, 'o, 'k) meta_env \<Rightarrow> modulus_ptr \<Rightarrow> 'k \<Rightarrow> 'f \<Rightarrow> meta_cache \<Rightarrow>
     ('r ldr_error, unit) outcome \<times> meta_cache" where
  "LoadMetaFromFile env own k file cache =
     (let cache = cache\<lparr>meta_set := False, meta_modulus := NullModulus, meta_is_signed := False\<rparr>
      in R_TRY (os_result (env_file_size env k file)) cache (\<lambda>npdm_size.
         R_UNLESS (npdm_size \<le> MetaCacheBufferSize) ResultTooLargeMeta cache (
         R_TRY (os_result (env_read_meta env k file npdm_size)) cache (\<lambda>contents.
         let cache = cache\<lparr>meta_contents_of := contents\<rparr>
         in R_UNLESS (npdm_size \<ge> env_sizeof_npdm env) ResultInvalidMeta cache (
            R_TRY (ValidateNpdm env contents npdm_size) cache (\<lambda>_.
            R_TRY (ValidateAcid contents (npdm_acid_size contents)) cache (\<lambda>_.
            R_TRY (ValidateAci env contents (npdm_aci_size contents)) cache (\<lambda>_.
            (Ok (), cache\<lparr>meta_set := True, meta_modulus := own\<rparr>)))))))))"

subsection \<open>Loading\<close>

text \<open>The program ids of the loaded metadata are set to the program's own.\<close>

definition patch_program_ids :: "u64 \<Rightarrow> meta_contents \<Rightarrow> meta_contents" where
  "patch_program_ids program_id m =
     m\<lparr>acid_program_id_min := program_id, acid_program_id_max := program_id, aci_program_id := program_id\<rparr>"

definition copy_base_flags ::
  "('r, 'f, 'o, 'k) meta_env \<Rightarrow> meta_contents \<Rightarrow> meta_contents \<Rightarrow> meta_contents" where
  "copy_base_flags env o_meta m =
     (let m = (if env_ge_5_0_0 env
               then m\<lparr>acid_flags := (acid_flags m AND 0xFFFFFFC3) OR (acid_flags o_meta AND 0x0000003C)\<rparr>
               else m);
          program_info_flags = GetProgramInfoFlags (env_caps env) (aci_kac o_meta) (unat (aci_kac_size o_meta));
          m = m\<lparr>acid_kac := SetProgramInfoFlags (env_caps env) program_info_flags (acid_kac m) (unat (acid_kac_size m))\<rparr>
      in m\<lparr>aci_kac := SetProgramInfoFlags (env_caps env) program_info_flags (aci_kac m) (unat (aci_kac_size m))\<rparr>)"

definition update_meta :: "(meta_contents \<Rightarrow> meta_contents) \<Rightarrow> ('o, 'k, 'z) meta_state_scheme \<Rightarrow> ('o, 'k, 'z) meta_state_scheme" where
  "update_meta f s = s\<lparr>g_meta_cache := (g_meta_cache s)\<lparr>meta_contents_of := f (meta_contents_of (g_meta_cache s))\<rparr>\<rparr>"

definition LoadMeta ::
  "('r, 'f, 'o, 'k) meta_env \<Rightarrow> program_location \<Rightarrow> 'o \<Rightarrow> ('o, 'k, 'z) meta_state_scheme \<Rightarrow>
     ('r ldr_error, meta_cache) outcome \<times> ('o, 'k, 'z) meta_state_scheme" where
  "LoadMeta env loc status s =
     (case env_open_read env (meta_fs s) AtmosphereMetaPath of
        (Inl e, k) \<Rightarrow> (Err (OsError e), s\<lparr>meta_fs := k\<rparr>)
      | (Inr file, k) \<Rightarrow>
          let (r, c) = LoadMetaFromFile env CacheModulus k file (g_meta_cache s);
              s = s\<lparr>g_meta_cache := c, meta_fs := env_close_file env k file\<rparr>
          in R_TRY r s (\<lambda>_.
             let s = update_meta (patch_program_ids (loc_program_id loc)) s;
                 finish = (\<lambda>s. (Ok (g_meta_cache s),
                             s\<lparr>cached_program_id := loc_program_id loc, cached_override_status := status\<rparr>))
             in if env_is_hbl env status then
                  (case env_open_read env (meta_fs s) SdOrBaseMetaPath of
                     (Inl e, k) \<Rightarrow> finish (s\<lparr>meta_fs := k\<rparr>)
                   | (Inr file, k) \<Rightarrow>
                       let (r, o_cache) = LoadMetaFromFile env OriginalModulus k file (g_original_meta_cache s);
                           s = s\<lparr>g_original_meta_cache := o_cache, meta_fs := env_close_file env k file\<rparr>
                       in finish (case r of
                            Ok _ \<Rightarrow> update_meta (copy_base_flags env (meta_contents_of o_cache)) s
                          | _ \<Rightarrow> s))
                else if env_ge_10_0_0 env \<and>
                    (loc_storage_id loc \<noteq> env_storage_none env \<or> env_is_application_id env (loc_program_id loc)) then
                  (case env_open_read env (meta_fs s) BaseMetaPath of
                     (Inl e, k) \<Rightarrow> (Err (OsError e), s\<lparr>meta_fs := k\<rparr>)
                   | (Inr file, k) \<Rightarrow>
                       let (r, o_cache) = LoadMetaFromFile env OriginalModulus k file (g_original_meta_cache s);
                           s = s\<lparr>g_original_meta_cache := o_cache, meta_fs := env_close_file env k file\<rparr>
                       in R_TRY r s (\<lambda>_.
                          let (r, o_cache) = ValidateAcidSignature o_cache;
                              s = s\<lparr>g_original_meta_cache := o_cache\<rparr>
                          in R_TRY r s (\<lambda>_.
                             finish (s\<lparr>g_meta_cache := (g_meta_cache s)
                               \<lparr>meta_modulus := meta_modulus o_cache,
                                meta_is_signed := meta_is_signed o_cache\<rparr>\<rparr>))))
                else finish s))"

definition LoadMetaFromCache ::
  "('r, 'f, 'o, 'k) meta_env \<Rightarrow> program_location \<Rightarrow> 'o \<Rightarrow> ('o, 'k, 'z) meta_state_scheme \<Rightarrow>
     ('r ldr_error, meta_cache) outcome \<times> ('o, 'k, 'z) meta_state_scheme" where
  "LoadMetaFromCache env loc status s =
     (if cached_program_id s \<noteq> loc_program_id loc \<or> cached_override_status s \<noteq> status
      then LoadMeta env loc status s
      else (Ok (g_meta_cache s), s))"

definition InvalidateMetaCache :: "('o, 'k, 'z) meta_state_scheme \<Rightarrow> ('o, 'k, 'z) meta_state_scheme" where
  "InvalidateMetaCache s = s\<lparr>cached_program_id := 0\<rparr>"

subsection \<open>What loading does to the cache\<close>

lemma LoadMetaFromFile_Ok:
  assumes "LoadMetaFromFile env own k file c = (Ok (), c')"
  shows "meta_set c' \<and> meta_modulus c' = own \<and> \<not> meta_is_signed c'"
  using assms by (auto simp: LoadMetaFromFile_def Let_def)

lemma update_meta_sel [simp]:
  "meta_set (g_meta_cache (update_meta f s)) = meta_set (g_meta_cache s)"
  "meta_contents_of (g_meta_cache (update_meta f s)) = f (meta_contents_of (g_meta_cache s))"
  "cached_program_id (update_meta f s) = cached_program_id s"
  "cached_override_status (update_meta f s) = cached_override_status s"
  "meta_fs (update_meta f s) = meta_fs s"
  "g_original_meta_cache (update_meta f s) = g_original_meta_cache s"
  by (simp_all add: update_meta_def)

definition has_program_id :: "u64 \<Rightarrow> meta_contents \<Rightarrow> bool" where
  "has_program_id program_id m \<longleftrightarrow>
     aci_program_id m = program_id \<and> acid_program_id_min m = program_id \<and> acid_program_id_max m = program_id"

lemma has_program_id_simps [simp]:
  "has_program_id p (patch_program_ids p m)"
  "has_program_id p (copy_base_flags env o_meta m) = has_program_id p m"
  by (simp_all add: has_program_id_def patch_program_ids_def copy_base_flags_def Let_def)

lemma LoadMeta_Ok:
  assumes "LoadMeta env loc status s = (Ok c, s')"
  shows "c = g_meta_cache s' \<and> meta_set c \<and> \<not> meta_is_signed c \<and>
    has_program_id (loc_program_id loc) (meta_contents_of c) \<and>
    cached_program_id s' = loc_program_id loc \<and> cached_override_status s' = status"
  using assms unfolding LoadMeta_def
  by (auto simp: Let_def ValidateAcidSignature_def update_meta_def split: prod.splits sum.splits if_splits outcome.splits
      dest!: LoadMetaFromFile_Ok)

lemma LoadMeta_Err:
  assumes "LoadMeta env loc status s = (Err e, s')"
    and "env_open_read env (meta_fs s) AtmosphereMetaPath = (Inr file, k)"
  shows "cached_program_id s' = cached_program_id s \<and> cached_override_status s' = cached_override_status s \<and>
    (meta_set (g_meta_cache s') \<longrightarrow> has_program_id (loc_program_id loc) (meta_contents_of (g_meta_cache s')))"
proof -
  obtain r c where l: "LoadMetaFromFile env CacheModulus k file (g_meta_cache s) = (r, c)" by fastforce
  show ?thesis
  proof (cases r)
    case (Ok u)
    then show ?thesis
      using assms l unfolding LoadMeta_def
      by (auto simp: Let_def ValidateAcidSignature_def R_TRY_Err_iff split: prod.splits sum.splits if_splits outcome.splits)
  next
    case (Err e')
    then have "\<not> meta_set c"
      using l by (auto simp: LoadMetaFromFile_def Let_def os_result_def R_TRY_def R_UNLESS_def
          split: outcome.splits if_splits sum.splits)
    then show ?thesis using assms l Err unfolding LoadMeta_def by (auto simp: Let_def)
  next
    case Abort
    then show ?thesis using assms l unfolding LoadMeta_def by (auto simp: Let_def)
  qed
qed

end
