(* ===== verification/LdrTables.thy ===== *)
theory LdrTables
  imports NX_Prelude
begin

text \<open>
  The loader's tables (\<open>loader/source/ldr_ro_manager.cpp\<close>, \<open>ldr_arguments.cpp\<close> and
  \<open>ldr_launch_record.cpp\<close>): pinned programs with their registered modules, the arguments set
  for a program, and the programs that were launched. A pointer into a table is its index.
  Locations and override statuses are passed through, so they are type parameters.
\<close>

subsection \<open>Pinned programs\<close>

definition InvalidPinId :: u64 where "InvalidPinId = 0"
definition ProcessCountMax :: nat where "ProcessCountMax = 0x40"
definition ModuleCountMax :: nat where "ModuleCountMax = 0x20"

record module_info =
  mi_build_id :: "u8 list"
  mi_base_address :: u64
  mi_size :: u64
  mi_in_use :: bool

record ('l, 'o) pinned_info =
  pin_id :: u64
  pin_process_id :: u64
  pin_program_id :: u64
  pin_override_status :: 'o
  pin_loc :: 'l
  pin_modules :: "module_info list"
  pin_in_use :: bool

text \<open>Static storage is zero; \<open>memset\<close> leaves the same values.\<close>

definition module_zero :: module_info where
  "module_zero = \<lparr>mi_build_id = replicate 0x20 0, mi_base_address = 0, mi_size = 0, mi_in_use = False\<rparr>"

definition pinned_zero :: "'l \<Rightarrow> 'o \<Rightarrow> ('l, 'o) pinned_info" where
  "pinned_zero loc_zero status_zero =
     \<lparr>pin_id = 0, pin_process_id = 0, pin_program_id = 0, pin_override_status = status_zero,
      pin_loc = loc_zero, pin_modules = replicate ModuleCountMax module_zero, pin_in_use = False\<rparr>"

record ('l, 'o) ro_manager =
  pinned_infos :: "('l, 'o) pinned_info list"
  cur_pin_id :: u64

definition ro_manager_initial :: "'l \<Rightarrow> 'o \<Rightarrow> ('l, 'o) ro_manager" where
  "ro_manager_initial loc_zero status_zero =
     \<lparr>pinned_infos = replicate ProcessCountMax (pinned_zero loc_zero status_zero), cur_pin_id = 1\<rparr>"

datatype pin_error = ResultTooManyProcesses | ResultNotPinned

definition GetPinnedInfo :: "u64 \<Rightarrow> ('l, 'o) pinned_info list \<Rightarrow> nat option" where
  "GetPinnedInfo i infos = find_idx (\<lambda>p. pin_in_use p \<and> pin_id p = i) infos"

definition GetPinnedInfoByProcess :: "u64 \<Rightarrow> ('l, 'o) pinned_info list \<Rightarrow> nat option" where
  "GetPinnedInfoByProcess pid infos = find_idx (\<lambda>p. pin_in_use p \<and> pin_process_id p = pid) infos"

definition GetFreePinnedInfo :: "('l, 'o) pinned_info list \<Rightarrow> nat option" where
  "GetFreePinnedInfo infos = find_idx (\<lambda>p. \<not> pin_in_use p) infos"

text \<open>The operations; the output parameter of a failed \<open>PinProgram\<close> is the invalid pin.\<close>

definition PinProgram ::
  "'l \<Rightarrow> 'o \<Rightarrow> ('l, 'o) ro_manager \<Rightarrow> (pin_error, u64) outcome \<times> ('l, 'o) ro_manager" where
  "PinProgram loc status m =
     (case GetFreePinnedInfo (pinned_infos m) of
        None \<Rightarrow> (Err ResultTooManyProcesses, m)
      | Some i \<Rightarrow>
          (Ok (cur_pin_id m),
           m\<lparr>pinned_infos := (pinned_infos m)[i := (pinned_zero loc status)
               \<lparr>pin_id := cur_pin_id m, pin_in_use := True\<rparr>],
             cur_pin_id := cur_pin_id m + 1\<rparr>))"

definition update_pinned ::
  "nat \<Rightarrow> (('l, 'o) pinned_info \<Rightarrow> ('l, 'o) pinned_info) \<Rightarrow> ('l, 'o) ro_manager \<Rightarrow> ('l, 'o) ro_manager" where
  "update_pinned i f m = m\<lparr>pinned_infos := (pinned_infos m)[i := f (pinned_infos m ! i)]\<rparr>"

definition UnpinProgram ::
  "u64 \<Rightarrow> ('l, 'o) ro_manager \<Rightarrow> (pin_error, unit) outcome \<times> ('l, 'o) ro_manager" where
  "UnpinProgram pin m =
     (case GetPinnedInfo pin (pinned_infos m) of
        None \<Rightarrow> (Err ResultNotPinned, m)
      | Some i \<Rightarrow> (Ok (), update_pinned i (\<lambda>p. p\<lparr>pin_in_use := False\<rparr>) m))"

definition GetProgramLocationAndStatus ::
  "u64 \<Rightarrow> ('l, 'o) ro_manager \<Rightarrow> (pin_error, 'l \<times> 'o) outcome" where
  "GetProgramLocationAndStatus pin m =
     (case GetPinnedInfo pin (pinned_infos m) of
        None \<Rightarrow> Err ResultNotPinned
      | Some i \<Rightarrow> Ok (pin_loc (pinned_infos m ! i), pin_override_status (pinned_infos m ! i)))"

definition RegisterPinnedProcess ::
  "u64 \<Rightarrow> u64 \<Rightarrow> u64 \<Rightarrow> ('l, 'o) ro_manager \<Rightarrow> (pin_error, unit) outcome \<times> ('l, 'o) ro_manager" where
  "RegisterPinnedProcess pin pid program_id m =
     (case GetPinnedInfo pin (pinned_infos m) of
        None \<Rightarrow> (Err ResultNotPinned, m)
      | Some i \<Rightarrow>
          (Ok (), update_pinned i (\<lambda>p. p\<lparr>pin_program_id := program_id, pin_process_id := pid\<rparr>) m))"

text \<open>A module goes to the first free slot; when there is none it is silently dropped.\<close>

definition add_module :: "u8 list \<Rightarrow> u64 \<Rightarrow> u64 \<Rightarrow> module_info list \<Rightarrow> module_info list" where
  "add_module build_id address sz ms =
     (case find_idx (\<lambda>x. \<not> mi_in_use x) ms of
        None \<Rightarrow> ms
      | Some i \<Rightarrow> ms[i := \<lparr>mi_build_id = build_id, mi_base_address = address, mi_size = sz, mi_in_use = True\<rparr>])"

definition RegisterModule ::
  "u64 \<Rightarrow> u8 list \<Rightarrow> u64 \<Rightarrow> u64 \<Rightarrow> ('l, 'o) ro_manager \<Rightarrow>
     (pin_error, unit) outcome \<times> ('l, 'o) ro_manager" where
  "RegisterModule pin build_id address sz m =
     (case GetPinnedInfo pin (pinned_infos m) of
        None \<Rightarrow> (Err ResultNotPinned, m)
      | Some i \<Rightarrow>
          (Ok (), update_pinned i (\<lambda>p. p\<lparr>pin_modules := add_module build_id address sz (pin_modules p)\<rparr>) m))"

definition GetPinnedModuleInfo ::
  "nat \<Rightarrow> u64 \<Rightarrow> ('l, 'o) ro_manager \<Rightarrow> (pin_error, (u8 list \<times> u64 \<times> u64) list) outcome" where
  "GetPinnedModuleInfo max_out_count pid m =
     (case GetPinnedInfoByProcess pid (pinned_infos m) of
        None \<Rightarrow> Err ResultNotPinned
      | Some i \<Rightarrow>
          Ok (take max_out_count
                (map (\<lambda>x. (mi_build_id x, mi_base_address x, mi_size x))
                   (filter mi_in_use (pin_modules (pinned_infos m ! i))))))"

subsection \<open>Arguments\<close>

definition MaxArgumentInfos :: nat where "MaxArgumentInfos = 10"
definition ArgumentSizeMax :: nat where "ArgumentSizeMax = 0x8000"
definition InvalidProgramId :: u64 where "InvalidProgramId = 0"

record argument_info =
  arg_program_id :: u64
  args_size :: nat
  args_bytes :: "u8 list"

definition arguments_initial :: "argument_info list" where
  "arguments_initial = replicate MaxArgumentInfos
     \<lparr>arg_program_id = InvalidProgramId, args_size = 0, args_bytes = replicate ArgumentSizeMax 0\<rparr>"

datatype args_error = ResultTooLongArgument | ResultTooManyArguments

definition FindArgumentInfo :: "u64 \<Rightarrow> argument_info list \<Rightarrow> nat option" where
  "FindArgumentInfo program_id infos = find_idx (\<lambda>a. arg_program_id a = program_id) infos"

definition FindFreeArgumentInfo :: "argument_info list \<Rightarrow> nat option" where
  "FindFreeArgumentInfo infos = FindArgumentInfo InvalidProgramId infos"

definition GetArguments :: "u64 \<Rightarrow> argument_info list \<Rightarrow> argument_info option" where
  "GetArguments program_id infos = map_option (\<lambda>i. infos ! i) (FindArgumentInfo program_id infos)"

text \<open>\<open>memcpy\<close> overwrites the front of the buffer.\<close>

definition copy_front :: "u8 list \<Rightarrow> u8 list \<Rightarrow> u8 list" where
  "copy_front src dst = src @ drop (length src) dst"

definition SetArguments ::
  "u64 \<Rightarrow> u8 list \<Rightarrow> nat \<Rightarrow> argument_info list \<Rightarrow> (args_error, unit) outcome \<times> argument_info list" where
  "SetArguments program_id args size' infos =
     R_UNLESS (size' < ArgumentSizeMax) ResultTooLongArgument infos (
     let slot = (case FindArgumentInfo program_id infos of
                   Some i \<Rightarrow> Some i | None \<Rightarrow> FindFreeArgumentInfo infos)
     in case slot of
          None \<Rightarrow> (Err ResultTooManyArguments, infos)
        | Some i \<Rightarrow>
            (Ok (), infos[i := \<lparr>arg_program_id = program_id, args_size = size',
               args_bytes = copy_front (take size' args) (args_bytes (infos ! i))\<rparr>]))"

definition FlushArguments :: "argument_info list \<Rightarrow> argument_info list" where
  "FlushArguments infos = map (\<lambda>a. a\<lparr>arg_program_id := InvalidProgramId\<rparr>) infos"

text \<open>The command of the service takes the smaller of the announced and the sent size.\<close>

definition SetProgramArguments ::
  "u64 \<Rightarrow> u8 list \<Rightarrow> u32 \<Rightarrow> argument_info list \<Rightarrow> (args_error, unit) outcome \<times> argument_info list" where
  "SetProgramArguments program_id args args_sz infos =
     SetArguments program_id args (min (length args) (unat args_sz)) infos"

subsection \<open>Launched programs\<close>

definition HasLaunchedProgram :: "u64 \<Rightarrow> u64 set \<Rightarrow> bool" where
  "HasLaunchedProgram program_id launched \<longleftrightarrow> program_id \<in> launched"

definition SetLaunchedProgram :: "u64 \<Rightarrow> u64 set \<Rightarrow> u64 set" where
  "SetLaunchedProgram program_id launched = insert program_id launched"

subsection \<open>The tables are keyed\<close>

text \<open>A pinned program is found by its pin; a slot that is not in use has no key.\<close>

definition pin_key :: "('l, 'o) pinned_info \<Rightarrow> u64 option" where
  "pin_key p = (if pin_in_use p then Some (pin_id p) else None)"

interpretation pins:
  keyed_table pin_key None "\<lambda>k. find_idx (\<lambda>p. pin_key p = k)"
  by unfold_locales (auto simp: find_idx_Some_iff)

interpretation arguments:
  keyed_table arg_program_id InvalidProgramId FindArgumentInfo
  by unfold_locales (auto simp: FindArgumentInfo_def find_idx_Some_iff)

lemma GetPinnedInfo_key: "GetPinnedInfo i infos = find_idx (\<lambda>p. pin_key p = Some i) infos"
  unfolding GetPinnedInfo_def pin_key_def by (rule arg_cong [where f = "\<lambda>P. find_idx P infos"]) auto

lemma GetFreePinnedInfo_key: "GetFreePinnedInfo infos = find_idx (\<lambda>p. pin_key p = None) infos"
  unfolding GetFreePinnedInfo_def pin_key_def by (rule arg_cong [where f = "\<lambda>P. find_idx P infos"]) auto

subsection \<open>Pins are unique while fewer than 2^64 programs were pinned\<close>

text \<open>
  The pins handed out so far are below the counter, and no two programs share one. The number
  of operations bounds the counter, so it has not wrapped around.
\<close>

definition pins_ok :: "nat \<Rightarrow> ('l, 'o) ro_manager \<Rightarrow> bool" where
  "pins_ok n m \<longleftrightarrow>
     length (pinned_infos m) = ProcessCountMax \<and>
     1 \<le> unat (cur_pin_id m) \<and> unat (cur_pin_id m) \<le> Suc n \<and>
     distinct_keys pin_key None (pinned_infos m) \<and>
     list_all (\<lambda>p. length (pin_modules p) = ModuleCountMax \<and>
        (pin_in_use p \<longrightarrow> 0 < unat (pin_id p) \<and> unat (pin_id p) < unat (cur_pin_id m))) (pinned_infos m)"

inductive pin_step :: "('l, 'o) ro_manager \<Rightarrow> ('l, 'o) ro_manager \<Rightarrow> bool" where
  pin: "pin_step m (snd (PinProgram loc status m))"
| unpin: "pin_step m (snd (UnpinProgram pin m))"
| register: "pin_step m (snd (RegisterPinnedProcess pin pid program_id m))"
| add: "pin_step m (snd (RegisterModule pin build_id address sz m))"

inductive pin_reachable :: "nat \<Rightarrow> ('l, 'o) ro_manager \<Rightarrow> bool" where
  start: "pin_reachable 0 (ro_manager_initial loc_zero status_zero)"
| step: "\<lbrakk>pin_reachable n m; pin_step m m'\<rbrakk> \<Longrightarrow> pin_reachable (Suc n) m'"

lemma length_add_module [simp]: "length (add_module b a sz ms) = length ms"
  by (simp add: add_module_def split: option.split)

lemma pins_ok_initial: "pins_ok 0 (ro_manager_initial l o')"
  by (simp add: pins_ok_def ro_manager_initial_def pinned_zero_def pin_key_def list_all_iff)

lemma pins_ok_Suc: "pins_ok n m \<Longrightarrow> pins_ok (Suc n) m"
  by (simp add: pins_ok_def)

lemma find_idx_same:
  "\<lbrakk>length xs = length ys; \<And>i. i < length ys \<Longrightarrow> P (xs ! i) = P (ys ! i)\<rbrakk> \<Longrightarrow> find_idx P xs = find_idx P ys"
  by (induction xs ys rule: list_induct2) (auto dest: spec [where x = "Suc _"], (metis length_Cons nth_Cons_Suc not_less_eq nth_Cons_0 zero_less_Suc)+)

lemma list_all_list_update: "\<lbrakk>list_all P xs; P x\<rbrakk> \<Longrightarrow> list_all P (xs[i := x])"
  by (auto simp: list_all_iff dest!: set_update_subset_insert [THEN subsetD])

text \<open>Changing an entry in place, or releasing it.\<close>

lemma pins_ok_update:
  assumes "pins_ok n m" "i < length (pinned_infos m)"
    "pin_key (f (pinned_infos m ! i)) \<in> {pin_key (pinned_infos m ! i), None}"
    "length (pin_modules (f (pinned_infos m ! i))) = length (pin_modules (pinned_infos m ! i))"
  shows "pins_ok n (update_pinned i f m)"
proof -
  let ?p = "pinned_infos m ! i"
  have "list_all (\<lambda>p. length (pin_modules p) = ModuleCountMax \<and>
        (pin_in_use p \<longrightarrow> 0 < unat (pin_id p) \<and> unat (pin_id p) < unat (cur_pin_id m)))
      ((pinned_infos m)[i := f ?p])"
    using assms by (intro list_all_list_update)
      (auto simp: pins_ok_def list_all_length pin_key_def split: if_splits)
  moreover have "distinct_keys pin_key None ((pinned_infos m)[i := f ?p])"
    using assms pins.update_distinct [of "pinned_infos m" "f ?p" i] pins.release_distinct [of "pinned_infos m" "f ?p" i]
    by (auto simp: pins_ok_def)
  ultimately show ?thesis using assms(1) by (simp add: pins_ok_def update_pinned_def)
qed

lemma pins_ok_PinProgram:
  assumes "pins_ok n m" "Suc (Suc n) < 2 ^ 64"
  shows "pins_ok (Suc n) (snd (PinProgram loc status m))"
proof (cases "GetFreePinnedInfo (pinned_infos m)")
  case None
  then show ?thesis using assms(1) by (simp add: PinProgram_def pins_ok_Suc)
next
  case (Some i)
  let ?p = "(pinned_zero loc status)\<lparr>pin_id := cur_pin_id m, pin_in_use := True\<rparr>"
  have c: "unat (cur_pin_id m) \<le> Suc n" "1 \<le> unat (cur_pin_id m)" using assms(1) by (simp_all add: pins_ok_def)
  have next': "unat (cur_pin_id m + 1) = Suc (unat (cur_pin_id m))"
  proof -
    have "unat (cur_pin_id m) + 1 < 2 ^ 64" using c assms(2) by simp
    then show ?thesis by (simp add: unat_word_ariths)
  qed
  have "find_idx (\<lambda>p. pin_key p = pin_key ?p) (pinned_infos m) = None"
    using assms(1) by (auto simp: pins_ok_def pin_key_def list_all_iff split: if_splits)
  then have "distinct_keys pin_key None ((pinned_infos m)[i := ?p])"
    using assms(1) by (intro pins.insert_distinct) (simp_all add: pins_ok_def)
  moreover have "list_all (\<lambda>p. length (pin_modules p) = ModuleCountMax \<and>
        (pin_in_use p \<longrightarrow> 0 < unat (pin_id p) \<and> unat (pin_id p) < unat (cur_pin_id m + 1)))
      ((pinned_infos m)[i := ?p])"
    using assms(1) c next' by (intro list_all_list_update)
      (auto simp: pins_ok_def list_all_iff pinned_zero_def less_Suc_eq)
  ultimately show ?thesis
    using assms(1) Some c next' by (simp add: PinProgram_def pins_ok_def)
qed

lemma GetPinnedInfo_dest:
  "GetPinnedInfo pin infos = Some i \<Longrightarrow>
     i < length infos \<and> pin_in_use (infos ! i) \<and> pin_id (infos ! i) = pin"
  unfolding GetPinnedInfo_def using find_idx_dest by blast

lemma pins_ok_registered:
  assumes "pins_ok n m"
  shows "pins_ok n (snd (RegisterPinnedProcess pin pid program_id m))"
    "pins_ok n (snd (RegisterModule pin build_id address sz m))"
    "pins_ok n (snd (UnpinProgram pin m))"
proof -
  have upd: "pins_ok n (update_pinned i f m)"
    if "GetPinnedInfo pin (pinned_infos m) = Some i" "\<And>x. pin_key (f x) \<in> {pin_key x, None}"
      "\<And>x. length (pin_modules (f x)) = length (pin_modules x)" for i f
    using assms that GetPinnedInfo_dest [OF that(1)] by (intro pins_ok_update) auto
  show "pins_ok n (snd (RegisterPinnedProcess pin pid program_id m))"
    using assms upd [of _ "\<lambda>x. x\<lparr>pin_program_id := program_id, pin_process_id := pid\<rparr>"]
    by (cases "GetPinnedInfo pin (pinned_infos m)") (simp_all add: RegisterPinnedProcess_def pin_key_def)
  show "pins_ok n (snd (RegisterModule pin build_id address sz m))"
    using assms upd [of _ "\<lambda>x. x\<lparr>pin_modules := add_module build_id address sz (pin_modules x)\<rparr>"]
    by (cases "GetPinnedInfo pin (pinned_infos m)") (simp_all add: RegisterModule_def pin_key_def)
  show "pins_ok n (snd (UnpinProgram pin m))"
    using assms upd [of _ "\<lambda>x. x\<lparr>pin_in_use := False\<rparr>"]
    by (cases "GetPinnedInfo pin (pinned_infos m)") (simp_all add: UnpinProgram_def pin_key_def)
qed

lemma pin_step_ok:
  assumes "pin_step m m'" "pins_ok n m" "Suc (Suc n) < 2 ^ 64"
  shows "pins_ok (Suc n) m'"
  using assms(1)
  by cases (simp_all add: pins_ok_PinProgram [OF assms(2,3)] pins_ok_Suc pins_ok_registered [OF assms(2)])

lemma pin_reachable_ok: "\<lbrakk>pin_reachable n m; Suc n < 2 ^ 64\<rbrakk> \<Longrightarrow> pins_ok n m"
  by (induction rule: pin_reachable.induct) (auto simp: pins_ok_initial intro: pin_step_ok)

subsection \<open>The pins as a map\<close>

text \<open>What a client sees of the table: the location and status of each pin.\<close>

definition pin_map :: "('l, 'o) ro_manager \<Rightarrow> u64 \<rightharpoonup> 'l \<times> 'o" where
  "pin_map m pin =
     (case GetProgramLocationAndStatus pin m of Ok x \<Rightarrow> Some x | _ \<Rightarrow> None)"

lemma pin_map_eq:
  "pin_map m pin =
     map_option (\<lambda>i. (pin_loc (pinned_infos m ! i), pin_override_status (pinned_infos m ! i)))
       (GetPinnedInfo pin (pinned_infos m))"
  by (simp add: pin_map_def GetProgramLocationAndStatus_def split: option.split)

lemma pin_map_PinProgram:
  assumes "pins_ok n m" and "PinProgram loc status m = (Ok pin, m')"
  shows "pin_map m pin = None \<and> pin_map m' = (pin_map m)(pin \<mapsto> (loc, status))"
proof -
  from assms(2) obtain i where i: "GetFreePinnedInfo (pinned_infos m) = Some i"
    and pin: "pin = cur_pin_id m"
    and m': "pinned_infos m' = (pinned_infos m)[i := (pinned_zero loc status)\<lparr>pin_id := pin, pin_in_use := True\<rparr>]"
    by (auto simp: PinProgram_def split: option.splits)
  let ?p = "(pinned_zero loc status)\<lparr>pin_id := pin, pin_in_use := True\<rparr>"
  have key: "pin_key ?p = Some pin" by (simp add: pin_key_def)
  have len: "i < length (pinned_infos m)" and free: "pin_key (pinned_infos m ! i) = None"
    using i unfolding GetFreePinnedInfo_key by (auto dest: find_idx_dest)
  have new: "find_idx (\<lambda>p. pin_key p = Some pin) (pinned_infos m) = None"
    using assms(1) pin by (auto simp: pins_ok_def pin_key_def list_all_iff split: if_splits)
  have same: "GetPinnedInfo pin (pinned_infos m') = Some i"
    using pins.lookup_insert_same [of "pinned_infos m" i ?p] i new key
    by (simp add: GetPinnedInfo_key GetFreePinnedInfo_key m')
  have other: "GetPinnedInfo q (pinned_infos m') = GetPinnedInfo q (pinned_infos m)" if "q \<noteq> pin" for q
    using pins.lookup_update_other [of ?p "Some q" i "pinned_infos m"] key free that
    by (simp add: GetPinnedInfo_key m')
  have "pinned_infos m' ! j = pinned_infos m ! j" if "GetPinnedInfo q (pinned_infos m) = Some j" for q j
  proof -
    have "pin_key (pinned_infos m ! j) \<noteq> None" using GetPinnedInfo_dest [OF that] by (simp add: pin_key_def)
    then have "j \<noteq> i" using free by auto
    then show ?thesis by (simp add: m')
  qed
  then have "pin_map m' q = ((pin_map m)(pin \<mapsto> (loc, status))) q" for q
    using same other [of q] len
    by (cases "q = pin"; cases "GetPinnedInfo q (pinned_infos m)") (simp_all add: pin_map_eq m' pinned_zero_def)
  then show ?thesis using new by (auto simp: pin_map_eq GetPinnedInfo_key)
qed

lemma pin_map_UnpinProgram:
  assumes "pins_ok n m"
  shows "pin_map (snd (UnpinProgram pin m)) = (pin_map m)(pin := None)"
proof (cases "GetPinnedInfo pin (pinned_infos m)")
  case None
  then show ?thesis by (auto simp: UnpinProgram_def pin_map_eq)
next
  case (Some i)
  let ?p = "(pinned_infos m ! i)\<lparr>pin_in_use := False\<rparr>"
  have d: "distinct_keys pin_key None (pinned_infos m)" using assms by (simp add: pins_ok_def)
  have i: "i < length (pinned_infos m)" "pin_key (pinned_infos m ! i) = Some pin"
    using GetPinnedInfo_dest [OF Some] by (simp_all add: pin_key_def)
  have key: "pin_key ?p = None" by (simp add: pin_key_def)
  have gone: "GetPinnedInfo pin ((pinned_infos m)[i := ?p]) = None"
    using pins.lookup_release [OF d _ _ key, of "Some pin" i] Some by (simp add: GetPinnedInfo_key)
  have other: "GetPinnedInfo q ((pinned_infos m)[i := ?p]) = GetPinnedInfo q (pinned_infos m)" if "q \<noteq> pin" for q
    using pins.lookup_update_other [of ?p "Some q" i "pinned_infos m"] key i that
    by (simp add: GetPinnedInfo_key)
  have "(pinned_infos m)[i := ?p] ! j = pinned_infos m ! j"
    if "GetPinnedInfo q (pinned_infos m) = Some j" "q \<noteq> pin" for q j
    using GetPinnedInfo_dest [OF that(1)] i(2) that(2) by (cases "j = i") (auto simp: pin_key_def)
  then have "pin_map (update_pinned i (\<lambda>p. p\<lparr>pin_in_use := False\<rparr>) m) q = ((pin_map m)(pin := None)) q" for q
    using gone other [of q]
    by (cases "q = pin"; cases "GetPinnedInfo q (pinned_infos m)") (simp_all add: pin_map_eq update_pinned_def)
  then show ?thesis by (auto simp: UnpinProgram_def Some)
qed

lemma pin_map_update:
  assumes "GetPinnedInfo pin (pinned_infos m) = Some i"
    "\<And>x. pin_key (f x) = pin_key x" "\<And>x. pin_loc (f x) = pin_loc x"
    "\<And>x. pin_override_status (f x) = pin_override_status x"
  shows "pin_map (update_pinned i f m) = pin_map m"
proof
  fix q
  have i: "i < length (pinned_infos m)" using GetPinnedInfo_dest [OF assms(1)] by simp
  have "find_idx P ((pinned_infos m)[i := f (pinned_infos m ! i)]) = find_idx P (pinned_infos m)"
    if "\<And>x. P (f x) = P x" for P
    using i that
    by (intro find_idx_same) (simp_all add: nth_list_update)
  then have "GetPinnedInfo q ((pinned_infos m)[i := f (pinned_infos m ! i)]) = GetPinnedInfo q (pinned_infos m)"
    by (simp add: GetPinnedInfo_key assms(2))
  then show "pin_map (update_pinned i f m) q = pin_map m q"
    using i assms(3,4)
    by (cases "GetPinnedInfo q (pinned_infos m)") (auto simp: pin_map_eq update_pinned_def nth_list_update)
qed

lemma pin_map_register:
  "pin_map (snd (RegisterPinnedProcess pin pid program_id m)) = pin_map m"
  "pin_map (snd (RegisterModule pin build_id address sz m)) = pin_map m"
  by (auto simp: RegisterPinnedProcess_def RegisterModule_def pin_key_def
      split: option.split intro!: pin_map_update)

end
