(* ===== verification/LdrProcess.thy ===== *)
theory LdrProcess
  imports LdrMeta LdrTables
begin

text \<open>
  Process creation (\<open>loader/source/ldr_process_creation.cpp\<close>): validation of the metadata and
  the NSO headers, the flags and parameters of the process, its address space layout, loading
  of the segments and the registration of the created process. File, memory and process
  operations are parameters over the state \<open>'k\<close> of the system; so are the constants of
  \<open>libstratosphere\<close>. The fields of \<open>NsoHeader\<close> are 32-bit, addresses and sizes 64-bit, and sums
  wrap at the width they are computed in. The program version check is compiled only with
  \<open>LDR_VALIDATE_PROCESS_VERSION\<close>, which no build file defines.
\<close>

definition SystemResourceSizeMax :: u32 where "SystemResourceSizeMax = 0x1FE00000"
definition Nso_Rtld :: nat where "Nso_Rtld = 0"
definition Nso_Main :: nat where "Nso_Main = 1"
definition Nso_Count :: nat where "Nso_Count = 13"

record nso_segment =
  file_offset :: u32
  dst_offset :: u32
  seg_size :: u32

record nso_header =
  text_segment :: nso_segment
  ro_segment :: nso_segment
  rw_segment :: nso_segment
  bss_size :: u32
  text_compressed_size :: u32
  ro_compressed_size :: u32
  rw_compressed_size :: u32
  text_hash :: "u8 list"
  ro_hash :: "u8 list"
  rw_hash :: "u8 list"
  nso_flags :: u32
  build_id :: "u8 list"

definition segment_zero :: nso_segment where
  "segment_zero = \<lparr>file_offset = 0, dst_offset = 0, seg_size = 0\<rparr>"

definition nso_header_zero :: nso_header where
  "nso_header_zero =
     \<lparr>text_segment = segment_zero, ro_segment = segment_zero, rw_segment = segment_zero, bss_size = 0,
      text_compressed_size = 0, ro_compressed_size = 0, rw_compressed_size = 0,
      text_hash = replicate 32 0, ro_hash = replicate 32 0, rw_hash = replicate 32 0,
      nso_flags = 0, build_id = replicate 32 0\<rparr>"

record process_layout =
  layout_args_address :: u64
  layout_args_size :: u64
  nso_address :: "u64 list"
  nso_size :: "u64 list"

record create_process_parameter =
  cp_name :: "u8 list"
  cp_version :: u32
  cp_program_id :: u64
  cp_reslimit :: u32
  cp_flags :: u32
  cp_system_resource_num_pages :: u32
  cp_code_address :: u64
  cp_code_num_pages :: u32

datatype mount_name = AtmosphereCodeMountName | SdOrCodeMountName | CodeMountName

datatype ldr_perm = Perm_Rx | Perm_R | Perm_Rw

record ldr_consts =
  MetaFlag_Is64Bit :: u8
  MetaFlag_AddressSpaceTypeMask :: u8
  MetaFlag_AddressSpaceTypeShift :: nat
  MetaFlag_OptimizeMemoryAllocation :: u8
  AddressSpaceType_32Bit :: u8
  AddressSpaceType_64BitDeprecated :: u8
  AddressSpaceType_32BitWithoutAlias :: u8
  AddressSpaceType_64Bit :: u8
  AcidFlag_PoolPartitionMask :: u32
  AcidFlag_PoolPartitionShift :: nat
  AcidFlag_DeprecatedUseSecureMemory :: u32
  PoolPartition_Application :: u32
  PoolPartition_Applet :: u32
  PoolPartition_System :: u32
  PoolPartition_SystemNonSecure :: u32
  Ldr_EnableDebug :: u32
  Ldr_DisableAslr :: u32
  ProgramInfoFlag_Application :: u16
  ProgramInfoFlag_Applet :: u16
  Cp_Is64Bit :: u32
  Cp_AddressSpaceMask :: u32
  Cp_AddressSpace32Bit :: u32
  Cp_AddressSpace64BitDeprecated :: u32
  Cp_AddressSpace32BitWithoutAlias :: u32
  Cp_AddressSpace64Bit :: u32
  Cp_EnableDebug :: u32
  Cp_EnableAslr :: u32
  Cp_IsApplication :: u32
  Cp_OptimizeMemoryAllocation :: u32
  Cp_PoolPartitionApplication :: u32
  Cp_PoolPartitionApplet :: u32
  Cp_PoolPartitionSystem :: u32
  Cp_PoolPartitionSystemNonSecure :: u32
  Cp_DeprecatedUseSecureMemory :: u32
  NsoFlag_CompressedText :: u32
  NsoFlag_CompressedRo :: u32
  NsoFlag_CompressedRw :: u32
  NsoFlag_CheckHashText :: u32
  NsoFlag_CheckHashRo :: u32
  NsoFlag_CheckHashRw :: u32
  MemoryBlockUnitSize :: u64
  AslrBase32Bit :: u64
  AslrSize32Bit :: u64
  AslrBase64BitDeprecated :: u64
  AslrSize64BitDeprecated :: u64
  AslrBase64Bit :: u64
  AslrSize64Bit :: u64

record ('r, 'f, 'o, 'k) ldr_env =
  env_meta :: "('r, 'f, 'o, 'k) meta_env"
  env_consts :: ldr_consts
  env_ge_2_0_0 :: bool
  env_ge_3_0_0 :: bool
  env_ge_4_0_0 :: bool
  env_ac_buffer_size :: u64
  env_sizeof_nso_header :: u64
  env_read_nso_header :: "'k \<Rightarrow> 'f \<Rightarrow> 'r + u64 \<times> nso_header"
  env_read_file :: "'k \<Rightarrow> 'f \<Rightarrow> u64 \<Rightarrow> u64 \<Rightarrow> u64 \<Rightarrow> ('r + u64) \<times> 'k"
    \<comment> \<open>offset, address, size; the size read\<close>
  env_decompress_lz4 :: "'k \<Rightarrow> u64 \<Rightarrow> u64 \<Rightarrow> u64 \<Rightarrow> u64 \<Rightarrow> int \<times> 'k"
  env_hash_memory :: "'k \<Rightarrow> u64 \<Rightarrow> u64 \<Rightarrow> u8 list"
  env_clear_memory :: "'k \<Rightarrow> u64 \<Rightarrow> u64 \<Rightarrow> 'k"
  env_write_args :: "'k \<Rightarrow> u64 \<Rightarrow> u64 \<Rightarrow> nat \<Rightarrow> u8 list \<Rightarrow> 'k"
  env_apply_ips :: "'k \<Rightarrow> u8 list \<Rightarrow> u64 \<Rightarrow> u64 \<Rightarrow> u64 \<Rightarrow> 'k"
  env_locate_space :: "'k \<Rightarrow> u64 \<Rightarrow> ('r + u64) \<times> 'k"
  env_map_process :: "'k \<Rightarrow> u64 \<Rightarrow> u32 \<Rightarrow> u64 \<Rightarrow> u64 \<Rightarrow> ('r + unit) \<times> 'k"
  env_close_map :: "'k \<Rightarrow> u64 \<Rightarrow> u32 \<Rightarrow> u64 \<Rightarrow> u64 \<Rightarrow> 'k"
  env_set_permission :: "'k \<Rightarrow> u32 \<Rightarrow> u64 \<Rightarrow> u64 \<Rightarrow> ldr_perm \<Rightarrow> ('r + unit) \<times> 'k"
  env_random_u64 :: "'k \<Rightarrow> u64 \<Rightarrow> u64 \<times> 'k"
  env_create_process :: "'k \<Rightarrow> create_process_parameter \<Rightarrow> u32 list \<Rightarrow> ('r + u32) \<times> 'k"
  env_close_handle :: "'k \<Rightarrow> u32 \<Rightarrow> 'k"
  env_process_id_of :: "'k \<Rightarrow> u32 \<Rightarrow> u64"
  env_is_program_specific :: "'o \<Rightarrow> bool"
  env_capture_override_status :: "'k \<Rightarrow> u64 \<Rightarrow> 'o \<times> 'k"
  env_mount_ams_code :: "'k \<Rightarrow> u8 list \<Rightarrow> u64 \<Rightarrow> bool \<Rightarrow> bool \<Rightarrow> ('r + unit) \<times> 'k"
  env_mount_sd_or_code :: "'k \<Rightarrow> u8 list \<Rightarrow> u64 \<Rightarrow> ('r + unit) \<times> 'k"
  env_mount_base_code :: "'k \<Rightarrow> u8 list \<Rightarrow> u64 \<Rightarrow> ('r + unit) \<times> 'k"
  env_unmount :: "'k \<Rightarrow> mount_name \<Rightarrow> 'k"
  env_open_registered_resolver :: "'k \<Rightarrow> ('r + unit) \<times> 'k"
  env_registered_path :: "'k \<Rightarrow> u64 \<Rightarrow> 'r + u8 list"
  env_program_not_found :: "'r \<Rightarrow> bool"
  env_open_resolver :: "'k \<Rightarrow> u8 \<Rightarrow> ('r + unit) \<times> 'k"
  env_program_path :: "'k \<Rightarrow> u8 \<Rightarrow> u64 \<Rightarrow> 'r + u8 list"
  env_redirect_program :: "'k \<Rightarrow> u8 \<Rightarrow> u8 list \<Rightarrow> u64 \<Rightarrow> 'k"
  env_html_path :: "'k \<Rightarrow> u8 \<Rightarrow> u64 \<Rightarrow> 'r + u8 list"
  env_redirect_html :: "'k \<Rightarrow> u8 \<Rightarrow> u8 list \<Rightarrow> u64 \<Rightarrow> u64 \<Rightarrow> 'k"
  env_entry_name_max :: nat
  env_lr_path_size :: nat
  env_separator :: u8
  env_alternate_separator :: u8
  env_create_external_code :: "'k \<Rightarrow> u64 \<Rightarrow> ('r + u32) \<times> 'k"
  env_destroy_external_code :: "'k \<Rightarrow> u64 \<Rightarrow> 'k"

record ('o, 'k) ldr_state = "('o, 'k) meta_state" +
  g_has_nso :: "bool list"
  g_nso_headers :: "nso_header list"
  argument_infos :: "argument_info list"
  launched_programs :: "u64 set"
  ro :: "(program_location, 'o) ro_manager"

subsection \<open>Metadata\<close>

definition ValidateProgramVersion :: "u64 \<Rightarrow> u32 \<Rightarrow> ('r ldr_error, unit) outcome" where
  "ValidateProgramVersion program_id version = Ok ()"

record program_info =
  pi_main_thread_priority :: u8
  pi_default_cpu_id :: u8
  pi_main_thread_stack_size :: u32
  pi_program_id :: u64
  pi_acid_sac_size :: u32
  pi_aci_sac_size :: u32
  pi_acid_fac_size :: u32
  pi_aci_fah_size :: u32
  pi_ac_buffer :: "u8 list"
  pi_flags :: u16

text \<open>\<open>COPY_ACCESS_CONTROL\<close>: the next blob is appended if it fits; \<open>offset\<close> is what is used.\<close>

definition copy_access_control ::
  "u64 \<Rightarrow> u32 \<Rightarrow> u8 list \<Rightarrow> u64 \<times> u8 list \<Rightarrow> ('r ldr_error, u64 \<times> u8 list) outcome" where
  "copy_access_control buffer_size size' blob = (\<lambda>(offset, buf).
     if offset + ucast size' \<le> buffer_size
     then Ok (offset + ucast size', buf @ take (unat size') blob)
     else Err ResultInternalError)"

definition GetProgramInfoFromMeta ::
  "('r, 'f, 'o, 'k) ldr_env \<Rightarrow> meta_contents \<Rightarrow> ('r ldr_error, program_info) outcome" where
  "GetProgramInfoFromMeta env m = fst (
     let copy = copy_access_control (env_ac_buffer_size env)
     in R_TRY (copy (acid_sac_size m) (acid_sac m) (0, [])) () (\<lambda>b.
        R_TRY (copy (aci_sac_size m) (aci_sac m) b) () (\<lambda>b.
        R_TRY (copy (acid_fac_size m) (acid_fac m) b) () (\<lambda>b.
        R_TRY (copy (aci_fah_size m) (aci_fah m) b) () (\<lambda>b.
        (Ok \<lparr>pi_main_thread_priority = main_thread_priority m, pi_default_cpu_id = default_cpu_id m,
             pi_main_thread_stack_size = main_thread_stack_size m, pi_program_id = aci_program_id m,
             pi_acid_sac_size = acid_sac_size m, pi_aci_sac_size = aci_sac_size m,
             pi_acid_fac_size = acid_fac_size m, pi_aci_fah_size = aci_fah_size m,
             pi_ac_buffer = snd b,
             pi_flags = GetProgramInfoFlags (env_caps (env_meta env)) (acid_kac m) (unat (acid_kac_size m))\<rparr>,
         ()))))))"

definition application_type :: "('r, 'f, 'o, 'k) ldr_env \<Rightarrow> meta_contents \<Rightarrow> u16" where
  "application_type env m =
     GetProgramInfoFlags (env_caps (env_meta env)) (aci_kac m) (unat (aci_kac_size m))
       AND ApplicationTypeMask (env_caps (env_meta env))"

definition IsApplet :: "('r, 'f, 'o, 'k) ldr_env \<Rightarrow> meta_contents \<Rightarrow> bool" where
  "IsApplet env m \<longleftrightarrow> application_type env m = ProgramInfoFlag_Applet (env_consts env)"

definition IsApplication :: "('r, 'f, 'o, 'k) ldr_env \<Rightarrow> meta_contents \<Rightarrow> bool" where
  "IsApplication env m \<longleftrightarrow> application_type env m = ProgramInfoFlag_Application (env_consts env)"

definition GetAddressSpaceType :: "('r, 'f, 'o, 'k) ldr_env \<Rightarrow> meta_contents \<Rightarrow> u8" where
  "GetAddressSpaceType env m =
     drop_bit (MetaFlag_AddressSpaceTypeShift (env_consts env))
       (npdm_flags m AND MetaFlag_AddressSpaceTypeMask (env_consts env))"

definition GetPoolPartition :: "('r, 'f, 'o, 'k) ldr_env \<Rightarrow> meta_contents \<Rightarrow> u32" where
  "GetPoolPartition env m =
     drop_bit (AcidFlag_PoolPartitionShift (env_consts env))
       (acid_flags m AND AcidFlag_PoolPartitionMask (env_consts env))"

definition ValidateMeta ::
  "('r, 'f, 'o, 'k) ldr_env \<Rightarrow> meta_contents \<Rightarrow> program_location \<Rightarrow> ('r ldr_error, unit) outcome" where
  "ValidateMeta env m loc = fst (
     R_TRY (ValidateProgramVersion (loc_program_id loc) (npdm_version m)) () (\<lambda>_.
     R_UNLESS (aci_program_id m \<ge> acid_program_id_min m) ResultInvalidProgramId () (
     R_UNLESS (aci_program_id m \<le> acid_program_id_max m) ResultInvalidProgramId () (
     case ValidateCapabilities (env_caps (env_meta env)) (acid_kac m) (unat (acid_kac_size m))
            (aci_kac m) (unat (aci_kac_size m)) of
       Inl e \<Rightarrow> (Err (CapsError e), ())
     | Inr _ \<Rightarrow> (Ok (), ())))))"

subsection \<open>NSO headers\<close>

text \<open>The headers go to the globals slot by slot; a failing read ends the loop.\<close>

fun load_nso_headers ::
  "('r, 'f, 'o, 'k) ldr_env \<Rightarrow> nat list \<Rightarrow> 'k \<Rightarrow> nso_header list \<times> bool list \<Rightarrow>
     ('r ldr_error, unit) outcome \<times> (nso_header list \<times> bool list) \<times> 'k" where
  "load_nso_headers env [] k hs = (Ok (), hs, k)"
| "load_nso_headers env (i # is) k (headers, has) =
     (case env_open_read (env_meta env) k (NsoPath i) of
        (Inl e, k) \<Rightarrow> load_nso_headers env is k (headers, has)
      | (Inr file, k) \<Rightarrow>
          (case env_read_nso_header env k file of
             Inl e \<Rightarrow> (Err (OsError e), (headers, has), env_close_file (env_meta env) k file)
           | Inr (read_size, h) \<Rightarrow>
               if read_size = env_sizeof_nso_header env
               then load_nso_headers env is (env_close_file (env_meta env) k file)
                      (headers[i := h], has[i := True])
               else (Err ResultInvalidNso, (headers[i := h], has), env_close_file (env_meta env) k file)))"

definition LoadNsoHeaders ::
  "('r, 'f, 'o, 'k) ldr_env \<Rightarrow> ('o, 'k) ldr_state \<Rightarrow> ('r ldr_error, unit) outcome \<times> ('o, 'k) ldr_state" where
  "LoadNsoHeaders env s =
     (case load_nso_headers env [0..<Nso_Count] (meta_fs s)
             (replicate Nso_Count nso_header_zero, replicate Nso_Count False) of
        (r, (headers, has), k) \<Rightarrow>
          (r, s\<lparr>g_nso_headers := headers, g_has_nso := has, meta_fs := k\<rparr>))"

definition ValidateNsoHeaders :: "nso_header list \<Rightarrow> bool list \<Rightarrow> ('r ldr_error, unit) outcome" where
  "ValidateNsoHeaders headers has =
     (if \<not> has ! Nso_Main then Err ResultInvalidNso
      else if \<not> has ! Nso_Rtld \<and> list_ex (\<lambda>i. has ! i) [Nso_Main + 1..<Nso_Count] then Err ResultInvalidNso
      else if list_ex (\<lambda>i. dst_offset (text_segment (headers ! i)) \<noteq> 0) [0..<Nso_Count] then Err ResultInvalidNso
      else Ok ())"

end
