(* ===== verification/LdrCreate.thy ===== *)
theory LdrCreate
  imports LdrProcess
begin

text \<open>
  Creating a process (\<open>loader/source/ldr_process_creation.cpp\<close>, from \<open>GetCreateProcessFlags\<close>
  on) and the commands of the loader service that create or describe one
  (\<open>ldr_loader_service.cpp\<close>).
\<close>

subsection \<open>Flags and parameters\<close>

definition address_space_flag :: "ldr_consts \<Rightarrow> u8 \<Rightarrow> u32 option" where
  "address_space_flag c t =
     (if t = AddressSpaceType_32Bit c then Some (Cp_AddressSpace32Bit c)
      else if t = AddressSpaceType_64BitDeprecated c then Some (Cp_AddressSpace64BitDeprecated c)
      else if t = AddressSpaceType_32BitWithoutAlias c then Some (Cp_AddressSpace32BitWithoutAlias c)
      else if t = AddressSpaceType_64Bit c then Some (Cp_AddressSpace64Bit c)
      else None)"

definition pool_partition_flag :: "ldr_consts \<Rightarrow> bool \<Rightarrow> u32 \<Rightarrow> u32 option" where
  "pool_partition_flag c is_applet p =
     (if p = PoolPartition_Application c then
        Some (if is_applet then Cp_PoolPartitionApplet c else Cp_PoolPartitionApplication c)
      else if p = PoolPartition_Applet c then Some (Cp_PoolPartitionApplet c)
      else if p = PoolPartition_System c then Some (Cp_PoolPartitionSystem c)
      else if p = PoolPartition_SystemNonSecure c then Some (Cp_PoolPartitionSystemNonSecure c)
      else None)"

definition GetCreateProcessFlags ::
  "('r, 'f, 'o, 'k) ldr_env \<Rightarrow> meta_contents \<Rightarrow> u32 \<Rightarrow> ('r ldr_error, u32) outcome" where
  "GetCreateProcessFlags env m ldr_flags =
     (let c = env_consts env;
          flags = (if npdm_flags m AND MetaFlag_Is64Bit c \<noteq> 0 then Cp_Is64Bit c else 0)
      in case address_space_flag c (GetAddressSpaceType env m) of
           None \<Rightarrow> Err ResultInvalidMeta
         | Some a \<Rightarrow>
             let flags = flags OR a;
                 flags = (if ldr_flags AND Ldr_EnableDebug c \<noteq> 0 then flags OR Cp_EnableDebug c else flags);
                 flags = (if ldr_flags AND Ldr_DisableAslr c = 0 then flags OR Cp_EnableAslr c else flags);
                 flags = (if IsApplication env m then
                            (let flags = flags OR Cp_IsApplication c
                             in if env_ge_7_0_0 (env_meta env) \<and>
                                   npdm_flags m AND MetaFlag_OptimizeMemoryAllocation c \<noteq> 0
                                then flags OR Cp_OptimizeMemoryAllocation c else flags)
                          else flags)
             in if env_ge_5_0_0 (env_meta env) then
                  (case pool_partition_flag c (IsApplet env m) (GetPoolPartition env m) of
                     None \<Rightarrow> Err ResultInvalidMeta
                   | Some p \<Rightarrow> Ok (flags OR p))
                else if env_ge_4_0_0 env then
                  Ok (if acid_flags m AND AcidFlag_DeprecatedUseSecureMemory c \<noteq> 0
                      then flags OR Cp_DeprecatedUseSecureMemory c else flags)
                else Ok flags)"

definition parameter_zero :: create_process_parameter where
  "parameter_zero =
     \<lparr>cp_name = replicate 12 0, cp_version = 0, cp_program_id = 0, cp_reslimit = 0, cp_flags = 0,
      cp_system_resource_num_pages = 0, cp_code_address = 0, cp_code_num_pages = 0\<rparr>"

definition GetCreateProcessParameter ::
  "('r, 'f, 'o, 'k) ldr_env \<Rightarrow> meta_contents \<Rightarrow> u32 \<Rightarrow> u32 \<Rightarrow>
     ('r ldr_error, create_process_parameter) outcome" where
  "GetCreateProcessParameter env m flags reslimit_h = fst (
     let c = env_consts env;
         out = parameter_zero\<lparr>cp_name := take 11 (program_name m) @ [0], cp_version := npdm_version m,
                 cp_program_id := aci_program_id m, cp_reslimit := reslimit_h\<rparr>
     in R_TRY (GetCreateProcessFlags env m flags) () (\<lambda>f.
        let out = out\<lparr>cp_flags := f\<rparr>; sz = system_resource_size m
        in if env_ge_3_0_0 env then
             R_UNLESS ((ucast sz :: u64) mod MemoryBlockUnitSize c = 0) ResultInvalidSize () (
             R_UNLESS (sz = 0 \<or> f AND Cp_AddressSpace64Bit c \<noteq> 0) ResultInvalidMeta () (
             R_UNLESS (sz = 0 \<or> IsApplication env m \<or> IsApplet env m) ResultInvalidMeta () (
             R_UNLESS (sz = 0 \<or> sz \<le> SystemResourceSizeMax) ResultInvalidMeta () (
             (Ok (out\<lparr>cp_system_resource_num_pages := drop_bit 12 sz\<rparr>), ())))))
           else (Ok out, ())))"

subsection \<open>Address space layout\<close>

definition page_up :: "u64 \<Rightarrow> u64" where
  "page_up x = (x + 0xFFF) AND NOT 0xFFF"

text \<open>The size of one NSO: its sums are 32-bit, the rounding 64-bit.\<close>

definition nso_extent :: "nso_header \<Rightarrow> u64" where
  "nso_extent h =
     (let text_end = ucast (dst_offset (text_segment h) + seg_size (text_segment h)) :: u64;
          ro_end = ucast (dst_offset (ro_segment h) + seg_size (ro_segment h));
          rw_end = ucast (dst_offset (rw_segment h) + seg_size (rw_segment h) + bss_size h)
      in page_up (max (max text_end ro_end) rw_end))"

definition args_extent :: "argument_info \<Rightarrow> u64" where
  "args_extent a = page_up (2 * of_nat (args_size a) + of_nat ArgumentSizeMax + 8)"

text \<open>
  The loop over the NSOs: each gets the next offset; the arguments follow the first one that
  is present. The result is the layout relative to the start, and the total size.
\<close>

definition layout_step ::
  "nso_header list \<Rightarrow> bool list \<Rightarrow> argument_info option \<Rightarrow> nat \<Rightarrow>
     process_layout \<times> u64 \<Rightarrow> process_layout \<times> u64" where
  "layout_step headers has arg_info i = (\<lambda>(out, total_size).
     if has ! i then
       (let out = out\<lparr>nso_address := (nso_address out)[i := total_size],
                      nso_size := (nso_size out)[i := nso_extent (headers ! i)]\<rparr>;
            total_size = total_size + nso_extent (headers ! i)
        in case arg_info of
             Some a \<Rightarrow>
               if args_size a \<noteq> 0 \<and> layout_args_size out = 0
               then (out\<lparr>layout_args_address := total_size, layout_args_size := args_extent a\<rparr>,
                     total_size + args_extent a)
               else (out, total_size)
           | None \<Rightarrow> (out, total_size))
     else (out, total_size))"

definition layout_zero :: process_layout where
  "layout_zero =
     \<lparr>layout_args_address = 0, layout_args_size = 0, nso_address = replicate Nso_Count 0,
      nso_size = replicate Nso_Count 0\<rparr>"

definition layout_offsets ::
  "nso_header list \<Rightarrow> bool list \<Rightarrow> argument_info option \<Rightarrow> process_layout \<times> u64" where
  "layout_offsets headers has arg_info =
     fold (layout_step headers has arg_info) [0..<Nso_Count] (layout_zero, 0)"

definition aslr_region :: "('r, 'f, 'o, 'k) ldr_env \<Rightarrow> u32 \<Rightarrow> (u64 \<times> u64) option" where
  "aslr_region env flags =
     (let c = env_consts env; space = flags AND Cp_AddressSpaceMask c
      in if env_ge_2_0_0 env then
           (if space = Cp_AddressSpace32Bit c \<or> space = Cp_AddressSpace32BitWithoutAlias c
            then Some (AslrBase32Bit c, AslrSize32Bit c)
            else if space = Cp_AddressSpace64BitDeprecated c
            then Some (AslrBase64BitDeprecated c, AslrSize64BitDeprecated c)
            else if space = Cp_AddressSpace64Bit c
            then Some (AslrBase64Bit c, AslrSize64Bit c)
            else None)
         else if flags AND Cp_AddressSpace64BitDeprecated c \<noteq> 0
         then Some (AslrBase64BitDeprecated c, AslrSize64BitDeprecated c)
         else Some (AslrBase32Bit c, AslrSize32Bit c))"

definition DecideAddressSpaceLayout ::
  "('r, 'f, 'o, 'k) ldr_env \<Rightarrow> create_process_parameter \<Rightarrow> nso_header list \<Rightarrow> bool list \<Rightarrow>
     argument_info option \<Rightarrow> 'k \<Rightarrow>
     ('r ldr_error, process_layout \<times> create_process_parameter) outcome \<times> 'k" where
  "DecideAddressSpaceLayout env param headers has arg_info k =
     (let c = env_consts env; (out, total_size) = layout_offsets headers has arg_info
      in case aslr_region env (cp_flags param) of
           None \<Rightarrow> (Abort, k)
         | Some (aslr_start, aslr_size) \<Rightarrow>
             R_UNLESS (total_size \<le> aslr_size) ResultOutOfMemory k (
             let free_size = aslr_size - total_size;
                 (r, k) = (if cp_flags param AND Cp_EnableAslr c \<noteq> 0
                           then env_random_u64 env k (free_size div MemoryBlockUnitSize c) else (0, k));
                 aslr_slide = r * MemoryBlockUnitSize c;
                 aslr_start = aslr_start + aslr_slide;
                 out = out\<lparr>nso_address := map (\<lambda>(b, a). if b then a + aslr_start else a) (zip has (nso_address out)),
                           layout_args_address := (if layout_args_address out \<noteq> 0
                                                   then layout_args_address out + aslr_start
                                                   else layout_args_address out)\<rparr>
             in (Ok (out, param\<lparr>cp_code_address := aslr_start,
                                cp_code_num_pages := ucast (drop_bit 12 total_size)\<rparr>), k)))"

definition CreateProcessImpl ::
  "('r, 'f, 'o, 'k) ldr_env \<Rightarrow> meta_contents \<Rightarrow> nso_header list \<Rightarrow> bool list \<Rightarrow> argument_info option \<Rightarrow>
     u32 \<Rightarrow> u32 \<Rightarrow> 'k \<Rightarrow> ('r ldr_error, u32 \<times> process_layout) outcome \<times> 'k" where
  "CreateProcessImpl env m headers has arg_info flags reslimit_h k =
     R_TRY (GetCreateProcessParameter env m flags reslimit_h) k (\<lambda>param.
     let (r, k) = DecideAddressSpaceLayout env param headers has arg_info k
     in R_TRY r k (\<lambda>(layout, param).
        let (r, k) = env_create_process env k param (caps_of (aci_kac m) (unat (aci_kac_size m)))
        in R_TRY (os_result r) k (\<lambda>h. (Ok (h, layout), k))))"

end
