(* ===== verification/LdrMount.thy ===== *)
theory LdrMount
  imports LdrProcess
begin

text \<open>
  Code mounts and content paths (\<open>loader/source/ldr_content_management.cpp\<close>): the three file
  systems that \<open>ScopedCodeMount\<close> mounts and its destructor unmounts, and the lookups and
  redirections of paths with the location resolvers. A path is its bytes up to the terminator.
\<close>

record 'o code_mount =
  mount_status :: "'o option"
  mounted_ams :: bool
  mounted_sd_or_code :: bool
  mounted_code :: bool

text \<open>What \<open>strncpy\<close> into a buffer of \<open>n\<close> bytes leaves before the terminator at its end.\<close>

definition c_string :: "nat \<Rightarrow> u8 list \<Rightarrow> u8 list" where
  "c_string n s = take (n - 1) (takeWhile (\<lambda>b. b \<noteq> 0) s)"

definition replace_byte :: "u8 \<Rightarrow> u8 \<Rightarrow> u8 list \<Rightarrow> u8 list" where
  "replace_byte old new s = map (\<lambda>b. if b = old then new else b) s"

definition ResolveContentPath ::
  "('r, 'f, 'o, 'k) ldr_env \<Rightarrow> program_location \<Rightarrow> 'k \<Rightarrow> ('r ldr_error, u8 list) outcome \<times> 'k" where
  "ResolveContentPath env loc k =
     (let (r, k) = env_open_registered_resolver env k
      in R_TRY (os_result r) k (\<lambda>_.
         let (r, k) =
               (case env_registered_path env k (loc_program_id loc) of
                  Inl e \<Rightarrow>
                    if env_program_not_found env e then
                      (let (r, k) = env_open_resolver env k (loc_storage_id loc)
                       in R_TRY (os_result r) k (\<lambda>_.
                          (os_result (env_program_path env k (loc_storage_id loc) (loc_program_id loc)), k)))
                    else (Err (OsError e), k)
                | Inr path \<Rightarrow> (Ok path, k))
         in R_TRY r k (\<lambda>path.
            (Ok (replace_byte (env_alternate_separator env) (env_separator env)
                   (c_string (env_entry_name_max env) path)), k))))"

definition RedirectContentPath ::
  "('r, 'f, 'o, 'k) ldr_env \<Rightarrow> u8 list \<Rightarrow> program_location \<Rightarrow> 'k \<Rightarrow> ('r ldr_error, unit) outcome \<times> 'k" where
  "RedirectContentPath env path loc k =
     (let lr_path = c_string (env_lr_path_size env) path;
          (r, k) = env_open_resolver env k (loc_storage_id loc)
      in R_TRY (os_result r) k (\<lambda>_.
         (Ok (), env_redirect_program env k (loc_storage_id loc) lr_path (loc_program_id loc))))"

definition RedirectHtmlDocumentPathForHbl ::
  "('r, 'f, 'o, 'k) ldr_env \<Rightarrow> program_location \<Rightarrow> 'k \<Rightarrow> ('r ldr_error, unit) outcome \<times> 'k" where
  "RedirectHtmlDocumentPathForHbl env loc k =
     (let (r, k) = env_open_resolver env k (loc_storage_id loc)
      in R_TRY (os_result r) k (\<lambda>_.
         case env_html_path env k (loc_storage_id loc) (loc_program_id loc) of
           Inr path \<Rightarrow> (Ok (), k)
         | Inl e \<Rightarrow>
             R_TRY (os_result (env_program_path env k (loc_storage_id loc) (loc_program_id loc))) k (\<lambda>path.
             (Ok (), env_redirect_html env k (loc_storage_id loc) path (loc_program_id loc) (loc_program_id loc)))))"

subsection \<open>The scoped mount\<close>

definition EnsureOverrideStatus ::
  "('r, 'f, 'o, 'k) ldr_env \<Rightarrow> program_location \<Rightarrow> 'o code_mount \<times> 'k \<Rightarrow> 'o code_mount \<times> 'k" where
  "EnsureOverrideStatus env loc = (\<lambda>(m, k).
     case mount_status m of
       Some status \<Rightarrow> (m, k)
     | None \<Rightarrow>
         let (status, k) = env_capture_override_status env k (loc_program_id loc)
         in (m\<lparr>mount_status := Some status\<rparr>, k))"

definition ScopedCodeMount_Initialize ::
  "('r, 'f, 'o, 'k) ldr_env \<Rightarrow> program_location \<Rightarrow> 'o code_mount \<times> 'k \<Rightarrow>
     ('r ldr_error, unit) outcome \<times> 'o code_mount \<times> 'k" where
  "ScopedCodeMount_Initialize env loc mk =
     (let (m, k) = EnsureOverrideStatus env loc mk
      in case mount_status m of
           None \<Rightarrow> (Abort, (m, k))
         | Some status \<Rightarrow>
             let (r, k) = (if loc_storage_id loc \<noteq> env_storage_none (env_meta env)
                           then ResolveContentPath env loc k else (Ok [0x2F], k))
             in R_TRY r (m, k) (\<lambda>path.
                let (r, k) = env_mount_ams_code env k path (loc_program_id loc)
                               (env_is_hbl (env_meta env) status) (env_is_program_specific env status)
                in R_TRY (os_result r) (m, k) (\<lambda>_.
                   let m = m\<lparr>mounted_ams := True\<rparr>;
                       (r, k) = env_mount_sd_or_code env k path (loc_program_id loc)
                   in R_TRY (os_result r) (m, k) (\<lambda>_.
                      let m = m\<lparr>mounted_sd_or_code := True\<rparr>;
                          (r, k) = env_mount_base_code env k path (loc_program_id loc)
                      in (Ok (), (m\<lparr>mounted_code := (case r of Inr _ \<Rightarrow> True | Inl _ \<Rightarrow> mounted_code m)\<rparr>, k))))))"

definition ScopedCodeMount_fresh :: "'o option \<Rightarrow> 'o code_mount" where
  "ScopedCodeMount_fresh status =
     \<lparr>mount_status = status, mounted_ams = False, mounted_sd_or_code = False, mounted_code = False\<rparr>"

definition ScopedCodeMount_destroy ::
  "('r, 'f, 'o, 'k) ldr_env \<Rightarrow> 'o code_mount \<Rightarrow> 'k \<Rightarrow> 'k" where
  "ScopedCodeMount_destroy env m k =
     (let k = (if mounted_ams m then env_unmount env k AtmosphereCodeMountName else k);
          k = (if mounted_sd_or_code m then env_unmount env k SdOrCodeMountName else k)
      in if mounted_code m then env_unmount env k CodeMountName else k)"

subsection \<open>What a mount holds\<close>

lemma c_string_props: "0 \<notin> set (c_string n s)" "length (c_string n s) \<le> n - 1"
  unfolding c_string_def by (auto dest!: in_set_takeD set_takeWhileD)

text \<open>
  A mount that succeeded has the two file systems of the loader; one that failed has only
  those that were mounted before the failing step, in the order of the mounts.
\<close>

lemma Initialize_mounts:
  assumes "ScopedCodeMount_Initialize env loc (ScopedCodeMount_fresh status, k) = (r, (m, k'))"
  shows "(r = Ok () \<longrightarrow> mounted_ams m \<and> mounted_sd_or_code m) \<and>
    (r \<noteq> Ok () \<longrightarrow> \<not> mounted_sd_or_code m \<and> \<not> mounted_code m) \<and>
    mount_status m \<noteq> None \<and> (status \<noteq> None \<longrightarrow> mount_status m = status)"
  using assms
  unfolding ScopedCodeMount_Initialize_def EnsureOverrideStatus_def ScopedCodeMount_fresh_def
  by (cases status)
    (auto simp: Let_def R_TRY_def split: prod.splits outcome.splits if_splits)

end
