(* ===== verification/LdrLoad.thy ===== *)
theory LdrLoad
  imports LdrCreate LdrMount
begin

text \<open>
  Loading the NSOs and the arguments into a created process, and the commands
  \<open>CreateProcess\<close> and \<open>GetProgramInfo\<close> (\<open>loader/source/ldr_process_creation.cpp\<close>,
  \<open>ldr_loader_service.cpp\<close>).
\<close>

subsection \<open>Segments\<close>

definition LoadNsoSegment ::
  "('r, 'f, 'o, 'k) ldr_env \<Rightarrow> 'f \<Rightarrow> nso_segment \<Rightarrow> u64 \<Rightarrow> u8 list \<Rightarrow> bool \<Rightarrow> bool \<Rightarrow> u64 \<Rightarrow> u64 \<Rightarrow> 'k \<Rightarrow>
     ('r ldr_error, unit) outcome \<times> 'k" where
  "LoadNsoSegment env file segment file_size file_hash is_compressed check_hash map_base map_end k =
     (let seg_sz = ucast (seg_size segment) :: u64;
          file_size = (if is_compressed then file_size else seg_sz)
      in R_UNLESS (file_size \<le> seg_sz) ResultInvalidNso k (
         R_UNLESS (seg_sz \<le> 0x7FFFFFFF) ResultInvalidNso k (
         let load_address = (if is_compressed then map_end - file_size else map_base);
             (r, k) = env_read_file env k file (ucast (file_offset segment)) load_address file_size
         in R_TRY (os_result r) k (\<lambda>read_size.
            R_UNLESS (read_size = file_size) ResultInvalidNso k (
            let (decompressed, k) =
                  (if is_compressed
                   then (let (n, k) = env_decompress_lz4 env k map_base seg_sz load_address file_size
                         in (n = uint seg_sz, k))
                   else (True, k))
            in R_UNLESS decompressed ResultInvalidNso k (
               R_UNLESS (\<not> check_hash \<or> env_hash_memory env k map_base seg_sz = file_hash)
                 ResultInvalidNso k (
               (Ok (), k))))))))"

text \<open>
  The gaps behind the sections are cleared; their sizes are 64-bit differences of the ends,
  which are 32-bit sums.
\<close>

definition clear_unused :: "('r, 'f, 'o, 'k) ldr_env \<Rightarrow> u64 \<Rightarrow> nso_header \<Rightarrow> 'k \<Rightarrow> 'k" where
  "clear_unused env map_address h k =
     (let text_end = ucast (dst_offset (text_segment h) + seg_size (text_segment h)) :: u64;
          ro_end = ucast (dst_offset (ro_segment h) + seg_size (ro_segment h));
          rw_end = ucast (dst_offset (rw_segment h) + seg_size (rw_segment h));
          k = env_clear_memory env k map_address (ucast (dst_offset (text_segment h)));
          k = env_clear_memory env k (map_address + text_end) (ucast (dst_offset (ro_segment h)) - text_end);
          k = env_clear_memory env k (map_address + ro_end) (ucast (dst_offset (rw_segment h)) - ro_end)
      in env_clear_memory env k (map_address + rw_end) (ucast (bss_size h)))"

text \<open>The part of \<open>LoadNsoIntoProcessMemory\<close> that runs while the region is mapped.\<close>

definition load_mapped_nso ::
  "('r, 'f, 'o, 'k) ldr_env \<Rightarrow> 'f \<Rightarrow> u64 \<Rightarrow> nso_header \<Rightarrow> u64 \<Rightarrow> u64 \<Rightarrow> 'k \<Rightarrow>
     ('r ldr_error, unit) outcome \<times> 'k" where
  "load_mapped_nso env file map_address h nso_sz program_id k =
     (let c = env_consts env; flag = (\<lambda>f. nso_flags h AND f \<noteq> 0);
          base = (\<lambda>seg. map_address + ucast (dst_offset seg)); end' = map_address + nso_sz;
          (r, k) = LoadNsoSegment env file (text_segment h) (ucast (text_compressed_size h)) (text_hash h)
                     (flag (NsoFlag_CompressedText c)) (flag (NsoFlag_CheckHashText c)) (base (text_segment h)) end' k
      in R_TRY r k (\<lambda>_.
         let (r, k) = LoadNsoSegment env file (ro_segment h) (ucast (ro_compressed_size h)) (ro_hash h)
                        (flag (NsoFlag_CompressedRo c)) (flag (NsoFlag_CheckHashRo c)) (base (ro_segment h)) end' k
         in R_TRY r k (\<lambda>_.
            let (r, k) = LoadNsoSegment env file (rw_segment h) (ucast (rw_compressed_size h)) (rw_hash h)
                           (flag (NsoFlag_CompressedRw c)) (flag (NsoFlag_CheckHashRw c)) (base (rw_segment h)) end' k
            in R_TRY r k (\<lambda>_.
               (Ok (), env_apply_ips env (clear_unused env map_address h k) (build_id h) map_address nso_sz program_id)))))"

definition set_permission ::
  "('r, 'f, 'o, 'k) ldr_env \<Rightarrow> u32 \<Rightarrow> u64 \<Rightarrow> u64 \<Rightarrow> ldr_perm \<Rightarrow> 'k \<Rightarrow> ('r ldr_error, unit) outcome \<times> 'k" where
  "set_permission env h address size' p k =
     (if size' \<noteq> 0 then (let (r, k) = env_set_permission env k h address size' p in (os_result r, k))
      else (Ok (), k))"

definition LoadNsoIntoProcessMemory ::
  "('r, 'f, 'o, 'k) ldr_env \<Rightarrow> u32 \<Rightarrow> 'f \<Rightarrow> u64 \<Rightarrow> nso_header \<Rightarrow> u64 \<Rightarrow> u64 \<Rightarrow> u64 \<Rightarrow> 'k \<Rightarrow>
     ('r ldr_error, unit) outcome \<times> 'k" where
  "LoadNsoIntoProcessMemory env process_handle file map_address h nso_addr nso_sz program_id k =
     (let (r, k) = env_map_process env k map_address process_handle nso_addr nso_sz
      in R_TRY (os_result r) k (\<lambda>_.
         let (r, k) = load_mapped_nso env file map_address h nso_sz program_id k;
             k = env_close_map env k map_address process_handle nso_addr nso_sz
         in R_TRY r k (\<lambda>_.
            let text_size = page_up (ucast (seg_size (text_segment h)));
                ro_size = page_up (ucast (seg_size (ro_segment h)));
                rw_size = page_up (ucast (seg_size (rw_segment h) + bss_size h));
                (r, k) = set_permission env process_handle (nso_addr + ucast (dst_offset (text_segment h))) text_size Perm_Rx k
            in R_TRY r k (\<lambda>_.
               let (r, k) = set_permission env process_handle (nso_addr + ucast (dst_offset (ro_segment h))) ro_size Perm_R k
               in R_TRY r k (\<lambda>_.
                  set_permission env process_handle (nso_addr + ucast (dst_offset (rw_segment h))) rw_size Perm_Rw k)))))"

fun load_nsos ::
  "('r, 'f, 'o, 'k) ldr_env \<Rightarrow> u32 \<Rightarrow> process_layout \<Rightarrow> nso_header list \<Rightarrow> bool list \<Rightarrow> u64 \<Rightarrow> nat list \<Rightarrow> 'k \<Rightarrow>
     ('r ldr_error, unit) outcome \<times> 'k" where
  "load_nsos env h layout headers has program_id [] k = (Ok (), k)"
| "load_nsos env h layout headers has program_id (i # is) k =
     (if has ! i then
        (let (r, k) = env_open_read (env_meta env) k (NsoPath i)
         in R_TRY (os_result r) k (\<lambda>file.
            let (r, k) = env_locate_space env k (nso_size layout ! i)
            in R_TRY (os_result r) (env_close_file (env_meta env) k file) (\<lambda>map_address.
               let (r, k) = LoadNsoIntoProcessMemory env h file map_address (headers ! i)
                              (nso_address layout ! i) (nso_size layout ! i) program_id k;
                   k = env_close_file (env_meta env) k file
               in R_TRY r k (\<lambda>_. load_nsos env h layout headers has program_id is k))))
      else load_nsos env h layout headers has program_id is k)"

text \<open>The argument region is written whenever an argument entry exists, whatever its size.\<close>

definition load_arguments ::
  "('r, 'f, 'o, 'k) ldr_env \<Rightarrow> u32 \<Rightarrow> process_layout \<Rightarrow> argument_info \<Rightarrow> 'k \<Rightarrow>
     ('r ldr_error, unit) outcome \<times> 'k" where
  "load_arguments env h layout a k =
     (let address = layout_args_address layout; size' = layout_args_size layout;
          (r, k) = env_locate_space env k size'
      in R_TRY (os_result r) k (\<lambda>map_address.
         let (r, k) = env_map_process env k map_address h address size'
         in R_TRY (os_result r) k (\<lambda>_.
            let k = env_write_args env k map_address size' (args_size a) (take (args_size a) (args_bytes a));
                k = env_close_map env k map_address h address size';
                (r, k) = env_set_permission env k h address size' Perm_Rw
            in R_TRY (os_result r) k (\<lambda>_. (Ok (), k)))))"

definition LoadNsosIntoProcessMemory ::
  "('r, 'f, 'o, 'k) ldr_env \<Rightarrow> u32 \<Rightarrow> process_layout \<Rightarrow> nso_header list \<Rightarrow> bool list \<Rightarrow>
     argument_info option \<Rightarrow> u64 \<Rightarrow> 'k \<Rightarrow> ('r ldr_error, unit) outcome \<times> 'k" where
  "LoadNsosIntoProcessMemory env h layout headers has arg_info program_id k =
     (let (r, k) = load_nsos env h layout headers has program_id [0..<Nso_Count] k
      in R_TRY r k (\<lambda>_.
         case arg_info of None \<Rightarrow> (Ok (), k) | Some a \<Rightarrow> load_arguments env h layout a k))"

subsection \<open>Creating a process\<close>

text \<open>The results of the registrations are not looked at.\<close>

definition register_modules ::
  "u64 \<Rightarrow> process_layout \<Rightarrow> nso_header list \<Rightarrow> bool list \<Rightarrow> ('l, 'o) ro_manager \<Rightarrow> ('l, 'o) ro_manager" where
  "register_modules pin layout headers has m =
     fold (\<lambda>i m. if has ! i
                 then snd (RegisterModule pin (build_id (headers ! i)) (nso_address layout ! i) (nso_size layout ! i) m)
                 else m) [0..<Nso_Count] m"

definition with_fs :: "('k \<Rightarrow> 'k) \<Rightarrow> ('o, 'k) ldr_state \<Rightarrow> ('o, 'k) ldr_state" where
  "with_fs f s = s\<lparr>meta_fs := f (meta_fs s)\<rparr>"

text \<open>
  \<open>CreateProcess\<close> while the code is mounted. A failure after the process exists closes its
  handle.
\<close>

definition create_mounted ::
  "('r, 'f, 'o, 'k) ldr_env \<Rightarrow> u64 \<Rightarrow> program_location \<Rightarrow> 'o \<Rightarrow> u32 \<Rightarrow> u32 \<Rightarrow> argument_info option \<Rightarrow>
     ('o, 'k) ldr_state \<Rightarrow> ('r ldr_error, u32) outcome \<times> ('o, 'k) ldr_state" where
  "create_mounted env pin loc status flags reslimit_h arg_info s =
     (let (r, s) = LoadMetaFromCache (env_meta env) loc status s
      in R_TRY r s (\<lambda>cache.
         let m = meta_contents_of cache
         in R_TRY (if meta_set cache then ValidateMeta env m loc else Abort) s (\<lambda>_.
            let (r, s) = LoadNsoHeaders env s
            in R_TRY r s (\<lambda>_.
               R_TRY (ValidateNsoHeaders (g_nso_headers s) (g_has_nso s)) s (\<lambda>_.
               let headers = g_nso_headers s; has = g_has_nso s;
                   (r, k) = CreateProcessImpl env m headers has arg_info flags reslimit_h (meta_fs s);
                   s = s\<lparr>meta_fs := k\<rparr>
               in R_TRY r s (\<lambda>(h, layout).
                  let (r, k) = LoadNsosIntoProcessMemory env h layout headers has arg_info (loc_program_id loc) (meta_fs s);
                      s = s\<lparr>meta_fs := k\<rparr>
                  in R_TRY r (with_fs (\<lambda>k. env_close_handle env k h) s) (\<lambda>_.
                     let pid = env_process_id_of env (meta_fs s) h;
                         m = snd (RegisterPinnedProcess pin pid (loc_program_id loc) (ro s));
                         s = s\<lparr>ro := register_modules pin layout headers has m\<rparr>;
                         s = (if env_is_hbl (env_meta env) status
                              then with_fs (\<lambda>k. snd (RedirectHtmlDocumentPathForHbl env loc k)) s else s);
                         s = with_fs (\<lambda>k. env_destroy_external_code env k (loc_program_id loc)) s
                     in (Ok h, s\<lparr>launched_programs :=
                           SetLaunchedProgram (loc_program_id loc) (launched_programs s)\<rparr>))))))))"

definition CreateProcess ::
  "('r, 'f, 'o, 'k) ldr_env \<Rightarrow> u64 \<Rightarrow> program_location \<Rightarrow> 'o \<Rightarrow> u32 \<Rightarrow> u32 \<Rightarrow>
     ('o, 'k) ldr_state \<Rightarrow> ('r ldr_error, u32) outcome \<times> ('o, 'k) ldr_state" where
  "CreateProcess env pin loc status flags reslimit_h s =
     (let arg_info = GetArguments (loc_program_id loc) (argument_infos s);
          (r, (mount, k)) = ScopedCodeMount_Initialize env loc (ScopedCodeMount_fresh (Some status), meta_fs s);
          s = s\<lparr>meta_fs := k\<rparr>;
          (r, s) = R_TRY r s (\<lambda>_. create_mounted env pin loc status flags reslimit_h arg_info s)
      in (r, with_fs (ScopedCodeMount_destroy env mount) s))"

definition GetProgramInfo ::
  "('r, 'f, 'o, 'k) ldr_env \<Rightarrow> program_location \<Rightarrow> ('o, 'k) ldr_state \<Rightarrow>
     ('r ldr_error, program_info \<times> 'o) outcome \<times> ('o, 'k) ldr_state" where
  "GetProgramInfo env loc s =
     (let (r, (mount, k)) = ScopedCodeMount_Initialize env loc (ScopedCodeMount_fresh None, meta_fs s);
          s = s\<lparr>meta_fs := k\<rparr>;
          (r, s) = R_TRY r s (\<lambda>_.
             case mount_status mount of
               None \<Rightarrow> (Abort, s)
             | Some status \<Rightarrow>
                 let (r, s) = LoadMeta (env_meta env) loc status s
                 in R_TRY r s (\<lambda>cache. (Ok (cache, status), s)));
          s = with_fs (ScopedCodeMount_destroy env mount) s
      in R_TRY r s (\<lambda>(cache, status).
         R_TRY (GetProgramInfoFromMeta env (meta_contents_of cache)) s (\<lambda>info. (Ok (info, status), s))))"

end
