(* ===== verification/LdrLayout.thy ===== *)
theory LdrLayout
  imports LdrCreate
begin

text \<open>
  The address space layout of a process: the offsets that \<open>DecideAddressSpaceLayout\<close> hands out
  are page aligned, in the order of the NSOs, and overlap nowhere.
\<close>

subsection \<open>Extents\<close>

definition page_aligned :: "u64 \<Rightarrow> bool" where
  "page_aligned x \<longleftrightarrow> unat x mod 0x1000 = 0"

text \<open>Rounding up to a multiple of the page size.\<close>

lemma round_up:
  fixes n :: nat
  shows "n \<le> (n + 0xFFF) div 0x1000 * 0x1000" "(n + 0xFFF) div 0x1000 * 0x1000 < n + 0x1000"
  using div_mult_mod_eq [of "n + 0xFFF" "0x1000"] mod_less_divisor [of "0x1000" "n + 0xFFF"]
  by (linarith, simp)

lemma round_up_32: "n \<le> 0xFFFFFFFF \<Longrightarrow> (n + 0xFFF) div 0x1000 * 0x1000 \<le> (0x100000000 :: nat)"
  using div_le_mono [of "n + 0xFFF" "0xFFFFFFFF + 0xFFF" "0x1000"] by simp

lemma unat_page_up:
  assumes "unat x + 0xFFF < 2 ^ 64"
  shows "unat (page_up x) = (unat x + 0xFFF) div 0x1000 * 0x1000"
proof -
  have m: "(0xFFF :: u64) = mask 12" by (simp add: mask_eq_exp_minus_1)
  have "y AND NOT (mask 12) = push_bit 12 (drop_bit 12 y)" for y :: u64
    by (rule bit_word_eqI) (auto simp: bit_simps)
  then have "page_up x = push_bit 12 (drop_bit 12 (x + 0xFFF))"
    unfolding page_up_def by (metis m)
  then have "unat (page_up x) = unat (push_bit 12 (drop_bit 12 (x + 0xFFF)))" by simp
  also have "\<dots> = take_bit 64 (push_bit 12 (drop_bit 12 (unat (x + 0xFFF))))"
  proof -
    have "take_bit 64 (unat (x + 0xFFF)) = unat (x + 0xFFF)"
      using unsigned_less [of "x + 0xFFF", where ?'a = nat] by (simp add: take_bit_nat_eq_self)
    then show ?thesis by (simp add: unsigned_push_bit_eq unsigned_drop_bit_eq)
  qed
  also have "\<dots> = (unat x + 0xFFF) div 0x1000 * 0x1000"
  proof -
    have u: "unat (x + 0xFFF) = unat x + 0xFFF" using assms by (simp add: unat_word_ariths)
    have "(unat x + 0xFFF) div 0x1000 * 0x1000 < 2 ^ 64"
      using assms by (meson div_times_less_eq_dividend le_less_trans)
    then show ?thesis by (simp add: u push_bit_eq_mult drop_bit_eq_div take_bit_nat_eq_self)
  qed
  finally show ?thesis .
qed

lemma page_up_props:
  assumes "unat x \<le> 2 ^ 40"
  shows "unat x \<le> unat (page_up x)" "unat (page_up x) < unat x + 0x1000" "page_aligned (page_up x)"
proof -
  have e: "unat (page_up x) = (unat x + 0xFFF) div 0x1000 * 0x1000"
    using assms by (intro unat_page_up) simp
  show "unat x \<le> unat (page_up x)" using round_up(1) [of "unat x"] by (simp only: e)
  show "unat (page_up x) < unat x + 0x1000" using round_up(2) [of "unat x"] by (simp only: e)
  show "page_aligned (page_up x)" unfolding page_aligned_def e by simp
qed

lemma unat_ucast_32: "unat (ucast (x :: u32) :: u64) = unat x"
  using unsigned_less [of x, where ?'a = nat] by (simp add: unsigned_ucast_eq take_bit_nat_eq_self)

lemma unat_max: "unat (max x y) = max (unat x) (unat y)" for x y :: u64
  by (auto simp: max_def word_le_nat_alt)

text \<open>The end of a section as the code computes it.\<close>

definition section_end :: "nso_segment \<Rightarrow> nat" where
  "section_end g = unat (dst_offset g + seg_size g)"

lemma nso_extent_props:
  "section_end (text_segment h) \<le> unat (nso_extent h)" "section_end (ro_segment h) \<le> unat (nso_extent h)"
  "unat (dst_offset (rw_segment h) + seg_size (rw_segment h) + bss_size h) \<le> unat (nso_extent h)"
  "unat (nso_extent h) \<le> 2 ^ 32" "page_aligned (nso_extent h)"
proof -
  let ?x = "max (max (ucast (dst_offset (text_segment h) + seg_size (text_segment h)))
      (ucast (dst_offset (ro_segment h) + seg_size (ro_segment h))))
      (ucast (dst_offset (rw_segment h) + seg_size (rw_segment h) + bss_size h)) :: u64"
  have e: "nso_extent h = page_up ?x" by (simp add: nso_extent_def Let_def)
  have "unat ?x < 2 ^ 32"
    using unsigned_less [where ?'b = 32 and ?'a = nat] by (simp add: unat_max unat_ucast_32)
  then have le: "unat ?x \<le> 2 ^ 40" "unat ?x \<le> 2 ^ 32 - 1" by simp_all
  show "section_end (text_segment h) \<le> unat (nso_extent h)" "section_end (ro_segment h) \<le> unat (nso_extent h)"
    "unat (dst_offset (rw_segment h) + seg_size (rw_segment h) + bss_size h) \<le> unat (nso_extent h)"
    using page_up_props(1) [OF le(1)] by (simp_all add: e section_end_def unat_max unat_ucast_32)
  show "page_aligned (nso_extent h)" using page_up_props(3) [OF le(1)] by (simp add: e)
  have "unat (page_up ?x) = (unat ?x + 0xFFF) div 0x1000 * 0x1000"
    using le by (intro unat_page_up) simp
  then show "unat (nso_extent h) \<le> 2 ^ 32" unfolding e using round_up_32 [of "unat ?x"] le(2) by simp
qed

subsection \<open>The offsets\<close>

text \<open>The number of bytes the arguments may take at most.\<close>

definition args_bound :: nat where "args_bound = 0x20000"

lemma args_extent_props:
  assumes "args_size a < ArgumentSizeMax"
  shows "unat (args_extent a) \<le> args_bound" "0 < unat (args_extent a)" "page_aligned (args_extent a)"
proof -
  let ?x = "2 * of_nat (args_size a) + of_nat ArgumentSizeMax + 8 :: u64"
  have "unat ?x = 2 * args_size a + 0x8000 + 8"
    using assms by (simp add: unat_word_ariths ArgumentSizeMax_def unat_of_nat take_bit_nat_eq_self)
  then have x: "unat ?x < 0x20000 - 0x1000" "unat ?x \<le> 2 ^ 40" "0 < unat ?x"
    using assms by (simp_all add: ArgumentSizeMax_def)
  show "unat (args_extent a) \<le> args_bound" "0 < unat (args_extent a)" "page_aligned (args_extent a)"
    using page_up_props [OF x(2)] x(1,3) by (simp_all add: args_extent_def args_bound_def)
qed

text \<open>
  What holds after the loop has dealt with the NSOs below \<open>n\<close>: the regions given out lie below
  the total size, in order and apart from each other.
\<close>

definition layout_inv :: "nso_header list \<Rightarrow> bool list \<Rightarrow> argument_info option \<Rightarrow> nat \<Rightarrow> process_layout \<times> u64 \<Rightarrow> bool" where
  "layout_inv headers has arg_info n = (\<lambda>(out, tot).
     length (nso_address out) = Nso_Count \<and> length (nso_size out) = Nso_Count \<and>
     unat tot \<le> n * 2 ^ 32 + unat (layout_args_size out) \<and>
     unat (layout_args_size out) \<le> args_bound \<and> page_aligned tot \<and>
     (layout_args_size out = 0 \<longrightarrow> layout_args_address out = 0) \<and>
     page_aligned (layout_args_address out) \<and> page_aligned (layout_args_size out) \<and>
     (layout_args_size out \<noteq> 0 \<longrightarrow>
        unat (layout_args_address out) + unat (layout_args_size out) \<le> unat tot \<and>
        (\<exists>i < n. has ! i \<and>
           unat (nso_address out ! i) + unat (nso_size out ! i) \<le> unat (layout_args_address out))) \<and>
     (\<forall>i < n. has ! i \<longrightarrow>
        nso_size out ! i = nso_extent (headers ! i) \<and> page_aligned (nso_address out ! i) \<and>
        unat (nso_address out ! i) + unat (nso_size out ! i) \<le> unat tot \<and>
        (layout_args_size out \<noteq> 0 \<longrightarrow>
           unat (nso_address out ! i) + unat (nso_size out ! i) \<le> unat (layout_args_address out) \<or>
           unat (layout_args_address out) + unat (layout_args_size out) \<le> unat (nso_address out ! i))) \<and>
     (\<forall>j < n. \<forall>i < j. has ! i \<longrightarrow> has ! j \<longrightarrow>
        unat (nso_address out ! i) + unat (nso_size out ! i) \<le> unat (nso_address out ! j)))"

lemma unat_add_small: "unat x + unat y < 2 ^ 64 \<Longrightarrow> unat (x + y) = unat x + unat y" for x y :: u64
  by (simp add: unat_word_ariths)

lemma page_aligned_add:
  "\<lbrakk>page_aligned x; page_aligned y; unat x + unat y < 2 ^ 64\<rbrakk> \<Longrightarrow> page_aligned (x + y)"
  by (simp add: page_aligned_def unat_add_small) (metis add.right_neutral mod_add_eq mod_0)

lemma page_aligned_0 [simp]: "page_aligned 0"
  by (simp add: page_aligned_def)

lemma layout_inv_skip:
  "\<lbrakk>layout_inv headers has arg_info n x; \<not> has ! n\<rbrakk> \<Longrightarrow> layout_inv headers has arg_info (Suc n) x"
  by (auto simp: layout_inv_def less_Suc_eq split: prod.splits)

text \<open>One more NSO at the end of what was given out.\<close>

lemma layout_inv_nso:
  assumes inv: "layout_inv headers has arg_info n (out, tot)" and n: "n < Nso_Count"
  shows "layout_inv headers has arg_info (Suc n)
    (out\<lparr>nso_address := (nso_address out)[n := tot], nso_size := (nso_size out)[n := nso_extent (headers ! n)]\<rparr>,
     tot + nso_extent (headers ! n))"
proof -
  let ?e = "nso_extent (headers ! n)"
  have e: "unat ?e \<le> 2 ^ 32" "page_aligned ?e" using nso_extent_props by blast+
  have t: "unat tot \<le> n * 2 ^ 32 + args_bound" using inv by (simp add: layout_inv_def)
  have "n * 2 ^ 32 \<le> 12 * 2 ^ 32" using n by (simp add: Nso_Count_def)
  then have small: "unat tot + unat ?e < 2 ^ 64" using t e(1) by (simp add: args_bound_def)
  then have sum: "unat (tot + ?e) = unat tot + unat ?e" by (rule unat_add_small)
  have al: "page_aligned (tot + ?e)" using inv e(2) small by (intro page_aligned_add) (simp_all add: layout_inv_def)
  show ?thesis
    using inv n e al unfolding layout_inv_def
    by (auto simp: sum less_Suc_eq nth_list_update)
qed

text \<open>The arguments after it, when they have no place yet.\<close>

lemma layout_inv_args:
  assumes inv: "layout_inv headers has arg_info n (out, tot)" and n: "n \<le> Nso_Count"
    and i: "i < n" "has ! i" and a: "args_size a < ArgumentSizeMax" and none: "layout_args_size out = 0"
  shows "layout_inv headers has arg_info n
    (out\<lparr>layout_args_address := tot, layout_args_size := args_extent a\<rparr>, tot + args_extent a)"
proof -
  let ?e = "args_extent a"
  note e = args_extent_props [OF a]
  have t: "unat tot \<le> n * 2 ^ 32" using inv none by (simp add: layout_inv_def)
  have "n * 2 ^ 32 \<le> 13 * 2 ^ 32" using n by (simp add: Nso_Count_def)
  then have small: "unat tot + unat ?e < 2 ^ 64" using t e(1) by (simp add: args_bound_def)
  then have sum: "unat (tot + ?e) = unat tot + unat ?e" by (rule unat_add_small)
  have al: "page_aligned (tot + ?e)" using inv e(3) small by (intro page_aligned_add) (simp_all add: layout_inv_def)
  show ?thesis
    using inv none e t al i unfolding layout_inv_def by (auto simp: sum)
qed

lemma layout_inv_step:
  assumes "layout_inv headers has arg_info n x" "n < Nso_Count"
    "case arg_info of Some a \<Rightarrow> args_size a < ArgumentSizeMax | None \<Rightarrow> True"
  shows "layout_inv headers has arg_info (Suc n) (layout_step headers has arg_info n x)"
proof (cases "has ! n")
  case False
  then show ?thesis using assms(1) by (cases x) (simp add: layout_step_def layout_inv_skip)
next
  case True
  obtain out tot where x: "x = (out, tot)" by fastforce
  note nso = layout_inv_nso [OF assms(1) [unfolded x] assms(2)]
  show ?thesis
    using True nso layout_inv_args [OF nso _ lessI] assms(2,3)
    by (auto simp: x layout_step_def Let_def split: option.splits)
qed

lemma layout_inv_fold:
  assumes "n \<le> Nso_Count" "case arg_info of Some a \<Rightarrow> args_size a < ArgumentSizeMax | None \<Rightarrow> True"
  shows "layout_inv headers has arg_info n (fold (layout_step headers has arg_info) [0..<n] (layout_zero, 0))"
  using assms(1)
proof (induction n)
  case 0
  show ?case by (simp add: layout_inv_def layout_zero_def args_bound_def)
next
  case (Suc n)
  then show ?case using layout_inv_step [of headers has arg_info n] assms(2) by simp
qed

lemma layout_inv_offsets:
  assumes "layout_offsets headers has arg_info = x"
    "case arg_info of Some a \<Rightarrow> args_size a < ArgumentSizeMax | None \<Rightarrow> True"
  shows "layout_inv headers has arg_info Nso_Count x"
  using layout_inv_fold [OF order_refl assms(2), of headers has] unfolding assms(1) [symmetric] layout_offsets_def .

subsection \<open>Where the regions are\<close>

text \<open>The regions of a layout: those of the NSOs in their order, and the arguments.\<close>

definition nso_regions :: "bool list \<Rightarrow> process_layout \<Rightarrow> (u64 \<times> u64) list" where
  "nso_regions has out = map (\<lambda>i. (nso_address out ! i, nso_size out ! i)) (filter (\<lambda>i. has ! i) [0..<Nso_Count])"

definition args_region :: "process_layout \<Rightarrow> (u64 \<times> u64) list" where
  "args_region out = (if layout_args_size out = 0 then [] else [(layout_args_address out, layout_args_size out)])"

definition ends_before :: "u64 \<times> u64 \<Rightarrow> u64 \<times> u64 \<Rightarrow> bool" where
  "ends_before r r' \<longleftrightarrow> unat (fst r) + unat (snd r) \<le> unat (fst r')"

definition apart :: "u64 \<times> u64 \<Rightarrow> u64 \<times> u64 \<Rightarrow> bool" where
  "apart r r' \<longleftrightarrow> ends_before r r' \<or> ends_before r' r"

definition region_within :: "nat \<Rightarrow> nat \<Rightarrow> u64 \<times> u64 \<Rightarrow> bool" where
  "region_within lo hi r \<longleftrightarrow> lo \<le> unat (fst r) \<and> unat (fst r) + unat (snd r) \<le> hi"

lemma sorted_wrt_filter_upt:
  "(\<And>i j. \<lbrakk>i < j; j < n; P i; P j\<rbrakk> \<Longrightarrow> R i j) \<Longrightarrow> sorted_wrt R (filter P [0..<n])"
proof (induction n)
  case (Suc n)
  then show ?case by (auto simp: sorted_wrt_append)
qed simp

text \<open>Moving a layout up by a slide keeps it.\<close>

definition move_layout :: "bool list \<Rightarrow> u64 \<Rightarrow> process_layout \<Rightarrow> process_layout" where
  "move_layout has start out =
     out\<lparr>nso_address := map (\<lambda>(b, a). if b then a + start else a) (zip has (nso_address out)),
         layout_args_address := (if layout_args_address out \<noteq> 0 then layout_args_address out + start
                                 else layout_args_address out)\<rparr>"

lemma move_layout_sel [simp]:
  "nso_size (move_layout has start out) = nso_size out"
  "layout_args_size (move_layout has start out) = layout_args_size out"
  by (simp_all add: move_layout_def)

lemma move_layout_address:
  "\<lbrakk>i < length has; length (nso_address out) = length has; has ! i\<rbrakk> \<Longrightarrow>
     nso_address (move_layout has start out) ! i = nso_address out ! i + start"
  by (simp add: move_layout_def)

lemma DecideAddressSpaceLayout_Ok:
  assumes "DecideAddressSpaceLayout env param headers has arg_info k = (Ok (out', param'), k')"
    and region: "aslr_region env (cp_flags param) = Some (base, sz)"
    and random: "\<And>k n. fst (env_random_u64 env k n) \<le> n"
  shows "\<exists>out tot r. layout_offsets headers has arg_info = (out, tot) \<and> tot \<le> sz \<and>
    r \<le> (sz - tot) div MemoryBlockUnitSize (env_consts env) \<and>
    out' = move_layout has (base + r * MemoryBlockUnitSize (env_consts env)) out \<and>
    param' = param\<lparr>cp_code_address := base + r * MemoryBlockUnitSize (env_consts env),
                   cp_code_num_pages := ucast (drop_bit 12 tot)\<rparr>"
proof -
  obtain out tot where o: "layout_offsets headers has arg_info = (out, tot)" by fastforce
  let ?u = "MemoryBlockUnitSize (env_consts env)"
  obtain r k1 where r: "(if cp_flags param AND Cp_EnableAslr (env_consts env) \<noteq> 0
      then env_random_u64 env k ((sz - tot) div ?u) else (0, k)) = (r, k1)" by fastforce
  have "r \<le> (sz - tot) div ?u"
    using r random [of k "(sz - tot) div ?u"] by (auto split: if_splits)
  moreover from assms(1) have "tot \<le> sz \<and> out' = move_layout has (base + r * ?u) out \<and>
      param' = param\<lparr>cp_code_address := base + r * ?u, cp_code_num_pages := ucast (drop_bit 12 tot)\<rparr>"
    unfolding DecideAddressSpaceLayout_def o region Let_def prod.case option.case r R_UNLESS_Ok move_layout_def
    by (simp add: add.commute)
  ultimately show ?thesis using o by blast
qed

text \<open>A random number of units up to the free size: nothing wraps around.\<close>

lemma slide_bound:
  fixes r u f base :: u64
  assumes "r \<le> f div u" "unat base + unat f < 2 ^ 64"
  shows "unat (base + r * u) = unat base + unat r * unat u" "unat r * unat u \<le> unat f"
proof -
  have "unat r \<le> unat f div unat u" using assms(1) by (simp add: word_le_nat_alt unat_div)
  then show le: "unat r * unat u \<le> unat f"
    by (meson div_times_less_eq_dividend le_trans mult_le_mono1)
  then have "unat (r * u) = unat r * unat u" using assms(2) by (simp add: unat_word_ariths)
  then show "unat (base + r * u) = unat base + unat r * unat u"
    using le assms(2) unat_add_small [of base "r * u"] by simp
qed

text \<open>The regions of the moved layout.\<close>

lemma moved_regions:
  assumes inv: "layout_inv headers has arg_info Nso_Count (out, tot)"
    and start: "unat start + unat tot < 2 ^ 64" and has: "length has = Nso_Count"
    and full: "\<And>i. \<lbrakk>i < Nso_Count; has ! i\<rbrakk> \<Longrightarrow> nso_extent (headers ! i) \<noteq> 0"
    and out': "out' = move_layout has start out"
  shows "sorted_wrt ends_before (nso_regions has out')"
    "list_all (\<lambda>r. list_all (apart r) (args_region out')) (nso_regions has out')"
    "list_all (region_within (unat start) (unat start + unat tot)) (nso_regions has out' @ args_region out')"
    "list_all (\<lambda>r. page_aligned (snd r) \<and> (page_aligned start \<longrightarrow> page_aligned (fst r)))
       (nso_regions has out' @ args_region out')"
proof -
  have nso: "nso_address out' ! i = nso_address out ! i + start"
    "unat (nso_address out ! i + start) = unat (nso_address out ! i) + unat start"
    "unat (nso_address out ! i) + unat (nso_size out ! i) \<le> unat tot"
    "page_aligned (nso_address out ! i)" "page_aligned (nso_size out ! i)" "0 < unat (nso_size out ! i)"
    if "i < Nso_Count" "has ! i" for i
  proof -
    show a: "unat (nso_address out ! i) + unat (nso_size out ! i) \<le> unat tot" "page_aligned (nso_address out ! i)"
      "page_aligned (nso_size out ! i)" "0 < unat (nso_size out ! i)"
      using inv that full [OF that] nso_extent_props(5) [of "headers ! i"]
      by (auto simp: layout_inv_def unat_gt_0)
    show "nso_address out' ! i = nso_address out ! i + start"
      using that has inv by (simp add: out' move_layout_address layout_inv_def)
    show "unat (nso_address out ! i + start) = unat (nso_address out ! i) + unat start"
      using a(1) start by (intro unat_add_small) simp
  qed
  have args: "layout_args_address out' = layout_args_address out + start"
    "unat (layout_args_address out + start) = unat (layout_args_address out) + unat start"
    "unat (layout_args_address out) + unat (layout_args_size out) \<le> unat tot"
    "page_aligned (layout_args_address out)" "page_aligned (layout_args_size out)"
    if "layout_args_size out \<noteq> 0"
  proof -
    show a: "unat (layout_args_address out) + unat (layout_args_size out) \<le> unat tot"
      "page_aligned (layout_args_address out)" "page_aligned (layout_args_size out)"
      using inv that by (simp_all add: layout_inv_def)
    obtain i where i: "i < Nso_Count" "has ! i"
      "unat (nso_address out ! i) + unat (nso_size out ! i) \<le> unat (layout_args_address out)"
      using inv \<open>layout_args_size out \<noteq> 0\<close> by (auto simp: layout_inv_def)
    then have "layout_args_address out \<noteq> 0" using nso(6) [OF i(1,2)] by auto
    then show "layout_args_address out' = layout_args_address out + start" by (simp add: out' move_layout_def)
    show "unat (layout_args_address out + start) = unat (layout_args_address out) + unat start"
      using a(1) start by (intro unat_add_small) simp
  qed
  have size': "nso_size out' = nso_size out" "layout_args_size out' = layout_args_size out" by (simp_all add: out')
  have al: "page_aligned (x + start)" if "page_aligned x" "page_aligned start" "unat x \<le> unat tot" for x
    using that start by (intro page_aligned_add) simp_all
  show "sorted_wrt ends_before (nso_regions has out')"
    unfolding nso_regions_def sorted_wrt_map
  proof (rule sorted_wrt_filter_upt)
    fix i j
    assume ij: "i < j" "j < Nso_Count" "has ! i" "has ! j"
    then have i: "i < Nso_Count" by simp
    have "unat (nso_address out ! i) + unat (nso_size out ! i) \<le> unat (nso_address out ! j)"
      using inv ij unfolding layout_inv_def by blast
    then show "ends_before (nso_address out' ! i, nso_size out' ! i) (nso_address out' ! j, nso_size out' ! j)"
      by (simp add: ends_before_def size' nso(1,2) [OF i ij(3)] nso(1,2) [OF ij(2,4)])
  qed
  show "list_all (\<lambda>r. list_all (apart r) (args_region out')) (nso_regions has out')"
    using inv by (auto simp: nso_regions_def args_region_def list_all_iff apart_def ends_before_def nso args size' layout_inv_def)
  show "list_all (region_within (unat start) (unat start + unat tot)) (nso_regions has out' @ args_region out')"
    using nso(3) args(3) by (auto simp: nso_regions_def args_region_def list_all_iff region_within_def nso(1,2) args(1,2) size')
  show "list_all (\<lambda>r. page_aligned (snd r) \<and> (page_aligned start \<longrightarrow> page_aligned (fst r)))
       (nso_regions has out' @ args_region out')"
    using nso(3,4,5) args(3,4,5)
    by (auto simp: nso_regions_def args_region_def list_all_iff nso(1) args(1) size' intro!: al
        dest: add_leD1)
qed

end
