(* ===== verification/LdrService.thy ===== *)
theory LdrService
  imports LdrLoad LdrLayout
begin

text \<open>
  The commands of the loader service (\<open>loader/source/ldr_loader_service.cpp\<close>) and the switches
  of \<open>ldr_development_manager.cpp\<close>, as one step per command on the state of the loader.
\<close>

record development_flags =
  for_acid_production_check :: bool
  for_anti_downgrade_check :: bool
  for_acid_signature_check :: bool
  enabled_program_verification :: bool

definition development_initial :: development_flags where
  "development_initial =
     \<lparr>for_acid_production_check = False, for_anti_downgrade_check = False,
      for_acid_signature_check = False, enabled_program_verification = True\<rparr>"

definition SetDevelopmentForAcidProductionCheck :: "bool \<Rightarrow> development_flags \<Rightarrow> development_flags" where
  "SetDevelopmentForAcidProductionCheck b d = d\<lparr>for_acid_production_check := b\<rparr>"

definition SetDevelopmentForAntiDowngradeCheck :: "bool \<Rightarrow> development_flags \<Rightarrow> development_flags" where
  "SetDevelopmentForAntiDowngradeCheck b d = d\<lparr>for_anti_downgrade_check := b\<rparr>"

definition SetDevelopmentForAcidSignatureCheck :: "bool \<Rightarrow> development_flags \<Rightarrow> development_flags" where
  "SetDevelopmentForAcidSignatureCheck b d = d\<lparr>for_acid_signature_check := b\<rparr>"

definition SetEnabledProgramVerification :: "bool \<Rightarrow> development_flags \<Rightarrow> development_flags" where
  "SetEnabledProgramVerification enabled d =
     (if for_acid_signature_check d then d\<lparr>enabled_program_verification := enabled\<rparr> else d)"

record ('o, 'k) loader_state = "('o, 'k) ldr_state" +
  development :: development_flags

datatype 'r service_error =
    LoaderError "'r ldr_error" | PinError pin_error | ArgumentsError args_error | ResultInvalidCount

definition map_error :: "('e \<Rightarrow> 'd) \<Rightarrow> ('e, 'a) outcome \<Rightarrow> ('d, 'a) outcome" where
  "map_error f r = (case r of Ok v \<Rightarrow> Ok v | Err e \<Rightarrow> Err (f e) | Abort \<Rightarrow> Abort)"

lemma map_error_simps [simp]:
  "map_error f r = Ok v \<longleftrightarrow> r = Ok v" "map_error f (Ok v) = Ok v" "map_error f (Err e) = Err (f e)"
  "map_error f r = Err d \<longleftrightarrow> (\<exists>e. r = Err e \<and> f e = d)"
  by (cases r; auto simp: map_error_def)+

text \<open>Running an operation on a component of the state.\<close>

definition on_ldr ::
  "(('o, 'k) ldr_state \<Rightarrow> ('r ldr_error, 'a) outcome \<times> ('o, 'k) ldr_state) \<Rightarrow>
     ('o, 'k) loader_state \<Rightarrow> ('r service_error, 'a) outcome \<times> ('o, 'k) loader_state" where
  "on_ldr f s =
     (let (r, t) = f (ldr_state.truncate s)
      in (map_error LoaderError r, ldr_state.extend t (loader_state.fields (development s))))"

definition on_ro ::
  "((program_location, 'o) ro_manager \<Rightarrow> (pin_error, 'a) outcome \<times> (program_location, 'o) ro_manager) \<Rightarrow>
     ('o, 'k) loader_state \<Rightarrow> ('r service_error, 'a) outcome \<times> ('o, 'k) loader_state" where
  "on_ro f s = (let (r, m) = f (ro s) in (map_error PinError r, s\<lparr>ro := m\<rparr>))"

definition on_arguments ::
  "(argument_info list \<Rightarrow> (args_error, 'a) outcome \<times> argument_info list) \<Rightarrow>
     ('o, 'k) loader_state \<Rightarrow> ('r service_error, 'a) outcome \<times> ('o, 'k) loader_state" where
  "on_arguments f s =
     (let (r, a) = f (argument_infos s) in (map_error ArgumentsError r, s\<lparr>argument_infos := a\<rparr>))"

definition on_fs ::
  "('k \<Rightarrow> ('r ldr_error, 'a) outcome \<times> 'k) \<Rightarrow>
     ('o, 'k) loader_state \<Rightarrow> ('r service_error, 'a) outcome \<times> ('o, 'k) loader_state" where
  "on_fs f s = (let (r, k) = f (meta_fs s) in (map_error LoaderError r, s\<lparr>meta_fs := k\<rparr>))"

subsection \<open>Commands\<close>

definition GetProgramInfoImpl ::
  "('r, 'f, 'o, 'k) ldr_env \<Rightarrow> program_location \<Rightarrow> ('o, 'k) loader_state \<Rightarrow>
     ('r service_error, program_info \<times> 'o) outcome \<times> ('o, 'k) loader_state" where
  "GetProgramInfoImpl env loc s =
     (let (r, s) = on_ldr (GetProgramInfo env loc) s
      in R_TRY r s (\<lambda>(out, status).
         if loc_storage_id loc \<noteq> env_storage_none (env_meta env) \<and> loc_program_id loc \<noteq> pi_program_id out then
           (let new_loc = loc\<lparr>loc_program_id := pi_program_id out\<rparr>;
                (r, s) = on_fs (ResolveContentPath env loc) s
            in R_TRY r s (\<lambda>path.
               let (r, s) = on_fs (RedirectContentPath env path new_loc) s
               in R_TRY r s (\<lambda>_.
                  case GetArguments (loc_program_id loc) (argument_infos s) of
                    None \<Rightarrow> (Ok (out, status), s)
                  | Some a \<Rightarrow>
                      let (r, s) = on_arguments (SetArguments (loc_program_id new_loc) (args_bytes a) (args_size a)) s
                      in R_TRY r s (\<lambda>_. (Ok (out, status), s)))))
         else (Ok (out, status), s)))"

text \<open>The handle of the resource limit is closed on every return.\<close>

definition LoaderService_CreateProcess ::
  "('r, 'f, 'o, 'k) ldr_env \<Rightarrow> u64 \<Rightarrow> u32 \<Rightarrow> u32 \<Rightarrow> ('o, 'k) loader_state \<Rightarrow>
     ('r service_error, u32) outcome \<times> ('o, 'k) loader_state" where
  "LoaderService_CreateProcess env pin flags reslimit_h s =
     (let (r, s) = R_TRY (map_error PinError (GetProgramLocationAndStatus pin (ro s))) s (\<lambda>(loc, status).
            let (r, s) = (if loc_storage_id loc \<noteq> env_storage_none (env_meta env)
                          then on_fs (ResolveContentPath env loc) s else (Ok [], s))
            in R_TRY r s (\<lambda>_. on_ldr (CreateProcess env pin loc status flags reslimit_h) s))
      in (r, s\<lparr>meta_fs := env_close_handle env (meta_fs s) reslimit_h\<rparr>))"

datatype 'o ldr_cmd =
    Cmd_CreateProcess u64 u32 u32
  | Cmd_GetProgramInfo program_location
  | Cmd_PinProgram program_location
  | Cmd_UnpinProgram u64
  | Cmd_SetProgramArguments u64 "u8 list" u32
  | Cmd_FlushArguments
  | Cmd_GetProcessModuleInfo nat u64
  | Cmd_SetEnabledProgramVerification bool
  | Cmd_AtmosphereRegisterExternalCode u64
  | Cmd_AtmosphereUnregisterExternalCode u64
  | Cmd_AtmosphereHasLaunchedProgram u64
  | Cmd_AtmosphereGetProgramInfo program_location
  | Cmd_AtmospherePinProgram program_location 'o

datatype 'o ldr_reply =
    Reply_None | Reply_Handle u32 | Reply_Info program_info | Reply_InfoStatus program_info 'o
  | Reply_Pin u64 | Reply_Modules "(u8 list \<times> u64 \<times> u64) list" | Reply_Bool bool

definition reply_with ::
  "('a \<Rightarrow> 'o ldr_reply) \<Rightarrow> ('e, 'a) outcome \<times> 's \<Rightarrow> ('e, 'o ldr_reply) outcome \<times> 's" where
  "reply_with f x = (case x of (r, s) \<Rightarrow> R_TRY r s (\<lambda>v. (Ok (f v), s)))"

text \<open>
  \<open>no_override\<close> is the default override status. Turning program verification on or off passes
  \<open>false\<close> whatever the client asked for.
\<close>

fun LoaderService_call ::
  "('r, 'f, 'o, 'k) ldr_env \<Rightarrow> 'o \<Rightarrow> 'o ldr_cmd \<Rightarrow> ('o, 'k) loader_state \<Rightarrow>
     ('r service_error, 'o ldr_reply) outcome \<times> ('o, 'k) loader_state" where
  "LoaderService_call env no_override (Cmd_CreateProcess pin flags reslimit_h) s =
     reply_with Reply_Handle (LoaderService_CreateProcess env pin flags reslimit_h s)"
| "LoaderService_call env no_override (Cmd_GetProgramInfo loc) s =
     reply_with (\<lambda>(info, status). Reply_Info info) (GetProgramInfoImpl env loc s)"
| "LoaderService_call env no_override (Cmd_PinProgram loc) s =
     reply_with Reply_Pin (on_ro (PinProgram loc no_override) s)"
| "LoaderService_call env no_override (Cmd_UnpinProgram pin) s =
     reply_with (\<lambda>_. Reply_None) (on_ro (UnpinProgram pin) s)"
| "LoaderService_call env no_override (Cmd_SetProgramArguments program_id args args_sz) s =
     reply_with (\<lambda>_. Reply_None) (on_arguments (SetProgramArguments program_id args args_sz) s)"
| "LoaderService_call env no_override Cmd_FlushArguments s =
     (Ok Reply_None, s\<lparr>argument_infos := FlushArguments (argument_infos s)\<rparr>)"
| "LoaderService_call env no_override (Cmd_GetProcessModuleInfo n pid) s =
     R_UNLESS (n \<le> 0x7FFFFFFF) ResultInvalidCount s (
       reply_with Reply_Modules (map_error PinError (GetPinnedModuleInfo n pid (ro s)), s))"
| "LoaderService_call env no_override (Cmd_SetEnabledProgramVerification enabled) s =
     (Ok Reply_None, s\<lparr>development := SetEnabledProgramVerification False (development s)\<rparr>)"
| "LoaderService_call env no_override (Cmd_AtmosphereRegisterExternalCode program_id) s =
     reply_with Reply_Handle (on_fs (\<lambda>k. let (r, k) = env_create_external_code env k program_id in (os_result r, k)) s)"
| "LoaderService_call env no_override (Cmd_AtmosphereUnregisterExternalCode program_id) s =
     (Ok Reply_None, s\<lparr>meta_fs := env_destroy_external_code env (meta_fs s) program_id\<rparr>)"
| "LoaderService_call env no_override (Cmd_AtmosphereHasLaunchedProgram program_id) s =
     (Ok (Reply_Bool (HasLaunchedProgram program_id (launched_programs s))), s)"
| "LoaderService_call env no_override (Cmd_AtmosphereGetProgramInfo loc) s =
     reply_with (\<lambda>(info, status). Reply_InfoStatus info status) (GetProgramInfoImpl env loc s)"
| "LoaderService_call env no_override (Cmd_AtmospherePinProgram loc status) s =
     reply_with Reply_Pin (on_ro (PinProgram loc status) s)"

end
