(* ===== verification/LdrInvariant.thy ===== *)
theory LdrInvariant
  imports LdrService
begin

text \<open>
  What a command of the loader does to the tables, and the invariant of the tables in every
  state a sequence of commands reaches.
\<close>

subsection \<open>Effects of loading and creating\<close>

lemma R_TRY_inv:
  "\<lbrakk>\<And>e. r = Err e \<Longrightarrow> Q (Err e, s); r = Abort \<Longrightarrow> Q (Abort, s); \<And>v. r = Ok v \<Longrightarrow> Q (k v)\<rbrakk> \<Longrightarrow> Q (R_TRY r s k)"
  by (cases r) simp_all

text \<open>The tables of the loader, without its caches and the system.\<close>

definition tables :: "('o, 'k, 'z) ldr_state_scheme \<Rightarrow> argument_info list \<times> u64 set \<times> (program_location, 'o) ro_manager" where
  "tables s = (argument_infos s, launched_programs s, ro s)"

lemma tables_simps [simp]:
  "tables (s\<lparr>meta_fs := k\<rparr>) = tables s"
  "tables (s\<lparr>g_meta_cache := c\<rparr>) = tables s"
  "tables (s\<lparr>g_original_meta_cache := c\<rparr>) = tables s"
  "tables (s\<lparr>cached_program_id := i\<rparr>) = tables s"
  "tables (s\<lparr>cached_override_status := st\<rparr>) = tables s"
  "tables (s\<lparr>g_nso_headers := hs\<rparr>) = tables s"
  "tables (s\<lparr>g_has_nso := bs\<rparr>) = tables s"
  by (simp_all add: tables_def)

lemma tables_with_fs [simp]: "tables (with_fs f s) = tables s"
  by (simp add: with_fs_def)

lemma tables_update_meta [simp]:
  "tables (update_meta f s) = tables s" for s :: "('o, 'k, 'z) ldr_state_scheme"
  by (simp add: update_meta_def tables_def)

lemma LoadMeta_tables:
  fixes s :: "('o, 'k, 'z) ldr_state_scheme"
  assumes "LoadMeta env loc status s = (r, t)"
  shows "tables t = tables s"
  using assms unfolding LoadMeta_def
  by (auto simp: Let_def R_TRY_def split: prod.splits sum.splits if_splits outcome.splits)

lemma LoadMetaFromCache_tables:
  fixes s :: "('o, 'k, 'z) ldr_state_scheme"
  assumes "LoadMetaFromCache env loc status s = (r, t)"
  shows "tables t = tables s"
  using assms by (auto simp: LoadMetaFromCache_def LoadMeta_tables split: if_splits)

lemma LoadNsoHeaders_tables: "LoadNsoHeaders env s = (r, t) \<Longrightarrow> tables t = tables s"
  by (auto simp: LoadNsoHeaders_def split: prod.splits)

text \<open>
  The effect of creating a process: on success the process and its modules are registered
  under the pin and the program is recorded as launched; otherwise the tables are unchanged.
\<close>

definition creation_effect ::
  "('r, 'f, 'o, 'k) ldr_env \<Rightarrow> u64 \<Rightarrow> program_location \<Rightarrow> ('o, 'k) ldr_state \<Rightarrow>
     ('r ldr_error, u32) outcome \<times> ('o, 'k) ldr_state \<Rightarrow> bool" where
  "creation_effect env pin loc s = (\<lambda>(r, t).
     case r of
       Ok h \<Rightarrow> (\<exists>pid layout. tables t =
         (argument_infos s, SetLaunchedProgram (loc_program_id loc) (launched_programs s),
          register_modules pin layout (g_nso_headers t) (g_has_nso t)
            (snd (RegisterPinnedProcess pin pid (loc_program_id loc) (ro s)))) \<and>
         ValidateNsoHeaders (g_nso_headers t) (g_has_nso t) = (Ok () :: ('r ldr_error, unit) outcome))
     | _ \<Rightarrow> tables t = tables s)"

lemma creation_effect_fail:
  "tables t = tables s \<Longrightarrow> creation_effect env pin loc s (Err e, t)"
  "tables t = tables s \<Longrightarrow> creation_effect env pin loc s (Abort, t)"
  by (simp_all add: creation_effect_def)

lemma creation_effect_with_fs:
  "creation_effect env pin loc s (r, with_fs f t) = creation_effect env pin loc s (r, t)"
  by (simp add: creation_effect_def with_fs_def split: outcome.split)

lemma creation_effect_start:
  "tables s' = tables s \<Longrightarrow> creation_effect env pin loc s' x = creation_effect env pin loc s x"
  by (cases x) (auto simp: creation_effect_def tables_def split: outcome.split)

lemma create_mounted_effect:
  "creation_effect env pin loc s (create_mounted env pin loc status flags reslimit_h arg_info s)"
proof -
  obtain r1 s1 where 1: "LoadMetaFromCache (env_meta env) loc status s = (r1, s1)" by fastforce
  obtain r2 s2 where 2: "LoadNsoHeaders env s1 = (r2, s2)" by fastforce
  have t1: "tables s1 = tables s" by (rule LoadMetaFromCache_tables [OF 1])
  have t2: "tables s2 = tables s" using LoadNsoHeaders_tables [OF 2] t1 by simp
  have split_case: "Q (case x of (a, b) \<Rightarrow> f a b)" if "\<And>a b. x = (a, b) \<Longrightarrow> Q (f a b)" for Q x f
    using that by (cases x) simp
  show ?thesis
    unfolding create_mounted_def 1 Let_def prod.case
    apply (rule R_TRY_inv)
      apply (simp_all add: creation_effect_fail t1)
    apply (rule R_TRY_inv)
      apply (simp_all add: creation_effect_fail t1 2)
    apply (rule R_TRY_inv)
      apply (simp_all add: creation_effect_fail t2)
    apply (rule R_TRY_inv)
      apply (simp_all add: creation_effect_fail t2)
    apply (rule split_case)
    apply (rule R_TRY_inv)
      apply (simp_all add: creation_effect_fail t2 split: prod.splits)
    apply (intro allI impI)
    apply (rule R_TRY_inv)
      apply (simp_all add: creation_effect_fail t2)
    using t2
    apply (auto simp: creation_effect_def tables_def with_fs_def)
    done
qed

lemma CreateProcess_effect:
  "creation_effect env pin loc s (CreateProcess env pin loc status flags reslimit_h s)"
proof -
  obtain r m k where 1: "ScopedCodeMount_Initialize env loc (ScopedCodeMount_fresh (Some status), meta_fs s) = (r, (m, k))"
    by (metis prod_cases3)
  let ?s = "s\<lparr>meta_fs := k\<rparr>"
  let ?body = "R_TRY r ?s (\<lambda>_. create_mounted env pin loc status flags reslimit_h
    (GetArguments (loc_program_id loc) (argument_infos s)) ?s)"
  have "creation_effect env pin loc s ?body"
    by (rule R_TRY_inv)
      (simp_all add: creation_effect_fail create_mounted_effect creation_effect_start [of ?s s, symmetric])
  then show ?thesis
    unfolding CreateProcess_def 1 Let_def prod.case
    by (cases ?body) (simp add: creation_effect_with_fs)
qed

lemma GetProgramInfo_tables:
  assumes "GetProgramInfo env loc s = (r, t)"
  shows "tables t = tables s"
proof -
  obtain r1 m k where 1: "ScopedCodeMount_Initialize env loc (ScopedCodeMount_fresh None, meta_fs s) = (r1, (m, k))"
    by (metis prod_cases3)
  show ?thesis
    using assms LoadMeta_tables [of "env_meta env" loc _ "s\<lparr>meta_fs := k\<rparr>"]
    unfolding GetProgramInfo_def 1
    by (auto simp: Let_def R_TRY_def split: prod.splits outcome.splits option.splits)
qed

text \<open>The program information is the asked program's own: its metadata was patched to say so.\<close>

lemma GetProgramInfoFromMeta_Ok:
  "GetProgramInfoFromMeta env m = Ok info \<Longrightarrow> pi_program_id info = aci_program_id m"
  by (auto simp: GetProgramInfoFromMeta_def Let_def R_TRY_def copy_access_control_def
      split: outcome.splits if_splits)

lemma GetProgramInfo_id:
  assumes "GetProgramInfo env loc s = (Ok (info, status), t)"
  shows "pi_program_id info = loc_program_id loc"
proof -
  obtain r1 m k where 1: "ScopedCodeMount_Initialize env loc (ScopedCodeMount_fresh None, meta_fs s) = (r1, (m, k))"
    by (metis prod_cases3)
  show ?thesis
    using assms unfolding GetProgramInfo_def 1
    by (auto simp: Let_def R_TRY_def has_program_id_def split: prod.splits outcome.splits option.splits
        dest!: LoadMeta_Ok GetProgramInfoFromMeta_Ok)
qed

subsection \<open>The invariant\<close>

definition arguments_ok :: "argument_info list \<Rightarrow> bool" where
  "arguments_ok infos \<longleftrightarrow>
     length infos = MaxArgumentInfos \<and> distinct_keys arg_program_id InvalidProgramId infos \<and>
     list_all (\<lambda>a. args_size a < ArgumentSizeMax \<and> length (args_bytes a) = ArgumentSizeMax) infos"

lemma arguments_ok_initial: "arguments_ok arguments_initial"
  by (simp add: arguments_ok_def arguments_initial_def list_all_iff ArgumentSizeMax_def)

lemma arguments_ok_SetArguments:
  assumes "arguments_ok infos"
  shows "arguments_ok (snd (SetArguments program_id args n infos))"
proof (cases "n < ArgumentSizeMax")
  case False
  then show ?thesis using assms by (simp add: SetArguments_def)
next
  case True
  let ?e = "\<lambda>i. \<lparr>arg_program_id = program_id, args_size = n,
      args_bytes = copy_front (take n args) (args_bytes (infos ! i))\<rparr>"
  have upd: "arguments_ok (infos[i := ?e i])"
    if "i < length infos" "distinct_keys arg_program_id InvalidProgramId (infos[i := ?e i])" for i
    using that assms True unfolding arguments_ok_def
    by (intro conjI list_all_list_update) (auto simp: copy_front_def list_all_length)
  show ?thesis
  proof (cases "FindArgumentInfo program_id infos")
    case (Some i)
    note i = arguments.lookup_Some [OF Some]
    have "distinct_keys arg_program_id InvalidProgramId (infos[i := ?e i])"
      using assms i by (intro arguments.update_distinct) (simp_all add: arguments_ok_def)
    then show ?thesis using upd i True Some by (simp add: SetArguments_def Let_def)
  next
    case None
    then have "distinct_keys arg_program_id InvalidProgramId (infos[i := ?e i])" for i
      using assms by (intro arguments.insert_distinct) (simp_all add: arguments_ok_def)
    then show ?thesis
      using upd True None assms arguments.lookup_Some [of InvalidProgramId infos]
      by (auto simp: SetArguments_def Let_def FindFreeArgumentInfo_def split: option.split)
  qed
qed

lemma arguments_ok_FlushArguments:
  assumes "arguments_ok infos"
  shows "arguments_ok (FlushArguments infos)"
proof -
  have "distinct_keys arg_program_id InvalidProgramId (FlushArguments infos)"
    by (auto simp: distinct_keys_def FlushArguments_def)
  then show ?thesis using assms by (auto simp: arguments_ok_def FlushArguments_def list_all_iff)
qed

definition loader_ok :: "nat \<Rightarrow> ('o, 'k, 'z) ldr_state_scheme \<Rightarrow> bool" where
  "loader_ok n s \<longleftrightarrow> arguments_ok (argument_infos s) \<and> pins_ok n (ro s)"

lemma loader_ok_tables: "tables t = tables s \<Longrightarrow> loader_ok n t = loader_ok n s"
  by (simp add: loader_ok_def tables_def)

lemma pins_ok_register_modules:
  "pins_ok n m \<Longrightarrow> pins_ok n (register_modules pin layout headers has m)"
  unfolding register_modules_def
  by (rule fold_invariant [where Q = "\<lambda>_. True" and P = "pins_ok n"]) (simp_all add: pins_ok_registered)

lemma loader_ok_created:
  assumes "creation_effect env pin loc s (r, t)" "loader_ok n s"
  shows "loader_ok n t"
  using assms
  by (auto simp: creation_effect_def loader_ok_def tables_def pins_ok_register_modules pins_ok_registered
      split: outcome.splits)

subsection \<open>The commands\<close>

lemma tables_truncate [simp]: "tables (ldr_state.truncate s) = tables s"
  by (simp add: tables_def ldr_state.truncate_def)

lemma tables_extend [simp]: "tables (ldr_state.extend t x) = tables t"
  by (simp add: tables_def ldr_state.extend_def)

lemma on_fs_tables [simp]: "tables (snd (on_fs f s)) = tables s"
  by (simp add: on_fs_def split: prod.split)

lemma on_ldr_snd: "tables (snd (on_ldr f s)) = tables (snd (f (ldr_state.truncate s)))"
  by (simp add: on_ldr_def split: prod.split)

lemma loader_ok_on_ro:
  "\<lbrakk>loader_ok n s; pins_ok n' (snd (f (ro s)))\<rbrakk> \<Longrightarrow> loader_ok n' (snd (on_ro f s))"
  by (cases "f (ro s)") (simp add: on_ro_def loader_ok_def)

lemma loader_ok_on_arguments:
  "\<lbrakk>loader_ok n s; arguments_ok (snd (f (argument_infos s)))\<rbrakk> \<Longrightarrow> loader_ok n (snd (on_arguments f s))"
  by (cases "f (argument_infos s)") (simp add: on_arguments_def loader_ok_def)

lemma snd_reply_with [simp]: "snd (reply_with f x) = snd x"
  by (auto simp: reply_with_def R_TRY_def split: prod.split outcome.split)

text \<open>The redirection in \<open>GetProgramInfoImpl\<close> never happens.\<close>

lemma GetProgramInfoImpl_eq:
  "GetProgramInfoImpl env loc s = on_ldr (GetProgramInfo env loc) s"
proof -
  obtain r t where 1: "on_ldr (GetProgramInfo env loc) s = (r, t)" by fastforce
  have id: "pi_program_id info = loc_program_id loc" if "r = Ok (info, status)" for info status
    using 1 that GetProgramInfo_id [of env loc "ldr_state.truncate s" info status]
    by (auto simp: on_ldr_def split: prod.splits)
  show ?thesis
    unfolding GetProgramInfoImpl_def 1 using id by (cases r) (auto split: prod.splits)
qed

lemma GetProgramInfoImpl_tables: "tables (snd (GetProgramInfoImpl env loc s)) = tables s"
proof -
  obtain r t where 1: "GetProgramInfo env loc (ldr_state.truncate s) = (r, t)" by fastforce
  show ?thesis
    using GetProgramInfo_tables [OF 1] by (simp add: GetProgramInfoImpl_eq on_ldr_snd 1)
qed

lemma LoaderService_CreateProcess_ok:
  fixes s :: "('o, 'k) loader_state"
  assumes "loader_ok n s"
  shows "loader_ok n (snd (LoaderService_CreateProcess env pin flags reslimit_h s))"
proof -
  have created: "loader_ok n (snd (on_ldr (CreateProcess env pin loc status flags reslimit_h) s'))"
    if "loader_ok n s'" for loc status s'
  proof -
    obtain r t where 1: "CreateProcess env pin loc status flags reslimit_h (ldr_state.truncate s') = (r, t)" by fastforce
    have "loader_ok n (ldr_state.truncate s')" using that loader_ok_tables [OF tables_truncate] by blast
    with CreateProcess_effect [of env pin loc "ldr_state.truncate s'" status flags reslimit_h] have "loader_ok n t"
      unfolding 1 by (rule loader_ok_created)
    then show ?thesis using loader_ok_tables [OF on_ldr_snd] 1 by (metis snd_conv)
  qed
  have fs: "loader_ok n (snd (on_fs (ResolveContentPath env loc) s))" for loc
    using assms loader_ok_tables [OF on_fs_tables] by blast
  let ?x = "R_TRY (map_error PinError (GetProgramLocationAndStatus pin (ro s))) s (\<lambda>(loc, status).
            let (r, s) = (if loc_storage_id loc \<noteq> env_storage_none (env_meta env)
                          then on_fs (ResolveContentPath env loc) s else (Ok [], s))
            in R_TRY r s (\<lambda>_. on_ldr (CreateProcess env pin loc status flags reslimit_h) s))"
  have "loader_ok n (snd ?x)"
  proof (rule R_TRY_state [where P = "loader_ok n"])
    fix v :: "program_location \<times> 'o"
    obtain loc status where v: "v = (loc, status)" by fastforce
    let ?y = "if loc_storage_id loc \<noteq> env_storage_none (env_meta env)
                          then on_fs (ResolveContentPath env loc) s else (Ok [], s)"
    obtain r s' where y: "?y = (r, s')" by fastforce
    then have "loader_ok n s'" using assms fs [of loc] by (auto split: if_splits)
    then have "loader_ok n (snd (R_TRY r s' (\<lambda>_. on_ldr (CreateProcess env pin loc status flags reslimit_h) s')))"
      using created by (intro R_TRY_state [where P = "loader_ok n"]) simp_all
    then show "loader_ok n (snd (case v of (loc, status) \<Rightarrow>
        let (r, s) = (if loc_storage_id loc \<noteq> env_storage_none (env_meta env)
                          then on_fs (ResolveContentPath env loc) s else (Ok [], s))
        in R_TRY r s (\<lambda>_. on_ldr (CreateProcess env pin loc status flags reslimit_h) s)))"
      unfolding v prod.case y Let_def .
  qed (rule assms)
  then show ?thesis
    unfolding LoaderService_CreateProcess_def by (cases ?x) (simp add: loader_ok_def)
qed

text \<open>A step of the service, and what a sequence of \<open>n\<close> steps reaches from the start.\<close>

inductive loader_reachable ::
  "('r, 'f, 'o, 'k) ldr_env \<Rightarrow> 'o \<Rightarrow> ('o, 'k) loader_state \<Rightarrow> nat \<Rightarrow> ('o, 'k) loader_state \<Rightarrow> bool"
  for env no_override s0 where
  start: "loader_reachable env no_override s0 0 s0"
| step: "loader_reachable env no_override s0 n s \<Longrightarrow>
    loader_reachable env no_override s0 (Suc n) (snd (LoaderService_call env no_override cmd s))"

lemma loader_ok_Suc: "loader_ok n s \<Longrightarrow> loader_ok (Suc n) s"
  by (simp add: loader_ok_def pins_ok_Suc)

lemma LoaderService_call_ok:
  assumes "loader_ok n s" "Suc (Suc n) < 2 ^ 64"
  shows "loader_ok (Suc n) (snd (LoaderService_call env no_override cmd s))"
proof -
  note s = loader_ok_Suc [OF assms(1)]
  have pins: "pins_ok n (ro s)" and args: "arguments_ok (argument_infos s)"
    using assms(1) by (simp_all add: loader_ok_def)
  note same = loader_ok_tables [THEN iffD2, OF _ s]
  show ?thesis
  proof (cases cmd)
    case (Cmd_CreateProcess pin flags reslimit_h)
    then show ?thesis using LoaderService_CreateProcess_ok [OF s] by simp
  next
    case (Cmd_GetProcessModuleInfo m pid)
    then show ?thesis
      using s by (simp add: R_UNLESS_state [where P = "loader_ok (Suc n)"])
  next
    case Cmd_FlushArguments
    then show ?thesis using s args by (simp add: loader_ok_def arguments_ok_FlushArguments)
  next
    case (Cmd_SetProgramArguments program_id a sz)
    then show ?thesis
      using s args by (simp add: loader_ok_on_arguments SetProgramArguments_def arguments_ok_SetArguments)
  next
    case (Cmd_SetEnabledProgramVerification b)
    then show ?thesis using s by (simp add: loader_ok_def)
  qed (use s assms(2) in \<open>simp_all add: same GetProgramInfoImpl_tables pins_ok_registered pins_ok_Suc
      pins_ok_PinProgram [OF pins assms(2)] loader_ok_on_ro [OF assms(1)] pins\<close>)
qed

lemma loader_reachable_ok:
  assumes "loader_reachable env no_override s0 n s" "loader_ok 0 s0" "Suc n < 2 ^ 64"
  shows "loader_ok n s"
  using assms by (induction rule: loader_reachable.induct) (simp_all add: LoaderService_call_ok)

end
