(* ===== verification/LdrModules.thy ===== *)
theory LdrModules
  imports LdrInvariant
begin

text \<open>
  The modules that the creation of a process registers under its pin: exactly the NSOs that
  are present, in their order.
\<close>

subsection \<open>Registering the modules\<close>

text \<open>The modules of a table whose first entries are in use.\<close>

definition module_entry :: "u8 list \<times> u64 \<times> u64 \<Rightarrow> module_info" where
  "module_entry x = (case x of (b, a, sz) \<Rightarrow> \<lparr>mi_build_id = b, mi_base_address = a, mi_size = sz, mi_in_use = True\<rparr>)"

lemma find_idx_append_used:
  "\<lbrakk>list_all mi_in_use us; \<not> mi_in_use x\<rbrakk> \<Longrightarrow> find_idx (\<lambda>x. \<not> mi_in_use x) (us @ x # xs) = Some (length us)"
  by (induction us) simp_all

lemma add_module_append:
  assumes "list_all mi_in_use us" "length us < n" "\<not> mi_in_use z"
  shows "add_module b a sz (us @ replicate (n - length us) z) =
    (us @ [module_entry (b, a, sz)]) @ replicate (n - length (us @ [module_entry (b, a, sz)])) z"
proof -
  have "replicate (n - length us) z = z # replicate (n - Suc (length us)) z"
    using assms(2) by (metis Suc_diff_Suc replicate_Suc)
  then show ?thesis
    using find_idx_append_used [OF assms(1,3)] by (simp add: add_module_def module_entry_def)
qed

lemma fold_add_module:
  assumes "list_all mi_in_use us" "length us + length xs \<le> n" "\<not> mi_in_use z"
  shows "fold (\<lambda>(b, a, sz). add_module b a sz) xs (us @ replicate (n - length us) z) =
    us @ map module_entry xs @ replicate (n - length us - length xs) z"
  using assms
proof (induction xs arbitrary: us)
  case (Cons x xs)
  obtain b a sz where x: "x = (b, a, sz)" by (cases x)
  have "list_all mi_in_use (us @ [module_entry x])" using Cons.prems(1) by (simp add: x module_entry_def)
  from Cons.IH [OF this] add_module_append [OF Cons.prems(1) _ Cons.prems(3), of n b a sz] Cons.prems show ?case
    by (simp add: x)
qed simp

text \<open>What the entry of the pin holds after the registrations.\<close>

definition present_modules :: "process_layout \<Rightarrow> nso_header list \<Rightarrow> bool list \<Rightarrow> (u8 list \<times> u64 \<times> u64) list" where
  "present_modules layout headers has =
     map (\<lambda>i. (build_id (headers ! i), nso_address layout ! i, nso_size layout ! i)) (filter (\<lambda>i. has ! i) [0..<Nso_Count])"

lemma RegisterModule_at:
  assumes "GetPinnedInfo pin (pinned_infos m) = Some i"
  shows "GetPinnedInfo pin (pinned_infos (snd (RegisterModule pin b a sz m))) = Some i \<and>
    pinned_infos (snd (RegisterModule pin b a sz m)) ! i =
      (pinned_infos m ! i)\<lparr>pin_modules := add_module b a sz (pin_modules (pinned_infos m ! i))\<rparr>"
proof -
  let ?p = "(pinned_infos m ! i)\<lparr>pin_modules := add_module b a sz (pin_modules (pinned_infos m ! i))\<rparr>"
  have i: "i < length (pinned_infos m)" "pin_key (pinned_infos m ! i) = Some pin"
    using GetPinnedInfo_dest [OF assms] by (simp_all add: pin_key_def)
  have "find_idx (\<lambda>p. pin_key p = Some pin) ((pinned_infos m)[i := ?p]) = Some i"
  proof (rule pins.lookup_update_same)
    show "find_idx (\<lambda>p. pin_key p = Some pin) (pinned_infos m) = Some i" using assms by (simp add: GetPinnedInfo_key)
    show "pin_key ?p = Some pin" using i(2) by (auto simp: pin_key_def split: if_splits)
  qed
  then show ?thesis using assms i(1) by (simp add: RegisterModule_def update_pinned_def GetPinnedInfo_key)
qed

lemma RegisterPinnedProcess_at:
  assumes "GetPinnedInfo pin (pinned_infos m) = Some i"
  shows "GetPinnedInfo pin (pinned_infos (snd (RegisterPinnedProcess pin pid prog m))) = Some i \<and>
    pinned_infos (snd (RegisterPinnedProcess pin pid prog m)) ! i =
      (pinned_infos m ! i)\<lparr>pin_program_id := prog, pin_process_id := pid\<rparr>"
proof -
  let ?p = "(pinned_infos m ! i)\<lparr>pin_program_id := prog, pin_process_id := pid\<rparr>"
  have i: "i < length (pinned_infos m)" "pin_key (pinned_infos m ! i) = Some pin"
    using GetPinnedInfo_dest [OF assms] by (simp_all add: pin_key_def)
  have "find_idx (\<lambda>p. pin_key p = Some pin) ((pinned_infos m)[i := ?p]) = Some i"
  proof (rule pins.lookup_update_same)
    show "find_idx (\<lambda>p. pin_key p = Some pin) (pinned_infos m) = Some i" using assms by (simp add: GetPinnedInfo_key)
    show "pin_key ?p = Some pin" using i(2) by (auto simp: pin_key_def split: if_splits)
  qed
  then show ?thesis using assms i(1) by (simp add: RegisterPinnedProcess_def update_pinned_def GetPinnedInfo_key)
qed

lemma register_fold_at:
  assumes "GetPinnedInfo pin (pinned_infos m) = Some i"
  shows "GetPinnedInfo pin (pinned_infos (fold (\<lambda>(b, a, sz) m. snd (RegisterModule pin b a sz m)) xs m)) = Some i \<and>
    pinned_infos (fold (\<lambda>(b, a, sz) m. snd (RegisterModule pin b a sz m)) xs m) ! i =
      (pinned_infos m ! i)\<lparr>pin_modules := fold (\<lambda>(b, a, sz). add_module b a sz) xs (pin_modules (pinned_infos m ! i))\<rparr>"
  using assms
proof (induction xs arbitrary: m)
  case (Cons x xs)
  obtain b a sz where x: "x = (b, a, sz)" by (cases x)
  show ?case
    using Cons.IH [of "snd (RegisterModule pin b a sz m)"] RegisterModule_at [OF Cons.prems, of b a sz] by (simp add: x)
qed simp

lemma register_modules_eq:
  "register_modules pin layout headers has m =
     fold (\<lambda>(b, a, sz) m. snd (RegisterModule pin b a sz m)) (present_modules layout headers has) m"
proof -
  have "fold (\<lambda>i m. if has ! i then f i m else m) xs m = fold f (filter (\<lambda>i. has ! i) xs) m" for f xs and m :: 'x
    by (induction xs arbitrary: m) simp_all
  then show ?thesis by (simp add: register_modules_def present_modules_def fold_map comp_def)
qed

text \<open>A pinned program without a process: its entry has no module.\<close>

definition fresh_pin :: "u64 \<Rightarrow> ('l, 'o) ro_manager \<Rightarrow> bool" where
  "fresh_pin pin m \<longleftrightarrow>
     (case GetPinnedInfo pin (pinned_infos m) of
        None \<Rightarrow> False
      | Some i \<Rightarrow> pin_modules (pinned_infos m ! i) = replicate ModuleCountMax module_zero)"

definition registered_modules :: "u64 \<Rightarrow> ('l, 'o) ro_manager \<Rightarrow> (u8 list \<times> u64 \<times> u64) list" where
  "registered_modules pin m =
     (case GetPinnedInfo pin (pinned_infos m) of
        None \<Rightarrow> []
      | Some i \<Rightarrow> map (\<lambda>x. (mi_build_id x, mi_base_address x, mi_size x))
                   (filter mi_in_use (pin_modules (pinned_infos m ! i))))"

lemma fresh_pin_PinProgram:
  assumes "pins_ok n m" "PinProgram loc status m = (Ok pin, m')"
  shows "fresh_pin pin m'"
proof -
  from assms(2) obtain i where i: "GetFreePinnedInfo (pinned_infos m) = Some i" and pin: "pin = cur_pin_id m"
    and m': "pinned_infos m' = (pinned_infos m)[i := (pinned_zero loc status)\<lparr>pin_id := pin, pin_in_use := True\<rparr>]"
    by (auto simp: PinProgram_def split: option.splits)
  have new: "find_idx (\<lambda>p. pin_key p = Some pin) (pinned_infos m) = None"
    using assms(1) pin by (auto simp: pins_ok_def pin_key_def list_all_iff split: if_splits)
  have "GetPinnedInfo pin (pinned_infos m') = Some i" "i < length (pinned_infos m)"
    using pins.lookup_insert_same [of "pinned_infos m" i "(pinned_zero loc status)\<lparr>pin_id := pin, pin_in_use := True\<rparr>"] i new
    by (auto simp: GetPinnedInfo_key GetFreePinnedInfo_key m' pin_key_def dest: find_idx_dest)
  then show ?thesis by (simp add: fresh_pin_def m' pinned_zero_def)
qed

lemma registered_modules_fresh:
  assumes "fresh_pin pin m" "m' = register_modules pin layout headers has (snd (RegisterPinnedProcess pin pid prog m))"
  shows "registered_modules pin m' = present_modules layout headers has"
proof -
  obtain i where i: "GetPinnedInfo pin (pinned_infos m) = Some i"
    and ms: "pin_modules (pinned_infos m ! i) = replicate ModuleCountMax module_zero"
    using assms(1) by (auto simp: fresh_pin_def split: option.splits)
  let ?xs = "present_modules layout headers has"
  have "length ?xs \<le> length [0..<Nso_Count]"
    unfolding present_modules_def length_map by (rule length_filter_le)
  then have "length ?xs \<le> ModuleCountMax" by (simp add: ModuleCountMax_def Nso_Count_def)
  then have "fold (\<lambda>(b, a, sz). add_module b a sz) ?xs (replicate ModuleCountMax module_zero) =
      map module_entry ?xs @ replicate (ModuleCountMax - length ?xs) module_zero"
    using fold_add_module [of "[]" ?xs ModuleCountMax module_zero] by (simp add: module_zero_def)
  moreover have "filter mi_in_use (map module_entry xs) = map module_entry xs" for xs
    by (rule filter_True) (auto simp: module_entry_def split: prod.splits)
  moreover have "map (\<lambda>x. (mi_build_id x, mi_base_address x, mi_size x)) (map module_entry xs) = xs" for xs
    by (induction xs) (auto simp: module_entry_def split: prod.splits)
  moreover note register_fold_at [OF RegisterPinnedProcess_at [OF i, THEN conjunct1], of ?xs pid prog]
    RegisterPinnedProcess_at [OF i, of pid prog]
  ultimately show ?thesis
    by (simp add: registered_modules_def assms(2) register_modules_eq ms module_zero_def del: map_map)
qed

end
