(* ===== verification/LdrProps.thy ===== *)
theory LdrProps
  imports LdrModules
begin

text \<open>
  The properties of metadata, process creation and the tables of the loader, with the concrete
  system their witnesses run on.
\<close>

subsection \<open>A concrete system\<close>

text \<open>The constants as \<open>libstratosphere\<close> documents them.\<close>

definition horizon_consts :: ldr_consts where
  "horizon_consts =
     \<lparr>MetaFlag_Is64Bit = 1, MetaFlag_AddressSpaceTypeMask = 0xE, MetaFlag_AddressSpaceTypeShift = 1,
      MetaFlag_OptimizeMemoryAllocation = 0x10,
      AddressSpaceType_32Bit = 0, AddressSpaceType_64BitDeprecated = 1,
      AddressSpaceType_32BitWithoutAlias = 2, AddressSpaceType_64Bit = 3,
      AcidFlag_PoolPartitionMask = 0x3C, AcidFlag_PoolPartitionShift = 2,
      AcidFlag_DeprecatedUseSecureMemory = 4,
      PoolPartition_Application = 0, PoolPartition_Applet = 1, PoolPartition_System = 2,
      PoolPartition_SystemNonSecure = 3,
      Ldr_EnableDebug = 1, Ldr_DisableAslr = 2,
      ProgramInfoFlag_Application = 1, ProgramInfoFlag_Applet = 2,
      Cp_Is64Bit = 1, Cp_AddressSpaceMask = 0xE, Cp_AddressSpace32Bit = 0,
      Cp_AddressSpace64BitDeprecated = 2, Cp_AddressSpace32BitWithoutAlias = 4, Cp_AddressSpace64Bit = 6,
      Cp_EnableDebug = 0x10, Cp_EnableAslr = 0x20, Cp_IsApplication = 0x40,
      Cp_OptimizeMemoryAllocation = 0x800,
      Cp_PoolPartitionApplication = 0, Cp_PoolPartitionApplet = 0x80, Cp_PoolPartitionSystem = 0x100,
      Cp_PoolPartitionSystemNonSecure = 0x180, Cp_DeprecatedUseSecureMemory = 0x80,
      NsoFlag_CompressedText = 1, NsoFlag_CompressedRo = 2, NsoFlag_CompressedRw = 4,
      NsoFlag_CheckHashText = 8, NsoFlag_CheckHashRo = 0x10, NsoFlag_CheckHashRw = 0x20,
      MemoryBlockUnitSize = 0x200000,
      AslrBase32Bit = 0x200000, AslrSize32Bit = 0x3FE00000,
      AslrBase64BitDeprecated = 0x8000000, AslrSize64BitDeprecated = 0x78000000,
      AslrBase64Bit = 0x8000000, AslrSize64Bit = 0x7FF8000000\<rparr>"

text \<open>
  A system whose code has metadata, an \<open>rtld\<close> and a main NSO but no base metadata; every call
  of the kernel succeeds.
\<close>

definition demo_contents :: meta_contents where
  "demo_contents =
     \<lparr>npdm_magic = 1, npdm_flags = 7, main_thread_priority = 44, default_cpu_id = 0,
      main_thread_stack_size = 0x1000, npdm_version = 1, system_resource_size = 0,
      program_name = replicate 16 0x41, acid_offset = 0, npdm_acid_size = 0, aci_offset = 0,
      npdm_aci_size = 0, acid_program_id_min = 0, acid_program_id_max = 0, acid_flags = 0,
      acid_sac = [], acid_sac_size = 0, acid_fac = [], acid_fac_size = 0, acid_kac = [],
      acid_kac_size = 0, aci_magic = 2, aci_fah_offset = 0, aci_sac_offset = 0, aci_kac_offset = 0,
      aci_program_id = 0, aci_sac = [], aci_sac_size = 0, aci_fah = [], aci_fah_size = 0,
      aci_kac = [], aci_kac_size = 0\<rparr>"

definition demo_meta_env :: "(nat, code_path, bool, unit) meta_env" where
  "demo_meta_env =
     \<lparr>env_caps = bit_caps_env,
      env_open_read = (\<lambda>k p. (if p \<in> {AtmosphereMetaPath, NsoPath 0, NsoPath 1} then Inr p else Inl 2, k)),
      env_close_file = (\<lambda>k f. k), env_file_size = (\<lambda>k f. Inr 0x400),
      env_read_meta = (\<lambda>k f n. Inr demo_contents),
      env_sizeof_npdm = 0x80, env_sizeof_acid = 0x240, env_sizeof_aci = 0x40,
      env_npdm_magic = 1, env_aci_magic = 2,
      env_ge_5_0_0 = True, env_ge_7_0_0 = True, env_ge_10_0_0 = True, env_is_hbl = (\<lambda>o'. o'),
      env_storage_none = 0, env_is_application_id = (\<lambda>_. False),
      env_acid_moduli_dev = [], env_acid_moduli_prod = [], env_acid_key_generation_max = 0\<rparr>"

definition demo_nso :: nso_header where
  "demo_nso = nso_header_zero
     \<lparr>text_segment := \<lparr>file_offset = 0x100, dst_offset = 0, seg_size = 0x1800\<rparr>,
      ro_segment := \<lparr>file_offset = 0x1900, dst_offset = 0x2000, seg_size = 0x800\<rparr>,
      rw_segment := \<lparr>file_offset = 0x2100, dst_offset = 0x3000, seg_size = 0x10\<rparr>,
      bss_size := 0x20\<rparr>"

definition demo_env :: "(nat, code_path, bool, unit) ldr_env" where
  "demo_env =
     \<lparr>env_meta = demo_meta_env, env_consts = horizon_consts,
      env_ge_2_0_0 = True, env_ge_3_0_0 = True, env_ge_4_0_0 = True,
      env_ac_buffer_size = 0x3E0, env_sizeof_nso_header = 0x100,
      env_read_nso_header = (\<lambda>k f. Inr (0x100, demo_nso)),
      env_read_file = (\<lambda>k f offset address n. (Inr n, k)),
      env_decompress_lz4 = (\<lambda>k dst dst_size src src_size. (uint dst_size, k)),
      env_hash_memory = (\<lambda>k a n. replicate 32 0), env_clear_memory = (\<lambda>k a n. k),
      env_write_args = (\<lambda>k a n m bs. k), env_apply_ips = (\<lambda>k b a n p. k),
      env_locate_space = (\<lambda>k n. (Inr 0x10000000, k)),
      env_map_process = (\<lambda>k m h a n. (Inr (), k)), env_close_map = (\<lambda>k m h a n. k),
      env_set_permission = (\<lambda>k h a n p. (Inr (), k)), env_random_u64 = (\<lambda>k n. (min n 5, k)),
      env_create_process = (\<lambda>k p c. (Inr 0x22, k)), env_close_handle = (\<lambda>k h. k),
      env_process_id_of = (\<lambda>k h. 0x51),
      env_is_program_specific = (\<lambda>_. False), env_capture_override_status = (\<lambda>k p. (False, k)),
      env_mount_ams_code = (\<lambda>k path p b b'. (Inr (), k)),
      env_mount_sd_or_code = (\<lambda>k path p. (Inr (), k)), env_mount_base_code = (\<lambda>k path p. (Inl 1, k)),
      env_unmount = (\<lambda>k n. k), env_open_registered_resolver = (\<lambda>k. (Inr (), k)),
      env_registered_path = (\<lambda>k p. Inr [0x41]), env_program_not_found = (\<lambda>e. e = 8),
      env_open_resolver = (\<lambda>k n. (Inr (), k)), env_program_path = (\<lambda>k n p. Inr [0x41]),
      env_redirect_program = (\<lambda>k n path p. k), env_html_path = (\<lambda>k n p. Inl 3),
      env_redirect_html = (\<lambda>k n path p q. k), env_entry_name_max = 0x300, env_lr_path_size = 0x300,
      env_separator = 0x2F, env_alternate_separator = 0x5C,
      env_create_external_code = (\<lambda>k p. (Inr 0x30, k)), env_destroy_external_code = (\<lambda>k p. k)\<rparr>"

definition demo_location :: "u64 \<Rightarrow> u8 \<Rightarrow> program_location" where
  "demo_location p n = \<lparr>loc_program_id = p, loc_storage_id = n\<rparr>"

definition demo_cache :: meta_cache where
  "demo_cache = \<lparr>meta_set = False, meta_contents_of = demo_contents, meta_modulus = NullModulus,
     meta_is_signed = False\<rparr>"

definition demo_ro :: "(program_location, bool) ro_manager" where
  "demo_ro = snd (PinProgram (demo_location 1 0) False (ro_manager_initial (demo_location 0 0) False))"

definition demo_state :: "(bool, unit) ldr_state" where
  "demo_state =
     \<lparr>cached_program_id = 0, cached_override_status = False, g_meta_cache = demo_cache,
      g_original_meta_cache = demo_cache, meta_fs = (),
      g_has_nso = replicate Nso_Count False, g_nso_headers = replicate Nso_Count nso_header_zero,
      argument_infos = arguments_initial, launched_programs = {},
      ro = demo_ro\<rparr>"

lemmas demo_defs = demo_env_def demo_meta_env_def demo_contents_def demo_cache_def demo_location_def

lemma demo_meta_sel [simp]:
  "env_open_read demo_meta_env k p =
     (if p = AtmosphereMetaPath \<or> p = NsoPath 0 \<or> p = NsoPath 1 then Inr p else Inl 2, k)"
  "env_close_file demo_meta_env k f = k" "env_is_hbl demo_meta_env b = b" "env_ge_10_0_0 demo_meta_env"
  "env_ge_5_0_0 demo_meta_env" "env_ge_7_0_0 demo_meta_env" "env_caps demo_meta_env = bit_caps_env"
  "env_storage_none demo_meta_env = 0" "\<not> env_is_application_id demo_meta_env p'"
  by (simp_all add: demo_meta_env_def)

lemma demo_state_sel [simp]:
  "meta_fs demo_state = ()" "g_meta_cache demo_state = demo_cache" "cached_program_id demo_state = 0"
  "\<not> cached_override_status demo_state" "ro demo_state = demo_ro" "argument_infos demo_state = arguments_initial"
  by (simp_all add: demo_state_def)

lemma demo_location_sel [simp]:
  "loc_program_id (demo_location p n) = p" "loc_storage_id (demo_location p n) = n"
  by (simp_all add: demo_location_def)

lemma demo_file_loaded: "LoadMetaFromFile demo_meta_env own () f demo_cache =
    (Ok (), demo_cache\<lparr>meta_set := True, meta_modulus := own\<rparr>)"
  by (simp add: LoadMetaFromFile_def demo_defs MetaCacheBufferSize_def ValidateNpdm_def ValidateAcid_def
      ValidateAci_def ValidateSubregion_def Let_def)

subsection \<open>Metadata\<close>

text \<open>
  Loaded metadata is the asked program's, whatever the file says: its program id and both
  bounds are set to the id of the location, it is not marked as signed, and the next lookup
  of the same program and status answers it from the cache without touching a file.
\<close>

theorem loaded_meta_is_cached:
  assumes "LoadMeta env loc status s = (Ok c, s')"
  shows "meta_set c \<and> \<not> meta_is_signed c \<and> has_program_id (loc_program_id loc) (meta_contents_of c) \<and>
    LoadMetaFromCache env loc status s' = (Ok c, s')"
  using LoadMeta_Ok [OF assms] by (auto simp: LoadMetaFromCache_def)

lemma demo_loaded:
  "\<exists>c t. LoadMeta demo_meta_env (demo_location 1 0) False demo_state = (Ok c, t) \<and> c = g_meta_cache t \<and> meta_fs t = ()"
  by (simp add: LoadMeta_def Let_def demo_file_loaded)

theorem loaded_meta_is_cached_witness:
  "\<exists>c t. LoadMeta demo_meta_env (demo_location 1 0) False demo_state = (Ok c, t) \<and> meta_set c \<and>
     LoadMetaFromCache demo_meta_env (demo_location 1 0) False t = (Ok c, t)"
  using demo_loaded loaded_meta_is_cached [where env = demo_meta_env and loc = "demo_location 1 0" and status = False
      and s = demo_state] by blast




subsection \<open>Process creation\<close>

text \<open>The address space bits of the flags are those of the metadata.\<close>

definition flags_apart :: "ldr_consts \<Rightarrow> bool" where
  "flags_apart c \<longleftrightarrow>
     list_all (\<lambda>f. f AND Cp_AddressSpaceMask c = 0)
       [Cp_Is64Bit c, Cp_EnableDebug c, Cp_EnableAslr c, Cp_IsApplication c, Cp_OptimizeMemoryAllocation c,
        Cp_PoolPartitionApplication c, Cp_PoolPartitionApplet c, Cp_PoolPartitionSystem c,
        Cp_PoolPartitionSystemNonSecure c, Cp_DeprecatedUseSecureMemory c]"

lemma or_and: "(x OR y) AND m = (x AND m) OR (y AND m)" for x y m :: u32
  by (rule bit.conj_disj_distrib2)

lemma flags_hold_the_address_space:
  assumes "GetCreateProcessFlags env m flags = Ok f" "flags_apart (env_consts env)"
  shows "\<exists>a. address_space_flag (env_consts env) (GetAddressSpaceType env m) = Some a \<and>
    f AND Cp_AddressSpaceMask (env_consts env) = a AND Cp_AddressSpaceMask (env_consts env)"
proof -
  obtain a where a: "address_space_flag (env_consts env) (GetAddressSpaceType env m) = Some a"
    using assms(1) by (auto simp: GetCreateProcessFlags_def Let_def split: option.splits)
  have "f AND Cp_AddressSpaceMask (env_consts env) = a AND Cp_AddressSpaceMask (env_consts env)"
    using assms unfolding GetCreateProcessFlags_def a Let_def option.case
    by (auto simp: flags_apart_def or_and pool_partition_flag_def split: if_splits option.splits)
  with a show ?thesis by blast
qed

text \<open>
  With the documented flag values, a system resource is accepted for every address space
  but the 32-bit one: the guard that is to demand a 64-bit process tests one bit or another of
  \<open>CreateProcessFlag_AddressSpace64Bit\<close>, and the 32-bit space without alias shares one.
\<close>

theorem system_resource_accepted_iff_not_32_bit:
  assumes "env_consts env = horizon_consts" "env_ge_3_0_0 env" "system_resource_size m \<noteq> 0"
    and "GetCreateProcessFlags env m flags = Ok f"
  shows "(\<exists>p. GetCreateProcessParameter env m flags h = Ok p) \<longleftrightarrow>
    (ucast (system_resource_size m) :: u64) mod 0x200000 = 0 \<and> system_resource_size m \<le> SystemResourceSizeMax \<and>
    GetAddressSpaceType env m \<noteq> AddressSpaceType_32Bit horizon_consts \<and>
    (IsApplication env m \<or> IsApplet env m)"
proof -
  let ?t = "GetAddressSpaceType env m"
  have apart: "flags_apart (env_consts env)" by (simp add: assms(1) horizon_consts_def flags_apart_def)
  obtain a where a: "address_space_flag horizon_consts ?t = Some a" "f AND 0xE = a AND 0xE"
    using flags_hold_the_address_space [OF assms(4) apart] assms(1) by (auto simp: horizon_consts_def)
  have "f AND 6 = (f AND 0xE) AND 6" by (simp add: and.assoc)
  also have "\<dots> = (a AND 0xE) AND 6" by (simp only: a(2))
  also have "\<dots> = a AND 6" by (simp add: and.assoc)
  finally have f6: "f AND 6 = a AND 6" .
  then have "f AND 6 \<noteq> 0 \<longleftrightarrow> ?t \<noteq> AddressSpaceType_32Bit horizon_consts"
    using a(1) by (auto simp: address_space_flag_def horizon_consts_def split: if_splits)
  then show ?thesis
    using assms by (auto simp: GetCreateProcessParameter_def Let_def R_UNLESS_def horizon_consts_def)
qed

definition demo_system_contents :: meta_contents where
  "demo_system_contents = demo_contents\<lparr>npdm_flags := 4, system_resource_size := 0x200000, aci_kac_size := 4,
     aci_kac := [0x5FFF]\<rparr>"

lemma demo_system_facts:
  "GetCreateProcessFlags demo_env demo_system_contents 0 = Ok 0x64"
  "GetAddressSpaceType demo_env demo_system_contents = 2" "IsApplication demo_env demo_system_contents"
  unfolding demo_env_def demo_meta_env_def horizon_consts_def demo_system_contents_def demo_contents_def bit_caps_env_def
  by code_simp+

theorem system_resource_accepted_iff_not_32_bit_witness:
  "GetAddressSpaceType demo_env demo_system_contents = AddressSpaceType_32BitWithoutAlias horizon_consts \<and>
   (\<exists>p. GetCreateProcessParameter demo_env demo_system_contents 0 0 = Ok p)"
  using system_resource_accepted_iff_not_32_bit [of demo_env demo_system_contents 0 "0x64" 0] demo_system_facts
  by (simp add: demo_env_def horizon_consts_def demo_system_contents_def SystemResourceSizeMax_def)


definition demo_has :: "bool list" where "demo_has = [True, True] @ replicate 11 False"




lemma demo_has_nth: "i < Nso_Count \<Longrightarrow> demo_has ! i \<Longrightarrow> i < 13"
  by (simp add: Nso_Count_def)


text \<open>
  As long as the offset and size of a section do not wrap around 32 bits, the section lies
  in the region that the layout gives its NSO; a section whose end wraps further than that
  does not, and no check of the headers rejects it.
\<close>

theorem section_fits_unless_its_end_wraps:
  fixes h :: nso_header
  assumes "g = text_segment h \<or> g = ro_segment h \<or> g = rw_segment h \<and> bss_size h = 0"
  shows "(unat (dst_offset g) + unat (seg_size g) < 2 ^ 32 \<longrightarrow>
      unat (dst_offset g) + unat (seg_size g) \<le> unat (nso_extent h)) \<and>
    (unat (dst_offset g) + unat (seg_size g) > 2 ^ 32 \<longrightarrow>
      \<not> unat (dst_offset g) + unat (seg_size g) \<le> unat (nso_extent h))"
proof -
  have "unat (dst_offset g + seg_size g) \<le> unat (nso_extent h)"
    using assms nso_extent_props(1,2,3) [of h] by (auto simp: section_end_def)
  moreover have "unat (dst_offset g + seg_size g) = unat (dst_offset g) + unat (seg_size g)"
    if "unat (dst_offset g) + unat (seg_size g) < 2 ^ 32"
    using that by (simp add: unat_word_ariths)
  ultimately show ?thesis using nso_extent_props(4) [of h] by auto
qed

definition demo_wrapped_nso :: nso_header where
  "demo_wrapped_nso = demo_nso\<lparr>ro_segment := \<lparr>file_offset = 0, dst_offset = 0xFFFFF000, seg_size = 0x2000\<rparr>\<rparr>"

theorem section_fits_unless_its_end_wraps_witness:
  "nso_extent demo_wrapped_nso = 0x4000 \<and>
   \<not> unat (0xFFFFF000 :: u32) + unat (0x2000 :: u32) \<le> unat (nso_extent demo_wrapped_nso) \<and>
   ValidateNsoHeaders (replicate 13 demo_wrapped_nso) demo_has = (Ok () :: (nat ldr_error, unit) outcome)"
proof -
  have ev: "nso_extent demo_wrapped_nso = 0x4000"
    "ValidateNsoHeaders (replicate 13 demo_wrapped_nso) demo_has = (Ok () :: (nat ldr_error, unit) outcome)"
    unfolding demo_wrapped_nso_def demo_nso_def demo_has_def by code_simp+
  have "ro_segment demo_wrapped_nso = \<lparr>file_offset = 0, dst_offset = 0xFFFFF000, seg_size = 0x2000\<rparr>"
    by (simp add: demo_wrapped_nso_def)
  then show ?thesis
    using section_fits_unless_its_end_wraps [where g = "ro_segment demo_wrapped_nso" and h = demo_wrapped_nso] ev by simp
qed

subsection \<open>The effect of creating a process\<close>













text \<open>
  Creating a process that fails, at whatever step, changes none of the tables: no module
  is registered, no program recorded as launched and the arguments are kept.
\<close>

theorem failed_creation_changes_no_table:
  "case CreateProcess env pin loc status flags reslimit_h s of
     (Ok h, t) \<Rightarrow> True
   | (_, t) \<Rightarrow> argument_infos t = argument_infos s \<and> launched_programs t = launched_programs s \<and> ro t = ro s"
  using CreateProcess_effect [of env pin loc s status flags reslimit_h]
  by (auto simp: creation_effect_def tables_def split: prod.splits outcome.splits)

end
