(* ===== verification/LdrServiceProps.thy ===== *)
theory LdrServiceProps
  imports LdrProps
begin

text \<open>The properties of the tables of the loader under the commands of its service.\<close>

subsection \<open>The invariant of the tables\<close>

text \<open>
  C20. After any sequence of fewer than \<open>2 ^ 64 - 1\<close> commands no two pinned programs share a pin,
  no two argument entries a program, and all arguments are shorter than the buffer.
\<close>

theorem reachable_loader_tables:
  assumes "loader_reachable env no_override s0 n s" "argument_infos s0 = arguments_initial"
    and "ro s0 = ro_manager_initial loc0 status0" "Suc n < 2 ^ 64"
  shows "distinct (map pin_id (filter pin_in_use (pinned_infos (ro s)))) \<and>
    distinct (filter (\<lambda>p. p \<noteq> InvalidProgramId) (map arg_program_id (argument_infos s))) \<and>
    list_all (\<lambda>a. args_size a < ArgumentSizeMax) (argument_infos s) \<and>
    length (pinned_infos (ro s)) = ProcessCountMax \<and> length (argument_infos s) = MaxArgumentInfos"
proof -
  have distinct: "distinct (filter (\<lambda>k. k \<noteq> free) (map key xs))" if "distinct_keys key free xs" for key free and xs :: "'x list"
    using that
  proof (induction xs rule: rev_induct)
    case (snoc x xs)
    have "distinct_keys key free xs"
      using snoc.prems unfolding distinct_keys_def
      by (metis length_append_singleton less_SucI nth_append)
    moreover have "key x \<noteq> free \<Longrightarrow> key x \<notin> key ` set xs"
    proof
      assume "key x \<noteq> free" "key x \<in> key ` set xs"
      then obtain i where "i < length xs" "key (xs ! i) = key x" by (auto simp: in_set_conv_nth)
      then show False
        using snoc.prems \<open>key x \<noteq> free\<close> distinct_keysD [of key free "xs @ [x]" i "length xs"]
        by (simp add: nth_append)
    qed
    ultimately show ?case using snoc.IH by auto
  qed simp
  have "loader_ok 0 s0"
    using assms(2,3) by (simp add: loader_ok_def arguments_ok_initial pins_ok_initial)
  then have ok: "loader_ok n s" by (rule loader_reachable_ok [OF assms(1) _ assms(4)])
  have keys: "filter (\<lambda>k. k \<noteq> None) (map pin_key xs) = map Some (map pin_id (filter pin_in_use xs))" for xs :: "('x, 'y) pinned_info list"
    by (induction xs) (simp_all add: pin_key_def)
  have "distinct (map Some (map pin_id (filter pin_in_use (pinned_infos (ro s)))))"
    unfolding keys [symmetric] using ok by (intro distinct) (simp add: loader_ok_def pins_ok_def)
  then have "distinct (map pin_id (filter pin_in_use (pinned_infos (ro s))))" 
    by (metis distinct_map)
  then show ?thesis
    using ok distinct [of arg_program_id InvalidProgramId "argument_infos s"]
    by (auto simp: loader_ok_def arguments_ok_def pins_ok_def list_all_iff)
qed

definition demo_loader :: "(bool, unit) loader_state" where
  "demo_loader = ldr_state.extend (demo_state\<lparr>ro := ro_manager_initial (demo_location 0 0) False\<rparr>)
     (loader_state.fields development_initial)"

theorem reachable_loader_tables_witness:
  "loader_reachable demo_env False demo_loader 1
     (snd (LoaderService_call demo_env False (Cmd_PinProgram (demo_location 1 0)) demo_loader)) \<and>
   distinct (map pin_id (filter pin_in_use (pinned_infos (ro
     (snd (LoaderService_call demo_env False (Cmd_PinProgram (demo_location 1 0)) demo_loader))))))"
proof -
  have r: "loader_reachable demo_env False demo_loader 1
     (snd (LoaderService_call demo_env False (Cmd_PinProgram (demo_location 1 0)) demo_loader))"
    using loader_reachable.step [OF loader_reachable.start] by (metis One_nat_def)
  have "argument_infos demo_loader = arguments_initial" "ro demo_loader = ro_manager_initial (demo_location 0 0) False"
    by (simp_all add: demo_loader_def ldr_state.extend_def)
  with reachable_loader_tables [OF r] r show ?thesis by simp
qed

subsection \<open>Pins as a map\<close>

text \<open>
  C21. To its clients the table of pins is a map: pinning a program adds a pin that was not in it,
  unpinning removes exactly that pin, and registering a process or a module leaves it alone.
\<close>

theorem pin_table_refines_map:
  assumes "pin_reachable n m" "Suc n < 2 ^ 64"
  shows "(case PinProgram loc status m of
       (Ok pin, m') \<Rightarrow> pin_map m pin = None \<and> pin_map m' = (pin_map m)(pin \<mapsto> (loc, status))
     | (_, m') \<Rightarrow> m' = m) \<and>
    pin_map (snd (UnpinProgram pin m)) = (pin_map m)(pin := None) \<and>
    pin_map (snd (RegisterPinnedProcess pin pid program_id m)) = pin_map m \<and>
    pin_map (snd (RegisterModule pin bid address sz m)) = pin_map m"
proof -
  note ok = pin_reachable_ok [OF assms]
  have "case PinProgram loc status m of
       (Ok pin, m') \<Rightarrow> pin_map m pin = None \<and> pin_map m' = (pin_map m)(pin \<mapsto> (loc, status))
     | (_, m') \<Rightarrow> m' = m"
    using pin_map_PinProgram [OF ok, of loc status]
    by (auto simp: PinProgram_def split: prod.splits outcome.splits option.splits)
  then show ?thesis by (simp add: pin_map_UnpinProgram [OF ok] pin_map_register)
qed

theorem pin_table_refines_map_witness:
  "pin_map (snd (UnpinProgram 1 (ro_manager_initial (0 :: nat) False))) = (pin_map (ro_manager_initial 0 False))(1 := None)"
  using pin_table_refines_map [OF pin_reachable.start [of "0 :: nat" False], of 5 True 1] by simp

subsection \<open>Arguments\<close>

text \<open>
  Arguments that were accepted for a program are found for it, cut to the smaller of the sent
  and the announced size, and for no other program anything changes; the lookup of another
  program never sees them, and after a flush none are found.
\<close>

theorem arguments_set_then_get:
  assumes "SetProgramArguments program_id args args_sz infos = (Ok (), infos')"
    and "arguments_ok infos" "program_id \<noteq> InvalidProgramId" "other \<noteq> program_id" "other \<noteq> InvalidProgramId"
  shows "(\<exists>a. GetArguments program_id infos' = Some a \<and>
      take (args_size a) (args_bytes a) = take (unat args_sz) args) \<and>
    GetArguments other infos' = GetArguments other infos \<and>
    GetArguments program_id (FlushArguments infos') = None"
proof -
  let ?n = "min (length args) (unat args_sz)"
  let ?e = "\<lambda>i. \<lparr>arg_program_id = program_id, args_size = ?n,
      args_bytes = copy_front (take ?n args) (args_bytes (infos ! i))\<rparr>"
  obtain i where i: "infos' = infos[i := ?e i]"
    and slot: "FindArgumentInfo program_id infos = Some i \<or>
      FindArgumentInfo program_id infos = None \<and> FindArgumentInfo InvalidProgramId infos = Some i"
    using assms(1)
    by (auto simp: SetProgramArguments_def SetArguments_def Let_def FindFreeArgumentInfo_def split: option.splits)
  have len: "i < length infos" and old: "arg_program_id (infos ! i) = program_id \<or> arg_program_id (infos ! i) = InvalidProgramId"
    using slot arguments.lookup_Some by blast+
  have found: "FindArgumentInfo program_id infos' = Some i"
    using slot arguments.lookup_update_same [of program_id infos i "?e i"]
      arguments.lookup_insert_same [of infos i "?e i"] by (auto simp: i)
  have eq: "FindArgumentInfo other infos' = FindArgumentInfo other infos"
    unfolding i using assms(4,5) old by (intro arguments.lookup_update_other) auto
  have "infos' ! j = infos ! j" if "FindArgumentInfo other infos = Some j" for j
    using arguments.lookup_Some [OF that] old assms(4,5) by (cases "j = i") (auto simp: i)
  then have "GetArguments other infos' = GetArguments other infos"
    by (cases "FindArgumentInfo other infos") (simp_all add: GetArguments_def eq)
  moreover have "GetArguments program_id (FlushArguments infos') = None"
    using assms(3) by (simp add: GetArguments_def FindArgumentInfo_def FlushArguments_def)
  moreover have "GetArguments program_id infos' = Some (?e i)" using found len by (simp add: GetArguments_def i)
  ultimately show ?thesis by (simp add: copy_front_def min_def)
qed

theorem arguments_set_then_get_witness:
  "\<exists>infos a. SetProgramArguments 5 [1, 2, 3] 2 arguments_initial = (Ok (), infos) \<and>
     GetArguments 5 infos = Some a \<and> take (args_size a) (args_bytes a) = [1, 2]"
proof -
  have "FindArgumentInfo 5 arguments_initial = None" "FindArgumentInfo InvalidProgramId arguments_initial = Some 0"
    by (simp_all add: FindArgumentInfo_def arguments_initial_def InvalidProgramId_def MaxArgumentInfos_def find_idx_replicate)
  then have "\<exists>infos. SetProgramArguments 5 [1, 2, 3] 2 arguments_initial = (Ok (), infos)"
    by (simp add: SetProgramArguments_def SetArguments_def FindFreeArgumentInfo_def ArgumentSizeMax_def)
  then obtain infos where set: "SetProgramArguments 5 [1, 2, 3] 2 arguments_initial = (Ok (), infos)" ..
  have "(\<exists>a. GetArguments 5 infos = Some a \<and> take (args_size a) (args_bytes a) = take (unat (2 :: u32)) [1, 2, 3]) \<and>
      GetArguments 6 infos = GetArguments 6 arguments_initial \<and> GetArguments 5 (FlushArguments infos) = None"
    by (rule arguments_set_then_get [OF set arguments_ok_initial]) (simp_all add: InvalidProgramId_def)
  with set show ?thesis by auto
qed

subsection \<open>Program information\<close>

text \<open>
  Describing a program never redirects its path nor copies its arguments: the branch of
  \<open>GetProgramInfoImpl\<close> for information about another program is not reachable, since loading
  has patched the metadata to the asked program's id.
\<close>

theorem program_info_never_redirects:
  "GetProgramInfoImpl env loc s = on_ldr (GetProgramInfo env loc) s \<and>
   tables (snd (GetProgramInfoImpl env loc s)) = tables s"
  using GetProgramInfoImpl_eq GetProgramInfoImpl_tables by blast

end
