(* ===== verification/RoMap.thy ===== *)
theory RoMap
  imports RoKeys
begin

text \<open>
  Mapping and validation of loadable modules (\<open>ro/source/impl/ro_nro_utils.cpp\<close> and
  \<open>ro_nrr_utils.cpp\<close>). The kernel is a state \<open>'k\<close>; the system calls, the mapping classes of
  the library (\<open>map::MappedCodeMemory\<close>, \<open>map::AutoCloseMap\<close>, whose destructors are the two
  \<open>close\<close> fields), SHA-256, RSA and the layout of the two module headers are fields of
  \<open>ro_env\<close>. A header is the record of what its accessors return.
\<close>

datatype 'r ro_error =
    ResultInvalidAddress | ResultInvalidSize | ResultTooManyNrr | ResultTooManyNro
  | ResultNotLoaded | ResultNotRegistered | ResultNotAuthorized | ResultInvalidNro
  | ResultInvalidNrr | ResultInvalidNrrType | ResultInvalidProcess | ResultInvalidSession
  | ResultAlreadyLoaded | ResultOutOfAddressSpace | KernelError 'r

datatype module_type = ForSelf | ForOthers | OtherModuleType nat

datatype perm = Perm_Rx | Perm_R | Perm_Rw

record nro_header =
  nro_magic_valid :: bool
  nro_size :: u64
  text_offset :: u64
  text_size :: u64
  ro_offset :: u64
  ro_size :: u64
  rw_offset :: u64
  rw_size :: u64
  bss_size :: u64
  nro_module_id :: "u8 list"

record nrr_header =
  nrr_magic_valid :: bool
  nrr_size :: u64
  key_generation :: nat
  certification_signature :: "u8 list"
  certification_signed_area :: "u8 list"
  certification_modulus :: "u8 list"
  program_id_valid :: bool
  nrr_signature :: "u8 list"
  signed_area :: "u8 list"
  nrr_program_id :: u64
  nrr_type :: module_type
  signed_area_size :: u32
  hashes_offset :: u32
  num_hashes :: u32

record ('r, 'k) ro_env =
  env_page_aligned :: "u64 \<Rightarrow> bool"
  env_version_ge_3_0_0 :: bool
  env_version_ge_7_0_0 :: bool
  env_version_ge_9_1_0 :: bool
  env_invalid_handle :: u32
  env_invalid_pid :: u64
  env_uninitialized_program_id :: u64
  env_ease_nro_restriction :: "'k \<Rightarrow> u8 option"
  env_process_id_of :: "'k \<Rightarrow> u32 \<Rightarrow> u64 option"
  env_info_program_id :: "'k \<Rightarrow> u32 \<Rightarrow> u64 option"
  env_pm_program_id :: "'k \<Rightarrow> u32 \<Rightarrow> u64 option"
  env_close_handle :: "'k \<Rightarrow> u32 \<Rightarrow> 'k"
  env_map_code_in_process :: "'k \<Rightarrow> u32 \<Rightarrow> u64 \<Rightarrow> u64 \<Rightarrow> ('r + u64) \<times> 'k"
  env_map_code_at :: "'k \<Rightarrow> u32 \<Rightarrow> u64 \<Rightarrow> u64 \<Rightarrow> u64 \<Rightarrow> ('r + unit) \<times> 'k"
  env_close_code :: "'k \<Rightarrow> u32 \<Rightarrow> u64 \<Rightarrow> u64 \<Rightarrow> u64 \<Rightarrow> 'k"
  env_unmap_code :: "'k \<Rightarrow> u32 \<Rightarrow> u64 \<Rightarrow> u64 \<Rightarrow> u64 \<Rightarrow> ('r + unit) \<times> 'k"
  env_locate_space :: "'k \<Rightarrow> u64 \<Rightarrow> u64 option \<times> 'k"
  env_map_process :: "'k \<Rightarrow> u64 \<Rightarrow> u32 \<Rightarrow> u64 \<Rightarrow> u64 \<Rightarrow> ('r + unit) \<times> 'k"
  env_close_map :: "'k \<Rightarrow> u64 \<Rightarrow> u32 \<Rightarrow> u64 \<Rightarrow> u64 \<Rightarrow> 'k"
  env_unmap_process :: "'k \<Rightarrow> u64 \<Rightarrow> u32 \<Rightarrow> u64 \<Rightarrow> u64 \<Rightarrow> ('r + unit) \<times> 'k"
  env_can_add_guards :: "'k \<Rightarrow> u32 \<Rightarrow> u64 \<Rightarrow> u64 \<Rightarrow> bool"
  env_invalid_current_memory :: 'r
  env_set_permission :: "'k \<Rightarrow> u32 \<Rightarrow> u64 \<Rightarrow> u64 \<Rightarrow> perm \<Rightarrow> ('r + unit) \<times> 'k"
  env_nro_header :: "'k \<Rightarrow> u64 \<Rightarrow> nro_header"
  env_nrr_header :: "'k \<Rightarrow> u64 \<Rightarrow> nrr_header"
  env_read_bytes :: "'k \<Rightarrow> u64 \<Rightarrow> nat \<Rightarrow> u8 list"
  env_apply_patches :: "'k \<Rightarrow> u8 list \<Rightarrow> u64 \<Rightarrow> u64 \<Rightarrow> u64 \<Rightarrow> 'k"
  env_sha256 :: "u8 list \<Rightarrow> u8 list"
  env_verify_rsa :: "u8 list \<Rightarrow> u8 list \<Rightarrow> u8 list \<Rightarrow> u8 list \<Rightarrow> bool"
    \<comment> \<open>signature, modulus, exponent, message\<close>
  env_signed_area_offset :: u64
  env_nrr_header_size :: u64
  env_beyond_signed_area :: "u8 list"
    \<comment> \<open>the memory behind the cached copy of a signed area\<close>

type_synonym ('r, 'a, 'k) kernel_outcome = "('r ro_error, 'a) outcome \<times> 'k"

definition kr :: "'r + 'a \<Rightarrow> ('r ro_error, 'a) outcome" where
  "kr r = (case r of Inl e \<Rightarrow> Err (KernelError e) | Inr v \<Rightarrow> Ok v)"

lemma kr_simps [simp]: "kr (Inl e) = Err (KernelError e)" "kr (Inr v) = Ok v"
  by (simp_all add: kr_def)

subsection \<open>Mapping a module\<close>

definition MaxMapRetries :: nat where "MaxMapRetries = 0x200"

text \<open>
  The retry loop of \<open>MapNro\<close>. Every \<open>continue\<close> and every early return runs the destructors of
  the temporaries, the mapping of the bss first.
\<close>

fun map_nro_loop ::
  "('r, 'k) ro_env \<Rightarrow> u32 \<Rightarrow> u64 \<Rightarrow> u64 \<Rightarrow> u64 \<Rightarrow> u64 \<Rightarrow> nat \<Rightarrow> 'k \<Rightarrow> ('r, u64, 'k) kernel_outcome" where
  "map_nro_loop env h nro_addr nro_sz bss_addr bss_sz 0 k = (Err ResultOutOfAddressSpace, k)"
| "map_nro_loop env h nro_addr nro_sz bss_addr bss_sz (Suc n) k =
     (let (r, k) = env_map_code_in_process env k h nro_addr nro_sz
      in R_TRY (kr r) k (\<lambda>base_address.
         if bss_sz > 0 then
           (let (r, k) = env_map_code_at env k h (base_address + nro_sz) bss_addr bss_sz
            in case r of
                 Inl e \<Rightarrow>
                   if e = env_invalid_current_memory env
                   then map_nro_loop env h nro_addr nro_sz bss_addr bss_sz n
                          (env_close_code env k h base_address nro_addr nro_sz)
                   else (Err (KernelError e), env_close_code env k h base_address nro_addr nro_sz)
               | Inr _ \<Rightarrow>
                   if \<not> env_can_add_guards env k h base_address (nro_sz + bss_sz)
                   then map_nro_loop env h nro_addr nro_sz bss_addr bss_sz n
                          (env_close_code env
                            (env_close_code env k h (base_address + nro_sz) bss_addr bss_sz)
                            h base_address nro_addr nro_sz)
                   else (Ok base_address, k))
         else if \<not> env_can_add_guards env k h base_address nro_sz
         then map_nro_loop env h nro_addr nro_sz bss_addr bss_sz n
                (env_close_code env k h base_address nro_addr nro_sz)
         else (Ok base_address, k)))"

definition MapNro ::
  "('r, 'k) ro_env \<Rightarrow> 'k \<Rightarrow> u32 \<Rightarrow> u64 \<Rightarrow> u64 \<Rightarrow> u64 \<Rightarrow> u64 \<Rightarrow> ('r, u64, 'k) kernel_outcome" where
  "MapNro env k h nro_addr nro_sz bss_addr bss_sz =
     map_nro_loop env h nro_addr nro_sz bss_addr bss_sz MaxMapRetries k"

definition SetNroPerms ::
  "('r, 'k) ro_env \<Rightarrow> 'k \<Rightarrow> u32 \<Rightarrow> u64 \<Rightarrow> u64 \<Rightarrow> u64 \<Rightarrow> u64 \<Rightarrow> ('r, unit, 'k) kernel_outcome" where
  "SetNroPerms env k h base_address rx ro rw =
     (let rx_ofs = 0; ro_ofs = rx_ofs + rx; rw_ofs = ro_ofs + ro;
          (r1, k) = env_set_permission env k h (base_address + rx_ofs) rx Perm_Rx
      in R_TRY (kr r1) k (\<lambda>_.
         let (r2, k) = env_set_permission env k h (base_address + ro_ofs) ro Perm_R
         in R_TRY (kr r2) k (\<lambda>_.
            let (r3, k) = env_set_permission env k h (base_address + rw_ofs) rw Perm_Rw
            in R_TRY (kr r3) k (\<lambda>_. (Ok (), k)))))"

definition UnmapNro ::
  "('r, 'k) ro_env \<Rightarrow> 'k \<Rightarrow> u32 \<Rightarrow> u64 \<Rightarrow> u64 \<Rightarrow> u64 \<Rightarrow> u64 \<Rightarrow> u64 \<Rightarrow> u64 \<Rightarrow>
     ('r, unit, 'k) kernel_outcome" where
  "UnmapNro env k h base_address nro_addr bss_addr bss_sz code_sz rw_sz =
     (let (r1, k) = (if bss_sz > 0
                     then env_unmap_code env k h (base_address + code_sz + rw_sz) bss_addr bss_sz
                     else (Inr (), k))
      in R_TRY (kr r1) k (\<lambda>_.
         let (r2, k) = (if rw_sz > 0
                        then env_unmap_code env k h (base_address + code_sz) (nro_addr + code_sz) rw_sz
                        else (Inr (), k))
         in R_TRY (kr r2) k (\<lambda>_.
            let (r3, k) = env_unmap_code env k h base_address nro_addr code_sz
            in R_TRY (kr r3) k (\<lambda>_. (Ok (), k)))))"

subsection \<open>Module registrations\<close>

definition KeyGenerationMax100 :: nat where "KeyGenerationMax100 = 0"
definition KeyGenerationMax910 :: nat where "KeyGenerationMax910 = 1"

definition GetCertificationModulus ::
  "('r, 'k) ro_env \<Rightarrow> bool \<Rightarrow> nat \<Rightarrow> 'r ro_error + u8 list" where
  "GetCertificationModulus env is_development_hardware key_gen =
     (if key_gen \<le> (if env_version_ge_9_1_0 env then KeyGenerationMax910 else KeyGenerationMax100)
      then Inr ((if is_development_hardware then DevModuli else ProdModuli) ! key_gen)
      else Inl ResultNotAuthorized)"

definition ValidateNrrCertification ::
  "('r, 'k) ro_env \<Rightarrow> nrr_header \<Rightarrow> u8 list \<Rightarrow> 'r ro_error + unit" where
  "ValidateNrrCertification env header modulus =
     (if \<not> env_verify_rsa env (certification_signature header) modulus Exponent
             (certification_signed_area header) then Inl ResultNotAuthorized
      else if \<not> program_id_valid header then Inl ResultNotAuthorized
      else Inr ())"

definition ValidateNrrSignature :: "('r, 'k) ro_env \<Rightarrow> nrr_header \<Rightarrow> 'r ro_error + unit" where
  "ValidateNrrSignature env header =
     (if \<not> env_verify_rsa env (nrr_signature header) (certification_modulus header) Exponent
             (signed_area header) then Inl ResultNotAuthorized
      else Inr ())"

definition ShouldEaseNroRestriction :: "('r, 'k) ro_env \<Rightarrow> 'k \<Rightarrow> bool" where
  "ShouldEaseNroRestriction env k =
     (case env_ease_nro_restriction env k of None \<Rightarrow> False | Some v \<Rightarrow> v \<noteq> 0)"

definition ValidateNrr ::
  "('r, 'k) ro_env \<Rightarrow> 'k \<Rightarrow> bool \<Rightarrow> nrr_header \<Rightarrow> u64 \<Rightarrow> u64 \<Rightarrow> module_type \<Rightarrow> bool \<Rightarrow>
     'r ro_error + unit" where
  "ValidateNrr env k is_development_hardware header size' program_id expected_type enforce_type =
     (if \<not> nrr_magic_valid header then Inl ResultInvalidNrr
      else if nrr_size header \<noteq> size' then Inl ResultInvalidSize
      else
        case GetCertificationModulus env is_development_hardware (key_generation header) of
          Inl e \<Rightarrow> Inl e
        | Inr modulus \<Rightarrow>
            if ShouldEaseNroRestriction env k then Inr ()
            else
              case ValidateNrrCertification env header modulus of
                Inl e \<Rightarrow> Inl e
              | Inr _ \<Rightarrow>
                  case ValidateNrrSignature env header of
                    Inl e \<Rightarrow> Inl e
                  | Inr _ \<Rightarrow>
                      if nrr_program_id header \<noteq> program_id then Inl ResultInvalidNrr
                      else if env_version_ge_7_0_0 env \<and> enforce_type \<and> nrr_type header \<noteq> expected_type
                      then Inl ResultInvalidNrrType
                      else Inr ())"

definition of_sum :: "'r ro_error + 'a \<Rightarrow> ('r ro_error, 'a) outcome" where
  "of_sum r = (case r of Inl e \<Rightarrow> Err e | Inr v \<Rightarrow> Ok v)"

lemma of_sum_simps [simp]: "of_sum (Inl e) = Err e" "of_sum (Inr v) = Ok v"
  by (simp_all add: of_sum_def)

text \<open>The mapped header's address, the address of the code mapping, and the verified hash.\<close>

definition MapAndValidateNrr ::
  "('r, 'k) ro_env \<Rightarrow> 'k \<Rightarrow> bool \<Rightarrow> u32 \<Rightarrow> u64 \<Rightarrow> u64 \<Rightarrow> u64 \<Rightarrow> module_type \<Rightarrow> bool \<Rightarrow>
     ('r, u64 \<times> u64 \<times> u8 list, 'k) kernel_outcome" where
  "MapAndValidateNrr env k dev h program_id heap_addr heap_sz expected_type enforce_type =
     (let (r, k) = env_map_code_in_process env k h heap_addr heap_sz
      in R_TRY (kr r) k (\<lambda>code_address.
         case env_locate_space env k heap_sz of
           (None, k) \<Rightarrow>
             (Err ResultOutOfAddressSpace, env_close_code env k h code_address heap_addr heap_sz)
         | (Some map_address, k) \<Rightarrow>
             (let (r, k) = env_map_process env k map_address h code_address heap_sz;
                  k_close = env_close_code env k h code_address heap_addr heap_sz
              in R_TRY (kr r) k_close (\<lambda>_.
                 let header = env_nrr_header env k map_address
                 in R_TRY (of_sum (ValidateNrr env k dev header heap_sz program_id expected_type enforce_type))
                      (env_close_code env (env_close_map env k map_address h code_address heap_sz)
                         h code_address heap_addr heap_sz)
                      (\<lambda>_. (Ok (map_address, code_address, env_sha256 env (signed_area header)), k))))))"

definition UnmapNrr ::
  "('r, 'k) ro_env \<Rightarrow> 'k \<Rightarrow> u32 \<Rightarrow> u64 \<Rightarrow> u64 \<Rightarrow> u64 \<Rightarrow> u64 \<Rightarrow> ('r, unit, 'k) kernel_outcome" where
  "UnmapNrr env k h header heap_addr heap_sz code_address =
     (let (r1, k) = env_unmap_process env k header h code_address heap_sz
      in R_TRY (kr r1) k (\<lambda>_.
         let (r2, k) = env_unmap_code env k h code_address heap_addr heap_sz
         in R_TRY (kr r2) k (\<lambda>_. (Ok (), k))))"

subsection \<open>Hash tables\<close>

definition HashSize :: nat where "HashSize = 32"

text \<open>The table as its entries.\<close>

fun hash_entries :: "nat \<Rightarrow> u8 list \<Rightarrow> u8 list list" where
  "hash_entries 0 table = []"
| "hash_entries (Suc n) table = take HashSize table # hash_entries n (drop HashSize table)"

text \<open>
  The entry is looked for while the table is hashed; the hash covers the data before the table,
  the table and zeros up to the size of the signed area. Sizes are 64-bit and wrap.
\<close>

fun hash_table_loop :: "u8 list \<Rightarrow> u8 list list \<Rightarrow> u8 list \<times> bool \<Rightarrow> u8 list \<times> bool" where
  "hash_table_loop desired [] acc = acc"
| "hash_table_loop desired (cur_hash # entries) (hashed, found) =
     hash_table_loop desired entries (hashed @ cur_hash, found \<or> cur_hash = desired)"

definition ValidateNrrHashTableEntry ::
  "('r, 'k) ro_env \<Rightarrow> u8 list \<Rightarrow> u64 \<Rightarrow> u64 \<Rightarrow> u64 \<Rightarrow> u8 list \<Rightarrow> u8 list \<Rightarrow> u8 list \<Rightarrow> bool" where
  "ValidateNrrHashTableEntry env area area_size hashes_ofs n nrr_hash table desired =
     (let pre_size = hashes_ofs - env_signed_area_offset env;
          before = take (unat pre_size) (area @ env_beyond_signed_area env);
          (hashed, found) = hash_table_loop desired (hash_entries (unat n) table) (before, False);
          remaining = area_size - pre_size - of_nat HashSize * n;
          final = env_sha256 env (hashed @ replicate (unat remaining) 0)
      in found \<and> final = nrr_hash)"

text \<open>\<open>memcmp\<close> order on hashes, and \<open>std::lower_bound\<close> as the binary search that it is.\<close>

fun memcmp_less :: "u8 list \<Rightarrow> u8 list \<Rightarrow> bool" where
  "memcmp_less (x # xs) (y # ys) = (if x = y then memcmp_less xs ys else x < y)"
| "memcmp_less _ _ = False"

function lower_bound_loop :: "u8 list list \<Rightarrow> u8 list \<Rightarrow> nat \<Rightarrow> nat \<Rightarrow> nat" where
  "lower_bound_loop xs v first len =
     (if len = 0 then first
      else let half = len div 2; mid = first + half
           in if memcmp_less (xs ! mid) v
              then lower_bound_loop xs v (mid + 1) (len - half - 1)
              else lower_bound_loop xs v first half)"
  by pat_completeness auto
termination by (relation "measure (\<lambda>(xs, v, first, len). len)") auto

declare lower_bound_loop.simps [simp del]

definition lower_bound :: "u8 list list \<Rightarrow> u8 list \<Rightarrow> nat" where
  "lower_bound xs v = lower_bound_loop xs v 0 (length xs)"

subsection \<open>What the hash checks establish\<close>

lemma hash_table_loop_eq:
  "hash_table_loop d es (h, f) = (h @ concat es, f \<or> d \<in> set es)"
  by (induction es arbitrary: h f) auto

lemma memcmp_less_trans:
  "\<lbrakk>length xs = length ys; length ys = length zs; memcmp_less xs ys; memcmp_less ys zs\<rbrakk>
    \<Longrightarrow> memcmp_less xs zs"
  by (induction xs zs arbitrary: ys rule: memcmp_less.induct) (auto simp: length_Suc_conv split: if_splits)

lemma memcmp_less_irrefl [simp]: "\<not> memcmp_less xs xs"
  by (induction xs) auto

lemma memcmp_less_total:
  "\<lbrakk>length xs = length ys; xs \<noteq> ys\<rbrakk> \<Longrightarrow> memcmp_less xs ys \<or> memcmp_less ys xs"
  by (induction xs ys rule: list_induct2) auto

definition hash_sorted :: "u8 list list \<Rightarrow> bool" where
  "hash_sorted xs \<longleftrightarrow> sorted_wrt memcmp_less xs \<and> (\<forall>x \<in> set xs. length x = HashSize)"

text \<open>On a sorted table the binary search stops at the first entry not below the value.\<close>

lemma lower_bound_loop_spec:
  assumes "hash_sorted xs" "length v = HashSize" "first + len \<le> length xs"
    "\<forall>i < first. memcmp_less (xs ! i) v" "\<forall>i. first + len \<le> i \<longrightarrow> i < length xs \<longrightarrow> \<not> memcmp_less (xs ! i) v"
  shows "lower_bound_loop xs v first len \<le> length xs \<and>
    (\<forall>i < lower_bound_loop xs v first len. memcmp_less (xs ! i) v) \<and>
    (\<forall>i. lower_bound_loop xs v first len \<le> i \<longrightarrow> i < length xs \<longrightarrow> \<not> memcmp_less (xs ! i) v)"
  using assms
proof (induction xs v first len rule: lower_bound_loop.induct)
  case (1 xs v first len)
  show ?case
  proof (cases "len = 0")
    case True
    then show ?thesis using "1.prems" by (simp add: lower_bound_loop.simps)
  next
    case False
    let ?half = "len div 2" and ?mid = "first + len div 2"
    have mid: "?mid < length xs" using False "1.prems"(3) by linarith
    have mono: "memcmp_less (xs ! i) (xs ! j)" if "i < j" "j < length xs" for i j
      using "1.prems"(1) that by (auto simp: hash_sorted_def sorted_wrt_iff_nth_less)
    have len: "length (xs ! i) = HashSize" if "i < length xs" for i
      using "1.prems"(1) that by (auto simp: hash_sorted_def)
    show ?thesis
    proof (cases "memcmp_less (xs ! ?mid) v")
      case True
      have below: "memcmp_less (xs ! i) v" if "i < Suc ?mid" for i
      proof (cases "i = ?mid")
        case False
        then have "memcmp_less (xs ! i) (xs ! ?mid)" using mono mid that by simp
        moreover have "i < length xs" using mid that by simp
        ultimately show ?thesis
          using memcmp_less_trans [of "xs ! i" "xs ! ?mid" v] True len mid "1.prems"(2) by simp
      qed (use True in simp)
      have "lower_bound_loop xs v first len = lower_bound_loop xs v (?mid + 1) (len - ?half - 1)"
        using False True by (simp add: lower_bound_loop.simps [of xs v first len] Let_def)
      then show ?thesis
        using "1.IH"(1) [OF False refl refl True] "1.prems" below False by simp
    next
      case not: False
      have above: "\<not> memcmp_less (xs ! i) v" if "?mid \<le> i" "i < length xs" for i
      proof (cases "i = ?mid")
        case False
        then have "memcmp_less (xs ! ?mid) (xs ! i)" using mono that by simp
        then show ?thesis
          using memcmp_less_trans [of "xs ! ?mid" "xs ! i" v] not len mid that "1.prems"(2) by auto
      qed (use not in simp)
      have "lower_bound_loop xs v first len = lower_bound_loop xs v first ?half"
        using False not by (simp add: lower_bound_loop.simps [of xs v first len] Let_def)
      then show ?thesis
        using "1.IH"(2) [OF False refl refl not] "1.prems" above mid by simp
    qed
  qed
qed

lemma lower_bound_finds:
  assumes "hash_sorted xs" "length v = HashSize"
  shows "lower_bound xs v < length xs \<and> xs ! lower_bound xs v = v \<longleftrightarrow> v \<in> set xs"
proof
  assume "v \<in> set xs"
  then obtain i where i: "i < length xs" "xs ! i = v" by (auto simp: in_set_conv_nth)
  let ?l = "lower_bound xs v"
  have s: "?l \<le> length xs" "\<forall>i < ?l. memcmp_less (xs ! i) v"
    "\<forall>i. ?l \<le> i \<longrightarrow> i < length xs \<longrightarrow> \<not> memcmp_less (xs ! i) v"
    unfolding lower_bound_def using lower_bound_loop_spec [of xs v 0 "length xs"] assms by auto
  have "?l \<le> i" using s(2) i by (metis memcmp_less_irrefl not_le_imp_less)
  moreover have "\<not> ?l < i"
  proof
    assume l: "?l < i"
    then have "memcmp_less (xs ! ?l) (xs ! i)"
      using assms(1) i by (auto simp: hash_sorted_def sorted_wrt_iff_nth_less)
    then show False using s(3) l i by (metis less_trans order_refl)
  qed
  ultimately have "?l = i" by simp
  then show "?l < length xs \<and> xs ! ?l = v" using i by simp
qed (metis nth_mem)

lemma lower_bound_le:
  "\<lbrakk>hash_sorted xs; length v = HashSize\<rbrakk> \<Longrightarrow> lower_bound xs v \<le> length xs"
  unfolding lower_bound_def using lower_bound_loop_spec [of xs v 0 "length xs"] by auto

text \<open>The test that the search has found the value.\<close>

lemma lower_bound_hit:
  assumes "hash_sorted xs" "length v = HashSize"
  shows "lower_bound xs v \<noteq> length xs \<and> xs ! lower_bound xs v = v \<longleftrightarrow> v \<in> set xs"
  using lower_bound_finds [OF assms] lower_bound_le [OF assms] by auto

end
