(* ===== verification/RoService.thy ===== *)
theory RoService
  imports RoMap
begin

text \<open>
  The module loading service (\<open>ro/source/impl/ro_service_impl.cpp\<close> and \<open>ro/source/ro_service.cpp\<close>):
  a fixed array of process contexts, each with its tables of registrations (NRR) and of
  loaded modules (NRO). A pointer into a table is its index. The copy loops of the tables
  become list updates; an output parameter is the value of the outcome.
\<close>

definition MaxSessions :: nat where "MaxSessions = 3"
definition MaxNrrInfos :: nat where "MaxNrrInfos = 0x40"
definition MaxNroInfos :: nat where "MaxNroInfos = 0x40"
definition InvalidContextId :: u64 where "InvalidContextId = -1"

record nro_info =
  base_address :: u64
  nro_heap_address :: u64
  nro_heap_size :: u64
  bss_heap_address :: u64
  bss_heap_size :: u64
  nro_code_size :: u64
  nro_rw_size :: u64
  module_id :: "u8 list"

record nrr_info =
  mapped_header :: u64
  nrr_heap_address :: u64
  nrr_heap_size :: u64
  mapped_code_address :: u64
  cached_signed_area_size :: u32
  cached_hashes_offset :: u32
  cached_num_hashes :: u32
  cached_signed_area :: "u8 list"
  signed_area_hash :: "u8 list"

record process_context =
  nro_in_use :: "bool list"
  nrr_in_use :: "bool list"
  nro_infos :: "nro_info list"
  nrr_infos :: "nrr_info list"
  process_handle :: u32
  process_id :: u64
  in_use :: bool

text \<open>The values \<open>memset\<close> leaves.\<close>

definition nro_info_zero :: nro_info where
  "nro_info_zero =
     \<lparr>base_address = 0, nro_heap_address = 0, nro_heap_size = 0, bss_heap_address = 0,
      bss_heap_size = 0, nro_code_size = 0, nro_rw_size = 0, module_id = replicate 32 0\<rparr>"

definition nrr_info_zero :: "('r, 'k) ro_env \<Rightarrow> nrr_info" where
  "nrr_info_zero env =
     \<lparr>mapped_header = 0, nrr_heap_address = 0, nrr_heap_size = 0, mapped_code_address = 0,
      cached_signed_area_size = 0, cached_hashes_offset = 0, cached_num_hashes = 0,
      cached_signed_area = replicate (unat (env_nrr_header_size env - env_signed_area_offset env)) 0,
      signed_area_hash = replicate HashSize 0\<rparr>"

definition context_zero :: "('r, 'k) ro_env \<Rightarrow> process_context" where
  "context_zero env =
     \<lparr>nro_in_use = replicate MaxNroInfos False, nrr_in_use = replicate MaxNrrInfos False,
      nro_infos = replicate MaxNroInfos nro_info_zero,
      nrr_infos = replicate MaxNrrInfos (nrr_info_zero env),
      process_handle = 0, process_id = 0, in_use = False\<rparr>"

record 'k ro_state =
  process_contexts :: "process_context list"
  is_development_hardware :: bool
  is_development_function_enabled :: bool
  kernel :: 'k

definition ro_initial :: "('r, 'k) ro_env \<Rightarrow> 'k \<Rightarrow> 'k ro_state" where
  "ro_initial env k =
     \<lparr>process_contexts = replicate MaxSessions (context_zero env),
      is_development_hardware = False, is_development_function_enabled = False, kernel = k\<rparr>"

type_synonym ('r, 'a, 'k) ro_outcome = "('r ro_error, 'a) outcome \<times> 'k ro_state"

definition set_context :: "nat \<Rightarrow> process_context \<Rightarrow> 'k ro_state \<Rightarrow> 'k ro_state" where
  "set_context i c s = s\<lparr>process_contexts := (process_contexts s)[i := c]\<rparr>"

text \<open>Running a kernel operation inside the service.\<close>

definition with_kernel ::
  "('r, 'a, 'k) kernel_outcome \<Rightarrow> 'k ro_state \<Rightarrow> ('r, 'a, 'k) ro_outcome" where
  "with_kernel rk s = (fst rk, s\<lparr>kernel := snd rk\<rparr>)"

subsection \<open>Searching a context\<close>

definition scan :: "nat \<Rightarrow> (nat \<Rightarrow> bool) \<Rightarrow> nat option" where
  "scan n P = find_idx P [0..<n]"

lemma scan_Some: "scan n P = Some i \<Longrightarrow> i < n \<and> P i"
  by (auto simp: scan_def find_idx_Some_iff)

lemma scan_None: "scan n P = None \<longleftrightarrow> (\<forall>i < n. \<not> P i)"
  by (auto simp: scan_def)

definition or_error :: "'e \<Rightarrow> 'a option \<Rightarrow> ('e, 'a) outcome" where
  "or_error e x = (case x of None \<Rightarrow> Err e | Some v \<Rightarrow> Ok v)"

lemma or_error_simps [simp]: "or_error e None = Err e" "or_error e (Some v) = Ok v"
  by (simp_all add: or_error_def)

lemma or_error_Ok [simp]: "or_error e x = Ok v \<longleftrightarrow> x = Some v"
  by (cases x) simp_all

definition GetNrrInfoByAddress :: "process_context \<Rightarrow> u64 \<Rightarrow> ('r ro_error, nat) outcome" where
  "GetNrrInfoByAddress c addr = or_error ResultNotRegistered
     (scan MaxNrrInfos (\<lambda>i. nrr_in_use c ! i \<and> nrr_heap_address (nrr_infos c ! i) = addr))"

definition GetFreeNrrInfo :: "process_context \<Rightarrow> ('r ro_error, nat) outcome" where
  "GetFreeNrrInfo c = or_error ResultTooManyNrr (scan MaxNrrInfos (\<lambda>i. \<not> nrr_in_use c ! i))"

definition GetNroInfoByAddress :: "process_context \<Rightarrow> u64 \<Rightarrow> ('r ro_error, nat) outcome" where
  "GetNroInfoByAddress c addr = or_error ResultNotLoaded
     (scan MaxNroInfos (\<lambda>i. nro_in_use c ! i \<and> base_address (nro_infos c ! i) = addr))"

definition GetNroInfoByModuleId :: "process_context \<Rightarrow> u8 list \<Rightarrow> ('r ro_error, nat) outcome" where
  "GetNroInfoByModuleId c m = or_error ResultNotLoaded
     (scan MaxNroInfos (\<lambda>i. nro_in_use c ! i \<and> module_id (nro_infos c ! i) = m))"

definition GetFreeNroInfo :: "process_context \<Rightarrow> ('r ro_error, nat) outcome" where
  "GetFreeNroInfo c = or_error ResultTooManyNro (scan MaxNroInfos (\<lambda>i. \<not> nro_in_use c ! i))"

definition GetProgramId ::
  "('r, 'k) ro_env \<Rightarrow> 'k \<Rightarrow> process_context \<Rightarrow> u32 \<Rightarrow> ('r ro_error, u64) outcome" where
  "GetProgramId env k c other_process_h =
     (let process_h = (if other_process_h \<noteq> env_invalid_handle env then other_process_h
                       else process_handle c)
      in case (if env_version_ge_3_0_0 env then env_info_program_id env k process_h
               else env_pm_program_id env k process_h) of
           None \<Rightarrow> Abort
         | Some p \<Rightarrow> Ok p)"

subsection \<open>Validating a module\<close>

text \<open>One registration: is the hash in its mapped table, and is the table the signed one?\<close>

definition nrr_grants_hash :: "('r, 'k) ro_env \<Rightarrow> 'k \<Rightarrow> nrr_info \<Rightarrow> u8 list \<Rightarrow> bool" where
  "nrr_grants_hash env k info hash =
     (let header = env_nrr_header env k (mapped_header info);
          n = unat (num_hashes header);
          table = env_read_bytes env k (mapped_header info + ucast (hashes_offset header)) (HashSize * n);
          entries = hash_entries n table;
          i = lower_bound entries hash
      in if n = 0 then False
         else if i = length entries \<or> entries ! i \<noteq> hash then False
         else ValidateNrrHashTableEntry env (cached_signed_area info)
                (ucast (cached_signed_area_size info)) (ucast (cached_hashes_offset info))
                (ucast (cached_num_hashes info)) (signed_area_hash info)
                (env_read_bytes env k (mapped_header info + ucast (hashes_offset header))
                   (HashSize * unat (cached_num_hashes info))) hash)"

definition ValidateHasNroHash ::
  "('r, 'k) ro_env \<Rightarrow> 'k \<Rightarrow> process_context \<Rightarrow> u64 \<Rightarrow> ('r ro_error, unit) outcome" where
  "ValidateHasNroHash env k c map_address =
     (let hash = env_sha256 env
                   (env_read_bytes env k map_address (unat (nro_size (env_nro_header env k map_address))))
      in case scan MaxNrrInfos (\<lambda>i. nrr_in_use c ! i \<and> nrr_grants_hash env k (nrr_infos c ! i) hash) of
           None \<Rightarrow> Err ResultNotAuthorized
         | Some _ \<Rightarrow> Ok ())"

definition nro_layout_checks ::
  "('r, 'k) ro_env \<Rightarrow> nro_header \<Rightarrow> u64 \<Rightarrow> u64 \<Rightarrow> bool" where
  "nro_layout_checks env header expected_nro_size expected_bss_size =
     (if \<not> nro_magic_valid header then False
      else if nro_size header \<noteq> expected_nro_size then False
      else if bss_size header \<noteq> expected_bss_size then False
      else if \<not> env_page_aligned env (text_size header) then False
      else if \<not> env_page_aligned env (ro_size header) then False
      else if \<not> env_page_aligned env (rw_size header) then False
      else if \<not> env_page_aligned env (bss_size header) then False
      else if \<not> text_offset header \<le> ro_offset header then False
      else if \<not> ro_offset header \<le> rw_offset header then False
      else if text_offset header \<noteq> 0 then False
      else if text_offset header + text_size header \<noteq> ro_offset header then False
      else if ro_offset header + ro_size header \<noteq> rw_offset header then False
      else if rw_offset header + rw_size header \<noteq> nro_size header then False
      else True)"

text \<open>The part of \<open>ValidateNro\<close> that runs while the module is mapped.\<close>

definition validate_mapped_nro ::
  "('r, 'k) ro_env \<Rightarrow> 'k \<Rightarrow> process_context \<Rightarrow> u64 \<Rightarrow> u64 \<Rightarrow> u64 \<Rightarrow>
     ('r, u8 list \<times> u64 \<times> u64 \<times> u64, 'k) kernel_outcome" where
  "validate_mapped_nro env k c map_address expected_nro_size expected_bss_size =
     (let header = env_nro_header env k map_address
      in R_UNLESS (nro_layout_checks env header expected_nro_size expected_bss_size) ResultInvalidNro k (
         R_TRY (ValidateHasNroHash env k c map_address) k (\<lambda>_.
         R_UNLESS (case GetNroInfoByModuleId c (nro_module_id header) :: ('r ro_error, nat) outcome of
                     Ok _ \<Rightarrow> False | _ \<Rightarrow> True) ResultAlreadyLoaded k (
         let k = env_apply_patches env k (nro_module_id header) map_address (nro_size header)
                   (env_uninitialized_program_id env)
         in (Ok (nro_module_id header, text_size header, ro_size header, rw_size header), k)))))"

definition ValidateNro ::
  "('r, 'k) ro_env \<Rightarrow> 'k \<Rightarrow> process_context \<Rightarrow> u64 \<Rightarrow> u64 \<Rightarrow> u64 \<Rightarrow>
     ('r, u8 list \<times> u64 \<times> u64 \<times> u64, 'k) kernel_outcome" where
  "ValidateNro env k c base expected_nro_size expected_bss_size =
     (case env_locate_space env k expected_nro_size of
        (None, k) \<Rightarrow> (Err ResultOutOfAddressSpace, k)
      | (Some map_address, k) \<Rightarrow>
          (let (r, k) = env_map_process env k map_address (process_handle c) base expected_nro_size
           in R_TRY (kr r) k (\<lambda>_.
              let (r, k) = validate_mapped_nro env k c map_address expected_nro_size expected_bss_size
              in (r, env_close_map env k map_address (process_handle c) base expected_nro_size))))"

definition SetNrrInfoInUse :: "nat \<Rightarrow> bool \<Rightarrow> process_context \<Rightarrow> process_context" where
  "SetNrrInfoInUse i b c = c\<lparr>nrr_in_use := (nrr_in_use c)[i := b]\<rparr>"

definition SetNroInfoInUse :: "nat \<Rightarrow> bool \<Rightarrow> process_context \<Rightarrow> process_context" where
  "SetNroInfoInUse i b c = c\<lparr>nro_in_use := (nro_in_use c)[i := b]\<rparr>"

subsection \<open>Contexts\<close>

text \<open>\<open>None\<close> is the null pointer of the invalid id; an id out of range aborts.\<close>

definition GetContextById :: "u64 \<Rightarrow> ('r ro_error, nat option) outcome" where
  "GetContextById context_id =
     (if context_id = InvalidContextId then Ok None
      else if unat context_id < MaxSessions then Ok (Some (unat context_id))
      else Abort)"

definition GetContextByProcessId :: "'k ro_state \<Rightarrow> u64 \<Rightarrow> nat option" where
  "GetContextByProcessId s pid = find_idx (\<lambda>c. process_id c = pid) (process_contexts s)"

definition AllocateContext ::
  "('r, 'k) ro_env \<Rightarrow> 'k ro_state \<Rightarrow> u32 \<Rightarrow> u64 \<Rightarrow> ('r, u64, 'k) ro_outcome" where
  "AllocateContext env s h pid =
     (case find_idx (\<lambda>c. \<not> in_use c) (process_contexts s) of
        None \<Rightarrow> (Abort, s)
      | Some i \<Rightarrow>
          (Ok (of_nat i),
           set_context i ((context_zero env)\<lparr>process_id := pid, process_handle := h, in_use := True\<rparr>) s))"

definition unmap_all_nrrs ::
  "('r, 'k) ro_env \<Rightarrow> process_context \<Rightarrow> 'k \<Rightarrow> 'k" where
  "unmap_all_nrrs env c k =
     fold (\<lambda>i k. if nrr_in_use c ! i
                 then snd (UnmapNrr env k (process_handle c) (mapped_header (nrr_infos c ! i))
                             (nrr_heap_address (nrr_infos c ! i)) (nrr_heap_size (nrr_infos c ! i))
                             (mapped_code_address (nrr_infos c ! i)))
                 else k) [0..<MaxNrrInfos] k"

definition FreeContext ::
  "('r, 'k) ro_env \<Rightarrow> 'k ro_state \<Rightarrow> u64 \<Rightarrow> ('r, unit, 'k) ro_outcome" where
  "FreeContext env s context_id =
     R_TRY (GetContextById context_id) s (\<lambda>ctx.
       case ctx of
         None \<Rightarrow> (Ok (), s)
       | Some i \<Rightarrow>
           let c = process_contexts s ! i;
               k = (if process_handle c \<noteq> env_invalid_handle env
                    then env_close_handle env (unmap_all_nrrs env c (kernel s)) (process_handle c)
                    else kernel s)
           in (Ok (), set_context i (context_zero env) (s\<lparr>kernel := k\<rparr>)))"

definition ValidateAddressAndNonZeroSize ::
  "('r, 'k) ro_env \<Rightarrow> u64 \<Rightarrow> u64 \<Rightarrow> ('r ro_error, unit) outcome" where
  "ValidateAddressAndNonZeroSize env address size' =
     (if \<not> env_page_aligned env address then Err ResultInvalidAddress
      else if size' = 0 then Err ResultInvalidSize
      else if \<not> env_page_aligned env size' then Err ResultInvalidSize
      else if \<not> address < address + size' then Err ResultInvalidSize
      else Ok ())"

definition ValidateAddressAndSize ::
  "('r, 'k) ro_env \<Rightarrow> u64 \<Rightarrow> u64 \<Rightarrow> ('r ro_error, unit) outcome" where
  "ValidateAddressAndSize env address size' =
     (if \<not> env_page_aligned env address then Err ResultInvalidAddress
      else if \<not> env_page_aligned env size' then Err ResultInvalidSize
      else if \<not> (size' = 0 \<or> address < address + size') then Err ResultInvalidSize
      else Ok ())"

definition SetDevelopmentHardware :: "bool \<Rightarrow> 'k ro_state \<Rightarrow> 'k ro_state" where
  "SetDevelopmentHardware b s = s\<lparr>is_development_hardware := b\<rparr>"

definition SetDevelopmentFunctionEnabled :: "bool \<Rightarrow> 'k ro_state \<Rightarrow> 'k ro_state" where
  "SetDevelopmentFunctionEnabled b s = s\<lparr>is_development_function_enabled := b\<rparr>"

subsection \<open>Processes\<close>

definition RegisterProcess ::
  "('r, 'k) ro_env \<Rightarrow> 'k ro_state \<Rightarrow> u32 \<Rightarrow> u64 \<Rightarrow> ('r, u64, 'k) ro_outcome" where
  "RegisterProcess env s h pid =
     (case env_process_id_of env (kernel s) h of
        None \<Rightarrow> (Err ResultInvalidProcess, s)
      | Some handle_pid \<Rightarrow>
          R_UNLESS (handle_pid = pid) ResultInvalidProcess s (
          R_UNLESS (GetContextByProcessId s pid = None) ResultInvalidSession s (
          AllocateContext env s h pid)))"

definition ValidateProcess ::
  "'k ro_state \<Rightarrow> u64 \<Rightarrow> u64 \<Rightarrow> ('r ro_error, unit) outcome" where
  "ValidateProcess s context_id pid =
     (case GetContextById context_id :: ('r ro_error, nat option) outcome of
        Ok None \<Rightarrow> Err ResultInvalidProcess
      | Ok (Some i) \<Rightarrow> (if process_id (process_contexts s ! i) = pid then Ok () else Err ResultInvalidProcess)
      | Err e \<Rightarrow> Err e
      | Abort \<Rightarrow> Abort)"

definition UnregisterProcess ::
  "('r, 'k) ro_env \<Rightarrow> 'k ro_state \<Rightarrow> u64 \<Rightarrow> ('r, unit, 'k) ro_outcome" where
  "UnregisterProcess env s context_id = FreeContext env s context_id"

text \<open>\<open>GetContextById\<close> followed by the abort on a null context.\<close>

definition require_context ::
  "'k ro_state \<Rightarrow> u64 \<Rightarrow> (nat \<Rightarrow> ('r, 'a, 'k) ro_outcome) \<Rightarrow> ('r, 'a, 'k) ro_outcome" where
  "require_context s context_id f =
     R_TRY (GetContextById context_id) s (\<lambda>ctx.
       case ctx of None \<Rightarrow> (Abort, s) | Some i \<Rightarrow> f i)"

subsection \<open>Registrations\<close>

definition LoadNrr ::
  "('r, 'k) ro_env \<Rightarrow> 'k ro_state \<Rightarrow> u64 \<Rightarrow> u32 \<Rightarrow> u64 \<Rightarrow> u64 \<Rightarrow> module_type \<Rightarrow> bool \<Rightarrow>
     ('r, unit, 'k) ro_outcome" where
  "LoadNrr env s context_id process_h nrr_address nrr_sz expected_type enforce_type =
     require_context s context_id (\<lambda>ci.
       let c = process_contexts s ! ci
       in R_TRY (GetProgramId env (kernel s) c process_h) s (\<lambda>program_id.
          R_TRY (ValidateAddressAndNonZeroSize env nrr_address nrr_sz) s (\<lambda>_.
          R_TRY (GetFreeNrrInfo c) s (\<lambda>i.
          let (r, s) = with_kernel (MapAndValidateNrr env (kernel s) (is_development_hardware s)
                         (process_handle c) program_id nrr_address nrr_sz expected_type enforce_type) s
          in R_TRY r s (\<lambda>(header, code_address, hash).
             let h = env_nrr_header env (kernel s) header;
                 copied = unat (min (env_nrr_header_size env - env_signed_area_offset env)
                                 (ucast (hashes_offset h) - env_signed_area_offset env));
                 old = nrr_infos c ! i;
                 info = old\<lparr>mapped_header := header, nrr_heap_address := nrr_address,
                            nrr_heap_size := nrr_sz, mapped_code_address := code_address,
                            cached_signed_area_size := signed_area_size h,
                            cached_hashes_offset := hashes_offset h,
                            cached_num_hashes := num_hashes h,
                            cached_signed_area :=
                              env_read_bytes env (kernel s) (header + env_signed_area_offset env) copied
                              @ drop copied (cached_signed_area old),
                            signed_area_hash := hash\<rparr>
             in (Ok (), set_context ci
                   ((SetNrrInfoInUse i True c)\<lparr>nrr_infos := (nrr_infos c)[i := info]\<rparr>) s))))))"

definition UnloadNrr ::
  "('r, 'k) ro_env \<Rightarrow> 'k ro_state \<Rightarrow> u64 \<Rightarrow> u64 \<Rightarrow> ('r, unit, 'k) ro_outcome" where
  "UnloadNrr env s context_id nrr_address =
     require_context s context_id (\<lambda>ci.
       let c = process_contexts s ! ci
       in R_UNLESS (env_page_aligned env nrr_address) ResultInvalidAddress s (
          R_TRY (GetNrrInfoByAddress c nrr_address) s (\<lambda>i.
          let backup = nrr_infos c ! i;
              s = set_context ci
                    ((SetNrrInfoInUse i False c)\<lparr>nrr_infos := (nrr_infos c)[i := nrr_info_zero env]\<rparr>) s
          in with_kernel (UnmapNrr env (kernel s) (process_handle c) (mapped_header backup)
               (nrr_heap_address backup) (nrr_heap_size backup) (mapped_code_address backup)) s)))"

subsection \<open>Modules\<close>

definition LoadNro ::
  "('r, 'k) ro_env \<Rightarrow> 'k ro_state \<Rightarrow> u64 \<Rightarrow> u64 \<Rightarrow> u64 \<Rightarrow> u64 \<Rightarrow> u64 \<Rightarrow> ('r, u64, 'k) ro_outcome" where
  "LoadNro env s context_id nro_address nro_sz bss_address bss_sz =
     require_context s context_id (\<lambda>ci.
       let c = process_contexts s ! ci
       in R_TRY (ValidateAddressAndNonZeroSize env nro_address nro_sz) s (\<lambda>_.
          R_TRY (ValidateAddressAndSize env bss_address bss_sz) s (\<lambda>_.
          let total_size = nro_sz + bss_sz
          in R_UNLESS (total_size \<ge> nro_sz) ResultInvalidSize s (
             R_UNLESS (total_size \<ge> bss_sz) ResultInvalidSize s (
             R_TRY (GetFreeNroInfo c) s (\<lambda>i.
             let info = (nro_infos c ! i)\<lparr>nro_heap_address := nro_address, nro_heap_size := nro_sz,
                          bss_heap_address := bss_address, bss_heap_size := bss_sz\<rparr>;
                 c = c\<lparr>nro_infos := (nro_infos c)[i := info]\<rparr>;
                 (r, s) = with_kernel (MapNro env (kernel s) (process_handle c) nro_address nro_sz
                            bss_address bss_sz) (set_context ci c s)
             in R_TRY r s (\<lambda>base.
                let info = info\<lparr>base_address := base\<rparr>;
                    c = c\<lparr>nro_infos := (nro_infos c)[i := info]\<rparr>;
                    (r, s) = with_kernel (ValidateNro env (kernel s) c base nro_sz bss_sz) (set_context ci c s);
                    s_unmap = snd (with_kernel (UnmapNro env (kernel s) (process_handle c) base
                                nro_address bss_address bss_sz nro_sz 0) s)
                in R_TRY r s_unmap (\<lambda>(mid, rx, ro, rw).
                   let info = info\<lparr>module_id := mid\<rparr>;
                       c = c\<lparr>nro_infos := (nro_infos c)[i := info]\<rparr>;
                       (r, s) = with_kernel (SetNroPerms env (kernel s) (process_handle c) base rx ro
                                  (rw + bss_sz)) (set_context ci c s);
                       s_unmap = snd (with_kernel (UnmapNro env (kernel s) (process_handle c) base
                                   nro_address bss_address bss_sz (rx + ro) rw) s)
                   in R_TRY r s_unmap (\<lambda>_.
                      let info = info\<lparr>nro_code_size := rx + ro, nro_rw_size := rw\<rparr>;
                          c = (SetNroInfoInUse i True c)\<lparr>nro_infos := (nro_infos c)[i := info]\<rparr>
                      in (Ok base, set_context ci c s))))))))))"

definition UnloadNro ::
  "('r, 'k) ro_env \<Rightarrow> 'k ro_state \<Rightarrow> u64 \<Rightarrow> u64 \<Rightarrow> ('r, unit, 'k) ro_outcome" where
  "UnloadNro env s context_id nro_address =
     require_context s context_id (\<lambda>ci.
       let c = process_contexts s ! ci
       in R_UNLESS (env_page_aligned env nro_address) ResultInvalidAddress s (
          R_TRY (GetNroInfoByAddress c nro_address) s (\<lambda>i.
          let backup = nro_infos c ! i;
              s = set_context ci
                    ((SetNroInfoInUse i False c)\<lparr>nro_infos := (nro_infos c)[i := nro_info_zero]\<rparr>) s
          in with_kernel (UnmapNro env (kernel s) (process_handle c) (base_address backup)
               (nro_heap_address backup) (bss_heap_address backup) (bss_heap_size backup)
               (nro_code_size backup) (nro_rw_size backup)) s)))"

text \<open>Build id, base address and size of the loaded modules, at most \<open>max_out_count\<close>.\<close>

definition GetProcessModuleInfo ::
  "'k ro_state \<Rightarrow> nat \<Rightarrow> u64 \<Rightarrow> (u8 list \<times> u64 \<times> u64) list" where
  "GetProcessModuleInfo s max_out_count pid =
     (case GetContextByProcessId s pid of
        None \<Rightarrow> []
      | Some ci \<Rightarrow>
          let c = process_contexts s ! ci
          in take max_out_count
               (map (\<lambda>i. let info = nro_infos c ! i
                         in (module_id info, base_address info, nro_heap_size info + bss_heap_size info))
                  (filter (\<lambda>i. nro_in_use c ! i) [0..<MaxNroInfos])))"

text \<open>The debug monitor's command; the count of the buffer is a 64-bit size.\<close>

definition DebugMonitor_GetProcessModuleInfo ::
  "'k ro_state \<Rightarrow> nat \<Rightarrow> u64 \<Rightarrow> ('r ro_error, (u8 list \<times> u64 \<times> u64) list) outcome" where
  "DebugMonitor_GetProcessModuleInfo s out_infos_size pid =
     (if out_infos_size \<le> 0x7FFFFFFF then Ok (GetProcessModuleInfo s out_infos_size pid)
      else Err ResultInvalidSize)"

subsection \<open>The service interface\<close>

record ro_service =
  context_id :: u64
  service_type :: module_type

definition Service_fresh :: "module_type \<Rightarrow> ro_service" where
  "Service_fresh t = \<lparr>context_id = InvalidContextId, service_type = t\<rparr>"

datatype ro_cmd =
    CmdLoadNro u64 u64 u64 u64 u64 \<comment> \<open>client process id first, in every command\<close>
  | CmdUnloadNro u64 u64
  | CmdLoadNrr u64 u64 u64
  | CmdUnloadNrr u64 u64
  | CmdInitialize u64 u32
  | CmdLoadNrrEx u64 u64 u64 u32

definition client_pid :: "ro_cmd \<Rightarrow> u64" where
  "client_pid cmd =
     (case cmd of CmdLoadNro p _ _ _ _ \<Rightarrow> p | CmdUnloadNro p _ \<Rightarrow> p | CmdLoadNrr p _ _ \<Rightarrow> p
      | CmdUnloadNrr p _ \<Rightarrow> p | CmdInitialize p _ \<Rightarrow> p | CmdLoadNrrEx p _ _ _ \<Rightarrow> p)"

definition Service_Initialize ::
  "('r, 'k) ro_env \<Rightarrow> ro_service \<Rightarrow> u64 \<Rightarrow> u32 \<Rightarrow> 'k ro_state \<Rightarrow>
     ('r ro_error, unit) outcome \<times> ro_service \<times> 'k ro_state" where
  "Service_Initialize env u p h s =
     (case RegisterProcess env s h p of
        (Ok i, s') \<Rightarrow> (Ok (), u\<lparr>context_id := i\<rparr>, s')
      | (Err e, s') \<Rightarrow> (Err e, u, s')
      | (Abort, s') \<Rightarrow> (Abort, u, s'))"

definition for_client ::
  "ro_service \<Rightarrow> u64 \<Rightarrow> 'k ro_state \<Rightarrow> ('r, 'a, 'k) ro_outcome \<Rightarrow> ('r, 'a, 'k) ro_outcome" where
  "for_client u p s op = R_TRY (ValidateProcess s (context_id u) p) s (\<lambda>_. op)"

text \<open>The value of a command is the load address of a module, zero for the other commands.\<close>

definition no_value :: "('r, unit, 'k) ro_outcome \<Rightarrow> ('r, u64, 'k) ro_outcome" where
  "no_value r = R_TRY (fst r) (snd r) (\<lambda>_. (Ok 0, snd r))"

fun Service_call ::
  "('r, 'k) ro_env \<Rightarrow> ro_service \<Rightarrow> ro_cmd \<Rightarrow> 'k ro_state \<Rightarrow>
     ('r ro_error, u64) outcome \<times> ro_service \<times> 'k ro_state" where
  "Service_call env u (CmdLoadNro p a n b m) s =
     (let (r, s) = for_client u p s (LoadNro env s (context_id u) a n b m) in (r, u, s))"
| "Service_call env u (CmdUnloadNro p a) s =
     (let (r, s) = for_client u p s (no_value (UnloadNro env s (context_id u) a)) in (r, u, s))"
| "Service_call env u (CmdLoadNrr p a n) s =
     (let (r, s) = for_client u p s (no_value
                     (LoadNrr env s (context_id u) (env_invalid_handle env) a n ForSelf True))
      in (r, u, s))"
| "Service_call env u (CmdUnloadNrr p a) s =
     (let (r, s) = for_client u p s (no_value (UnloadNrr env s (context_id u) a)) in (r, u, s))"
| "Service_call env u (CmdInitialize p h) s =
     (let (r, u, s) = Service_Initialize env u p h s
      in (case r of Ok _ \<Rightarrow> (Ok 0, u, s) | Err e \<Rightarrow> (Err e, u, s) | Abort \<Rightarrow> (Abort, u, s)))"
| "Service_call env u (CmdLoadNrrEx p a n h) s =
     (let (r, s) = for_client u p s (no_value
                     (LoadNrr env s (context_id u) h a n (service_type u) (service_type u = ForOthers)))
      in (r, u, s))"

text \<open>The destructor of the service.\<close>

definition Service_close ::
  "('r, 'k) ro_env \<Rightarrow> ro_service \<Rightarrow> 'k ro_state \<Rightarrow> ('r, unit, 'k) ro_outcome" where
  "Service_close env u s = UnregisterProcess env s (context_id u)"

end
