(* ===== verification/RoInvariant.thy ===== *)
theory RoInvariant
  imports RoService
begin

text \<open>
  The invariant of the module loading service, kept by every operation, and what a load may do
  to the tables: nothing but the entry of an unused slot when it fails, one new entry of an
  authorised module when it succeeds.
\<close>

subsection \<open>The state invariant\<close>

text \<open>No module is loaded twice into a process.\<close>

definition modules_distinct :: "process_context \<Rightarrow> bool" where
  "modules_distinct c \<longleftrightarrow>
     (\<forall>i < MaxNroInfos. \<forall>j < MaxNroInfos. nro_in_use c ! i \<longrightarrow> nro_in_use c ! j \<longrightarrow>
        module_id (nro_infos c ! i) = module_id (nro_infos c ! j) \<longrightarrow> i = j)"

definition context_ok :: "process_context \<Rightarrow> bool" where
  "context_ok c \<longleftrightarrow>
     length (nro_in_use c) = MaxNroInfos \<and> length (nrr_in_use c) = MaxNrrInfos \<and>
     length (nro_infos c) = MaxNroInfos \<and> length (nrr_infos c) = MaxNrrInfos \<and>
     modules_distinct c \<and>
     (\<not> in_use c \<longrightarrow> process_id c = 0 \<and> process_handle c = 0)"

definition ro_inv :: "'k ro_state \<Rightarrow> bool" where
  "ro_inv s \<longleftrightarrow>
     length (process_contexts s) = MaxSessions \<and> list_all context_ok (process_contexts s) \<and>
     (\<forall>i < MaxSessions. \<forall>j < MaxSessions.
        in_use (process_contexts s ! i) \<longrightarrow> in_use (process_contexts s ! j) \<longrightarrow>
        process_id (process_contexts s ! i) = process_id (process_contexts s ! j) \<longrightarrow> i = j)"

lemma context_zero_ok [simp]: "context_ok (context_zero env)"
  by (simp add: context_ok_def context_zero_def modules_distinct_def)

lemma ro_initial_inv: "ro_inv (ro_initial env k)"
  by (simp add: ro_inv_def ro_initial_def list_all_iff) (simp add: context_zero_def)

lemma set_context_sel [simp]:
  "process_contexts (set_context i c s) = (process_contexts s)[i := c]"
  "kernel (set_context i c s) = kernel s"
  by (simp_all add: set_context_def)

lemma with_kernel_sel [simp]:
  "fst (with_kernel r s) = fst r" "process_contexts (snd (with_kernel r s)) = process_contexts s"
  by (simp_all add: with_kernel_def)

lemma with_kernel_pair: "with_kernel rk s = (r, s') \<longleftrightarrow> fst rk = r \<and> s' = s\<lparr>kernel := snd rk\<rparr>"
  by (auto simp: with_kernel_def)

text \<open>Replacing a context by one of the same process keeps the invariant.\<close>

definition same_process :: "process_context \<Rightarrow> process_context \<Rightarrow> bool" where
  "same_process c c' \<longleftrightarrow> process_id c' = process_id c \<and> in_use c' = in_use c"

lemma ro_inv_kernel [simp]: "ro_inv (s\<lparr>kernel := k\<rparr>) = ro_inv s"
  by (simp add: ro_inv_def)

lemma ro_inv_set_context:
  assumes "ro_inv s" "i < MaxSessions" "same_process (process_contexts s ! i) c" "context_ok c"
  shows "ro_inv (set_context i c s)"
proof -
  have "in_use ((process_contexts s)[i := c] ! j) = in_use (process_contexts s ! j)"
    "process_id ((process_contexts s)[i := c] ! j) = process_id (process_contexts s ! j)"
    if "j < MaxSessions" for j
    using assms that by (auto simp: ro_inv_def same_process_def nth_list_update)
  then show ?thesis
    using assms by (simp add: ro_inv_def list_all_iff) (metis in_set_conv_nth length_list_update nth_list_update)
qed

lemma ro_inv_context:
  assumes "ro_inv s" "i < MaxSessions"
  shows "context_ok (process_contexts s ! i)"
  using assms by (simp add: ro_inv_def list_all_length)

subsection \<open>Failure and the loaded modules\<close>

text \<open>A computation that fails, and then leaves the state in \<open>Q\<close>.\<close>

definition failing :: "('s \<Rightarrow> bool) \<Rightarrow> ('e, 'a) outcome \<times> 's \<Rightarrow> bool" where
  "failing Q x \<longleftrightarrow> (case fst x of Ok _ \<Rightarrow> True | _ \<Rightarrow> Q (snd x))"

lemma failing_rules:
  "failing Q (Ok v, s)" "Q s \<Longrightarrow> failing Q (Err e, s)" "Q s \<Longrightarrow> failing Q (Abort, s)"
  "\<lbrakk>Q s; \<And>v. r = Ok v \<Longrightarrow> failing Q (k v)\<rbrakk> \<Longrightarrow> failing Q (R_TRY r s k)"
  "\<lbrakk>Q s; c \<Longrightarrow> failing Q k'\<rbrakk> \<Longrightarrow> failing Q (R_UNLESS c e s k')"
proof -
  show "\<lbrakk>Q s; \<And>v. r = Ok v \<Longrightarrow> failing Q (k v)\<rbrakk> \<Longrightarrow> failing Q (R_TRY r s k)"
    by (cases r) (simp_all add: failing_def)
qed (simp_all add: failing_def R_UNLESS_def)

text \<open>The same modules are loaded for the same processes.\<close>

definition same_loaded :: "process_context \<Rightarrow> process_context \<Rightarrow> bool" where
  "same_loaded c c' \<longleftrightarrow>
     same_process c c' \<and> nro_in_use c' = nro_in_use c \<and> nrr_in_use c' = nrr_in_use c \<and>
     nrr_infos c' = nrr_infos c \<and>
     (\<forall>i < MaxNroInfos. nro_in_use c ! i \<longrightarrow> nro_infos c' ! i = nro_infos c ! i)"

definition same_modules :: "'k ro_state \<Rightarrow> 'k ro_state \<Rightarrow> bool" where
  "same_modules s s' \<longleftrightarrow> list_all2 same_loaded (process_contexts s) (process_contexts s')"

lemma same_loaded_refl [simp]: "same_loaded c c"
  by (simp add: same_loaded_def same_process_def)

lemma same_modules_refl [simp]: "same_modules s s"
  by (simp add: same_modules_def list_all2_refl)

lemma same_modules_kernel [simp]:
  "same_modules s (s'\<lparr>kernel := k\<rparr>) = same_modules s s'"
  by (simp add: same_modules_def)

lemma same_modules_set_context:
  "\<lbrakk>same_modules s s'; same_loaded (process_contexts s ! i) c\<rbrakk> \<Longrightarrow> same_modules s (set_context i c s')"
  unfolding same_modules_def list_all2_conv_all_nth
proof (intro conjI allI impI)
  fix j
  assume a: "length (process_contexts s) = length (process_contexts s') \<and>
      (\<forall>i<length (process_contexts s). same_loaded (process_contexts s ! i) (process_contexts s' ! i))"
    "same_loaded (process_contexts s ! i) c" "j < length (process_contexts s)"
  then show "same_loaded (process_contexts s ! j) (process_contexts (set_context i c s') ! j)"
    by (cases "j = i") simp_all
qed simp

lemma same_loaded_free_slot:
  "\<not> nro_in_use c ! i \<Longrightarrow> same_loaded c (c\<lparr>nro_infos := (nro_infos c)[i := info]\<rparr>)"
  by (simp add: same_loaded_def same_process_def) (metis nth_list_update_neq)

lemma find_idx_cong2:
  "list_all2 (\<lambda>x y. P x = Q y) xs ys \<Longrightarrow> find_idx P xs = find_idx Q ys"
  by (induction rule: list_all2_induct) auto

lemma same_modules_info:
  assumes "same_modules s s'"
  shows "GetProcessModuleInfo s' n pid = GetProcessModuleInfo s n pid"
proof -
  have "find_idx (\<lambda>c. process_id c = pid) (process_contexts s') =
      find_idx (\<lambda>c. process_id c = pid) (process_contexts s)"
    using assms unfolding same_modules_def
    by (intro find_idx_cong2 [symmetric]) (auto simp: same_loaded_def same_process_def elim: list_all2_mono)
  then have ctx: "GetContextByProcessId s' pid = GetContextByProcessId s pid"
    by (simp add: GetContextByProcessId_def)
  show ?thesis
  proof (cases "GetContextByProcessId s pid")
    case None
    then show ?thesis using ctx by (simp add: GetProcessModuleInfo_def)
  next
    case (Some ci)
    then have "ci < length (process_contexts s)"
      by (simp add: GetContextByProcessId_def find_idx_length)
    then have "same_loaded (process_contexts s ! ci) (process_contexts s' ! ci)"
      using assms by (simp add: same_modules_def list_all2_nthD)
    then show ?thesis
      using Some ctx
      by (auto simp: GetProcessModuleInfo_def Let_def same_loaded_def
          intro!: arg_cong [where f = "take n"] map_cong filter_cong)
  qed
qed

text \<open>What a failed \<open>LoadNro\<close> may leave behind: a changed entry of a slot that is not in use.\<close>

definition scratch_only :: "process_context list \<Rightarrow> process_context list \<Rightarrow> bool" where
  "scratch_only cs cs' \<longleftrightarrow>
     cs' = cs \<or>
     (\<exists>ci i info. ci < MaxSessions \<and> i < MaxNroInfos \<and> \<not> nro_in_use (cs ! ci) ! i \<and>
        cs' = cs[ci := (cs ! ci)\<lparr>nro_infos := (nro_infos (cs ! ci))[i := info]\<rparr>])"

lemma scratch_only_refl [simp]: "scratch_only cs cs"
  by (simp add: scratch_only_def)

lemma scratch_only_slot:
  "\<lbrakk>ci < MaxSessions; i < MaxNroInfos; \<not> nro_in_use (cs ! ci) ! i\<rbrakk> \<Longrightarrow>
    scratch_only cs (cs[ci := (cs ! ci)\<lparr>nro_infos := (nro_infos (cs ! ci))[i := info]\<rparr>])"
  unfolding scratch_only_def by blast

lemma scratch_only_same_modules:
  assumes "scratch_only (process_contexts s) (process_contexts s')"
  shows "same_modules s s'"
  using assms unfolding scratch_only_def
proof (elim disjE exE conjE)
  assume "process_contexts s' = process_contexts s"
  then show ?thesis by (simp add: same_modules_def list_all2_refl)
next
  fix ci i info
  let ?c = "(process_contexts s ! ci)\<lparr>nro_infos := (nro_infos (process_contexts s ! ci))[i := info]\<rparr>"
  assume a: "\<not> nro_in_use (process_contexts s ! ci) ! i" "process_contexts s' = (process_contexts s)[ci := ?c]"
  then have "same_modules s (set_context ci ?c s)"
    by (intro same_modules_set_context same_loaded_free_slot) simp_all
  then show ?thesis using a(2) by (simp add: same_modules_def)
qed

lemma GetContextById_Some [dest]: "GetContextById cid = Ok (Some ci) \<Longrightarrow> ci < MaxSessions \<and> ci = unat cid"
  by (auto simp: GetContextById_def split: if_splits)

lemma GetFreeNroInfo_Ok: "GetFreeNroInfo c = Ok i \<Longrightarrow> i < MaxNroInfos \<and> \<not> nro_in_use c ! i"
  using scan_Some by (fastforce simp: GetFreeNroInfo_def)

lemma LoadNro_failing:
  "failing (\<lambda>s'. scratch_only (process_contexts s) (process_contexts s')) (LoadNro env s cid na ns ba bs)"
  unfolding LoadNro_def require_context_def with_kernel_def
  by (auto simp: Let_def split: option.splits prod.splits
      dest!: GetFreeNroInfo_Ok GetContextById_Some intro!: failing_rules scratch_only_slot)

subsection \<open>Success of \<open>LoadNro\<close>\<close>

text \<open>
  The module mapped at an address may be loaded: its layout is the announced one, a
  registration in use grants the hash of its bytes, and it is not loaded yet.
\<close>

definition authorised :: "('r, 'k) ro_env \<Rightarrow> 'k \<Rightarrow> process_context \<Rightarrow> u64 \<Rightarrow> u64 \<Rightarrow> u64 \<Rightarrow> bool" where
  "authorised env k c ma ns bs \<longleftrightarrow>
     nro_layout_checks env (env_nro_header env k ma) ns bs \<and>
     (\<exists>j < MaxNrrInfos. nrr_in_use c ! j \<and>
        nrr_grants_hash env k (nrr_infos c ! j) (env_sha256 env (env_read_bytes env k ma (unat ns)))) \<and>
     (\<forall>j < MaxNroInfos. nro_in_use c ! j \<longrightarrow>
        module_id (nro_infos c ! j) \<noteq> nro_module_id (env_nro_header env k ma))"

lemma nro_layout_size: "nro_layout_checks env h ns bs \<Longrightarrow> nro_size h = ns"
  by (auto simp: nro_layout_checks_def split: if_splits)

lemma ValidateNro_Ok:
  fixes env :: "('r, 'k) ro_env"
  assumes "ValidateNro env k c base ns bs = (Ok (mid, rx, ro, rw), k')"
  obtains ma k2 where "authorised env k2 c ma ns bs"
    "mid = nro_module_id (env_nro_header env k2 ma)" "rx = text_size (env_nro_header env k2 ma)"
    "ro = ro_size (env_nro_header env k2 ma)" "rw = rw_size (env_nro_header env k2 ma)"
proof -
  from assms obtain ma k1 k2 k3 where
    v: "validate_mapped_nro env k2 c ma ns bs = (Ok (mid, rx, ro, rw), k3)"
    unfolding ValidateNro_def by (auto split: prod.splits option.splits)
  let ?h = "env_nro_header env k2 ma"
  from v have l: "nro_layout_checks env ?h ns bs" "ValidateHasNroHash env k2 c ma = Ok ()"
    "case GetNroInfoByModuleId c (nro_module_id ?h) :: ('r ro_error, nat) outcome of Ok _ \<Rightarrow> False | _ \<Rightarrow> True"
    "mid = nro_module_id ?h" "rx = text_size ?h" "ro = ro_size ?h" "rw = rw_size ?h"
    unfolding validate_mapped_nro_def Let_def by auto
  from l(2) obtain j where "j < MaxNrrInfos" "nrr_in_use c ! j"
    "nrr_grants_hash env k2 (nrr_infos c ! j) (env_sha256 env (env_read_bytes env k2 ma (unat (nro_size ?h))))"
    unfolding ValidateHasNroHash_def Let_def by (auto split: option.splits dest!: scan_Some)
  moreover have "\<forall>j < MaxNroInfos. nro_in_use c ! j \<longrightarrow> module_id (nro_infos c ! j) \<noteq> nro_module_id ?h"
    using l(3) by (cases "scan MaxNroInfos (\<lambda>i. nro_in_use c ! i \<and> module_id (nro_infos c ! i) = nro_module_id ?h)")
      (auto simp: GetNroInfoByModuleId_def scan_None)
  ultimately have "authorised env k2 c ma ns bs"
    using l(1) nro_layout_size [OF l(1)] unfolding authorised_def by blast
  with l that show ?thesis by blast
qed

lemma LoadNro_Ok:
  fixes env :: "('r, 'k) ro_env"
  assumes "LoadNro env s cid na ns ba bs = (Ok base, s')"
  obtains ci i ma k where "ci < MaxSessions" "GetContextById cid = (Ok (Some ci) :: ('r ro_error, nat option) outcome)"
    "i < MaxNroInfos" "\<not> nro_in_use (process_contexts s ! ci) ! i"
    "authorised env k (process_contexts s ! ci) ma ns bs"
    "process_contexts s' = (process_contexts s)[ci := (process_contexts s ! ci)
       \<lparr>nro_in_use := (nro_in_use (process_contexts s ! ci))[i := True],
        nro_infos := (nro_infos (process_contexts s ! ci))[i :=
          \<lparr>base_address = base, nro_heap_address = na, nro_heap_size = ns, bss_heap_address = ba,
           bss_heap_size = bs,
           nro_code_size = text_size (env_nro_header env k ma) + ro_size (env_nro_header env k ma),
           nro_rw_size = rw_size (env_nro_header env k ma),
           module_id = nro_module_id (env_nro_header env k ma)\<rparr>]\<rparr>]"
proof -
  let ?c = "\<lambda>ci. process_contexts s ! ci"
  let ?k = "\<lambda>ci. snd (MapNro env (kernel s) (process_handle (?c ci)) na ns ba bs)"
  let ?info = "\<lambda>ci i. (nro_infos (?c ci) ! i)\<lparr>nro_heap_address := na, nro_heap_size := ns,
              bss_heap_address := ba, bss_heap_size := bs, base_address := base\<rparr>"
  let ?c' = "\<lambda>ci i. (?c ci)\<lparr>nro_infos := (nro_infos (?c ci))[i := ?info ci i]\<rparr>"
  from assms have "\<exists>ci i mid rx ro rw.
    GetContextById cid = (Ok (Some ci) :: ('r ro_error, nat option) outcome) \<and>
    GetFreeNroInfo (?c ci) = (Ok i :: ('r ro_error, nat) outcome) \<and>
    fst (ValidateNro env (?k ci) (?c' ci i) base ns bs) = Ok (mid, rx, ro, rw) \<and>
    process_contexts s' = (process_contexts s)[ci := (?c ci)
       \<lparr>nro_in_use := (nro_in_use (?c ci))[i := True],
        nro_infos := (nro_infos (?c ci))[i := (?info ci i)
          \<lparr>module_id := mid, nro_code_size := rx + ro, nro_rw_size := rw\<rparr>]\<rparr>]"
    unfolding LoadNro_def require_context_def with_kernel_def SetNroInfoInUse_def
    by (auto simp: Let_def split: option.splits)
  then obtain ci i mid rx ro rw where
    ci: "GetContextById cid = (Ok (Some ci) :: ('r ro_error, nat option) outcome)" and
    free: "GetFreeNroInfo (?c ci) = (Ok i :: ('r ro_error, nat) outcome)" and
    v: "fst (ValidateNro env (?k ci) (?c' ci i) base ns bs) = Ok (mid, rx, ro, rw)" and
    s': "process_contexts s' = (process_contexts s)[ci := (?c ci)
       \<lparr>nro_in_use := (nro_in_use (?c ci))[i := True],
        nro_infos := (nro_infos (?c ci))[i := (?info ci i)
          \<lparr>module_id := mid, nro_code_size := rx + ro, nro_rw_size := rw\<rparr>]\<rparr>]" by blast
  from v obtain ma k where a: "authorised env k (?c' ci i) ma ns bs"
    and sz: "mid = nro_module_id (env_nro_header env k ma)" "rx = text_size (env_nro_header env k ma)"
    "ro = ro_size (env_nro_header env k ma)" "rw = rw_size (env_nro_header env k ma)"
    by (metis ValidateNro_Ok prod.collapse)
  from free have i: "i < MaxNroInfos" "\<not> nro_in_use (?c ci) ! i" by (auto dest!: GetFreeNroInfo_Ok)
  have "authorised env k (?c ci) ma ns bs"
    using a i unfolding authorised_def by simp (metis nth_list_update_neq)
  moreover have "ci < MaxSessions" using ci by auto
  moreover have "process_contexts s' = (process_contexts s)[ci := (?c ci)
       \<lparr>nro_in_use := (nro_in_use (?c ci))[i := True],
        nro_infos := (nro_infos (?c ci))[i :=
          \<lparr>base_address = base, nro_heap_address = na, nro_heap_size = ns, bss_heap_address = ba,
           bss_heap_size = bs, nro_code_size = rx + ro, nro_rw_size = rw, module_id = mid\<rparr>]\<rparr>]"
    unfolding s' by (rule arg_cong [where f = "\<lambda>x. (process_contexts s)[ci := (?c ci)
       \<lparr>nro_in_use := (nro_in_use (?c ci))[i := True], nro_infos := (nro_infos (?c ci))[i := x]\<rparr>]"]) simp
  ultimately show ?thesis using that i ci sz by blast
qed

subsection \<open>Every operation keeps the invariant\<close>

lemma ro_inv_replace:
  assumes "ro_inv s" "i < MaxSessions" "context_ok c"
    "\<And>j. \<lbrakk>in_use c; j < MaxSessions; j \<noteq> i; in_use (process_contexts s ! j)\<rbrakk> \<Longrightarrow>
       process_id (process_contexts s ! j) \<noteq> process_id c"
  shows "ro_inv (set_context i c s)"
proof -
  have ok: "list_all context_ok ((process_contexts s)[i := c])"
    using assms(1,3) by (auto simp: ro_inv_def list_all_iff dest!: set_update_subset_insert [THEN subsetD])
  show ?thesis
    unfolding ro_inv_def
  proof (intro conjI allI impI)
    fix a b
    assume a: "a < MaxSessions" and b: "b < MaxSessions"
      and u: "in_use (process_contexts (set_context i c s) ! a)" "in_use (process_contexts (set_context i c s) ! b)"
      and e: "process_id (process_contexts (set_context i c s) ! a) = process_id (process_contexts (set_context i c s) ! b)"
    have l: "length (process_contexts s) = MaxSessions" using assms(1) by (simp add: ro_inv_def)
    consider "a = i" "b = i" | "a = i" "b \<noteq> i" | "a \<noteq> i" "b = i" | "a \<noteq> i" "b \<noteq> i" by blast
    then show "a = b"
    proof cases
      case 2
      then show ?thesis using u e b l assms(2) assms(4) [of b] by simp
    next
      case 3
      then show ?thesis using u e a l assms(2) assms(4) [of a] by simp
    next
      case 4
      then show ?thesis using u e a b assms(1) by (simp add: ro_inv_def)
    qed simp
  qed (use assms(1) ok in \<open>simp_all add: ro_inv_def\<close>)
qed

lemma ro_inv_same_contexts: "\<lbrakk>ro_inv s; process_contexts s' = process_contexts s\<rbrakk> \<Longrightarrow> ro_inv s'"
  by (simp add: ro_inv_def)

lemma ro_inv_update:
  assumes "ro_inv s" "ci < MaxSessions" "process_contexts s' = (process_contexts s)[ci := c]"
    "same_process (process_contexts s ! ci) c" "context_ok c"
  shows "ro_inv s'"
  using ro_inv_set_context [OF assms(1,2,4,5)] assms(3) by (simp add: ro_inv_def)

lemma ro_RegisterProcess_inv: "ro_inv s \<Longrightarrow> ro_inv (snd (RegisterProcess env s h pid))"
proof -
  assume inv: "ro_inv s"
  have "ro_inv (snd (AllocateContext env s h pid))" if "GetContextByProcessId s pid = None"
  proof (cases "find_idx (\<lambda>c. \<not> in_use c) (process_contexts s)")
    case (Some i)
    have "i < MaxSessions" using find_idx_length [OF Some] inv by (simp add: ro_inv_def)
    moreover have "process_id (process_contexts s ! j) \<noteq> pid" if "j < MaxSessions" for j
      using \<open>GetContextByProcessId s pid = None\<close> that inv
      by (simp add: GetContextByProcessId_def ro_inv_def)
    moreover have "context_ok ((context_zero env)\<lparr>process_id := pid, process_handle := h, in_use := True\<rparr>)"
      by (simp add: context_ok_def context_zero_def modules_distinct_def)
    ultimately have "ro_inv (set_context i
        ((context_zero env)\<lparr>process_id := pid, process_handle := h, in_use := True\<rparr>) s)"
      using inv by (intro ro_inv_replace) simp_all
    then show ?thesis using Some by (simp add: AllocateContext_def)
  qed (use inv in \<open>simp add: AllocateContext_def del: find_idx_None_iff\<close>)
  then show ?thesis
    using inv by (auto simp: RegisterProcess_def split: option.splits intro!: R_UNLESS_state [where P = ro_inv])
qed

lemma FreeContext_inv: "ro_inv s \<Longrightarrow> ro_inv (snd (FreeContext env s cid))"
  unfolding FreeContext_def
  by (rule R_TRY_state [where P = ro_inv])
    (auto simp: Let_def context_zero_def split: option.splits intro!: ro_inv_replace
      context_zero_ok [unfolded context_zero_def])

lemma context_ok_nrr:
  "context_ok c \<Longrightarrow>
     context_ok (c\<lparr>nrr_in_use := (nrr_in_use c)[i := b], nrr_infos := (nrr_infos c)[i := x]\<rparr>)"
  by (simp add: context_ok_def modules_distinct_def)

lemma context_ok_nro_free:
  assumes "context_ok c" "b \<longrightarrow> (\<forall>j < MaxNroInfos. nro_in_use c ! j \<longrightarrow> j \<noteq> i \<longrightarrow> module_id (nro_infos c ! j) \<noteq> module_id x)"
  shows "context_ok (c\<lparr>nro_in_use := (nro_in_use c)[i := b], nro_infos := (nro_infos c)[i := x]\<rparr>)"
proof -
  let ?c = "c\<lparr>nro_in_use := (nro_in_use c)[i := b], nro_infos := (nro_infos c)[i := x]\<rparr>"
  have d: "modules_distinct c" and l: "length (nro_in_use c) = MaxNroInfos" "length (nro_infos c) = MaxNroInfos"
    using assms(1) by (simp_all add: context_ok_def)
  have "modules_distinct ?c"
    unfolding modules_distinct_def
  proof (intro allI impI)
    fix p q
    assume a: "p < MaxNroInfos" "q < MaxNroInfos" "nro_in_use ?c ! p" "nro_in_use ?c ! q"
      "module_id (nro_infos ?c ! p) = module_id (nro_infos ?c ! q)"
    consider "p = i" "q = i" | "p = i" "q \<noteq> i" | "p \<noteq> i" "q = i" | "p \<noteq> i" "q \<noteq> i" by blast
    then show "p = q"
    proof cases
      case 2
      then show ?thesis using a l assms(2) by auto
    next
      case 3
      then show ?thesis using a l assms(2) by auto
    next
      case 4
      then show ?thesis using a l d by (simp add: modules_distinct_def)
    qed simp
  qed
  then show ?thesis using assms(1) by (simp add: context_ok_def)
qed

lemma context_ok_scratch:
  "\<lbrakk>context_ok c; \<not> nro_in_use c ! i\<rbrakk> \<Longrightarrow> context_ok (c\<lparr>nro_infos := (nro_infos c)[i := x]\<rparr>)"
  using context_ok_nro_free [of c False i x] list_update_id [of "nro_in_use c" i]
  by simp

text \<open>Each context stays that of its process, and well formed when it was.\<close>

definition keeps :: "process_context \<Rightarrow> process_context \<Rightarrow> bool" where
  "keeps c c' \<longleftrightarrow> same_process c c' \<and> (context_ok c \<longrightarrow> context_ok c')"

definition keeps_all :: "process_context list \<Rightarrow> process_context list \<Rightarrow> bool" where
  "keeps_all = list_all2 keeps"

lemma keeps_all_refl [simp]: "keeps_all cs cs"
  by (simp add: keeps_all_def keeps_def same_process_def list_all2_refl)

lemma keeps_all_update: "keeps (cs ! i) c \<Longrightarrow> keeps_all cs (cs[i := c])"
  unfolding keeps_all_def list_all2_conv_all_nth
proof (intro conjI allI impI)
  fix j assume k: "keeps (cs ! i) c" and "j < length cs"
  moreover have "keeps (cs ! j) (cs ! j)" by (simp add: keeps_def same_process_def)
  ultimately show "keeps (cs ! j) (cs[i := c] ! j)" by (cases "j = i") simp_all
qed simp

lemma keeps_all_inv:
  assumes "keeps_all (process_contexts s) (process_contexts s')" "ro_inv s"
  shows "ro_inv s'"
  using assms
  by (simp add: ro_inv_def keeps_all_def keeps_def same_process_def list_all2_conv_all_nth list_all_length)

lemma keeps_nrr:
  "keeps c (c\<lparr>nrr_in_use := (nrr_in_use c)[i := b], nrr_infos := (nrr_infos c)[i := x]\<rparr>)"
  by (simp add: keeps_def same_process_def context_ok_nrr)

lemma keeps_nro_release:
  "keeps c (c\<lparr>nro_in_use := (nro_in_use c)[i := False], nro_infos := (nro_infos c)[i := x]\<rparr>)"
  by (simp add: keeps_def same_process_def context_ok_nro_free)

lemma LoadNrr_keeps:
  "keeps_all (process_contexts s) (process_contexts (snd (LoadNrr env s cid h a n t e)))"
  unfolding LoadNrr_def require_context_def with_kernel_def SetNrrInfoInUse_def
  by (auto simp: Let_def split: option.splits intro!: keeps_all_update keeps_nrr
      R_TRY_state [where P = "\<lambda>s'. keeps_all (process_contexts s) (process_contexts s')"])

lemma UnloadNrr_keeps:
  "keeps_all (process_contexts s) (process_contexts (snd (UnloadNrr env s cid a)))"
  unfolding UnloadNrr_def require_context_def with_kernel_def SetNrrInfoInUse_def
  by (auto simp: Let_def split: option.splits intro!: keeps_all_update keeps_nrr
      R_TRY_state [where P = "\<lambda>s'. keeps_all (process_contexts s) (process_contexts s')"]
      R_UNLESS_state [where P = "\<lambda>s'. keeps_all (process_contexts s) (process_contexts s')"])

lemma UnloadNro_keeps:
  "keeps_all (process_contexts s) (process_contexts (snd (UnloadNro env s cid a)))"
  unfolding UnloadNro_def require_context_def with_kernel_def SetNroInfoInUse_def
  by (auto simp: Let_def split: option.splits intro!: keeps_all_update keeps_nro_release
      R_TRY_state [where P = "\<lambda>s'. keeps_all (process_contexts s) (process_contexts s')"]
      R_UNLESS_state [where P = "\<lambda>s'. keeps_all (process_contexts s) (process_contexts s')"])

lemma LoadNro_keeps:
  "keeps_all (process_contexts s) (process_contexts (snd (LoadNro env s cid na ns ba bs)))"
proof -
  obtain r s' where r: "LoadNro env s cid na ns ba bs = (r, s')" by fastforce
  show ?thesis
  proof (cases "\<exists>base. r = Ok base")
    case True
    then obtain base where "LoadNro env s cid na ns ba bs = (Ok base, s')" using r by blast
    then show ?thesis
      by (rule LoadNro_Ok)
        (auto simp: r keeps_def same_process_def authorised_def intro!: keeps_all_update context_ok_nro_free)
  next
    case False
    then have "scratch_only (process_contexts s) (process_contexts s')"
      using LoadNro_failing [of s env cid na ns ba bs] r
      by (cases r) (auto simp: failing_def)
    then show ?thesis
      unfolding scratch_only_def r
      by (auto simp: keeps_def same_process_def intro!: keeps_all_update context_ok_scratch)
  qed
qed

subsection \<open>Reachable states\<close>

text \<open>
  Any service object may run any command, be closed, and the start-up code may set the two
  flags.
\<close>

inductive ro_step :: "('r, 'k) ro_env \<Rightarrow> 'k ro_state \<Rightarrow> 'k ro_state \<Rightarrow> bool" for env where
  call: "Service_call env u cmd s = (r, u', s') \<Longrightarrow> ro_step env s s'"
| closing: "Service_close env u s = (r, s') \<Longrightarrow> ro_step env s s'"
| dev_hardware: "ro_step env s (SetDevelopmentHardware b s)"
| dev_function: "ro_step env s (SetDevelopmentFunctionEnabled b s)"

inductive ro_reachable :: "('r, 'k) ro_env \<Rightarrow> 'k ro_state \<Rightarrow> bool" for env where
  start: "ro_reachable env (ro_initial env k)"
| step: "\<lbrakk>ro_reachable env s; ro_step env s s'\<rbrakk> \<Longrightarrow> ro_reachable env s'"

inductive_cases ro_stepE: "ro_step env s s'"

lemma no_value_state [simp]: "snd (no_value r) = snd r"
  by (cases "fst r") (simp_all add: no_value_def)

lemma for_client_state: "\<lbrakk>P s; P (snd op)\<rbrakk> \<Longrightarrow> P (snd (for_client u p s op))"
  unfolding for_client_def by (rule R_TRY_state)

lemma Service_call_inv:
  assumes "ro_inv s"
  shows "ro_inv (snd (snd (Service_call env u cmd s)))"
  using assms ro_RegisterProcess_inv [OF assms, of env]
  by (cases cmd)
    (auto simp: Service_Initialize_def Let_def split: prod.splits outcome.splits
      dest!: arg_cong [where f = snd]
      intro!: for_client_state [where P = ro_inv] keeps_all_inv [OF LoadNro_keeps]
        keeps_all_inv [OF UnloadNro_keeps] keeps_all_inv [OF LoadNrr_keeps] keeps_all_inv [OF UnloadNrr_keeps])

lemma ro_inv_flags [simp]:
  "ro_inv (s\<lparr>is_development_hardware := b\<rparr>) = ro_inv s"
  "ro_inv (s\<lparr>is_development_function_enabled := b\<rparr>) = ro_inv s"
  by (simp_all add: ro_inv_def)

lemma ro_step_inv: "\<lbrakk>ro_step env s s'; ro_inv s\<rbrakk> \<Longrightarrow> ro_inv s'"
  by (erule ro_stepE)
    (auto simp: Service_close_def UnregisterProcess_def SetDevelopmentHardware_def
      SetDevelopmentFunctionEnabled_def dest!: arg_cong [where f = snd]
      dest: Service_call_inv [of s env] FreeContext_inv [of s env])

lemma ro_reachable_inv: "ro_reachable env s \<Longrightarrow> ro_inv s"
  by (induction rule: ro_reachable.induct) (auto simp: ro_initial_inv dest: ro_step_inv)

end
