(* ===== verification/RoProps.thy ===== *)
theory RoProps
  imports RoInvariant "HOL-Library.Multiset"
begin

text \<open>
  Properties of the module loading service: sessions are isolated, only modules whose hash a
  verified registration holds are loaded, failures leave nothing loaded or mapped.
\<close>

subsection \<open>A small kernel\<close>

text \<open>
  A kernel whose state is the list of code mappings; it maps modules at one address, and
  everything it is asked for succeeds.
\<close>

type_synonym mapping = "u64 \<times> u64 \<times> u64"

definition demo_nro :: nro_header where
  "demo_nro =
     \<lparr>nro_magic_valid = True, nro_size = 0x3000, text_offset = 0, text_size = 0x1000,
      ro_offset = 0x1000, ro_size = 0x1000, rw_offset = 0x2000, rw_size = 0x1000,
      bss_size = 0x1000, nro_module_id = [1]\<rparr>"

definition demo_nrr :: nrr_header where
  "demo_nrr =
     \<lparr>nrr_magic_valid = True, nrr_size = 0x1000, key_generation = 0, certification_signature = [1],
      certification_signed_area = [], certification_modulus = [], program_id_valid = True,
      nrr_signature = [1], signed_area = [2], nrr_program_id = 0x100, nrr_type = ForSelf,
      signed_area_size = 32, hashes_offset = 0x10, num_hashes = 1\<rparr>"

definition demo_ro :: "(nat, mapping list) ro_env" where
  "demo_ro =
     \<lparr>env_page_aligned = (\<lambda>a. a AND 0xFFF = 0), env_version_ge_3_0_0 = True,
      env_version_ge_7_0_0 = True, env_version_ge_9_1_0 = True, env_invalid_handle = 0,
      env_invalid_pid = -1, env_uninitialized_program_id = 0,
      env_ease_nro_restriction = (\<lambda>_. None),
      env_process_id_of = (\<lambda>_ h. if h = 0 then None else Some (ucast h)),
      env_info_program_id = (\<lambda>_ _. Some 0x100), env_pm_program_id = (\<lambda>_ _. Some 0x100),
      env_close_handle = (\<lambda>k _. k),
      env_map_code_in_process = (\<lambda>k _ src sz. (Inr 0x8000, (0x8000, src, sz) # k)),
      env_map_code_at = (\<lambda>k _ dst src sz. (Inr (), (dst, src, sz) # k)),
      env_close_code = (\<lambda>k _ dst src sz. remove1 (dst, src, sz) k),
      env_unmap_code = (\<lambda>k _ dst src sz. (Inr (), remove1 (dst, src, sz) k)),
      env_locate_space = (\<lambda>k _. (Some 0x700000, k)),
      env_map_process = (\<lambda>k _ _ _ _. (Inr (), k)), env_close_map = (\<lambda>k _ _ _ _. k),
      env_unmap_process = (\<lambda>k _ _ _ _. (Inr (), k)), env_can_add_guards = (\<lambda>_ _ _ _. True),
      env_invalid_current_memory = 1, env_set_permission = (\<lambda>k _ _ _ _. (Inr (), k)),
      env_nro_header = (\<lambda>_ _. demo_nro), env_nrr_header = (\<lambda>_ _. demo_nrr),
      env_read_bytes = (\<lambda>_ a _. if a = 0x700010 then replicate 32 7 else []),
      env_apply_patches = (\<lambda>k _ _ _ _. k),
      env_sha256 = (\<lambda>bs. if bs = [] then replicate 32 7 else replicate 32 9),
      env_verify_rsa = (\<lambda>sig _ _ _. sig = [1]), env_signed_area_offset = 0x10,
      env_nrr_header_size = 0x10, env_beyond_signed_area = []\<rparr>"

text \<open>A process with one registration.\<close>

definition demo_nrr_info :: nrr_info where
  "demo_nrr_info =
     \<lparr>mapped_header = 0x700000, nrr_heap_address = 0x1000, nrr_heap_size = 0x1000,
      mapped_code_address = 0x8000, cached_signed_area_size = 32, cached_hashes_offset = 0x10,
      cached_num_hashes = 1, cached_signed_area = [], signed_area_hash = replicate 32 9\<rparr>"

definition demo_context :: process_context where
  "demo_context = (context_zero demo_ro)
     \<lparr>process_id := 5, process_handle := 5, in_use := True,
      nrr_in_use := True # replicate 63 False,
      nrr_infos := demo_nrr_info # replicate 63 (nrr_info_zero demo_ro)\<rparr>"

definition demo_state :: "mapping list ro_state" where
  "demo_state = set_context 0 demo_context (ro_initial demo_ro [])"

lemma demo_ro_sel [simp]:
  "env_page_aligned demo_ro a = (a AND 0xFFF = 0)"
  "env_map_code_in_process demo_ro k h src sz = (Inr 0x8000, (0x8000, src, sz) # k)"
  "env_map_code_at demo_ro k h dst src sz = (Inr (), (dst, src, sz) # k)"
  "env_close_code demo_ro k h dst src sz = remove1 (dst, src, sz) k"
  "env_unmap_code demo_ro k h dst src sz = (Inr (), remove1 (dst, src, sz) k)"
  "env_locate_space demo_ro k sz = (Some 0x700000, k)"
  "env_map_process demo_ro k ma h dst sz = (Inr (), k)"
  "env_close_map demo_ro k ma h dst sz = k"
  "env_can_add_guards demo_ro k h dst sz"
  "env_set_permission demo_ro k h dst sz p = (Inr (), k)"
  "env_nro_header demo_ro k ma = demo_nro" "env_nrr_header demo_ro k ma = demo_nrr"
  "env_read_bytes demo_ro k a n = (if a = 0x700010 then replicate 32 7 else [])"
  "env_apply_patches demo_ro k mid ma sz prog = k"
  "env_sha256 demo_ro bs = (if bs = [] then replicate 32 7 else replicate 32 9)"
  "env_signed_area_offset demo_ro = 0x10" "env_beyond_signed_area demo_ro = []"
  "env_ease_nro_restriction demo_ro k = None" "env_version_ge_9_1_0 demo_ro"
  "env_version_ge_7_0_0 demo_ro"
  "env_verify_rsa demo_ro sig m e msg = (sig = [1])"
  by (simp_all add: demo_ro_def)




lemma demo_map:
  "MapNro demo_ro k h 0x4000 0x3000 0x9000 0x1000 =
     (Ok 0x8000, (0xB000, 0x9000, 0x1000) # (0x8000, 0x4000, 0x3000) # k)"
proof -
  have retries: "MaxMapRetries = Suc 511" by (simp add: MaxMapRetries_def)
  show ?thesis unfolding MapNro_def retries map_nro_loop.simps by (simp add: Let_def)
qed


lemma demo_state_context [simp]: "process_contexts demo_state ! 0 = demo_context"
  by (simp add: demo_state_def ro_initial_def MaxSessions_def)

definition demo_loaded :: "mapping list ro_state" where
  "demo_loaded = set_context 0 (demo_context
     \<lparr>nro_in_use := True # replicate 63 False,
      nro_infos := \<lparr>base_address = 0x8000, nro_heap_address = 0x4000, nro_heap_size = 0x3000,
         bss_heap_address = 0x9000, bss_heap_size = 0x1000, nro_code_size = 0x2000,
         nro_rw_size = 0x1000, module_id = [1]\<rparr> # replicate 63 nro_info_zero\<rparr>)
     (demo_state\<lparr>kernel := [(0xB000, 0x9000, 0x1000), (0x8000, 0x4000, 0x3000)]\<rparr>)"


lemma set_context_twice [simp]:
  "set_context i c (set_context i c' s) = set_context i c s"
  "set_context i c ((set_context i c' s)\<lparr>kernel := k\<rparr>) = set_context i c (s\<lparr>kernel := k\<rparr>)"
  by (simp_all add: set_context_def)




subsection \<open>Sessions\<close>

text \<open>
  C14. In every reachable state of the service each process context has complete tables, holds
  no module twice and belongs to one process: no two contexts in use have the same process
  id, and one that is not in use names no process.
\<close>

theorem reachable_contexts_isolated:
  assumes "ro_reachable env s"
  shows "ro_inv s"
  using assms by (rule ro_reachable_inv)

theorem reachable_contexts_isolated_witness:
  "ro_inv (SetDevelopmentHardware True (ro_initial demo_ro []))"
  using reachable_contexts_isolated [OF ro_reachable.step [OF ro_reachable.start ro_step.dev_hardware]] .

text \<open>
  C17. A command is served only to the process its session was initialised for: from a session
  that was not initialised, or for a client with another process id, every command but the
  initialisation fails with an invalid process and changes nothing.
\<close>

theorem foreign_client_rejected:
  fixes env :: "('r, 'k) ro_env"
  assumes "\<forall>p h. cmd \<noteq> CmdInitialize p h"
    and "context_id u = InvalidContextId \<or>
      unat (context_id u) < MaxSessions \<and>
      process_id (process_contexts s ! unat (context_id u)) \<noteq> client_pid cmd"
  shows "Service_call env u cmd s = (Err ResultInvalidProcess, u, s)"
proof -
  have "ValidateProcess s (context_id u) (client_pid cmd) = (Err ResultInvalidProcess :: ('r ro_error, unit) outcome)"
    using assms(2) by (auto simp: ValidateProcess_def GetContextById_def)
  then show ?thesis
    using assms(1) by (cases cmd) (simp_all add: for_client_def client_pid_def)
qed

theorem foreign_client_rejected_witness:
  "Service_call demo_ro \<lparr>context_id = 0, service_type = ForSelf\<rparr> (CmdUnloadNro 6 0x8000) demo_state =
    (Err ResultInvalidProcess, \<lparr>context_id = 0, service_type = ForSelf\<rparr>, demo_state)"
  by (rule foreign_client_rejected)
    (simp_all add: MaxSessions_def client_pid_def demo_context_def)

subsection \<open>Loading and unloading\<close>





text \<open>
  A load that fails or aborts changes no process's module list.
\<close>

theorem failed_load_loads_nothing:
  assumes "LoadNro env s cid na ns ba bs = (r, s')" and "\<forall>base. r \<noteq> Ok base"
  shows "GetProcessModuleInfo s' n pid = GetProcessModuleInfo s n pid"
proof -
  have "scratch_only (process_contexts s) (process_contexts s')"
    using LoadNro_failing [of s env cid na ns ba bs] assms by (cases r) (auto simp: failing_def)
  then show ?thesis by (intro same_modules_info scratch_only_same_modules)
qed

theorem failed_load_loads_nothing_witness:
  "GetProcessModuleInfo (snd (LoadNro demo_ro demo_loaded 0 0x4001 0x3000 0 0)) 64 5 =
     GetProcessModuleInfo demo_loaded 64 5"
proof -
  have "LoadNro demo_ro demo_loaded 0 0x4001 0x3000 0 0 = (Err ResultInvalidAddress, demo_loaded)"
    by (simp add: LoadNro_def require_context_def GetContextById_def InvalidContextId_def MaxSessions_def
        ValidateAddressAndNonZeroSize_def Let_def)
  with failed_load_loads_nothing [OF this, of 64 5] show ?thesis by simp
qed

subsection \<open>Mapping\<close>

text \<open>
  How the kernel accounts for code mappings: a successful mapping is one more, a failed one
  none, and closing a mapping removes it.
\<close>

definition code_mappings_ok :: "('r, 'k) ro_env \<Rightarrow> ('k \<Rightarrow> mapping multiset) \<Rightarrow> bool" where
  "code_mappings_ok env maps \<longleftrightarrow>
     (\<forall>k h src sz. case env_map_code_in_process env k h src sz of
        (Inr dst, k') \<Rightarrow> maps k' = add_mset (dst, src, sz) (maps k)
      | (Inl _, k') \<Rightarrow> maps k' = maps k) \<and>
     (\<forall>k h dst src sz. case env_map_code_at env k h dst src sz of
        (Inr _, k') \<Rightarrow> maps k' = add_mset (dst, src, sz) (maps k)
      | (Inl _, k') \<Rightarrow> maps k' = maps k) \<and>
     (\<forall>k h dst src sz. maps (env_close_code env k h dst src sz) = maps k - {#(dst, src, sz)#})"

definition map_result ::
  "mapping multiset \<Rightarrow> u64 \<Rightarrow> u64 \<Rightarrow> u64 \<Rightarrow> u64 \<Rightarrow> ('e, u64) outcome \<Rightarrow> mapping multiset \<Rightarrow> bool" where
  "map_result before na ns ba bs r after \<longleftrightarrow>
     (case r of
        Ok base \<Rightarrow> after = before + {#(base, na, ns)#} + (if bs > 0 then {#(base + ns, ba, bs)#} else {#})
      | Err _ \<Rightarrow> after = before
      | Abort \<Rightarrow> False)"

lemma map_nro_loop_balanced:
  assumes ok: "code_mappings_ok env maps"
  shows "map_nro_loop env h na ns ba bs n k = (r, k') \<Longrightarrow> map_result (maps k) na ns ba bs r (maps k')"
proof (induction n arbitrary: k)
  case 0
  then show ?case by (auto simp: map_result_def)
next
  case (Suc n)
  obtain r1 k1 where m: "env_map_code_in_process env k h na ns = (r1, k1)" by fastforce
  have close: "maps (env_close_code env k h dst src sz) = maps k - {#(dst, src, sz)#}" for k h dst src sz
    using ok by (simp add: code_mappings_ok_def)
  have again: "map_nro_loop env h na ns ba bs n kc = (r, k') \<Longrightarrow> maps kc = maps k \<Longrightarrow> ?case" for kc
    using Suc.IH [of kc] by simp
  show ?case
  proof (cases r1)
    case (Inl e)
    then have "maps k1 = maps k" using ok m unfolding code_mappings_ok_def by (metis (mono_tags) case_prod_conv sum.case(1))
    then show ?thesis using Suc.prems Inl m by (auto simp: Let_def map_result_def)
  next
    case (Inr base)
    have k1: "maps k1 = add_mset (base, na, ns) (maps k)"
      using ok m Inr unfolding code_mappings_ok_def by (metis (mono_tags) case_prod_conv sum.case(2))
    show ?thesis
    proof (cases "bs > 0")
      case False
      then show ?thesis using Suc.prems Inr m k1
        by (auto simp: Let_def close map_result_def [of _ _ _ _ _ "Ok _"] split: if_splits intro: again)
    next
      case True
      obtain r2 k2 where m2: "env_map_code_at env k1 h (base + ns) ba bs = (r2, k2)" by fastforce
      have "maps k2 = (case r2 of Inl _ \<Rightarrow> maps k1 | Inr _ \<Rightarrow> add_mset (base + ns, ba, bs) (maps k1))"
        using ok m2 unfolding code_mappings_ok_def by (cases r2) (metis (mono_tags) case_prod_conv sum.case)+
      then show ?thesis
        using Suc.prems Inr m m2 k1 True
        by (cases r2) (auto simp: Let_def close map_result_def [of _ _ _ _ _ "Ok _"] map_result_def [of _ _ _ _ _ "Err _"]
            split: if_splits intro: again)
    qed
  qed
qed

text \<open>
  C15. \<open>MapNro\<close> leaks no mapping: when it succeeds exactly the module, and its bss behind it
  when there is one, have been mapped; when it fails, after however many retries, the process
  has the mappings it had before.
\<close>

theorem map_nro_leaks_nothing:
  assumes "code_mappings_ok env maps" and "MapNro env k h na ns ba bs = (r, k')"
  shows "case r of
       Ok base \<Rightarrow> maps k' = maps k + {#(base, na, ns)#} + (if bs > 0 then {#(base + ns, ba, bs)#} else {#})
     | Err _ \<Rightarrow> maps k' = maps k
     | Abort \<Rightarrow> False"
  using map_nro_loop_balanced [OF assms(1), of h na ns ba bs MaxMapRetries k r k'] assms(2)
  by (simp add: MapNro_def map_result_def)

theorem map_nro_leaks_nothing_witness:
  "mset (snd (MapNro demo_ro [] 5 0x4000 0x3000 0x9000 0x1000)) =
    {#(0x8000, 0x4000, 0x3000), (0xB000, 0x9000, 0x1000)#}"
proof -
  have "code_mappings_ok demo_ro mset" by (simp add: code_mappings_ok_def)
  from map_nro_leaks_nothing [OF this demo_map [of "[]" 5]] show ?thesis by (simp add: demo_map)
qed

subsection \<open>Registrations\<close>


lemma unat_ucast_up: "unat (ucast (x :: u32) :: u64) = unat x"
  using unsigned_less [of x, where ?'a = nat] by (simp add: unsigned_ucast_eq take_bit_nat_eq_self)

text \<open>
  On a sorted hash table a registration grants a hash exactly when the table holds it and
  the whole table, padded with zeros, is the one whose hash was signed.
\<close>

theorem registration_grants_iff:
  fixes info :: nrr_info and env :: "('r, 'k) ro_env"
  defines "header k \<equiv> env_nrr_header env k (mapped_header info)"
  defines "table k \<equiv> hash_entries (unat (num_hashes (header k)))
     (env_read_bytes env k (mapped_header info + ucast (hashes_offset (header k)))
        (HashSize * unat (num_hashes (header k))))"
  assumes "hash_sorted (table k)" and "length hash = HashSize"
    and "cached_num_hashes info = num_hashes (header k)"
  shows "nrr_grants_hash env k info hash \<longleftrightarrow>
    hash \<in> set (table k) \<and>
    env_sha256 env
      (take (unat (ucast (cached_hashes_offset info) - env_signed_area_offset env))
          (cached_signed_area info @ env_beyond_signed_area env)
        @ concat (table k)
        @ replicate (unat (ucast (cached_signed_area_size info)
            - (ucast (cached_hashes_offset info) - env_signed_area_offset env)
            - of_nat HashSize * ucast (num_hashes (header k)))) 0)
      = signed_area_hash info"
proof (cases "num_hashes (header k) = 0")
  case True
  then show ?thesis
    by (simp add: nrr_grants_hash_def table_def header_def [symmetric])
next
  case False
  then have n: "unat (num_hashes (header k)) \<noteq> 0" by (simp add: unat_eq_0)
  have "unat (ucast (num_hashes (header k)) :: u64) = unat (num_hashes (header k))"
    by (rule unat_ucast_up)
  then show ?thesis
    using n lower_bound_hit [OF assms(3,4)] assms(5)
    unfolding nrr_grants_hash_def ValidateNrrHashTableEntry_def Let_def table_def header_def [symmetric]
    by (auto simp: hash_table_loop_eq)
qed

theorem registration_grants_iff_witness:
  "nrr_grants_hash demo_ro [] demo_nrr_info (replicate 32 7) \<longleftrightarrow>
    replicate 32 7 \<in> set [replicate 32 (7 :: u8)] \<and> replicate 32 9 = signed_area_hash demo_nrr_info"
proof -
  have "hash_entries 1 (replicate 32 7) = [replicate 32 (7 :: u8)]" by (simp add: HashSize_def)
  then show ?thesis
    using registration_grants_iff [where env = demo_ro and info = demo_nrr_info and k = "[]" and hash = "replicate 32 7"]
    by (simp add: demo_nrr_def demo_nrr_info_def hash_sorted_def HashSize_def)
qed

end
