(* ===== verification/PmResource.thy ===== *)
theory PmResource
  imports LdrProcess
begin

text \<open>
  The resource limits of the process manager (\<open>pm/source/impl/pm_resource_manager.cpp\<close>): the
  limit tables with their adjustment to the firmware, setting them in the kernel, boosting
  the memory of the system and the waits for the application's resources. Sizes are
  \<open>u64\<close>, the values the kernel reports \<open>s64\<close>. A wait has no bound of its own, so it is a partial
  function: \<open>None\<close> is a wait that never ends.
\<close>

datatype limitable_resource =
  PhysicalMemoryMax | ThreadCountMax | EventCountMax | TransferMemoryCountMax | SessionCountMax

datatype resource_group = Group_System | Group_Application | Group_Applet

datatype memory_arrangement =
    Arr_Standard | Arr_StandardForAppletDev | Arr_StandardForSystemDev | Arr_Expanded
  | Arr_ExpandedForAppletDev | Arr_Dynamic

definition LimitableResources :: "limitable_resource list" where
  "LimitableResources = [PhysicalMemoryMax, ThreadCountMax, EventCountMax, TransferMemoryCountMax, SessionCountMax]"

definition ResourceGroups :: "resource_group list" where
  "ResourceGroups = [Group_System, Group_Application, Group_Applet]"

definition MemoryArrangements :: "memory_arrangement list" where
  "MemoryArrangements =
     [Arr_Standard, Arr_StandardForAppletDev, Arr_StandardForSystemDev, Arr_Expanded,
      Arr_ExpandedForAppletDev, Arr_Dynamic]"

definition MB :: "u64 \<Rightarrow> u64" where "MB n = n * 0x100000"

definition ExtraSystemThreadCount400 :: u64 where "ExtraSystemThreadCount400 = 100"
definition ExtraSystemMemorySize400 :: u64 where "ExtraSystemMemorySize400 = MB 10"
definition ExtraSystemMemorySize500 :: u64 where "ExtraSystemMemorySize500 = MB 12"
definition ExtraSystemEventCount600 :: u64 where "ExtraSystemEventCount600 = 100"
definition ExtraSystemSessionCount600 :: u64 where "ExtraSystemSessionCount600 = 100"
definition ReservedMemorySize600 :: u64 where "ReservedMemorySize600 = MB 5"
definition ExtraSystemSessionCount920 :: u64 where "ExtraSystemSessionCount920 = 33"
definition ExtraSystemMemorySizeAtmosphere :: u64 where "ExtraSystemMemorySizeAtmosphere = MB 24"
definition ExtraSystemMemorySizeAtmosphere500 :: u64 where "ExtraSystemMemorySizeAtmosphere500 = MB 33"

type_synonym limits = "resource_group \<Rightarrow> limitable_resource \<Rightarrow> u64"
type_synonym memory_limits = "memory_arrangement \<Rightarrow> resource_group \<Rightarrow> u64"

fun initial_resource_limits :: limits where
  "initial_resource_limits Group_System r =
     (case r of PhysicalMemoryMax \<Rightarrow> 0 | ThreadCountMax \<Rightarrow> 508 | EventCountMax \<Rightarrow> 600
              | TransferMemoryCountMax \<Rightarrow> 128 | SessionCountMax \<Rightarrow> 794)"
| "initial_resource_limits Group_Application r =
     (case r of PhysicalMemoryMax \<Rightarrow> 0 | ThreadCountMax \<Rightarrow> 96 | EventCountMax \<Rightarrow> 0
              | TransferMemoryCountMax \<Rightarrow> 32 | SessionCountMax \<Rightarrow> 1)"
| "initial_resource_limits Group_Applet r =
     (case r of PhysicalMemoryMax \<Rightarrow> 0 | ThreadCountMax \<Rightarrow> 96 | EventCountMax \<Rightarrow> 0
              | TransferMemoryCountMax \<Rightarrow> 32 | SessionCountMax \<Rightarrow> 5)"

fun initial_memory_limits :: memory_limits where
  "initial_memory_limits Arr_Standard g =
     (case g of Group_System \<Rightarrow> MB 269 | Group_Application \<Rightarrow> MB 3285 | Group_Applet \<Rightarrow> MB 535)"
| "initial_memory_limits Arr_StandardForAppletDev g =
     (case g of Group_System \<Rightarrow> MB 481 | Group_Application \<Rightarrow> MB 2048 | Group_Applet \<Rightarrow> MB 1560)"
| "initial_memory_limits Arr_StandardForSystemDev g =
     (case g of Group_System \<Rightarrow> MB 328 | Group_Application \<Rightarrow> MB 3285 | Group_Applet \<Rightarrow> MB 476)"
| "initial_memory_limits Arr_Expanded g =
     (case g of Group_System \<Rightarrow> MB 653 | Group_Application \<Rightarrow> MB 4916 | Group_Applet \<Rightarrow> MB 568)"
| "initial_memory_limits Arr_ExpandedForAppletDev g =
     (case g of Group_System \<Rightarrow> MB 653 | Group_Application \<Rightarrow> MB 3285 | Group_Applet \<Rightarrow> MB 2199)"
| "initial_memory_limits Arr_Dynamic g = 0"

text \<open>The kernel: limits by handle, system information, the firmware version (major number).\<close>

record ('r, 'k) resource_env =
  res_version :: nat
  res_set_limit :: "'k \<Rightarrow> u32 \<Rightarrow> limitable_resource \<Rightarrow> u64 \<Rightarrow> ('r + unit) \<times> 'k"
  res_limit_value :: "'k \<Rightarrow> u32 \<Rightarrow> limitable_resource \<Rightarrow> 'r + 64 word"
  res_current_value :: "'k \<Rightarrow> u32 \<Rightarrow> limitable_resource \<Rightarrow> 'r + 64 word"
  res_set_unsafe_limit :: "'k \<Rightarrow> u64 \<Rightarrow> ('r + unit) \<times> 'k"
  res_system_limit_handle :: "'k \<Rightarrow> 'r + u32"
  res_create_limit :: "'k \<Rightarrow> ('r + u32) \<times> 'k"
  res_total_memory :: "'k \<Rightarrow> resource_group \<Rightarrow> 'r + u64"
  res_used_application_memory :: "'k \<Rightarrow> 'r + u64"
  res_sleep :: "'k \<Rightarrow> 'k"
  res_spl_arrangement :: "'k \<Rightarrow> memory_arrangement"
  res_application_type_mask :: u16
  res_application :: u16
  res_applet :: u16

record 'k resource_state =
  limit_handles :: "resource_group \<Rightarrow> u32"
  arrangement :: memory_arrangement
  system_memory_boost_size :: u64
  extra_application_threads :: u64
  resource_limits :: limits
  memory_resource_limits :: memory_limits
  res_kernel :: 'k

datatype 'r pm_error =
    ResultApplicationRunning | ResultProcessNotFound | ResultAlreadyStarted | ResultNotTerminated
  | ResultDebugHookInUse | ResultInvalidSize | KernelFailure 'r

definition pm_result :: "'r + 'a \<Rightarrow> ('r pm_error, 'a) outcome" where
  "pm_result r = (case r of Inl e \<Rightarrow> Err (KernelFailure e) | Inr v \<Rightarrow> Ok v)"

lemma pm_result_simps [simp]: "pm_result (Inl e) = Err (KernelFailure e)" "pm_result (Inr v) = Ok v"
  by (simp_all add: pm_result_def)

text \<open>\<open>R_ABORT_UNLESS\<close>: an error ends the program.\<close>

definition R_ABORT :: "('e, 'b) outcome \<Rightarrow> 's \<Rightarrow> ('b \<Rightarrow> ('e, 'a) outcome \<times> 's) \<Rightarrow> ('e, 'a) outcome \<times> 's" where
  "R_ABORT r s k = (case r of Ok v \<Rightarrow> k v | _ \<Rightarrow> (Abort, s))"

lemma R_ABORT_simps [simp]:
  "R_ABORT (Ok v) s k = k v" "R_ABORT (Err e) s k = (Abort, s)" "R_ABORT Abort s k = (Abort, s)"
  by (simp_all add: R_ABORT_def)

lemma R_ABORT_Ok [simp]: "R_ABORT r s k = (Ok v, s') \<longleftrightarrow> (\<exists>w. r = Ok w \<and> k w = (Ok v, s'))"
  by (cases r) simp_all

subsection \<open>Setting limits\<close>

definition set_limit_entry :: "resource_group \<Rightarrow> limitable_resource \<Rightarrow> u64 \<Rightarrow> limits \<Rightarrow> limits" where
  "set_limit_entry g r v l = l(g := (l g)(r := v))"

text \<open>The table is changed first and restored when the kernel refuses.\<close>

definition SetMemoryResourceLimitLimitValue ::
  "('r, 'k) resource_env \<Rightarrow> resource_group \<Rightarrow> u64 \<Rightarrow> 'k resource_state \<Rightarrow>
     ('r pm_error, unit) outcome \<times> 'k resource_state" where
  "SetMemoryResourceLimitLimitValue env g new_memory_limit s =
     (let old = resource_limits s g PhysicalMemoryMax;
          s = s\<lparr>resource_limits := set_limit_entry g PhysicalMemoryMax new_memory_limit (resource_limits s)\<rparr>;
          (r, k) = res_set_limit env (res_kernel s) (limit_handles s g) PhysicalMemoryMax
                     (resource_limits s g PhysicalMemoryMax);
          s = s\<lparr>res_kernel := k\<rparr>
      in R_TRY (pm_result r)
           (s\<lparr>resource_limits := set_limit_entry g PhysicalMemoryMax old (resource_limits s)\<rparr>)
           (\<lambda>_. (Ok (), s)))"

fun set_other_limits ::
  "('r, 'k) resource_env \<Rightarrow> resource_group \<Rightarrow> limitable_resource list \<Rightarrow> 'k resource_state \<Rightarrow>
     ('r pm_error, unit) outcome \<times> 'k resource_state" where
  "set_other_limits env g [] s = (Ok (), s)"
| "set_other_limits env g (r # rs) s =
     (if r = PhysicalMemoryMax then set_other_limits env g rs s
      else (let (x, k) = res_set_limit env (res_kernel s) (limit_handles s g) r (resource_limits s g r);
                s = s\<lparr>res_kernel := k\<rparr>
            in R_TRY (pm_result x) s (\<lambda>_. set_other_limits env g rs s)))"

definition SetResourceLimitLimitValues ::
  "('r, 'k) resource_env \<Rightarrow> resource_group \<Rightarrow> u64 \<Rightarrow> 'k resource_state \<Rightarrow>
     ('r pm_error, unit) outcome \<times> 'k resource_state" where
  "SetResourceLimitLimitValues env g new_memory_limit s =
     (let (r, s) = SetMemoryResourceLimitLimitValue env g new_memory_limit s
      in R_TRY r s (\<lambda>_. set_other_limits env g LimitableResources s))"

definition GetResourceLimitGroup :: "('r, 'k) resource_env \<Rightarrow> program_info \<Rightarrow> resource_group" where
  "GetResourceLimitGroup env info =
     (let t = pi_flags info AND res_application_type_mask env
      in if t = res_application env then Group_Application
         else if t = res_applet env then Group_Applet
         else Group_System)"

definition GetResourceLimitHandle :: "resource_group \<Rightarrow> 'k resource_state \<Rightarrow> u32" where
  "GetResourceLimitHandle g s = limit_handles s g"

subsection \<open>Waiting\<close>

text \<open>Waiting until a value is zero; a failing query aborts.\<close>

partial_function (option) wait_until_zero ::
  "('k \<Rightarrow> 'r + 64 word) \<Rightarrow> ('k \<Rightarrow> 'k) \<Rightarrow> 'k \<Rightarrow> (('r pm_error, unit) outcome \<times> 'k) option" where
  "wait_until_zero query sleep k =
     (case query k of
        Inl e \<Rightarrow> Some (Abort, k)
      | Inr v \<Rightarrow> if v = 0 then Some (Ok (), k) else wait_until_zero query sleep (sleep k))"

declare wait_until_zero.simps [code]

fun wait_resources ::
  "('r, 'k) resource_env \<Rightarrow> u32 \<Rightarrow> limitable_resource list \<Rightarrow> 'k \<Rightarrow>
     (('r pm_error, unit) outcome \<times> 'k) option" where
  "wait_resources env h [] k = Some (Ok (), k)"
| "wait_resources env h (r # rs) k =
     (case wait_until_zero (\<lambda>k. res_current_value env k h r) (res_sleep env) k of
        Some (Ok _, k) \<Rightarrow> wait_resources env h rs k
      | x \<Rightarrow> x)"

definition WaitApplicationMemoryAvailable ::
  "('r, 'k) resource_env \<Rightarrow> 'k \<Rightarrow> (('r pm_error, unit) outcome \<times> 'k) option" where
  "WaitApplicationMemoryAvailable env k = wait_until_zero (res_used_application_memory env) (res_sleep env) k"

definition WaitResourceAvailable ::
  "('r, 'k) resource_env \<Rightarrow> program_info \<Rightarrow> 'k resource_state \<Rightarrow>
     (('r pm_error, unit) outcome \<times> 'k resource_state) option" where
  "WaitResourceAvailable env info s =
     (if GetResourceLimitGroup env info = Group_Application then
        (case wait_resources env (GetResourceLimitHandle Group_Application s) LimitableResources (res_kernel s) of
           Some (Ok _, k) \<Rightarrow>
             if res_version env \<ge> 5
             then map_option (\<lambda>(r, k). (r, s\<lparr>res_kernel := k\<rparr>)) (WaitApplicationMemoryAvailable env k)
             else Some (Ok (), s\<lparr>res_kernel := k\<rparr>)
         | x \<Rightarrow> map_option (\<lambda>(r, k). (r, s\<lparr>res_kernel := k\<rparr>)) x)
      else Some (Ok (), s))"

subsection \<open>Boosting\<close>

definition BoostSystemMemoryResourceLimit ::
  "('r, 'k) resource_env \<Rightarrow> u64 \<Rightarrow> 'k resource_state \<Rightarrow> ('r pm_error, unit) outcome \<times> 'k resource_state" where
  "BoostSystemMemoryResourceLimit env boost_size s =
     (let app_memory = memory_resource_limits s (arrangement s) Group_Application
      in R_UNLESS (boost_size \<le> app_memory) ResultInvalidSize s (
         let new_app_size = app_memory - boost_size;
             done = (\<lambda>s. (Ok (), s\<lparr>system_memory_boost_size := boost_size\<rparr>))
         in if res_version env \<ge> 5 then
              (if boost_size < system_memory_boost_size s then
                 (let (r, k) = res_set_unsafe_limit env (res_kernel s) boost_size; s = s\<lparr>res_kernel := k\<rparr>
                  in R_TRY (pm_result r) s (\<lambda>_.
                     let (r, s) = SetMemoryResourceLimitLimitValue env Group_Application new_app_size s
                     in R_ABORT r s (\<lambda>_. done s)))
               else
                 (let (r, s) = SetMemoryResourceLimitLimitValue env Group_Application new_app_size s
                  in R_TRY r s (\<lambda>_.
                     let (r, k) = res_set_unsafe_limit env (res_kernel s) boost_size; s = s\<lparr>res_kernel := k\<rparr>
                     in R_ABORT (pm_result r) s (\<lambda>_. done s))))
            else
              (let new_sys_size = memory_resource_limits s (arrangement s) Group_System + boost_size
               in if boost_size < system_memory_boost_size s then
                    (let (r, s) = SetMemoryResourceLimitLimitValue env Group_System new_sys_size s
                     in R_TRY r s (\<lambda>_.
                        let (r, s) = SetMemoryResourceLimitLimitValue env Group_Application new_app_size s
                        in R_TRY r s (\<lambda>_. done s)))
                  else
                    (let (r, s) = SetMemoryResourceLimitLimitValue env Group_Application new_app_size s
                     in R_TRY r s (\<lambda>_.
                        let (r, s) = SetMemoryResourceLimitLimitValue env Group_System new_sys_size s
                        in R_TRY r s (\<lambda>_. done s))))))"

definition BoostApplicationThreadResourceLimit ::
  "('r, 'k) resource_env \<Rightarrow> 'k resource_state \<Rightarrow> ('r pm_error, unit) outcome \<times> 'k resource_state" where
  "BoostApplicationThreadResourceLimit env s =
     (let new_thread_count = resource_limits s Group_Application ThreadCountMax + extra_application_threads s;
          (r, k) = res_set_limit env (res_kernel s) (limit_handles s Group_Application) ThreadCountMax new_thread_count;
          s = s\<lparr>res_kernel := k\<rparr>
      in R_TRY (pm_result r) s (\<lambda>_.
         (Ok (), s\<lparr>resource_limits := set_limit_entry Group_Application ThreadCountMax new_thread_count (resource_limits s),
                  extra_application_threads := 0\<rparr>)))"

definition GetResourceLimitValues ::
  "('r, 'k) resource_env \<Rightarrow> nat \<Rightarrow> nat \<Rightarrow> 'k resource_state \<Rightarrow> ('r pm_error, 64 word \<times> 64 word) outcome" where
  "GetResourceLimitValues env grp resource s =
     (if grp < length ResourceGroups \<and> resource < length LimitableResources then
        (let h = limit_handles s (ResourceGroups ! grp); res = LimitableResources ! resource
         in fst (R_TRY (pm_result (res_current_value env (res_kernel s) h res)) () (\<lambda>cur.
                 R_TRY (pm_result (res_limit_value env (res_kernel s) h res)) () (\<lambda>lim.
                 (Ok (cur, lim), ())))))
      else Abort)"

subsection \<open>Start-up\<close>

fun create_limits ::
  "('r, 'k) resource_env \<Rightarrow> resource_group list \<Rightarrow> 'k resource_state \<Rightarrow>
     ('r pm_error, unit) outcome \<times> 'k resource_state" where
  "create_limits env [] s = (Ok (), s)"
| "create_limits env (g # gs) s =
     (let (r, k) = (if g = Group_System then (res_system_limit_handle env (res_kernel s), res_kernel s)
                    else res_create_limit env (res_kernel s));
          s = s\<lparr>res_kernel := k\<rparr>
      in R_ABORT (pm_result r) s (\<lambda>h. create_limits env gs (s\<lparr>limit_handles := (limit_handles s)(g := h)\<rparr>)))"

text \<open>Memory moves from one group of an arrangement to the system.\<close>

definition move_memory :: "resource_group \<Rightarrow> u64 \<Rightarrow> memory_arrangement \<Rightarrow> memory_limits \<Rightarrow> memory_limits" where
  "move_memory src amount a l =
     (let l = l(a := (l a)(Group_System := l a Group_System + amount)) in l(a := (l a)(src := l a src - amount)))"

definition adjust_memory_for_version :: "nat \<Rightarrow> memory_limits \<Rightarrow> memory_limits" where
  "adjust_memory_for_version version l =
     (let l = (if version \<ge> 4 then move_memory Group_Applet ExtraSystemMemorySize400 Arr_StandardForSystemDev
                                     (move_memory Group_Applet ExtraSystemMemorySize400 Arr_Standard l) else l)
      in if version \<ge> 5 then move_memory Group_Applet ExtraSystemMemorySize500 Arr_StandardForSystemDev
                                (move_memory Group_Applet ExtraSystemMemorySize500 Arr_Standard l) else l)"

definition add_limit :: "limitable_resource \<Rightarrow> u64 \<Rightarrow> limits \<Rightarrow> limits" where
  "add_limit r extra l = set_limit_entry Group_System r (l Group_System r + extra) l"

definition adjust_limits_for_version :: "nat \<Rightarrow> limits \<Rightarrow> limits" where
  "adjust_limits_for_version version l =
     (let l = (if version \<ge> 4 then add_limit ThreadCountMax ExtraSystemThreadCount400 l else l);
          l = (if version \<ge> 6 then add_limit SessionCountMax ExtraSystemSessionCount600
                                     (add_limit EventCountMax ExtraSystemEventCount600 l) else l)
      in if version \<ge> 9 then add_limit SessionCountMax ExtraSystemSessionCount920 l else l)"

definition adjust_memory_for_atmosphere :: "nat \<Rightarrow> memory_limits \<Rightarrow> memory_limits" where
  "adjust_memory_for_atmosphere version l =
     (if version < 6 then
        (let extra = (if version = 5 then ExtraSystemMemorySizeAtmosphere500 else ExtraSystemMemorySizeAtmosphere);
             src = (if version \<ge> 3 then Group_Applet else Group_Application)
         in fold (move_memory src extra) MemoryArrangements l)
      else l)"

definition count_extra_threads ::
  "('r, 'k) resource_env \<Rightarrow> 'k resource_state \<Rightarrow> ('r pm_error, unit) outcome \<times> 'k resource_state" where
  "count_extra_threads env s =
     R_ABORT (pm_result (res_limit_value env (res_kernel s) (limit_handles s Group_System) ThreadCountMax)) s
       (\<lambda>total_threads_available.
       let total_threads_allocated = resource_limits s Group_System ThreadCountMax
             - resource_limits s Group_Application ThreadCountMax - resource_limits s Group_Applet ThreadCountMax
       in ABORT_UNLESS (sint total_threads_allocated \<le> sint total_threads_available) s
            (Ok (), s\<lparr>extra_application_threads := total_threads_available - total_threads_allocated\<rparr>))"

definition set_dynamic_entry :: "resource_group \<Rightarrow> u64 \<Rightarrow> 'k resource_state \<Rightarrow> 'k resource_state" where
  "set_dynamic_entry g v s =
     s\<lparr>memory_resource_limits := (memory_resource_limits s)
         (Arr_Dynamic := (memory_resource_limits s Arr_Dynamic)(g := v))\<rparr>"

definition choose_arrangement ::
  "('r, 'k) resource_env \<Rightarrow> 'k resource_state \<Rightarrow> ('r pm_error, unit) outcome \<times> 'k resource_state" where
  "choose_arrangement env s =
     (if res_version env \<ge> 6 then
        (let s = s\<lparr>arrangement := Arr_Dynamic\<rparr>
         in R_ABORT (pm_result (res_limit_value env (res_kernel s) (limit_handles s Group_System) PhysicalMemoryMax)) s
              (\<lambda>total_memory.
            R_ABORT (pm_result (res_total_memory env (res_kernel s) Group_Application)) s (\<lambda>application_size.
            let s = set_dynamic_entry Group_Application application_size s
            in R_ABORT (pm_result (res_total_memory env (res_kernel s) Group_Applet)) s (\<lambda>applet_size.
               let s = set_dynamic_entry Group_Applet applet_size s;
                   reserved_non_system_size = application_size + applet_size + ReservedMemorySize600
               in ABORT_UNLESS (sint reserved_non_system_size < sint total_memory) s
                    (Ok (), set_dynamic_entry Group_System (total_memory - reserved_non_system_size) s)))))
      else (Ok (), s\<lparr>arrangement := res_spl_arrangement env (res_kernel s)\<rparr>))"

fun set_all_limits ::
  "('r, 'k) resource_env \<Rightarrow> resource_group list \<Rightarrow> 'k resource_state \<Rightarrow>
     ('r pm_error, unit) outcome \<times> 'k resource_state" where
  "set_all_limits env [] s = (Ok (), s)"
| "set_all_limits env (g # gs) s =
     (let (r, s) = SetResourceLimitLimitValues env g (memory_resource_limits s (arrangement s) g) s
      in R_ABORT r s (\<lambda>_. set_all_limits env gs s))"

definition InitializeResourceManager ::
  "('r, 'k) resource_env \<Rightarrow> 'k resource_state \<Rightarrow> ('r pm_error, unit) outcome \<times> 'k resource_state" where
  "InitializeResourceManager env s =
     (let (r, s) = create_limits env ResourceGroups s
      in R_TRY r s (\<lambda>_.
         let version = res_version env;
             s = s\<lparr>resource_limits := adjust_limits_for_version version (resource_limits s),
                   memory_resource_limits := adjust_memory_for_version version (memory_resource_limits s)\<rparr>;
             (r, s) = (if version \<ge> 7 then count_extra_threads env s else (Ok (), s))
         in R_TRY r s (\<lambda>_.
            let (r, s) = choose_arrangement env s
            in R_TRY r s (\<lambda>_.
               set_all_limits env ResourceGroups
                 (s\<lparr>memory_resource_limits := adjust_memory_for_atmosphere version (memory_resource_limits s)\<rparr>)))))"

definition resource_initial :: "'k \<Rightarrow> 'k resource_state" where
  "resource_initial k =
     \<lparr>limit_handles = (\<lambda>_. 0), arrangement = Arr_Standard, system_memory_boost_size = 0,
      extra_application_threads = 0, resource_limits = initial_resource_limits,
      memory_resource_limits = initial_memory_limits, res_kernel = k\<rparr>"

end
