(* ===== verification/PmState.thy ===== *)
theory PmState
  imports PmResource
begin

text \<open>
  The state of the process manager (\<open>pm/source/impl/pm_process_info.cpp\<close>, its header, and the
  types and globals of \<open>pm_process_manager.cpp\<close>). A \<open>ProcessInfo\<close> is identified by the slot of
  the allocator that holds it; the lists of living and dead processes are lists of slots.
  Other services and the kernel are functions on the state \<open>'k\<close> outside.
\<close>

datatype process_state =
    State_Created | State_CreatedAttached | State_Running | State_Crashed | State_RunningAttached
  | State_Terminating | State_Terminated | State_DebugBreak | State_Other int

datatype process_event = Event_None | Event_Exited | Event_Started | Event_Exception | Event_DebugRunning | Event_DebugBreak

subsection \<open>Flags\<close>

definition Flag_SignalOnExit :: u32 where "Flag_SignalOnExit = 1"
definition Flag_ExceptionOccurred :: u32 where "Flag_ExceptionOccurred = 2"
definition Flag_ExceptionWaitingAttach :: u32 where "Flag_ExceptionWaitingAttach = 4"
definition Flag_SignalOnDebugEvent :: u32 where "Flag_SignalOnDebugEvent = 8"
definition Flag_SuspendedStateChanged :: u32 where "Flag_SuspendedStateChanged = 0x10"
definition Flag_Suspended :: u32 where "Flag_Suspended = 0x20"
definition Flag_Application :: u32 where "Flag_Application = 0x40"
definition Flag_SignalOnStart :: u32 where "Flag_SignalOnStart = 0x80"
definition Flag_StartedStateChanged :: u32 where "Flag_StartedStateChanged = 0x100"

lemmas flag_defs =
  Flag_SignalOnExit_def Flag_ExceptionOccurred_def Flag_ExceptionWaitingAttach_def
  Flag_SignalOnDebugEvent_def Flag_SuspendedStateChanged_def Flag_Suspended_def Flag_Application_def
  Flag_SignalOnStart_def Flag_StartedStateChanged_def

record 'o process_info =
  pr_process_id :: u64
  pr_pin_id :: u64
  pr_loc :: program_location
  pr_status :: 'o
  pr_handle :: u32
  pr_state :: process_state
  pr_flags :: u32
  pr_linked :: bool

definition SetFlag :: "u32 \<Rightarrow> 'o process_info \<Rightarrow> 'o process_info" where
  "SetFlag f p = p\<lparr>pr_flags := pr_flags p OR f\<rparr>"

definition ClearFlag :: "u32 \<Rightarrow> 'o process_info \<Rightarrow> 'o process_info" where
  "ClearFlag f p = p\<lparr>pr_flags := pr_flags p AND NOT f\<rparr>"

definition HasFlag :: "u32 \<Rightarrow> 'o process_info \<Rightarrow> bool" where
  "HasFlag f p \<longleftrightarrow> pr_flags p AND f \<noteq> 0"

definition SetState :: "process_state \<Rightarrow> 'o process_info \<Rightarrow> 'o process_info" where
  "SetState st p = p\<lparr>pr_state := st\<rparr>"

definition SetExceptionOccurred :: "'o process_info \<Rightarrow> 'o process_info" where
  "SetExceptionOccurred p = SetFlag Flag_ExceptionWaitingAttach (SetFlag Flag_ExceptionOccurred p)"

definition HasStarted :: "'o process_info \<Rightarrow> bool" where
  "HasStarted p \<longleftrightarrow> pr_state p \<noteq> State_Created \<and> pr_state p \<noteq> State_CreatedAttached"

definition HasTerminated :: "'o process_info \<Rightarrow> bool" where
  "HasTerminated p \<longleftrightarrow> pr_state p = State_Terminated"

subsection \<open>The outside\<close>

record ('r, 'o, 'k) pm_env =
  pm_resource :: "('r, 'k) resource_env"
  pm_invalid_handle :: u32
  pm_allow_debug_flag :: u16
  pm_ldr_enable_debug :: u32
  pm_ldr_disable_aslr :: u32
  pm_recovery_boot :: bool
  pm_disabled_verification :: bool
  ldr_get_program_info :: "'k \<Rightarrow> program_location \<Rightarrow> ('r + program_info \<times> 'o) \<times> 'k"
  ldr_pin_program :: "'k \<Rightarrow> program_location \<Rightarrow> 'o \<Rightarrow> ('r + u64) \<times> 'k"
  ldr_unpin_program :: "'k \<Rightarrow> u64 \<Rightarrow> 'k"
  ldr_create_process :: "'k \<Rightarrow> u64 \<Rightarrow> u32 \<Rightarrow> u32 \<Rightarrow> ('r + u32) \<times> 'k"
  ldr_set_verification :: "'k \<Rightarrow> bool \<Rightarrow> 'k"
  fs_register_program :: "'k \<Rightarrow> u64 \<Rightarrow> program_location \<Rightarrow> u8 list \<Rightarrow> u8 list \<Rightarrow> ('r + unit) \<times> 'k"
  fs_unregister_program :: "'k \<Rightarrow> u64 \<Rightarrow> 'k"
  fs_set_verification :: "'k \<Rightarrow> bool \<Rightarrow> 'k"
  sm_register_process :: "'k \<Rightarrow> u64 \<Rightarrow> u64 \<Rightarrow> 'o \<Rightarrow> u8 list \<Rightarrow> u8 list \<Rightarrow> ('r + unit) \<times> 'k"
  sm_unregister_process :: "'k \<Rightarrow> u64 \<Rightarrow> 'k"
  svc_process_id :: "'k \<Rightarrow> u32 \<Rightarrow> u64"
  svc_start_process :: "'k \<Rightarrow> u32 \<Rightarrow> u8 \<Rightarrow> u8 \<Rightarrow> u32 \<Rightarrow> ('r + unit) \<times> 'k"
  svc_terminate_process :: "'k \<Rightarrow> u32 \<Rightarrow> ('r + unit) \<times> 'k"
  svc_reset_signal :: "'k \<Rightarrow> u32 \<Rightarrow> 'k"
  svc_process_state :: "'k \<Rightarrow> u32 \<Rightarrow> 'r + process_state"
  svc_close_handle :: "'k \<Rightarrow> u32 \<Rightarrow> 'k"
  boot2_launch :: "'k \<Rightarrow> 'k"

abbreviation pm_version :: "('r, 'o, 'k) pm_env \<Rightarrow> nat" where
  "pm_version env \<equiv> res_version (pm_resource env)"

text \<open>Events are auto-clearing: a Boolean that the waiting side resets.\<close>

record ('o, 'k) pm_state =
  storages :: "'o process_info option list"
  process_list :: "nat list"
  dead_process_list :: "nat list"
  process_event_signaled :: bool
  hook_event_signaled :: bool
  application_hook_event_signaled :: bool
  boot_event_signaled :: bool
  program_id_hook :: u64
  application_hook :: bool
  boot_finished :: bool
  pm_resources :: "'k resource_state"

definition MaxProcessCount :: nat where "MaxProcessCount = 0x60"

abbreviation pm_k :: "('o, 'k) pm_state \<Rightarrow> 'k" where
  "pm_k s \<equiv> res_kernel (pm_resources s)"

definition with_k :: "'k \<Rightarrow> ('o, 'k) pm_state \<Rightarrow> ('o, 'k) pm_state" where
  "with_k k s = s\<lparr>pm_resources := (pm_resources s)\<lparr>res_kernel := k\<rparr>\<rparr>"

definition proc :: "('o, 'k) pm_state \<Rightarrow> nat \<Rightarrow> 'o process_info" where
  "proc s i = the (storages s ! i)"

definition put_proc :: "nat \<Rightarrow> 'o process_info \<Rightarrow> ('o, 'k) pm_state \<Rightarrow> ('o, 'k) pm_state" where
  "put_proc i p s = s\<lparr>storages := (storages s)[i := Some p]\<rparr>"

definition upd_proc :: "nat \<Rightarrow> ('o process_info \<Rightarrow> 'o process_info) \<Rightarrow> ('o, 'k) pm_state \<Rightarrow> ('o, 'k) pm_state" where
  "upd_proc i f s = put_proc i (f (proc s i)) s"

definition pm_initial :: "'k resource_state \<Rightarrow> ('o, 'k) pm_state" where
  "pm_initial r =
     \<lparr>storages = replicate MaxProcessCount None, process_list = [], dead_process_list = [],
      process_event_signaled = False, hook_event_signaled = False, application_hook_event_signaled = False,
      boot_event_signaled = False, program_id_hook = InvalidProgramId, application_hook = False,
      boot_finished = False, pm_resources = r\<rparr>"

subsection \<open>Processes and their storage\<close>

definition ProcessInfo_new :: "u32 \<Rightarrow> u64 \<Rightarrow> u64 \<Rightarrow> program_location \<Rightarrow> 'o \<Rightarrow> 'o process_info" where
  "ProcessInfo_new h pid pin l st =
     \<lparr>pr_process_id = pid, pr_pin_id = pin, pr_loc = l, pr_status = st, pr_handle = h,
      pr_state = State_Created, pr_flags = 0, pr_linked = False\<rparr>"

text \<open>Releasing the resources of a process; the second time there is nothing left to release.\<close>

definition ProcessInfo_Cleanup ::
  "('r, 'o, 'k) pm_env \<Rightarrow> 'o process_info \<Rightarrow> 'k \<Rightarrow> 'o process_info \<times> 'k" where
  "ProcessInfo_Cleanup env p k =
     (if pr_handle p \<noteq> pm_invalid_handle env then
        (let k = fs_unregister_program env k (pr_process_id p);
             k = sm_unregister_process env k (pr_process_id p);
             k = ldr_unpin_program env k (pr_pin_id p);
             k = svc_close_handle env k (pr_handle p)
         in (p\<lparr>pr_handle := pm_invalid_handle env, pr_linked := False\<rparr>, k))
      else (p, k))"

definition Cleanup :: "('r, 'o, 'k) pm_env \<Rightarrow> nat \<Rightarrow> ('o, 'k) pm_state \<Rightarrow> ('o, 'k) pm_state" where
  "Cleanup env i s =
     (let (p, k) = ProcessInfo_Cleanup env (proc s i) (pm_k s) in with_k k (put_proc i p s))"

definition AllocateProcessInfoStorage :: "('o, 'k) pm_state \<Rightarrow> nat option" where
  "AllocateProcessInfoStorage s = find_idx (\<lambda>x. x = None) (storages s)"

definition FreeProcessInfo ::
  "('r, 'o, 'k) pm_env \<Rightarrow> nat \<Rightarrow> ('o, 'k) pm_state \<Rightarrow> ('r pm_error, unit) outcome \<times> ('o, 'k) pm_state" where
  "FreeProcessInfo env i s =
     ABORT_UNLESS (i < MaxProcessCount) s (
     ABORT_UNLESS (storages s ! i \<noteq> None) s (
     let s = Cleanup env i s
     in (Ok (), s\<lparr>storages := (storages s)[i := None]\<rparr>)))"

text \<open>Searching the list of living processes.\<close>

definition Find_process :: "u64 \<Rightarrow> ('o, 'k) pm_state \<Rightarrow> nat option" where
  "Find_process pid s = find (\<lambda>i. pr_process_id (proc s i) = pid) (process_list s)"

definition Find_program :: "u64 \<Rightarrow> ('o, 'k) pm_state \<Rightarrow> nat option" where
  "Find_program program_id s = find (\<lambda>i. loc_program_id (pr_loc (proc s i)) = program_id) (process_list s)"

subsection \<open>Launch flags\<close>

datatype launch_flag =
    SignalOnExit | SignalOnStart | SignalOnException | SignalOnDebugEvent | StartSuspended | DisableAslr

fun GetFlagMask :: "nat \<Rightarrow> launch_flag \<Rightarrow> u32" where
  "GetFlagMask version f =
     (if version \<ge> 5 then
        (case f of SignalOnExit \<Rightarrow> 1 | SignalOnStart \<Rightarrow> 2 | SignalOnException \<Rightarrow> 4
                 | SignalOnDebugEvent \<Rightarrow> 8 | StartSuspended \<Rightarrow> 0x10 | DisableAslr \<Rightarrow> 0x20)
      else
        (case f of SignalOnExit \<Rightarrow> 1 | StartSuspended \<Rightarrow> 2 | SignalOnException \<Rightarrow> 4
                 | DisableAslr \<Rightarrow> 8 | SignalOnDebugEvent \<Rightarrow> 0x10 | SignalOnStart \<Rightarrow> 0x20))"

definition Should :: "('r, 'o, 'k) pm_env \<Rightarrow> launch_flag \<Rightarrow> u32 \<Rightarrow> bool" where
  "Should env f launch_flags \<longleftrightarrow>
     \<not> (f = SignalOnStart \<and> pm_version env < 2) \<and> launch_flags AND GetFlagMask (pm_version env) f \<noteq> 0"

fun GetProcessEventValue :: "('r, 'o, 'k) pm_env \<Rightarrow> process_event \<Rightarrow> u32" where
  "GetProcessEventValue env e =
     (if pm_version env \<ge> 5 then
        (case e of Event_None \<Rightarrow> 0 | Event_Exited \<Rightarrow> 1 | Event_Started \<Rightarrow> 2 | Event_Exception \<Rightarrow> 3
                 | Event_DebugRunning \<Rightarrow> 4 | Event_DebugBreak \<Rightarrow> 5)
      else
        (case e of Event_None \<Rightarrow> 0 | Event_Exception \<Rightarrow> 1 | Event_Exited \<Rightarrow> 2 | Event_DebugRunning \<Rightarrow> 3
                 | Event_DebugBreak \<Rightarrow> 4 | Event_Started \<Rightarrow> 5))"

definition GetLoaderCreateProcessFlags :: "('r, 'o, 'k) pm_env \<Rightarrow> u32 \<Rightarrow> u32" where
  "GetLoaderCreateProcessFlags env launch_flags =
     (let f = (if Should env SignalOnException launch_flags \<or>
                  pm_version env \<ge> 2 \<and> \<not> Should env StartSuspended launch_flags
               then pm_ldr_enable_debug env else 0)
      in if Should env DisableAslr launch_flags then f OR pm_ldr_disable_aslr env else f)"

end
