(* ===== verification/PmManager.thy ===== *)
theory PmManager
  imports PmState
begin

text \<open>
  The operations of the process manager (\<open>pm/source/impl/pm_process_manager.cpp\<close>): launching,
  the reaction to a signaled process, the event queue, the queries, the hooks, and the
  commands of its services. The tracking thread and its clients hold the list locks in turn,
  so an operation is one step on the state.
\<close>

subsection \<open>Launching\<close>

definition IsApplicationProcess :: "('o, 'k) pm_state \<Rightarrow> nat \<Rightarrow> bool" where
  "IsApplicationProcess s i \<longleftrightarrow> HasFlag Flag_Application (proc s i)"

definition HasApplicationProcess :: "('o, 'k) pm_state \<Rightarrow> bool" where
  "HasApplicationProcess s \<longleftrightarrow> list_ex (IsApplicationProcess s) (process_list s)"

definition start_process ::
  "('r, 'o, 'k) pm_env \<Rightarrow> nat \<Rightarrow> program_info \<Rightarrow> ('o, 'k) pm_state \<Rightarrow>
     ('r pm_error, unit) outcome \<times> ('o, 'k) pm_state" where
  "start_process env i info s =
     (let (r, k) = svc_start_process env (pm_k s) (pr_handle (proc s i)) (pi_main_thread_priority info)
                     (pi_default_cpu_id info) (pi_main_thread_stack_size info);
          s = with_k k s
      in R_TRY (pm_result r) s (\<lambda>_. (Ok (), upd_proc i (SetState State_Running) s)))"

definition CleanupProcessInfo ::
  "('r, 'o, 'k) pm_env \<Rightarrow> nat \<Rightarrow> ('o, 'k) pm_state \<Rightarrow> ('r pm_error, unit) outcome \<times> ('o, 'k) pm_state" where
  "CleanupProcessInfo env i s = FreeProcessInfo env i (s\<lparr>process_list := remove1 i (process_list s)\<rparr>)"

definition CleanupDeadProcessInfo ::
  "('r, 'o, 'k) pm_env \<Rightarrow> nat \<Rightarrow> ('o, 'k) pm_state \<Rightarrow> ('r pm_error, unit) outcome \<times> ('o, 'k) pm_state" where
  "CleanupDeadProcessInfo env i s = FreeProcessInfo env i (s\<lparr>dead_process_list := remove1 i (dead_process_list s)\<rparr>)"

text \<open>The four blobs of access control follow each other in the buffer.\<close>

definition ac_blobs :: "program_info \<Rightarrow> u8 list \<times> u8 list \<times> u8 list \<times> u8 list" where
  "ac_blobs info =
     (let b = pi_ac_buffer info; n1 = unat (pi_acid_sac_size info); n2 = unat (pi_aci_sac_size info);
          n3 = unat (pi_acid_fac_size info); n4 = unat (pi_aci_fah_size info)
      in (take n1 b, take n2 (drop n1 b), take n3 (drop (n1 + n2) b), take n4 (drop (n1 + n2 + n3) b)))"

definition set_launch_flags ::
  "('r, 'o, 'k) pm_env \<Rightarrow> u32 \<Rightarrow> bool \<Rightarrow> bool \<Rightarrow> 'o process_info \<Rightarrow> 'o process_info" where
  "set_launch_flags env launch_flags is_application allow_debug p =
     (let p = (if is_application then SetFlag Flag_Application p else p);
          p = (if Should env SignalOnStart launch_flags \<and> allow_debug then SetFlag Flag_SignalOnStart p else p);
          p = (if Should env SignalOnExit launch_flags then SetFlag Flag_SignalOnExit p else p)
      in if Should env SignalOnDebugEvent launch_flags \<and> allow_debug then SetFlag Flag_SignalOnDebugEvent p else p)"

text \<open>A hooked process is left for its debugger to start.\<close>

definition launch_hooks ::
  "('r, 'o, 'k) pm_env \<Rightarrow> u32 \<Rightarrow> program_info \<Rightarrow> program_location \<Rightarrow> nat \<Rightarrow> ('o, 'k) pm_state \<Rightarrow>
     ('r pm_error, unit) outcome \<times> ('o, 'k) pm_state" where
  "launch_hooks env launch_flags info location i s =
     (if loc_program_id location = program_id_hook s then
        (Ok (), s\<lparr>hook_event_signaled := True, program_id_hook := InvalidProgramId\<rparr>)
      else if GetResourceLimitGroup (pm_resource env) info = Group_Application \<and> application_hook s then
        (Ok (), s\<lparr>application_hook_event_signaled := True, application_hook := False\<rparr>)
      else if \<not> Should env StartSuspended launch_flags then start_process env i info s
      else (Ok (), s))"

text \<open>What happens while the cleanup guard of \<open>LaunchProcess\<close> is armed.\<close>

definition launch_registered ::
  "('r, 'o, 'k) pm_env \<Rightarrow> u32 \<Rightarrow> program_info \<Rightarrow> program_location \<Rightarrow> 'o \<Rightarrow> u64 \<Rightarrow> nat \<Rightarrow> ('o, 'k) pm_state \<Rightarrow>
     ('r pm_error, unit) outcome \<times> ('o, 'k) pm_state" where
  "launch_registered env launch_flags info location status process_id i s =
     (let is_application = (GetResourceLimitGroup (pm_resource env) info = Group_Application);
          allow_debug = (pi_flags info AND pm_allow_debug_flag env \<noteq> 0 \<or> pm_version env < 2);
          (acid_sac, aci_sac, acid_fac, aci_fah) = ac_blobs info;
          (r, k) = fs_register_program env (pm_k s) process_id location aci_fah acid_fac;
          s = with_k k s
      in R_TRY (pm_result r) s (\<lambda>_.
         let (r, k) = sm_register_process env (pm_k s) process_id (loc_program_id location) status acid_sac aci_sac;
             s = with_k k s
         in R_TRY (pm_result r) s (\<lambda>_.
            launch_hooks env launch_flags info location i
              (upd_proc i (set_launch_flags env launch_flags is_application allow_debug) s))))"

definition launch_guarded ::
  "('r, 'o, 'k) pm_env \<Rightarrow> u32 \<Rightarrow> program_info \<Rightarrow> program_location \<Rightarrow> 'o \<Rightarrow> u64 \<Rightarrow> nat \<Rightarrow> ('o, 'k) pm_state \<Rightarrow>
     ('r pm_error, u64) outcome \<times> ('o, 'k) pm_state" where
  "launch_guarded env launch_flags info location status process_id i s =
     (let (r, s) = launch_registered env launch_flags info location status process_id i s
      in case r of
           Ok _ \<Rightarrow> (Ok process_id, s)
         | Err e \<Rightarrow>
             (let (r, s) = CleanupProcessInfo env i (Cleanup env i s)
              in R_TRY r s (\<lambda>_. (Err e, s)))
         | Abort \<Rightarrow> (Abort, s))"

text \<open>Creating the process of a pinned program and entering it into the list.\<close>

definition launch_pinned ::
  "('r, 'o, 'k) pm_env \<Rightarrow> u32 \<Rightarrow> program_info \<Rightarrow> program_location \<Rightarrow> 'o \<Rightarrow> u64 \<Rightarrow> ('o, 'k) pm_state \<Rightarrow>
     ('r pm_error, u64) outcome \<times> ('o, 'k) pm_state" where
  "launch_pinned env launch_flags info location status pin_id' s =
     (let (r, k) = ldr_create_process env (pm_k s) pin_id' (GetLoaderCreateProcessFlags env launch_flags)
                     (GetResourceLimitHandle (GetResourceLimitGroup (pm_resource env) info) (pm_resources s));
          s = with_k k s
      in R_TRY (pm_result r) (with_k (ldr_unpin_program env (pm_k s) pin_id') s) (\<lambda>process_handle'.
         let process_id = svc_process_id env (pm_k s) process_handle'
         in case AllocateProcessInfoStorage s of
              None \<Rightarrow> (Abort, s)
            | Some i \<Rightarrow>
                let s = put_proc i ((ProcessInfo_new process_handle' process_id pin_id' location status)\<lparr>pr_linked := True\<rparr>) s;
                    s = s\<lparr>process_list := process_list s @ [i]\<rparr>
                in launch_guarded env launch_flags info location status process_id i s))"

definition LaunchProcess ::
  "('r, 'o, 'k) pm_env \<Rightarrow> program_location \<Rightarrow> u32 \<Rightarrow> ('o, 'k) pm_state \<Rightarrow>
     (('r pm_error, u64) outcome \<times> ('o, 'k) pm_state) option" where
  "LaunchProcess env loc launch_flags s =
     (let (r, k) = ldr_get_program_info env (pm_k s) loc; s = with_k k s
      in case r of
           Inl e \<Rightarrow> Some (Err (KernelFailure e), s)
         | Inr (info, status) \<Rightarrow>
             if GetResourceLimitGroup (pm_resource env) info = Group_Application \<and> HasApplicationProcess s
             then Some (Err ResultApplicationRunning, s)
             else
               let location = loc\<lparr>loc_program_id := pi_program_id info\<rparr>;
                   (r, k) = ldr_pin_program env (pm_k s) location status; s = with_k k s
               in case r of
                    Inl e \<Rightarrow> Some (Err (KernelFailure e), s)
                  | Inr pin \<Rightarrow>
                      (case WaitResourceAvailable (pm_resource env) info (pm_resources s) of
                         None \<Rightarrow> None
                       | Some (r, res) \<Rightarrow>
                           let s = s\<lparr>pm_resources := res\<rparr>
                           in Some (R_TRY r s (\<lambda>_. launch_pinned env launch_flags info location status pin s))))"

subsection \<open>A signaled process\<close>

definition signal :: "('o, 'k) pm_state \<Rightarrow> ('o, 'k) pm_state" where
  "signal s = s\<lparr>process_event_signaled := True\<rparr>"

definition terminated ::
  "('r, 'o, 'k) pm_env \<Rightarrow> nat \<Rightarrow> ('o, 'k) pm_state \<Rightarrow> ('r pm_error, unit) outcome \<times> ('o, 'k) pm_state" where
  "terminated env i s =
     (let s = Cleanup env i s
      in if pm_version env < 5 \<and> HasFlag Flag_SignalOnExit (proc s i) then (Ok (), signal s)
         else if pm_version env \<ge> 5 \<and> HasFlag Flag_SignalOnExit (proc s i) then
           (Ok (), signal (s\<lparr>process_list := remove1 i (process_list s),
                             dead_process_list := dead_process_list s @ [i]\<rparr>))
         else CleanupProcessInfo env i s)"

text \<open>The reaction to the state a process has entered.\<close>

definition on_new_state ::
  "('r, 'o, 'k) pm_env \<Rightarrow> nat \<Rightarrow> process_state \<Rightarrow> ('o, 'k) pm_state \<Rightarrow>
     ('r pm_error, unit) outcome \<times> ('o, 'k) pm_state" where
  "on_new_state env i new_state s =
     (let debug = HasFlag Flag_SignalOnDebugEvent (proc s i); changed = SetFlag Flag_SuspendedStateChanged
      in case new_state of
           State_Running \<Rightarrow>
             if debug then (Ok (), signal (upd_proc i (changed \<circ> ClearFlag Flag_Suspended) s))
             else if pm_version env \<ge> 2 \<and> HasFlag Flag_SignalOnStart (proc s i)
             then (Ok (), signal (upd_proc i (ClearFlag Flag_SignalOnStart \<circ> SetFlag Flag_StartedStateChanged) s))
             else (Ok (), s)
         | State_Crashed \<Rightarrow> (Ok (), signal (upd_proc i SetExceptionOccurred s))
         | State_RunningAttached \<Rightarrow>
             if debug then (Ok (), signal (upd_proc i (changed \<circ> ClearFlag Flag_Suspended) s)) else (Ok (), s)
         | State_Terminated \<Rightarrow> terminated env i s
         | State_DebugBreak \<Rightarrow>
             if debug then (Ok (), signal (upd_proc i (changed \<circ> SetFlag Flag_Suspended) s)) else (Ok (), s)
         | _ \<Rightarrow> (Ok (), s))"

definition OnProcessSignaled ::
  "('r, 'o, 'k) pm_env \<Rightarrow> nat \<Rightarrow> ('o, 'k) pm_state \<Rightarrow> ('r pm_error, unit) outcome \<times> ('o, 'k) pm_state" where
  "OnProcessSignaled env i s =
     (let s = with_k (svc_reset_signal env (pm_k s) (pr_handle (proc s i))) s;
          old_state = pr_state (proc s i)
      in R_ABORT (pm_result (svc_process_state env (pm_k s) (pr_handle (proc s i)))) s (\<lambda>new_state.
         let s = upd_proc i (SetState new_state) s;
             s = (if old_state = State_Crashed \<and> new_state \<noteq> State_Crashed
                  then upd_proc i (ClearFlag Flag_ExceptionWaitingAttach) s else s)
         in on_new_state env i new_state s))"

subsection \<open>Clients\<close>

text \<open>An operation on the process found for a key.\<close>

definition with_process ::
  "nat option \<Rightarrow> ('o, 'k) pm_state \<Rightarrow> (nat \<Rightarrow> ('r pm_error, 'a) outcome \<times> ('o, 'k) pm_state) \<Rightarrow>
     ('r pm_error, 'a) outcome \<times> ('o, 'k) pm_state" where
  "with_process found s f = (case found of None \<Rightarrow> (Err ResultProcessNotFound, s) | Some i \<Rightarrow> f i)"

definition StartProcess ::
  "('r, 'o, 'k) pm_env \<Rightarrow> u64 \<Rightarrow> ('o, 'k) pm_state \<Rightarrow> ('r pm_error, unit) outcome \<times> ('o, 'k) pm_state" where
  "StartProcess env process_id s = with_process (Find_process process_id s) s (\<lambda>i.
     R_UNLESS (\<not> HasStarted (proc s i)) ResultAlreadyStarted s (
     let (r, k) = ldr_get_program_info env (pm_k s) (pr_loc (proc s i)); s = with_k k s
     in R_TRY (pm_result r) s (\<lambda>(info, status). start_process env i info s)))"

definition terminate_at ::
  "('r, 'o, 'k) pm_env \<Rightarrow> ('o, 'k) pm_state \<Rightarrow> nat \<Rightarrow> ('r pm_error, unit) outcome \<times> ('o, 'k) pm_state" where
  "terminate_at env s i =
     (let (r, k) = svc_terminate_process env (pm_k s) (pr_handle (proc s i)) in (pm_result r, with_k k s))"

definition TerminateProcess ::
  "('r, 'o, 'k) pm_env \<Rightarrow> u64 \<Rightarrow> ('o, 'k) pm_state \<Rightarrow> ('r pm_error, unit) outcome \<times> ('o, 'k) pm_state" where
  "TerminateProcess env process_id s = with_process (Find_process process_id s) s (terminate_at env s)"

definition TerminateProgram ::
  "('r, 'o, 'k) pm_env \<Rightarrow> u64 \<Rightarrow> ('o, 'k) pm_state \<Rightarrow> ('r pm_error, unit) outcome \<times> ('o, 'k) pm_state" where
  "TerminateProgram env program_id s = with_process (Find_program program_id s) s (terminate_at env s)"

text \<open>The first process of the list that has something to report, with what it becomes.\<close>

definition pending_event ::
  "('r, 'o, 'k) pm_env \<Rightarrow> 'o process_info \<Rightarrow> (process_event \<times> 'o process_info) option" where
  "pending_event env p =
     (if HasStarted p \<and> HasFlag Flag_StartedStateChanged p
      then Some (Event_Started, ClearFlag Flag_StartedStateChanged p)
      else if HasFlag Flag_SuspendedStateChanged p
      then Some (if HasFlag Flag_Suspended p then Event_DebugBreak else Event_DebugRunning,
                 ClearFlag Flag_SuspendedStateChanged p)
      else if HasFlag Flag_ExceptionOccurred p
      then Some (Event_Exception, ClearFlag Flag_ExceptionOccurred p)
      else if pm_version env < 5 \<and> HasFlag Flag_SignalOnExit p \<and> HasTerminated p
      then Some (Event_Exited, p)
      else None)"

definition GetProcessEventInfo ::
  "('r, 'o, 'k) pm_env \<Rightarrow> ('o, 'k) pm_state \<Rightarrow>
     ('r pm_error, process_event \<times> u64) outcome \<times> ('o, 'k) pm_state" where
  "GetProcessEventInfo env s =
     (case find (\<lambda>i. pending_event env (proc s i) \<noteq> None) (process_list s) of
        Some i \<Rightarrow>
          (case pending_event env (proc s i) of
             Some (event, p) \<Rightarrow> (Ok (event, pr_process_id p), put_proc i p s)
           | None \<Rightarrow> (Ok (Event_None, 0), s))
      | None \<Rightarrow>
          if pm_version env \<ge> 5 \<and> dead_process_list s \<noteq> [] then
            (let i = hd (dead_process_list s); process_id = pr_process_id (proc s i);
                 (r, s) = CleanupDeadProcessInfo env i s
             in R_TRY r s (\<lambda>_. (Ok (Event_Exited, process_id), s)))
          else (Ok (Event_None, 0), s))"

definition CleanupProcess ::
  "('r, 'o, 'k) pm_env \<Rightarrow> u64 \<Rightarrow> ('o, 'k) pm_state \<Rightarrow> ('r pm_error, unit) outcome \<times> ('o, 'k) pm_state" where
  "CleanupProcess env process_id s = with_process (Find_process process_id s) s (\<lambda>i.
     R_UNLESS (HasTerminated (proc s i)) ResultNotTerminated s (CleanupProcessInfo env i s))"

definition ClearExceptionOccurred ::
  "u64 \<Rightarrow> ('o, 'k) pm_state \<Rightarrow> ('r pm_error, unit) outcome \<times> ('o, 'k) pm_state" where
  "ClearExceptionOccurred process_id s = with_process (Find_process process_id s) s (\<lambda>i.
     (Ok (), upd_proc i (ClearFlag Flag_ExceptionOccurred) s))"

definition GetModuleIdList :: "nat \<Rightarrow> u8 list" where
  "GetModuleIdList max_out_count = []"

text \<open>The number of process ids written does not depend on the size of the client's array.\<close>

definition GetExceptionProcessIdList :: "nat \<Rightarrow> ('o, 'k) pm_state \<Rightarrow> u64 list" where
  "GetExceptionProcessIdList max_out_count s =
     map (\<lambda>i. pr_process_id (proc s i))
       (filter (\<lambda>i. HasFlag Flag_ExceptionWaitingAttach (proc s i)) (process_list s))"

definition GetProcessId :: "u64 \<Rightarrow> ('o, 'k) pm_state \<Rightarrow> ('r pm_error, u64) outcome" where
  "GetProcessId program_id s =
     (case Find_program program_id s of None \<Rightarrow> Err ResultProcessNotFound | Some i \<Rightarrow> Ok (pr_process_id (proc s i)))"

definition GetProgramId :: "u64 \<Rightarrow> ('o, 'k) pm_state \<Rightarrow> ('r pm_error, u64) outcome" where
  "GetProgramId process_id s =
     (case Find_process process_id s of None \<Rightarrow> Err ResultProcessNotFound
                                       | Some i \<Rightarrow> Ok (loc_program_id (pr_loc (proc s i))))"

definition GetApplicationProcessId :: "('o, 'k) pm_state \<Rightarrow> ('r pm_error, u64) outcome" where
  "GetApplicationProcessId s =
     (case find (IsApplicationProcess s) (process_list s) of
        None \<Rightarrow> Err ResultProcessNotFound | Some i \<Rightarrow> Ok (pr_process_id (proc s i)))"

definition AtmosphereGetProcessInfo ::
  "u64 \<Rightarrow> ('o, 'k) pm_state \<Rightarrow> ('r pm_error, u32 \<times> program_location \<times> 'o) outcome" where
  "AtmosphereGetProcessInfo process_id s =
     (case Find_process process_id s of None \<Rightarrow> Err ResultProcessNotFound
      | Some i \<Rightarrow> Ok (pr_handle (proc s i), pr_loc (proc s i), pr_status (proc s i)))"

subsection \<open>Hooks and boot\<close>

definition HookToCreateProcess ::
  "u64 \<Rightarrow> ('o, 'k) pm_state \<Rightarrow> ('r pm_error, unit) outcome \<times> ('o, 'k) pm_state" where
  "HookToCreateProcess program_id s =
     R_UNLESS (program_id_hook s = InvalidProgramId) ResultDebugHookInUse s
       (Ok (), s\<lparr>program_id_hook := program_id\<rparr>)"

definition HookToCreateApplicationProcess ::
  "('o, 'k) pm_state \<Rightarrow> ('r pm_error, unit) outcome \<times> ('o, 'k) pm_state" where
  "HookToCreateApplicationProcess s =
     R_UNLESS (\<not> application_hook s) ResultDebugHookInUse s (Ok (), s\<lparr>application_hook := True\<rparr>)"

definition ClearHook :: "u32 \<Rightarrow> ('o, 'k) pm_state \<Rightarrow> ('o, 'k) pm_state" where
  "ClearHook which s =
     (let s = (if which AND 1 \<noteq> 0 then s\<lparr>program_id_hook := InvalidProgramId\<rparr> else s)
      in if which AND 2 \<noteq> 0 then s\<lparr>application_hook := False\<rparr> else s)"

definition NotifyBootFinished :: "('r, 'o, 'k) pm_env \<Rightarrow> ('o, 'k) pm_state \<Rightarrow> ('o, 'k) pm_state" where
  "NotifyBootFinished env s =
     (if \<not> boot_finished s then
        (let k = pm_k s;
             k = (if pm_disabled_verification env then
                    (if pm_version env \<ge> 10 then ldr_set_verification env k False
                     else fs_set_verification env k False)
                  else k);
             k = boot2_launch env k
         in (with_k k s)\<lparr>boot_finished := True, boot_event_signaled := True\<rparr>)
      else s)"

definition GetBootFinishedEventHandle ::
  "('r, 'o, 'k) pm_env \<Rightarrow> ('o, 'k) pm_state \<Rightarrow> ('r pm_error, unit) outcome \<times> ('o, 'k) pm_state" where
  "GetBootFinishedEventHandle env s = ABORT_UNLESS (pm_recovery_boot env) s (Ok (), s)"

subsection \<open>Commands\<close>

text \<open>
  The commands of the shell, debug monitor and information services and the signals of the
  tracking thread, each one step. A launch whose wait never ends has no step.
\<close>

datatype pm_cmd =
    Do_Launch program_location u32 | Do_Signaled nat | Do_Start u64 | Do_TerminateProcess u64
  | Do_TerminateProgram u64 | Do_GetEvent | Do_CleanupProcess u64 | Do_ClearException u64
  | Do_Hook u64 | Do_HookApplication | Do_ClearHook u32 | Do_NotifyBoot
  | Do_BoostMemory u64 | Do_BoostThreads

definition on_resources ::
  "('k resource_state \<Rightarrow> ('r pm_error, unit) outcome \<times> 'k resource_state) \<Rightarrow> ('o, 'k) pm_state \<Rightarrow>
     ('r pm_error, unit) outcome \<times> ('o, 'k) pm_state" where
  "on_resources f s = (let (r, res) = f (pm_resources s) in (r, s\<lparr>pm_resources := res\<rparr>))"

definition forget :: "('e, 'a) outcome \<times> 's \<Rightarrow> (('e, unit) outcome \<times> 's) option" where
  "forget x = (case x of (r, s) \<Rightarrow> Some (R_TRY r s (\<lambda>_. (Ok (), s))))"

text \<open>Only a process whose holder is linked to the waitable manager is ever signaled.\<close>

fun pm_call ::
  "('r, 'o, 'k) pm_env \<Rightarrow> pm_cmd \<Rightarrow> ('o, 'k) pm_state \<Rightarrow>
     (('r pm_error, unit) outcome \<times> ('o, 'k) pm_state) option" where
  "pm_call env (Do_Launch loc launch_flags) s = Option.bind (LaunchProcess env loc launch_flags s) forget"
| "pm_call env (Do_Signaled i) s =
     (if i \<in> set (process_list s) \<and> pr_linked (proc s i) then Some (OnProcessSignaled env i s) else None)"
| "pm_call env (Do_Start process_id) s = Some (StartProcess env process_id s)"
| "pm_call env (Do_TerminateProcess process_id) s = Some (TerminateProcess env process_id s)"
| "pm_call env (Do_TerminateProgram program_id) s = Some (TerminateProgram env program_id s)"
| "pm_call env Do_GetEvent s = forget (GetProcessEventInfo env s)"
| "pm_call env (Do_CleanupProcess process_id) s = Some (CleanupProcess env process_id s)"
| "pm_call env (Do_ClearException process_id) s = Some (ClearExceptionOccurred process_id s)"
| "pm_call env (Do_Hook program_id) s = Some (HookToCreateProcess program_id s)"
| "pm_call env Do_HookApplication s = Some (HookToCreateApplicationProcess s)"
| "pm_call env (Do_ClearHook which) s = Some (Ok (), ClearHook which s)"
| "pm_call env Do_NotifyBoot s = Some (Ok (), NotifyBootFinished env s)"
| "pm_call env (Do_BoostMemory boost_size) s =
     Some (on_resources (BoostSystemMemoryResourceLimit (pm_resource env) boost_size) s)"
| "pm_call env Do_BoostThreads s = Some (on_resources (BoostApplicationThreadResourceLimit (pm_resource env)) s)"

end
