(* ===== verification/PmInvariant.thy ===== *)
theory PmInvariant
  imports PmManager
begin

text \<open>
  The invariant of the process lists: every allocated slot is in exactly one list, once; at
  most one living process is an application; a process without a holder has terminated and
  released its handle. Every command preserves it, so freeing a process never aborts.
\<close>

definition pm_tables :: "('o, 'k) pm_state \<Rightarrow> 'o process_info option list \<times> nat list \<times> nat list" where
  "pm_tables s = (storages s, process_list s, dead_process_list s)"

lemma pm_tables_simps [simp]:
  "pm_tables (with_k k s) = pm_tables s"
  "pm_tables (signal s) = pm_tables s"
  "pm_tables (s\<lparr>pm_resources := res\<rparr>) = pm_tables s"
  "pm_tables (s\<lparr>hook_event_signaled := b\<rparr>) = pm_tables s"
  "pm_tables (s\<lparr>application_hook_event_signaled := b\<rparr>) = pm_tables s"
  "pm_tables (s\<lparr>boot_event_signaled := b\<rparr>) = pm_tables s"
  "pm_tables (s\<lparr>boot_finished := b\<rparr>) = pm_tables s"
  "pm_tables (s\<lparr>program_id_hook := h\<rparr>) = pm_tables s"
  "pm_tables (s\<lparr>application_hook := b\<rparr>) = pm_tables s"
  by (simp_all add: pm_tables_def with_k_def signal_def)

lemma pm_sel_simps [simp]:
  "process_list (with_k k s) = process_list s" "dead_process_list (with_k k s) = dead_process_list s"
  "storages (with_k k s) = storages s" "pm_k (with_k k s) = k" "proc (with_k k s) i = proc s i"
  "process_list (put_proc i p s) = process_list s" "dead_process_list (put_proc i p s) = dead_process_list s"
  "storages (put_proc i p s) = (storages s)[i := Some p]"
  "process_list (upd_proc i f s) = process_list s" "dead_process_list (upd_proc i f s) = dead_process_list s"
  "process_list (signal s) = process_list s" "dead_process_list (signal s) = dead_process_list s"
  "storages (signal s) = storages s" "proc (signal s) i = proc s i"
  by (simp_all add: with_k_def put_proc_def upd_proc_def signal_def proc_def)

lemma proc_put_proc [simp]:
  "i < length (storages s) \<Longrightarrow> proc (put_proc i p s) i = p"
  "j \<noteq> i \<Longrightarrow> proc (put_proc i p s) j = proc s j"
  by (simp_all add: proc_def put_proc_def)

definition slot_ok :: "('r, 'o, 'k) pm_env \<Rightarrow> 'o process_info \<Rightarrow> bool" where
  "slot_ok env p \<longleftrightarrow> (\<not> pr_linked p \<longrightarrow> pr_handle p = pm_invalid_handle env \<and> pr_state p = State_Terminated)"

definition pm_ok :: "('r, 'o, 'k) pm_env \<Rightarrow> ('o, 'k) pm_state \<Rightarrow> bool" where
  "pm_ok env s \<longleftrightarrow>
     length (storages s) = MaxProcessCount \<and>
     distinct (process_list s @ dead_process_list s) \<and>
     (\<forall>i. i \<in> set (process_list s @ dead_process_list s) \<longleftrightarrow> i < MaxProcessCount \<and> storages s ! i \<noteq> None) \<and>
     length (filter (IsApplicationProcess s) (process_list s)) \<le> 1 \<and>
     (\<forall>i \<in> set (process_list s). slot_ok env (proc s i)) \<and>
     (\<forall>i \<in> set (dead_process_list s). slot_ok env (proc s i) \<and> pr_handle (proc s i) = pm_invalid_handle env)"

lemma pm_ok_cong: "pm_tables s = pm_tables t \<Longrightarrow> pm_ok env s = pm_ok env t"
  by (simp add: pm_ok_def pm_tables_def proc_def IsApplicationProcess_def [abs_def])

lemmas pm_ok_tables = pm_ok_cong [THEN iffD1, rotated]

lemma pm_ok_frame [simp]:
  "pm_ok env (with_k k s) = pm_ok env s" "pm_ok env (signal s) = pm_ok env s"
  by (rule pm_ok_cong, simp)+

lemma pm_ok_initial: "pm_ok env (pm_initial r)"
  by (simp add: pm_ok_def pm_initial_def)

lemma pm_ok_slot:
  assumes "pm_ok env s" "i \<in> set (process_list s) \<union> set (dead_process_list s)"
  shows "i < MaxProcessCount" "i < length (storages s)" "storages s ! i = Some (proc s i)"
proof -
  have "i < MaxProcessCount \<and> storages s ! i \<noteq> None" using assms by (simp add: pm_ok_def)
  then show "i < MaxProcessCount" "i < length (storages s)" "storages s ! i = Some (proc s i)"
    using assms(1) by (simp_all add: pm_ok_def proc_def)
qed

lemma pm_ok_live:
  assumes "pm_ok env s" "i \<in> set (process_list s)"
  shows "i < MaxProcessCount" "i < length (storages s)" "storages s ! i = Some (proc s i)" "i \<notin> set (dead_process_list s)"
    "slot_ok env (proc s i)"
proof -
  show "i < MaxProcessCount" "i < length (storages s)" "storages s ! i = Some (proc s i)"
    using pm_ok_slot [OF assms(1)] assms(2) by simp_all
  show "i \<notin> set (dead_process_list s)" "slot_ok env (proc s i)" using assms by (auto simp: pm_ok_def)
qed

lemma pm_ok_dead:
  assumes "pm_ok env s" "i \<in> set (dead_process_list s)"
  shows "i < MaxProcessCount" "i < length (storages s)" "storages s ! i = Some (proc s i)" "i \<notin> set (process_list s)"
    "slot_ok env (proc s i)" "pr_handle (proc s i) = pm_invalid_handle env"
proof -
  show "i < MaxProcessCount" "i < length (storages s)" "storages s ! i = Some (proc s i)"
    using pm_ok_slot [OF assms(1)] assms(2) by simp_all
  show "i \<notin> set (process_list s)" "slot_ok env (proc s i)" "pr_handle (proc s i) = pm_invalid_handle env"
    using assms by (auto simp: pm_ok_def)
qed

lemma pm_initial_tables [simp]: "process_list (pm_initial r) = []" "dead_process_list (pm_initial r) = []"
  by (simp_all add: pm_initial_def)

subsection \<open>Changing a process in place\<close>

lemma filter_le_one:
  "\<lbrakk>length (filter P xs) \<le> 1; \<And>x. x \<in> set xs \<Longrightarrow> Q x \<Longrightarrow> P x\<rbrakk> \<Longrightarrow> length (filter Q xs) \<le> (1 :: nat)"
proof -
  assume "length (filter P xs) \<le> 1" and sub: "\<And>x. x \<in> set xs \<Longrightarrow> Q x \<Longrightarrow> P x"
  moreover have "filter Q xs = filter Q (filter P xs)"
    using sub by (auto simp: filter_filter intro!: filter_cong)
  ultimately show ?thesis using length_filter_le [of Q "filter P xs"] by simp
qed

lemma pm_ok_put_proc:
  assumes ok: "pm_ok env s" and i: "i \<in> set (process_list s)" and p: "slot_ok env p"
    and app: "HasFlag Flag_Application p \<Longrightarrow> IsApplicationProcess s i \<or> \<not> HasApplicationProcess s"
  shows "pm_ok env (put_proc i p s)"
proof -
  note live = pm_ok_live [OF ok i]
  have same: "proc (put_proc i p s) j = (if j = i then p else proc s j)" for j
    using live(2) by simp
  have one: "length (filter (IsApplicationProcess (put_proc i p s)) (process_list s)) \<le> 1"
  proof (cases "HasFlag Flag_Application p \<and> \<not> IsApplicationProcess s i")
    case False
    have le: "length (filter (IsApplicationProcess s) (process_list s)) \<le> 1"
      using ok unfolding pm_ok_def by blast
    have "IsApplicationProcess s j" if "IsApplicationProcess (put_proc i p s) j" for j
      using False that by (cases "j = i") (auto simp: IsApplicationProcess_def same)
    then show ?thesis using filter_le_one [OF le] by simp
  next
    case True
    then have "\<not> HasApplicationProcess s" using app by blast
    then have none: "\<not> HasFlag Flag_Application (proc s j)" if "j \<in> set (process_list s)" for j
      using that by (auto simp: HasApplicationProcess_def list_ex_iff IsApplicationProcess_def)
    have "filter (IsApplicationProcess (put_proc i p s)) (process_list s) = filter (\<lambda>j. j = i) (process_list s)"
    proof (rule filter_cong)
      fix j assume "j \<in> set (process_list s)"
      then show "IsApplicationProcess (put_proc i p s) j \<longleftrightarrow> j = i"
        using True none by (simp add: IsApplicationProcess_def same)
    qed simp
    moreover have "length (filter (\<lambda>j. j = i) xs) \<le> 1" if "distinct xs" for xs :: "nat list"
      using that by (induction xs) (auto simp: filter_empty_conv)
    ultimately show ?thesis using ok by (simp add: pm_ok_def)
  qed
  show ?thesis
    unfolding pm_ok_def
  proof (intro conjI)
    show "length (filter (IsApplicationProcess (put_proc i p s)) (process_list (put_proc i p s))) \<le> 1"
      using one by simp
    show "length (storages (put_proc i p s)) = MaxProcessCount"
      "distinct (process_list (put_proc i p s) @ dead_process_list (put_proc i p s))"
      using ok by (simp_all add: pm_ok_def)
    have "storages (put_proc i p s) ! j \<noteq> None \<longleftrightarrow> storages s ! j \<noteq> None" for j
      using live(2,3) by (cases "j = i") simp_all
    then show "\<forall>j. j \<in> set (process_list (put_proc i p s) @ dead_process_list (put_proc i p s)) \<longleftrightarrow>
        j < MaxProcessCount \<and> storages (put_proc i p s) ! j \<noteq> None"
      using ok by (simp add: pm_ok_def)
    show "\<forall>j \<in> set (process_list (put_proc i p s)). slot_ok env (proc (put_proc i p s) j)"
      using ok p by (simp add: same pm_ok_def)
    show "\<forall>j \<in> set (dead_process_list (put_proc i p s)). slot_ok env (proc (put_proc i p s) j) \<and>
        pr_handle (proc (put_proc i p s) j) = pm_invalid_handle env"
      using ok live(4) by (auto simp: same pm_ok_def)
  qed
qed

lemma pm_ok_upd_proc:
  "\<lbrakk>pm_ok env s; i \<in> set (process_list s); slot_ok env (f (proc s i));
    HasFlag Flag_Application (f (proc s i)) \<Longrightarrow> IsApplicationProcess s i \<or> \<not> HasApplicationProcess s\<rbrakk> \<Longrightarrow>
   pm_ok env (upd_proc i f s)"
  unfolding upd_proc_def by (rule pm_ok_put_proc)

text \<open>Flag operations keep everything but the flags.\<close>

lemma flag_sel [simp]:
  "pr_linked (SetFlag f p) = pr_linked p" "pr_linked (ClearFlag f p) = pr_linked p"
  "pr_handle (SetFlag f p) = pr_handle p" "pr_handle (ClearFlag f p) = pr_handle p"
  "pr_state (SetFlag f p) = pr_state p" "pr_state (ClearFlag f p) = pr_state p"
  "pr_process_id (SetFlag f p) = pr_process_id p" "pr_process_id (ClearFlag f p) = pr_process_id p"
  "pr_loc (SetFlag f p) = pr_loc p" "pr_loc (ClearFlag f p) = pr_loc p"
  "slot_ok env (SetFlag f p) = slot_ok env p" "slot_ok env (ClearFlag f p) = slot_ok env p"
  "pr_linked (SetState st p) = pr_linked p" "pr_handle (SetState st p) = pr_handle p"
  "pr_state (SetState st p) = st" "HasFlag g (SetState st p) = HasFlag g p"
  "pr_process_id (SetState st p) = pr_process_id p" "pr_loc (SetState st p) = pr_loc p"
  by (simp_all add: SetFlag_def ClearFlag_def slot_ok_def SetState_def HasFlag_def)

lemma HasFlag_SetFlag: "HasFlag g (SetFlag f p) \<longleftrightarrow> HasFlag g p \<or> f AND g \<noteq> 0"
  by (simp add: HasFlag_def SetFlag_def bit.conj_disj_distrib2 or_eq_0_iff)

lemma HasFlag_ClearFlag_le: "HasFlag g (ClearFlag f p) \<Longrightarrow> HasFlag g p"
proof -
  have "(pr_flags p AND NOT f) AND g = (pr_flags p AND g) AND NOT f" by (simp only: ac_simps)
  then show "HasFlag g (ClearFlag f p) \<Longrightarrow> HasFlag g p" by (auto simp: HasFlag_def ClearFlag_def)
qed

subsection \<open>Adding and removing processes\<close>

lemma pm_ok_push:
  assumes ok: "pm_ok env s" and free: "AllocateProcessInfoStorage s = Some i"
    and p: "slot_ok env p" "\<not> HasFlag Flag_Application p"
  shows "pm_ok env ((put_proc i p s)\<lparr>process_list := process_list s @ [i]\<rparr>)" (is "pm_ok env ?t")
    and "i \<notin> set (process_list s @ dead_process_list s)" "i < length (storages s)" "storages s ! i = None"
proof -
  have f: "i < length (storages s)" "storages s ! i = None"
    using free by (auto simp: AllocateProcessInfoStorage_def dest: find_idx_dest)
  have "i \<in> set (process_list s @ dead_process_list s) \<longleftrightarrow> i < MaxProcessCount \<and> storages s ! i \<noteq> None"
    using ok unfolding pm_ok_def by blast
  then show new: "i \<notin> set (process_list s @ dead_process_list s)" "i < length (storages s)" "storages s ! i = None"
    using f by simp_all
  have same: "proc ?t j = (if j = i then p else proc s j)" for j
    using f by (simp add: proc_def put_proc_def)
  have len: "i < MaxProcessCount" using f(1) ok by (simp add: pm_ok_def)
  show "pm_ok env ?t"
    unfolding pm_ok_def
  proof (intro conjI)
    have d: "distinct (process_list s @ dead_process_list s)" "length (storages s) = MaxProcessCount"
      using ok unfolding pm_ok_def by blast+
    then show "length (storages ?t) = MaxProcessCount" "distinct (process_list ?t @ dead_process_list ?t)"
      using new(1) by auto
    show "\<forall>j. j \<in> set (process_list ?t @ dead_process_list ?t) \<longleftrightarrow> j < MaxProcessCount \<and> storages ?t ! j \<noteq> None"
    proof
      fix j
      have "j \<in> set (process_list s @ dead_process_list s) \<longleftrightarrow> j < MaxProcessCount \<and> storages s ! j \<noteq> None"
        using ok unfolding pm_ok_def by blast
      then show "j \<in> set (process_list ?t @ dead_process_list ?t) \<longleftrightarrow> j < MaxProcessCount \<and> storages ?t ! j \<noteq> None"
        using len f(1) by (cases "j = i") simp_all
    qed
    have "filter (IsApplicationProcess ?t) (process_list s) = filter (IsApplicationProcess s) (process_list s)"
      using new(1) by (intro filter_cong) (auto simp: IsApplicationProcess_def same)
    then show "length (filter (IsApplicationProcess ?t) (process_list ?t)) \<le> 1"
      using ok p(2) by (simp add: IsApplicationProcess_def [of ?t i] same pm_ok_def)
    show "\<forall>j \<in> set (process_list ?t). slot_ok env (proc ?t j)" using ok p(1) by (simp add: same pm_ok_def)
    show "\<forall>j \<in> set (dead_process_list ?t). slot_ok env (proc ?t j) \<and> pr_handle (proc ?t j) = pm_invalid_handle env"
      using ok new(1) by (auto simp: same pm_ok_def)
  qed
qed

text \<open>Removing a slot from both lists and freeing it.\<close>

lemma pm_ok_remove:
  assumes ok: "pm_ok env s" and i: "i \<in> set (process_list s) \<union> set (dead_process_list s)"
    and t: "storages t = (storages s)[i := None]" "process_list t = remove1 i (process_list s)"
      "dead_process_list t = remove1 i (dead_process_list s)"
  shows "pm_ok env t"
proof -
  have d: "distinct (process_list s)" "distinct (dead_process_list s)"
    "set (process_list s) \<inter> set (dead_process_list s) = {}"
    using ok by (simp_all add: pm_ok_def)
  have sets: "set (process_list t) = set (process_list s) - {i}" "set (dead_process_list t) = set (dead_process_list s) - {i}"
    using d by (simp_all add: t)
  have same: "j \<noteq> i \<Longrightarrow> proc t j = proc s j" for j by (simp add: proc_def t)
  show ?thesis
    unfolding pm_ok_def
  proof (intro conjI)
    show "length (storages t) = MaxProcessCount" using ok by (simp add: pm_ok_def t)
    show "distinct (process_list t @ dead_process_list t)"
      using d by (auto simp: t distinct_remove1 dest: notin_set_remove1)
    show "\<forall>j. j \<in> set (process_list t @ dead_process_list t) \<longleftrightarrow> j < MaxProcessCount \<and> storages t ! j \<noteq> None"
    proof
      fix j
      have "j \<in> set (process_list s @ dead_process_list s) \<longleftrightarrow> j < MaxProcessCount \<and> storages s ! j \<noteq> None"
        using ok unfolding pm_ok_def by blast
      then show "j \<in> set (process_list t @ dead_process_list t) \<longleftrightarrow> j < MaxProcessCount \<and> storages t ! j \<noteq> None"
        using pm_ok_slot [OF ok i] unfolding set_append sets by (cases "j = i") (simp_all add: t)
    qed
    have "length (filter (IsApplicationProcess s) (process_list s)) \<le> 1" using ok unfolding pm_ok_def by blast
    moreover have "filter (IsApplicationProcess t) (process_list t) = filter (\<lambda>j. j \<noteq> i \<and> IsApplicationProcess s j) (process_list s)"
    proof -
      have "process_list t = filter (\<lambda>j. j \<noteq> i) (process_list s)" using d(1) by (simp add: t distinct_remove1_removeAll removeAll_filter_not_eq eq_commute)
      then show ?thesis by (auto simp: IsApplicationProcess_def same intro!: filter_cong)
    qed
    ultimately show "length (filter (IsApplicationProcess t) (process_list t)) \<le> 1"
      using filter_le_one [of "IsApplicationProcess s" "process_list s" "\<lambda>j. j \<noteq> i \<and> IsApplicationProcess s j"] by simp
    show "\<forall>j \<in> set (process_list t). slot_ok env (proc t j)" using ok by (auto simp: sets same pm_ok_def)
    show "\<forall>j \<in> set (dead_process_list t). slot_ok env (proc t j) \<and> pr_handle (proc t j) = pm_invalid_handle env"
      using ok by (auto simp: sets same pm_ok_def)
  qed
qed

lemma Cleanup_sel [simp]:
  "process_list (Cleanup env i s) = process_list s" "dead_process_list (Cleanup env i s) = dead_process_list s"
  "storages (Cleanup env i s) = (storages s)[i := Some (fst (ProcessInfo_Cleanup env (proc s i) (pm_k s)))]"
  by (simp_all add: Cleanup_def split: prod.split)

lemma FreeProcessInfo_Ok:
  assumes "i < MaxProcessCount" "storages s ! i \<noteq> None"
  shows "\<exists>t. FreeProcessInfo env i s = (Ok (), t) \<and> storages t = (storages s)[i := None] \<and>
    process_list t = process_list s \<and> dead_process_list t = dead_process_list s"
  using assms by (simp add: FreeProcessInfo_def Let_def)

lemma CleanupProcessInfo_ok:
  assumes "pm_ok env s" "i \<in> set (process_list s)"
  shows "\<exists>t. CleanupProcessInfo env i s = (Ok (), t) \<and> storages t = (storages s)[i := None] \<and>
    process_list t = remove1 i (process_list s) \<and> dead_process_list t = dead_process_list s \<and> pm_ok env t"
proof -
  note live = pm_ok_live [OF assms]
  obtain t where t: "CleanupProcessInfo env i s = (Ok (), t)" "storages t = (storages s)[i := None]"
    "process_list t = remove1 i (process_list s)" "dead_process_list t = dead_process_list s"
    using FreeProcessInfo_Ok [of i "s\<lparr>process_list := remove1 i (process_list s)\<rparr>" env] live(1,3)
    by (auto simp: CleanupProcessInfo_def)
  moreover have "remove1 i (dead_process_list s) = dead_process_list s" using live(4) by (rule remove1_idem)
  ultimately show ?thesis using pm_ok_remove [OF assms(1), of i t] assms(2) by simp
qed

lemma CleanupDeadProcessInfo_ok:
  assumes "pm_ok env s" "i \<in> set (dead_process_list s)"
  shows "\<exists>t. CleanupDeadProcessInfo env i s = (Ok (), t) \<and> storages t = (storages s)[i := None] \<and>
    process_list t = process_list s \<and> dead_process_list t = remove1 i (dead_process_list s) \<and> pm_ok env t"
proof -
  note dead = pm_ok_dead [OF assms]
  obtain t where t: "CleanupDeadProcessInfo env i s = (Ok (), t)" "storages t = (storages s)[i := None]"
    "process_list t = process_list s" "dead_process_list t = remove1 i (dead_process_list s)"
    using FreeProcessInfo_Ok [of i "s\<lparr>dead_process_list := remove1 i (dead_process_list s)\<rparr>" env] dead(1,3)
    by (auto simp: CleanupDeadProcessInfo_def)
  moreover have "remove1 i (process_list s) = process_list s" using dead(4) by (rule remove1_idem)
  ultimately show ?thesis using pm_ok_remove [OF assms(1), of i t] assms(2) by simp
qed

subsection \<open>Every operation keeps the invariant\<close>

lemma Cleanup_proc:
  assumes "pm_ok env s" "i \<in> set (process_list s)"
  shows "proc (Cleanup env i s) i = fst (ProcessInfo_Cleanup env (proc s i) (pm_k s))"
  using pm_ok_live(2) [OF assms] by (simp add: proc_def)

lemma ProcessInfo_Cleanup_sel [simp]:
  "pr_handle (fst (ProcessInfo_Cleanup env p k)) = pm_invalid_handle env"
  "pr_state (fst (ProcessInfo_Cleanup env p k)) = pr_state p"
  "pr_flags (fst (ProcessInfo_Cleanup env p k)) = pr_flags p"
  "pr_process_id (fst (ProcessInfo_Cleanup env p k)) = pr_process_id p"
  "HasFlag f (fst (ProcessInfo_Cleanup env p k)) = HasFlag f p"
  by (simp_all add: ProcessInfo_Cleanup_def Let_def HasFlag_def)

lemma pm_ok_Cleanup:
  assumes "pm_ok env s" "i \<in> set (process_list s)" "pr_state (proc s i) = State_Terminated"
  shows "pm_ok env (Cleanup env i s)"
proof -
  let ?p = "fst (ProcessInfo_Cleanup env (proc s i) (pm_k s))"
  have "pm_ok env (put_proc i ?p s)"
    using assms by (intro pm_ok_put_proc) (simp_all add: slot_ok_def IsApplicationProcess_def)
  moreover have "pm_tables (Cleanup env i s) = pm_tables (put_proc i ?p s)"
    by (simp add: pm_tables_def)
  ultimately show ?thesis using pm_ok_cong by blast
qed

lemma pm_ok_kill:
  assumes "pm_ok env s" "i \<in> set (process_list s)" "pr_handle (proc s i) = pm_invalid_handle env"
  shows "pm_ok env (s\<lparr>process_list := remove1 i (process_list s), dead_process_list := dead_process_list s @ [i]\<rparr>)"
    (is "pm_ok env ?t")
proof -
  note live = pm_ok_live [OF assms(1,2)]
  have d: "distinct (process_list s)" "distinct (dead_process_list s)"
    "set (process_list s) \<inter> set (dead_process_list s) = {}"
    using assms(1) by (simp_all add: pm_ok_def)
  have same: "proc ?t j = proc s j" "IsApplicationProcess ?t = IsApplicationProcess s" for j
    by (simp_all add: proc_def IsApplicationProcess_def [abs_def])
  show ?thesis
    unfolding pm_ok_def same
  proof (intro conjI)
    show "length (storages ?t) = MaxProcessCount" using assms(1) by (simp add: pm_ok_def)
    show "distinct (process_list ?t @ dead_process_list ?t)" using d live(4) by (auto dest: notin_set_remove1)
    have "set (process_list ?t @ dead_process_list ?t) = set (process_list s @ dead_process_list s)"
      using d(1) assms(2) by auto
    then show "\<forall>j. j \<in> set (process_list ?t @ dead_process_list ?t) \<longleftrightarrow> j < MaxProcessCount \<and> storages ?t ! j \<noteq> None"
      using assms(1) by (simp add: pm_ok_def)
    have "process_list ?t = filter (\<lambda>j. j \<noteq> i) (process_list s)"
      using d(1) by (simp add: distinct_remove1_removeAll removeAll_filter_not_eq eq_commute)
    then have "filter (IsApplicationProcess s) (process_list ?t) = filter (\<lambda>j. j \<noteq> i \<and> IsApplicationProcess s j) (process_list s)"
      by (auto intro!: filter_cong)
    moreover have "length (filter (IsApplicationProcess s) (process_list s)) \<le> 1" using assms(1) unfolding pm_ok_def by blast
    ultimately show "length (filter (IsApplicationProcess s) (process_list ?t)) \<le> 1"
      using filter_le_one [of "IsApplicationProcess s" "process_list s" "\<lambda>j. j \<noteq> i \<and> IsApplicationProcess s j"] by simp
    show "\<forall>j \<in> set (process_list ?t). slot_ok env (proc s j)"
      using assms(1) by (auto simp: pm_ok_def dest: notin_set_remove1)
    show "\<forall>j \<in> set (dead_process_list ?t). slot_ok env (proc s j) \<and> pr_handle (proc s j) = pm_invalid_handle env"
      using assms(1,3) live(5) by (auto simp: pm_ok_def)
  qed
qed

lemma terminated_ok:
  assumes "pm_ok env s" "i \<in> set (process_list s)" "pr_state (proc s i) = State_Terminated"
  shows "\<exists>t. terminated env i s = (Ok (), t) \<and> pm_ok env t"
proof -
  note c = pm_ok_Cleanup [OF assms]
  have i: "i \<in> set (process_list (Cleanup env i s))" using assms(2) by simp
  have h: "pr_handle (proc (Cleanup env i s) i) = pm_invalid_handle env"
    by (simp add: Cleanup_proc [OF assms(1,2)])
  show ?thesis
    using c pm_ok_kill [OF c i h] CleanupProcessInfo_ok [OF c i]
    by (auto simp: terminated_def Let_def)
qed

text \<open>Reacting to a signal.\<close>

lemma pm_ok_flag_step:
  assumes "pm_ok env s" "i \<in> set (process_list s)" "\<And>p. slot_ok env (f p) = slot_ok env p"
    "\<And>p. HasFlag Flag_Application (f p) \<Longrightarrow> HasFlag Flag_Application p"
  shows "pm_ok env (upd_proc i f s)"
  using assms pm_ok_live(5) [OF assms(1,2)]
  by (intro pm_ok_upd_proc) (auto simp: IsApplicationProcess_def)

lemma HasFlag_ClearFlag:
  assumes "f AND g = 0"
  shows "HasFlag g (ClearFlag f p) = HasFlag g p"
proof -
  have "\<not> (bit f n \<and> bit g n)" for n
    using assms by (metis bit_0_eq bit_and_iff bot_apply bot_bool_def)
  then have "(pr_flags p AND NOT f) AND g = pr_flags p AND g"
    by (intro bit_word_eqI) (auto simp: bit_simps)
  then show ?thesis by (simp add: HasFlag_def ClearFlag_def)
qed

lemma app_flag_facts [simp]:
  "HasFlag Flag_Application (ClearFlag Flag_SuspendedStateChanged p) = HasFlag Flag_Application p"
  "HasFlag Flag_Application (ClearFlag Flag_StartedStateChanged p) = HasFlag Flag_Application p"
  "HasFlag Flag_Application (ClearFlag Flag_SignalOnStart p) = HasFlag Flag_Application p"
  "HasFlag Flag_Application (ClearFlag Flag_Suspended p) = HasFlag Flag_Application p"
  "HasFlag Flag_Application (ClearFlag Flag_ExceptionOccurred p) = HasFlag Flag_Application p"
  "HasFlag Flag_Application (ClearFlag Flag_ExceptionWaitingAttach p) = HasFlag Flag_Application p"
  "HasFlag Flag_Application (SetFlag Flag_SuspendedStateChanged p) = HasFlag Flag_Application p"
  "HasFlag Flag_Application (SetFlag Flag_StartedStateChanged p) = HasFlag Flag_Application p"
  "HasFlag Flag_Application (SetFlag Flag_Suspended p) = HasFlag Flag_Application p"
  "HasFlag Flag_Application (SetExceptionOccurred p) = HasFlag Flag_Application p"
  "slot_ok env (SetExceptionOccurred p) = slot_ok env p"
  by (simp_all add: HasFlag_SetFlag HasFlag_ClearFlag flag_defs SetExceptionOccurred_def)

lemma on_new_state_ok:
  assumes "pm_ok env s" "i \<in> set (process_list s)" "pr_state (proc s i) = st"
  shows "\<exists>t. on_new_state env i st s = (Ok (), t) \<and> pm_ok env t"
proof -
  have step: "pm_ok env (upd_proc i f s)" if "\<And>p. slot_ok env (f p) = slot_ok env p"
    "\<And>p. HasFlag Flag_Application (f p) \<Longrightarrow> HasFlag Flag_Application p" for f
    using pm_ok_flag_step [OF assms(1,2)] that by blast
  show ?thesis
    using assms(1,3) terminated_ok [OF assms(1,2)]
    by (cases st) (auto simp: on_new_state_def Let_def intro!: step dest: HasFlag_ClearFlag_le)
qed

lemma OnProcessSignaled_ok:
  assumes ok: "pm_ok env s" and i: "i \<in> set (process_list s)" and l: "pr_linked (proc s i)"
  shows "pm_ok env (snd (OnProcessSignaled env i s))"
    "svc_process_state env (svc_reset_signal env (pm_k s) (pr_handle (proc s i))) (pr_handle (proc s i)) = Inr st \<Longrightarrow>
      fst (OnProcessSignaled env i s) = Ok ()"
proof -
  let ?k = "svc_reset_signal env (pm_k s) (pr_handle (proc s i))"
  let ?set = "\<lambda>st. upd_proc i (SetState st) (with_k ?k s)"
  let ?clr = "\<lambda>s. upd_proc i (ClearFlag Flag_ExceptionWaitingAttach) s"
  let ?next = "\<lambda>st. if pr_state (proc s i) = State_Crashed \<and> st \<noteq> State_Crashed then ?clr (?set st) else ?set st"
  have len: "i < length (storages s)" using pm_ok_live(2) [OF ok i] .
  have set: "pm_ok env (?set st)" "i \<in> set (process_list (?set st))" "pr_state (proc (?set st) i) = st" for st
  proof -
    show "pm_ok env (?set st)"
      using ok i l by (intro pm_ok_upd_proc) (auto simp: slot_ok_def IsApplicationProcess_def)
    show "i \<in> set (process_list (?set st))" using i by simp
    show "pr_state (proc (?set st) i) = st" using len by (simp add: upd_proc_def)
  qed
  have "pm_ok env (?clr (?set st))" "pr_state (proc (?clr (?set st)) i) = st" for st
  proof -
    show "pm_ok env (?clr (?set st))" by (rule pm_ok_flag_step [OF set(1,2)]) (auto dest: HasFlag_ClearFlag_le)
    show "pr_state (proc (?clr (?set st)) i) = st" using len by (simp add: upd_proc_def)
  qed
  then have nxt: "pm_ok env (?next st)" "i \<in> set (process_list (?next st))" "pr_state (proc (?next st) i) = st" for st
    using set [of st] i by simp_all
  have eq: "OnProcessSignaled env i s =
      R_ABORT (pm_result (svc_process_state env ?k (pr_handle (proc s i)))) (with_k ?k s) (\<lambda>st. on_new_state env i st (?next st))"
    by (simp add: OnProcessSignaled_def Let_def)
  show "pm_ok env (snd (OnProcessSignaled env i s))"
    using on_new_state_ok [OF nxt] ok unfolding eq
    by (cases "svc_process_state env ?k (pr_handle (proc s i))") (simp, metis R_ABORT_simps(1) pm_result_simps(2) snd_conv)
  show "fst (OnProcessSignaled env i s) = Ok ()" if "svc_process_state env ?k (pr_handle (proc s i)) = Inr st"
    using on_new_state_ok [OF nxt, of st] unfolding eq that by auto
qed

subsection \<open>Launching\<close>

lemma start_process_ok:
  assumes "pm_ok env s" "i \<in> set (process_list s)" "pr_linked (proc s i)"
  shows "pm_ok env (snd (start_process env i info s))"
proof -
  have "pm_ok env (upd_proc i (SetState State_Running) (with_k k s))" for k
    using assms by (intro pm_ok_upd_proc) (simp_all add: slot_ok_def IsApplicationProcess_def)
  then show ?thesis
    using assms(1) unfolding start_process_def Let_def
    by (auto split: prod.split intro!: R_TRY_state [where P = "pm_ok env"])
qed

lemma set_launch_flags_sel [simp]:
  "pr_linked (set_launch_flags env f a d p) = pr_linked p" "pr_state (set_launch_flags env f a d p) = pr_state p"
  "pr_process_id (set_launch_flags env f a d p) = pr_process_id p" "pr_handle (set_launch_flags env f a d p) = pr_handle p"
  "pr_loc (set_launch_flags env f a d p) = pr_loc p"
  by (simp_all add: set_launch_flags_def Let_def)

lemma set_launch_flags_application:
  "HasFlag Flag_Application (set_launch_flags env f a d p) \<longleftrightarrow> a \<or> HasFlag Flag_Application p"
  by (auto simp: set_launch_flags_def Let_def HasFlag_SetFlag flag_defs)

lemma launch_hooks_ok:
  assumes "pm_ok env s" "i \<in> set (process_list s)" "pr_linked (proc s i)"
  shows "pm_ok env (snd (launch_hooks env fl info loc i s))"
proof -
  have "pm_ok env (s\<lparr>hook_event_signaled := a, program_id_hook := h\<rparr>)"
    "pm_ok env (s\<lparr>application_hook_event_signaled := a, application_hook := b\<rparr>)" for a h b
    by (rule pm_ok_tables [OF assms(1)], simp)+
  then show ?thesis using start_process_ok [OF assms] assms(1) by (simp add: launch_hooks_def)
qed

lemma launch_registered_cases:
  "(\<exists>e k. launch_registered env fl info loc st pid i s = (Err e, with_k k s)) \<or>
   (\<exists>k d. launch_registered env fl info loc st pid i s = launch_hooks env fl info loc i
     (upd_proc i (set_launch_flags env fl (GetResourceLimitGroup (pm_resource env) info = Group_Application) d) (with_k k s)))"
proof -
  obtain b1 b2 b3 b4 where b: "ac_blobs info = (b1, b2, b3, b4)" by (cases "ac_blobs info") auto
  obtain r k where 1: "fs_register_program env (pm_k s) pid loc b4 b3 = (r, k)" by fastforce
  obtain r' k' where 2: "sm_register_process env k pid (loc_program_id loc) st b1 b2 = (r', k')" by fastforce
  show ?thesis
    unfolding launch_registered_def Let_def b prod.case 1
    by (cases r; cases r') (auto simp: 2 with_k_def)
qed

lemma launch_registered_ok:
  assumes "pm_ok env s" "i \<in> set (process_list s)" "pr_linked (proc s i)"
    and "GetResourceLimitGroup (pm_resource env) info = Group_Application \<Longrightarrow> \<not> HasApplicationProcess s"
  shows "pm_ok env (snd (launch_registered env fl info loc st pid i s))"
proof -
  let ?a = "GetResourceLimitGroup (pm_resource env) info = Group_Application"
  let ?u = "\<lambda>k d. upd_proc i (set_launch_flags env fl ?a d) (with_k k s)"
  have app: "HasApplicationProcess (with_k k s) = HasApplicationProcess s"
    "IsApplicationProcess (with_k k s) j = IsApplicationProcess s j" for k j
    by (simp_all add: HasApplicationProcess_def IsApplicationProcess_def [abs_def])
  have u: "pm_ok env (?u k d)" for k d
  proof (rule pm_ok_upd_proc)
    show "pm_ok env (with_k k s)" "i \<in> set (process_list (with_k k s))" using assms(1,2) by simp_all
    show "slot_ok env (set_launch_flags env fl ?a d (proc (with_k k s) i))" using assms(3) by (simp add: slot_ok_def)
    assume "HasFlag Flag_Application (set_launch_flags env fl ?a d (proc (with_k k s) i))"
    then have "?a \<or> IsApplicationProcess s i" by (simp add: set_launch_flags_application IsApplicationProcess_def)
    then show "IsApplicationProcess (with_k k s) i \<or> \<not> HasApplicationProcess (with_k k s)"
      using assms(4) unfolding app by blast
  qed
  have live: "i \<in> set (process_list (?u k d))" "pr_linked (proc (?u k d) i)" for k d
    using assms(2,3) pm_ok_live(2) [OF assms(1,2)] by (simp_all add: upd_proc_def)
  show ?thesis
    using launch_registered_cases [of env fl info loc st pid i s] assms(1) launch_hooks_ok [OF u live] by auto
qed

text \<open>A step that fails has changed only the process and the outside.\<close>

lemma with_k_with_k [simp]: "with_k k (with_k k' s) = with_k k s"
  by (simp add: with_k_def)

lemma put_proc_with_k: "put_proc i p (with_k k s) = with_k k (put_proc i p s)"
  by (simp add: with_k_def put_proc_def)

lemma put_proc_put_proc [simp]: "put_proc i p (put_proc i p' s) = put_proc i p s"
  by (simp add: put_proc_def)

lemma upd_proc_with_k: "upd_proc i f (with_k k s) = with_k k (upd_proc i f s)"
  by (simp add: upd_proc_def put_proc_with_k)

lemma launch_hooks_Err:
  "launch_hooks env fl info loc i s = (Err e, t) \<Longrightarrow> \<exists>k. t = with_k k s"
  by (auto simp: launch_hooks_def start_process_def Let_def R_TRY_Err_iff split: if_splits prod.splits)

lemma launch_registered_Err:
  assumes "launch_registered env fl info loc st pid i s = (Err e, t)" "storages s ! i = Some (proc s i)" "i < length (storages s)"
  shows "\<exists>p k. t = with_k k (put_proc i p s)"
proof -
  have s: "put_proc i (proc s i) s = s"
    using assms(2) by (simp add: put_proc_def) (metis list_update_id pm_state.surjective pm_state.update_convs(1))
  from launch_registered_cases [of env fl info loc st pid i s] show ?thesis
  proof (elim disjE exE)
    fix e' k assume "launch_registered env fl info loc st pid i s = (Err e', with_k k s)"
    then have "t = with_k k (put_proc i (proc s i) s)" using assms(1) s by simp
    then show ?thesis by blast
  next
    fix k d
    assume "launch_registered env fl info loc st pid i s = launch_hooks env fl info loc i
      (upd_proc i (set_launch_flags env fl (GetResourceLimitGroup (pm_resource env) info = Group_Application) d) (with_k k s))"
    with assms(1) obtain k' where "t = with_k k' (upd_proc i
        (set_launch_flags env fl (GetResourceLimitGroup (pm_resource env) info = Group_Application) d) (with_k k s))"
      using launch_hooks_Err by metis
    then show ?thesis unfolding upd_proc_def put_proc_with_k with_k_with_k by blast
  qed
qed

lemma CleanupProcessInfo_Cleanup:
  assumes "i < MaxProcessCount" "storages s ! i \<noteq> None" "i < length (storages s)"
  shows "\<exists>k. CleanupProcessInfo env i (Cleanup env i s) =
    (Ok (), (with_k k s)\<lparr>storages := (storages s)[i := None], process_list := remove1 i (process_list s)\<rparr>)"
proof -
  let ?t = "(Cleanup env i s)\<lparr>process_list := remove1 i (process_list (Cleanup env i s))\<rparr>"
  have "CleanupProcessInfo env i (Cleanup env i s) = (Ok (), (Cleanup env i ?t)\<lparr>storages := (storages (Cleanup env i ?t))[i := None]\<rparr>)"
    using assms by (simp add: CleanupProcessInfo_def FreeProcessInfo_def Let_def)
  moreover have "\<exists>k. (Cleanup env i ?t)\<lparr>storages := (storages (Cleanup env i ?t))[i := None]\<rparr> =
      (with_k k s)\<lparr>storages := (storages s)[i := None], process_list := remove1 i (process_list s)\<rparr>"
    by (cases "ProcessInfo_Cleanup env (proc ?t i) (pm_k ?t)")
      (rule exI [of _ "pm_k (Cleanup env i ?t)"], rule pm_state.equality, simp_all add: Cleanup_def with_k_def put_proc_def split: prod.split)
  ultimately show ?thesis by metis
qed

lemma launch_guarded_ok:
  assumes ok: "pm_ok env s1" and s1: "s1 = (put_proc i p s)\<lparr>process_list := process_list s @ [i]\<rparr>"
    and new: "i \<notin> set (process_list s)" "storages s ! i = None" "i < length (storages s)" "i < MaxProcessCount"
    and p: "pr_linked p"
    and app: "GetResourceLimitGroup (pm_resource env) info = Group_Application \<Longrightarrow> \<not> HasApplicationProcess s1"
    and r: "launch_guarded env fl info loc st pid i s1 = (r, t)"
  shows "pm_ok env t \<and> (\<forall>e. r = Err e \<longrightarrow> (\<exists>k. t = with_k k s))"
proof -
  have i: "i \<in> set (process_list s1)" "storages s1 ! i = Some (proc s1 i)" "i < length (storages s1)" "pr_linked (proc s1 i)"
    using new(3) p by (simp_all add: s1 proc_def put_proc_def)
  obtain r2 s2 where 2: "launch_registered env fl info loc st pid i s1 = (r2, s2)" by fastforce
  have ok2: "pm_ok env s2" using launch_registered_ok [OF ok i(1,4) app, where fl = fl and info = info and loc = loc and st = st and pid = pid] by (simp add: 2)
  show ?thesis
  proof (cases r2)
    case (Ok u)
    then show ?thesis using r ok2 by (auto simp: launch_guarded_def 2)
  next
    case Abort
    then show ?thesis using r ok2 by (auto simp: launch_guarded_def 2)
  next
    case (Err e)
    obtain p2 k2 where s2: "s2 = with_k k2 (put_proc i p2 s1)"
      using launch_registered_Err [OF 2 [unfolded Err] i(2,3)] by blast
    have live2: "i \<in> set (process_list s2)" "i < length (storages s2)" "storages s2 ! i \<noteq> None"
      using i by (simp_all add: s2)
    obtain k3 where 3: "CleanupProcessInfo env i (Cleanup env i s2) =
        (Ok (), (with_k k3 s2)\<lparr>storages := (storages s2)[i := None], process_list := remove1 i (process_list s2)\<rparr>)"
      using CleanupProcessInfo_Cleanup [OF new(4) live2(3,2)] by blast
    have t: "t = (with_k k3 s2)\<lparr>storages := (storages s2)[i := None], process_list := remove1 i (process_list s2)\<rparr>"
      and r': "r = Err e"
      using r by (auto simp: launch_guarded_def 2 Err 3)
    have "i \<notin> set (dead_process_list s2)" using pm_ok_live(4) [OF ok2 live2(1)] .
    then have "pm_ok env t" using live2(1) by (intro pm_ok_remove [OF ok2, of i]) (simp_all add: t remove1_idem)
    moreover have "t = with_k k3 s"
    proof -
      have "remove1 i (process_list s @ [i]) = process_list s" using new(1) by (simp add: remove1_append)
      moreover have "(storages s)[i := None] = storages s" using new(2) by (metis list_update_id)
      ultimately show ?thesis by (simp add: t s2 s1 with_k_def put_proc_def)
    qed
    ultimately show ?thesis by (auto simp: r')
  qed
qed

lemma HasApplicationProcess_with_k [simp]: "HasApplicationProcess (with_k k s) = HasApplicationProcess s"
  by (simp add: HasApplicationProcess_def IsApplicationProcess_def [abs_def])

lemma launch_pinned_ok:
  assumes ok: "pm_ok env s"
    and app: "GetResourceLimitGroup (pm_resource env) info = Group_Application \<Longrightarrow> \<not> HasApplicationProcess s"
    and r: "launch_pinned env fl info loc st pin s = (r, t)"
  shows "pm_ok env t \<and> (\<forall>e. r = Err e \<longrightarrow> (\<exists>k. t = with_k k s))"
proof -
  obtain r1 k1 where 1: "ldr_create_process env (pm_k s) pin (GetLoaderCreateProcessFlags env fl)
      (GetResourceLimitHandle (GetResourceLimitGroup (pm_resource env) info) (pm_resources s)) = (r1, k1)" by fastforce
  let ?s = "with_k k1 s"
  have ok': "pm_ok env ?s" using ok by simp
  show ?thesis
  proof (cases r1)
    case (Inl e)
    then show ?thesis using r ok by (auto simp: launch_pinned_def 1)
  next
    case (Inr h)
    let ?pid = "svc_process_id env k1 h"
    let ?p = "(ProcessInfo_new h ?pid pin loc st)\<lparr>pr_linked := True\<rparr>"
    show ?thesis
    proof (cases "AllocateProcessInfoStorage ?s")
      case None
      then show ?thesis using r ok by (auto simp: launch_pinned_def 1 Inr)
    next
      case (Some i)
      let ?s1 = "(put_proc i ?p ?s)\<lparr>process_list := process_list ?s @ [i]\<rparr>"
      have p: "slot_ok env ?p" "\<not> HasFlag Flag_Application ?p" by (simp_all add: slot_ok_def HasFlag_def ProcessInfo_new_def)
      note push = pm_ok_push [OF ok' Some p]
      have same: "proc ?s1 j = proc s j" if "j \<noteq> i" for j using that by (simp add: proc_def put_proc_def)
      have "\<not> HasApplicationProcess ?s1" if "\<not> HasApplicationProcess s"
      proof -
        have "\<not> IsApplicationProcess ?s1 i" using p(2) push(3) by (simp add: IsApplicationProcess_def proc_def)
        moreover have "\<not> IsApplicationProcess ?s1 j" if "j \<in> set (process_list s)" "j \<noteq> i" for j
          using that \<open>\<not> HasApplicationProcess s\<close> unfolding IsApplicationProcess_def same [OF that(2)]
          by (simp add: HasApplicationProcess_def list_ex_iff IsApplicationProcess_def)
        ultimately show ?thesis by (auto simp: HasApplicationProcess_def list_ex_iff)
      qed
      moreover have "launch_guarded env fl info loc st ?pid i ?s1 = (r, t)"
        using r Some by (simp add: launch_pinned_def 1 Inr Let_def)
      moreover have "i < MaxProcessCount" using push(3) ok' by (simp add: pm_ok_def)
      ultimately have g: "pm_ok env t \<and> (\<forall>e. r = Err e \<longrightarrow> (\<exists>k. t = with_k k ?s))"
        using push app by (intro launch_guarded_ok [OF push(1) refl]) (simp_all add: put_proc_with_k)
      then show ?thesis by auto
    qed
  qed
qed

lemma wait_until_zero_result:
  assumes "wait_until_zero query sleep k = Some x"
  shows "fst x = Ok () \<or> fst x = Abort"
  by (rule wait_until_zero.raw_induct [OF _ assms, where P = "\<lambda>_ _ _ y. fst y = Ok () \<or> fst y = Abort"])
    (auto split: sum.splits if_splits)

lemma wait_resources_result:
  "wait_resources env h rs k = Some x \<Longrightarrow> fst x = Ok () \<or> fst x = Abort"
proof (induction env h rs k rule: wait_resources.induct)
  case (2 env h r rs k)
  obtain y where y: "wait_until_zero (\<lambda>k. res_current_value env k h r) (res_sleep env) k = Some y"
    using "2.prems" by (auto split: option.splits)
  then show ?case
    using wait_until_zero_result [OF y] "2.prems" "2.IH" by (cases y) (auto split: outcome.splits)
qed auto

lemma WaitResourceAvailable_state:
  assumes "WaitResourceAvailable env info s = Some (r, t)"
  shows "(r = Ok () \<or> r = Abort) \<and> (\<exists>k. t = s\<lparr>res_kernel := k\<rparr>)"
proof (cases "GetResourceLimitGroup env info = Group_Application")
  case False
  then have "r = Ok ()" "t = s\<lparr>res_kernel := res_kernel s\<rparr>" using assms by (simp_all add: WaitResourceAvailable_def)
  then show ?thesis by blast
next
  case True
  obtain r1 k1 where 1: "wait_resources env (GetResourceLimitHandle Group_Application s) LimitableResources (res_kernel s) = Some (r1, k1)"
    using assms True by (auto simp: WaitResourceAvailable_def split: option.splits)
  show ?thesis
    using assms True wait_resources_result [OF 1] wait_until_zero_result
    by (fastforce simp: WaitResourceAvailable_def 1 WaitApplicationMemoryAvailable_def split: if_splits)
qed

lemma LaunchProcess_ok:
  assumes ok: "pm_ok env s" and r: "LaunchProcess env loc fl s = Some (r, t)"
  shows "pm_ok env t \<and> (\<forall>e. r = Err e \<longrightarrow> (\<exists>k. t = with_k k s))"
proof -
  obtain r1 k1 where 1: "ldr_get_program_info env (pm_k s) loc = (r1, k1)" by fastforce
  show ?thesis
  proof (cases r1)
    case (Inl e)
    then show ?thesis using ok r by (auto simp: LaunchProcess_def 1)
  next
    case (Inr x)
    obtain info st where x: "x = (info, st)" by fastforce
    let ?loc = "loc\<lparr>loc_program_id := pi_program_id info\<rparr>"
    obtain r2 k2 where 2: "ldr_pin_program env k1 ?loc st = (r2, k2)" by fastforce
    show ?thesis
    proof (cases "GetResourceLimitGroup (pm_resource env) info = Group_Application \<and> HasApplicationProcess s")
      case True
      then have "(r, t) = (Err ResultApplicationRunning, with_k k1 s)" using r by (simp add: LaunchProcess_def 1 Inr x Let_def)
      then show ?thesis using ok by auto
    next
      case False
      note running = False
      show ?thesis
      proof (cases r2)
        case (Inl e)
        then have "(r, t) = (Err (KernelFailure e), with_k k2 s)" using r running by (simp add: LaunchProcess_def 1 Inr x 2 Let_def)
        then show ?thesis using ok by auto
      next
        case Inr2: (Inr pin)
        obtain r3 res where 3: "WaitResourceAvailable (pm_resource env) info (pm_resources (with_k k2 s)) = Some (r3, res)"
          using r running by (auto simp: LaunchProcess_def 1 Inr x 2 Inr2 Let_def split: option.splits)
        obtain k3 where res: "r3 = Ok () \<or> r3 = Abort" "res = (pm_resources (with_k k2 s))\<lparr>res_kernel := k3\<rparr>"
          using WaitResourceAvailable_state [OF 3] by blast
        have s3: "(with_k k2 s)\<lparr>pm_resources := res\<rparr> = with_k k3 s" by (simp add: res(2) with_k_def)
        have rt: "(r, t) = R_TRY r3 (with_k k3 s) (\<lambda>_. launch_pinned env fl info ?loc st pin (with_k k3 s))"
          using r running by (simp add: LaunchProcess_def 1 Inr x 2 Inr2 Let_def 3 s3)
        show ?thesis
        proof (cases r3)
          case (Ok u)
          have "pm_ok env t \<and> (\<forall>e. r = Err e \<longrightarrow> (\<exists>k. t = with_k k (with_k k3 s)))"
            using running rt ok by (intro launch_pinned_ok [where s = "with_k k3 s"]) (auto simp: Ok)
          then show ?thesis by simp
        qed (use rt res(1) ok in auto)
      qed
    qed
  qed
qed

subsection \<open>The commands\<close>

lemma Find_live:
  "Find_process pid s = Some i \<Longrightarrow> i \<in> set (process_list s)" "Find_program prog s = Some i \<Longrightarrow> i \<in> set (process_list s)"
  by (auto simp: Find_process_def Find_program_def find_Some_iff)

lemma with_process_ok:
  "\<lbrakk>pm_ok env s; \<And>i. found = Some i \<Longrightarrow> pm_ok env (snd (f i))\<rbrakk> \<Longrightarrow> pm_ok env (snd (with_process found s f))"
  by (simp add: with_process_def split: option.split)

lemma StartProcess_ok:
  assumes "pm_ok env s"
  shows "pm_ok env (snd (StartProcess env pid s))"
  unfolding StartProcess_def
proof (rule with_process_ok [OF assms])
  fix i assume "Find_process pid s = Some i"
  then have i: "i \<in> set (process_list s)" by (rule Find_live)
  obtain r k where 1: "ldr_get_program_info env (pm_k s) (pr_loc (proc s i)) = (r, k)" by fastforce
  have "pr_linked (proc s i)" if "\<not> HasStarted (proc s i)"
    using that pm_ok_live(5) [OF assms i] by (auto simp: slot_ok_def HasStarted_def)
  then have "pm_ok env (snd (start_process env i info (with_k k s)))" if "\<not> HasStarted (proc s i)" for info
    using that assms i by (intro start_process_ok) simp_all
  then show "pm_ok env (snd (R_UNLESS (\<not> HasStarted (proc s i)) ResultAlreadyStarted s (
     let (r, k) = ldr_get_program_info env (pm_k s) (pr_loc (proc s i)); s = with_k k s
     in R_TRY (pm_result r) s (\<lambda>(info, status). start_process env i info s))))"
    using assms unfolding 1 Let_def prod.case
    by (cases r) (auto simp: R_UNLESS_def)
qed

lemma terminate_at_ok: "pm_ok env s \<Longrightarrow> pm_ok env (snd (terminate_at env s i))"
  by (simp add: terminate_at_def split: prod.split)

lemma pending_event_sel:
  assumes "pending_event env p = Some (e, p')"
  shows "slot_ok env p' = slot_ok env p" "HasFlag Flag_Application p' = HasFlag Flag_Application p"
    "pr_process_id p' = pr_process_id p"
  using assms by (auto simp: pending_event_def split: if_splits)

lemma GetProcessEventInfo_ok:
  assumes ok: "pm_ok env s"
  shows "\<exists>x t. GetProcessEventInfo env s = (Ok x, t) \<and> pm_ok env t"
proof (cases "find (\<lambda>i. pending_event env (proc s i) \<noteq> None) (process_list s)")
  case (Some i)
  then have i: "i \<in> set (process_list s)" "pending_event env (proc s i) \<noteq> None" by (auto simp: find_Some_iff)
  then obtain e p where p: "pending_event env (proc s i) = Some (e, p)" by auto
  have "pm_ok env (put_proc i p s)"
    using ok i(1) pm_ok_live(5) [OF ok i(1)] pending_event_sel [OF p]
    by (intro pm_ok_put_proc) (simp_all add: IsApplicationProcess_def)
  then show ?thesis unfolding GetProcessEventInfo_def Some option.case p prod.case by auto
next
  case None
  show ?thesis
  proof (cases "pm_version env \<ge> 5 \<and> dead_process_list s \<noteq> []")
    case True
    then have "hd (dead_process_list s) \<in> set (dead_process_list s)" by simp
    from CleanupDeadProcessInfo_ok [OF ok this] show ?thesis
      using True unfolding GetProcessEventInfo_def None option.case by auto
  qed (unfold GetProcessEventInfo_def None option.case, use ok in auto)
qed

lemma CleanupProcess_ok:
  assumes "pm_ok env s"
  shows "pm_ok env (snd (CleanupProcess env pid s))" "fst (CleanupProcess env pid s) \<noteq> Abort"
proof -
  have "pm_ok env (snd (CleanupProcess env pid s)) \<and> fst (CleanupProcess env pid s) \<noteq> Abort"
  proof (cases "Find_process pid s")
    case (Some i)
    then show ?thesis
      using assms CleanupProcessInfo_ok [OF assms Find_live(1) [OF Some]]
      by (auto simp: CleanupProcess_def with_process_def R_UNLESS_def)
  qed (use assms in \<open>simp add: CleanupProcess_def with_process_def\<close>)
  then show "pm_ok env (snd (CleanupProcess env pid s))" "fst (CleanupProcess env pid s) \<noteq> Abort" by auto
qed

lemma snd_on_resources: "pm_ok env (snd (on_resources f s)) = pm_ok env s"
  by (rule pm_ok_cong) (simp add: on_resources_def split: prod.split)

lemma pm_ok_hooks:
  "pm_ok env s \<Longrightarrow> pm_ok env (s\<lparr>program_id_hook := h\<rparr>)" "pm_ok env s \<Longrightarrow> pm_ok env (s\<lparr>application_hook := b\<rparr>)"
  by (rule pm_ok_tables, assumption, simp)+

lemma NotifyBootFinished_ok:
  assumes "pm_ok env s"
  shows "pm_ok env (NotifyBootFinished env s)"
  by (rule pm_ok_tables [OF assms]) (simp add: NotifyBootFinished_def Let_def)

lemma Terminate_ok:
  assumes "pm_ok env s"
  shows "pm_ok env (snd (TerminateProcess env pid s))" "pm_ok env (snd (TerminateProgram env prog s))"
  unfolding TerminateProcess_def TerminateProgram_def
  by (rule with_process_ok [OF assms terminate_at_ok [OF assms]])+

lemma ClearExceptionOccurred_ok:
  assumes ok: "pm_ok env s"
  shows "pm_ok env (snd (ClearExceptionOccurred pid s))"
  unfolding ClearExceptionOccurred_def
proof (rule with_process_ok [OF ok])
  fix i assume "Find_process pid s = Some i"
  then have "pm_ok env (upd_proc i (ClearFlag Flag_ExceptionOccurred) s)"
    by (intro pm_ok_flag_step [OF ok]) (auto dest: Find_live(1))
  then show "pm_ok env (snd (Ok (), upd_proc i (ClearFlag Flag_ExceptionOccurred) s))" by simp
qed

lemma pm_ok_snd: "\<lbrakk>x = (r, t); pm_ok env (snd x)\<rbrakk> \<Longrightarrow> pm_ok env t"
  by simp

lemma pm_call_ok:
  assumes ok: "pm_ok env s" and call: "pm_call env c s = Some (r, t)"
  shows "pm_ok env t"
proof (cases c)
  case (Do_Launch loc fl)
  then obtain x where "LaunchProcess env loc fl s = Some x" "forget x = Some (r, t)"
    using call by (auto simp: bind_eq_Some_conv)
  then show ?thesis
    using LaunchProcess_ok [OF ok] by (cases x) (auto simp: forget_def R_TRY_def split: outcome.splits)
next
  case (Do_Signaled i)
  then have "i \<in> set (process_list s)" "pr_linked (proc s i)" "OnProcessSignaled env i s = (r, t)"
    using call by (simp_all split: if_splits)
  then show ?thesis using OnProcessSignaled_ok(1) [OF ok, of i] by simp
next
  case Do_GetEvent
  then show ?thesis using call GetProcessEventInfo_ok [OF ok] by (auto simp: forget_def)
next
  case (Do_TerminateProcess pid)
  then have "TerminateProcess env pid s = (r, t)" using call by simp
  then show ?thesis by (rule pm_ok_snd) (rule Terminate_ok [OF ok])
next
  case (Do_TerminateProgram prog)
  then have "TerminateProgram env prog s = (r, t)" using call by simp
  then show ?thesis by (rule pm_ok_snd) (rule Terminate_ok [OF ok])
next
  case (Do_Start pid)
  then have "StartProcess env pid s = (r, t)" using call by simp
  then show ?thesis by (rule pm_ok_snd) (rule StartProcess_ok [OF ok])
next
  case (Do_CleanupProcess pid)
  then have "CleanupProcess env pid s = (r, t)" using call by simp
  then show ?thesis by (rule pm_ok_snd) (rule CleanupProcess_ok [OF ok])
next
  case (Do_ClearException pid)
  then have "ClearExceptionOccurred pid s = (r, t)" using call by simp
  then show ?thesis by (rule pm_ok_snd) (rule ClearExceptionOccurred_ok [OF ok])
next
  case (Do_Hook prog)
  then show ?thesis using call ok by (auto simp: HookToCreateProcess_def R_UNLESS_def pm_ok_hooks split: if_splits)
next
  case Do_HookApplication
  then show ?thesis using call ok by (auto simp: HookToCreateApplicationProcess_def R_UNLESS_def pm_ok_hooks split: if_splits)
next
  case (Do_ClearHook w)
  then show ?thesis using call ok by (auto simp: ClearHook_def Let_def pm_ok_hooks)
next
  case Do_NotifyBoot
  then show ?thesis using call NotifyBootFinished_ok [OF ok] by auto
next
  case (Do_BoostMemory n)
  then have "on_resources (BoostSystemMemoryResourceLimit (pm_resource env) n) s = (r, t)" using call by simp
  then show ?thesis by (rule pm_ok_snd) (simp add: snd_on_resources ok)
next
  case Do_BoostThreads
  then have "on_resources (BoostApplicationThreadResourceLimit (pm_resource env)) s = (r, t)" using call by simp
  then show ?thesis by (rule pm_ok_snd) (simp add: snd_on_resources ok)
qed

inductive pm_reachable :: "('r, 'o, 'k) pm_env \<Rightarrow> 'k resource_state \<Rightarrow> ('o, 'k) pm_state \<Rightarrow> bool"
  for env res where
  start: "pm_reachable env res (pm_initial res)"
| step: "\<lbrakk>pm_reachable env res s; pm_call env c s = Some (r, t)\<rbrakk> \<Longrightarrow> pm_reachable env res t"

lemma pm_reachable_ok: "pm_reachable env res s \<Longrightarrow> pm_ok env s"
  by (induction rule: pm_reachable.induct) (auto simp: pm_ok_initial intro: pm_call_ok)

end
