(* ===== verification/PmEvents.thy ===== *)
theory PmEvents
  imports PmInvariant
begin

text \<open>
  The event queue of the process manager. A client that is signaled calls \<open>GetProcessEventInfo\<close>
  until it answers \<open>None\<close>; every answer uses up one pending event, so it gets there, and the exits
  come in the order in which the processes died.
\<close>

subsection \<open>The number of pending events\<close>

definition event_weight :: "'o process_info \<Rightarrow> nat" where
  "event_weight p =
     of_bool (HasStarted p \<and> HasFlag Flag_StartedStateChanged p) + of_bool (HasFlag Flag_SuspendedStateChanged p) +
     of_bool (HasFlag Flag_ExceptionOccurred p)"

definition events_weight :: "('o, 'k) pm_state \<Rightarrow> nat" where
  "events_weight s =
     sum_list (map (\<lambda>i. event_weight (proc s i)) (process_list s)) + length (dead_process_list s)"

lemma event_weight_le: "event_weight p \<le> 3"
  by (simp add: event_weight_def of_bool_def)

lemma events_weight_le: "events_weight s \<le> 3 * length (process_list s) + length (dead_process_list s)"
proof -
  have "sum_list (map (\<lambda>i. event_weight (proc s i)) xs) \<le> 3 * length xs" for xs
  proof (induction xs)
    case (Cons i xs)
    then show ?case using event_weight_le [of "proc s i"] by simp
  qed simp
  then show ?thesis by (simp add: events_weight_def)
qed

lemma HasFlag_ClearFlag_same [simp]: "\<not> HasFlag f (ClearFlag f p)"
  by (simp add: HasFlag_def ClearFlag_def and.assoc)

lemma event_flag_facts [simp]:
  "HasFlag Flag_SuspendedStateChanged (ClearFlag Flag_StartedStateChanged p) = HasFlag Flag_SuspendedStateChanged p"
  "HasFlag Flag_ExceptionOccurred (ClearFlag Flag_StartedStateChanged p) = HasFlag Flag_ExceptionOccurred p"
  "HasFlag Flag_StartedStateChanged (ClearFlag Flag_SuspendedStateChanged p) = HasFlag Flag_StartedStateChanged p"
  "HasFlag Flag_ExceptionOccurred (ClearFlag Flag_SuspendedStateChanged p) = HasFlag Flag_ExceptionOccurred p"
  "HasFlag Flag_StartedStateChanged (ClearFlag Flag_ExceptionOccurred p) = HasFlag Flag_StartedStateChanged p"
  "HasFlag Flag_SuspendedStateChanged (ClearFlag Flag_ExceptionOccurred p) = HasFlag Flag_SuspendedStateChanged p"
  "HasStarted (ClearFlag f p) = HasStarted p"
  by (rule HasFlag_ClearFlag, simp add: flag_defs)+ (simp add: HasStarted_def ClearFlag_def)

text \<open>Since 5.0.0 a living process never reports an exit.\<close>

lemma pending_event_weight:
  assumes "pending_event env p = Some (e, p')" "5 \<le> pm_version env"
  shows "event_weight p = Suc (event_weight p')" "e \<noteq> Event_Exited" "e \<noteq> Event_None"
  using assms by (auto simp: pending_event_def event_weight_def split: if_splits)

lemma pending_event_None:
  assumes "pending_event env p = None"
  shows "event_weight p = 0"
  using assms by (auto simp: pending_event_def event_weight_def split: if_splits)

lemma sum_list_update_one:
  assumes "i \<in> set xs" "distinct xs" "f i = Suc (g i)" "\<And>j. j \<in> set xs \<Longrightarrow> j \<noteq> i \<Longrightarrow> f j = g j"
  shows "sum_list (map f xs) = Suc (sum_list (map g xs))"
  using assms
proof (induction xs)
  case (Cons x xs)
  show ?case
  proof (cases "x = i")
    case True
    have "f j = g j" if "j \<in> set xs" for j using that True Cons.prems(2,4) by auto
    then have "sum_list (map f xs) = sum_list (map g xs)" by (intro arg_cong [where f = sum_list] map_cong refl)
    then show ?thesis using True Cons.prems(3) by simp
  next
    case False
    then have "f x = g x" "i \<in> set xs" "distinct xs" using Cons.prems by auto
    then show ?thesis using Cons.IH Cons.prems(3,4) by simp
  qed
qed simp

subsection \<open>One answer\<close>

text \<open>The three kinds of answer.\<close>

lemma GetProcessEventInfo_cases:
  assumes ok: "pm_ok env s" and v: "5 \<le> pm_version env"
  obtains (none) "GetProcessEventInfo env s = (Ok (Event_None, 0), s)" "dead_process_list s = []"
      "\<And>i. i \<in> set (process_list s) \<Longrightarrow> pending_event env (proc s i) = None"
  | (living) i e p t where "GetProcessEventInfo env s = (Ok (e, pr_process_id (proc s i)), t)" "e \<noteq> Event_None" "e \<noteq> Event_Exited"
      "i \<in> set (process_list s)" "t = put_proc i p s" "event_weight (proc s i) = Suc (event_weight p)"
  | (dead) i t where "GetProcessEventInfo env s = (Ok (Event_Exited, pr_process_id (proc s i)), t)"
      "dead_process_list s = i # dead_process_list t" "process_list t = process_list s"
      "storages t = (storages s)[i := None]"
proof (cases "find (\<lambda>i. pending_event env (proc s i) \<noteq> None) (process_list s)")
  case (Some i)
  then have i: "i \<in> set (process_list s)" "pending_event env (proc s i) \<noteq> None" by (auto simp: find_Some_iff)
  then obtain e p where p: "pending_event env (proc s i) = Some (e, p)" by auto
  have "GetProcessEventInfo env s = (Ok (e, pr_process_id p), put_proc i p s)"
    unfolding GetProcessEventInfo_def Some option.case p prod.case ..
  then show ?thesis
    using living [of e i "put_proc i p s" p] pending_event_weight [OF p v] pending_event_sel(3) [OF p] i(1) by simp
next
  case None
  then have live: "pending_event env (proc s i) = None" if "i \<in> set (process_list s)" for i
    using None that unfolding find_None_iff by blast
  show ?thesis
  proof (cases "dead_process_list s")
    case Nil
    have "GetProcessEventInfo env s = (Ok (Event_None, 0), s)"
      unfolding GetProcessEventInfo_def None option.case by (simp add: Nil)
    then show ?thesis using none Nil live by blast
  next
    case (Cons i ds)
    then have "i \<in> set (dead_process_list s)" by simp
    from CleanupDeadProcessInfo_ok [OF ok this] obtain t where
      t: "CleanupDeadProcessInfo env i s = (Ok (), t)" "storages t = (storages s)[i := None]"
        "process_list t = process_list s" "dead_process_list t = remove1 i (dead_process_list s)"
      by blast
    have "GetProcessEventInfo env s = (Ok (Event_Exited, pr_process_id (proc s i)), t)"
      unfolding GetProcessEventInfo_def None option.case using v by (simp add: Cons t(1))
    then show ?thesis using dead [of i t] t Cons by simp
  qed
qed

subsection \<open>Draining the queue\<close>

fun drain_events ::
  "('r, 'o, 'k) pm_env \<Rightarrow> nat \<Rightarrow> ('o, 'k) pm_state \<Rightarrow> (process_event \<times> u64) list \<times> ('o, 'k) pm_state" where
  "drain_events env 0 s = ([], s)"
| "drain_events env (Suc n) s =
     (case GetProcessEventInfo env s of
        (Ok x, t) \<Rightarrow>
          if fst x = Event_None then ([], t)
          else (let (xs, u) = drain_events env n t in (x # xs, u))
      | (_, t) \<Rightarrow> ([], t))"

definition exits :: "('o, 'k) pm_state \<Rightarrow> (process_event \<times> u64) list" where
  "exits s = map (\<lambda>i. (Event_Exited, pr_process_id (proc s i))) (dead_process_list s)"

lemma exits_cong:
  "\<lbrakk>dead_process_list t = dead_process_list s; \<And>i. i \<in> set (dead_process_list s) \<Longrightarrow> proc t i = proc s i\<rbrakk> \<Longrightarrow>
    exits t = exits s"
  by (simp add: exits_def)

lemma no_weight_no_events:
  assumes "pm_ok env s" "5 \<le> pm_version env" "events_weight s = 0"
  shows "GetProcessEventInfo env s = (Ok (Event_None, 0), s)" "dead_process_list s = []"
proof -
  from assms(1,2) have "GetProcessEventInfo env s = (Ok (Event_None, 0), s) \<and> dead_process_list s = []"
  proof (cases rule: GetProcessEventInfo_cases)
    case (living i e p t)
    have "event_weight (proc s i) \<le> sum_list (map (\<lambda>i. event_weight (proc s i)) (process_list s))"
      using living(4) by (intro member_le_sum_list) auto
    moreover have "sum_list (map (\<lambda>i. event_weight (proc s i)) (process_list s)) \<le> events_weight s"
      unfolding events_weight_def by (rule le_add1)
    ultimately show ?thesis using living(6) assms(3) by linarith
  next
    case (dead i t)
    then show ?thesis using assms(3) by (simp add: events_weight_def)
  qed blast
  then show "GetProcessEventInfo env s = (Ok (Event_None, 0), s)" "dead_process_list s = []" by blast+
qed

lemma drain_events_weight:
  assumes v: "5 \<le> pm_version env"
  shows "\<lbrakk>pm_ok env s; events_weight s \<le> n; drain_events env n s = (xs, t)\<rbrakk> \<Longrightarrow>
    GetProcessEventInfo env t = (Ok (Event_None, 0), t) \<and> filter (\<lambda>x. fst x = Event_Exited) xs = exits s \<and>
    length xs \<le> n"
proof (induction n arbitrary: s xs)
  case 0
  then have "xs = []" "t = s" "events_weight s = 0" by simp_all
  then show ?case using no_weight_no_events [OF 0(1) v] by (simp add: exits_def)
next
  case (Suc n)
  from Suc.prems(1) v show ?case
  proof (cases rule: GetProcessEventInfo_cases)
    case none
    then have "xs = []" "t = s" using Suc.prems(3) by simp_all
    then show ?thesis using none by (simp add: exits_def)
  next
    case (living i e p u)
    obtain ys w where ys: "drain_events env n u = (ys, w)" by fastforce
    have xs: "xs = (e, pr_process_id (proc s i)) # ys" "t = w" using Suc.prems(3) living(1,2) ys by simp_all
    have u: "pm_ok env u" using GetProcessEventInfo_ok [OF Suc.prems(1)] living(1) by auto
    note live = pm_ok_live [OF Suc.prems(1) living(4)]
    have "sum_list (map (\<lambda>j. event_weight (proc s j)) (process_list s)) =
        Suc (sum_list (map (\<lambda>j. event_weight (proc u j)) (process_list s)))"
    proof (rule sum_list_update_one [OF living(4)])
      show "distinct (process_list s)" using Suc.prems(1) by (simp add: pm_ok_def)
    qed (simp_all add: living(5,6) live(2))
    then have "events_weight u \<le> n" using Suc.prems(2) living(5) by (simp add: events_weight_def)
    moreover have exits: "exits u = exits s"
    proof (rule exits_cong)
      fix j assume "j \<in> set (dead_process_list s)"
      then have "j \<noteq> i" using live(4) by blast
      then show "proc u j = proc s j" by (simp add: living(5))
    qed (simp add: living(5))
    ultimately show ?thesis using Suc.IH [OF u _ ys [folded xs(2)]]
      using xs living(3) exits by simp
  next
    case (dead i u)
    obtain ys w where ys: "drain_events env n u = (ys, w)" by fastforce
    have xs: "xs = (Event_Exited, pr_process_id (proc s i)) # ys" "t = w" using Suc.prems(3) dead(1) ys by simp_all
    have u: "pm_ok env u" using GetProcessEventInfo_ok [OF Suc.prems(1)] dead(1) by auto
    have "distinct (process_list s @ dead_process_list s)" using Suc.prems(1) unfolding pm_ok_def by blast
    then have i: "i \<notin> set (process_list s)" "i \<notin> set (dead_process_list u)" by (simp_all add: dead(2))
    have same: "proc u j = proc s j" if "j \<noteq> i" for j using that by (simp add: proc_def dead(4))
    have "event_weight (proc u j) = event_weight (proc s j)" if "j \<in> set (process_list s)" for j
      using same [of j] i(1) that by metis
    then have "sum_list (map (\<lambda>j. event_weight (proc u j)) (process_list s)) =
        sum_list (map (\<lambda>j. event_weight (proc s j)) (process_list s))"
      by (intro arg_cong [where f = sum_list] map_cong refl)
    then have "events_weight u \<le> n" using Suc.prems(2) dead(2,3) by (simp add: events_weight_def)
    from Suc.IH [OF u this ys [folded xs(2)]] have ih: "GetProcessEventInfo env t = (Ok (Event_None, 0), t)"
      "filter (\<lambda>x. fst x = Event_Exited) ys = exits u" "length ys \<le> n" by blast+
    have "exits s = (Event_Exited, pr_process_id (proc s i)) # exits u"
    proof -
      have "proc u j = proc s j" if "j \<in> set (dead_process_list u)" for j using same [of j] i(2) that by metis
      then show ?thesis by (simp add: exits_def dead(2))
    qed
    then show ?thesis using ih xs by simp
  qed
qed

end
