(* ===== verification/PmBoost.thy ===== *)
theory PmBoost
  imports PmResource
begin

text \<open>
  The memory limits under repeated boosts. A boost moves memory between the application and
  the system by two requests, either of which the kernel may refuse; the order in which they
  are made keeps the sum of the limits within the arrangement at every moment.
\<close>

abbreviation memory_limit :: "resource_group \<Rightarrow> 'k resource_state \<Rightarrow> u64" where
  "memory_limit g s \<equiv> resource_limits s g PhysicalMemoryMax"

abbreviation memory_share :: "resource_group \<Rightarrow> 'k resource_state \<Rightarrow> u64" where
  "memory_share g s \<equiv> memory_resource_limits s (arrangement s) g"

subsection \<open>Setting a limit\<close>

text \<open>What setting limits leaves alone.\<close>

definition same_plan :: "'k resource_state \<Rightarrow> 'k resource_state \<Rightarrow> bool" where
  "same_plan s t \<longleftrightarrow> arrangement t = arrangement s \<and> memory_resource_limits t = memory_resource_limits s \<and>
     system_memory_boost_size t = system_memory_boost_size s"

lemma same_plan_refl [simp]: "same_plan s s"
  by (simp add: same_plan_def)

lemma same_plan_trans: "\<lbrakk>same_plan s t; same_plan t u\<rbrakk> \<Longrightarrow> same_plan s u"
  by (simp add: same_plan_def)

lemma same_plan_kernel [simp]: "same_plan s (t\<lparr>res_kernel := k\<rparr>) = same_plan s t"
  by (simp add: same_plan_def)

lemma SetMemory_cases:
  assumes "SetMemoryResourceLimitLimitValue env g v s = (r, t)"
  shows "same_plan s t"
    "r = Ok () \<and> resource_limits t = set_limit_entry g PhysicalMemoryMax v (resource_limits s) \<or>
     (\<exists>e. r = Err e \<and> resource_limits t = resource_limits s)"
  using assms
  by (auto simp: SetMemoryResourceLimitLimitValue_def Let_def same_plan_def pm_result_def set_limit_entry_def
      split: prod.splits sum.splits)

lemma set_limit_entry_other [simp]:
  "g \<noteq> h \<Longrightarrow> set_limit_entry g r v l h = l h" "set_limit_entry g r v l g r = v"
  by (simp_all add: set_limit_entry_def)

lemma set_other_limits_same:
  "set_other_limits env g rs s = (r, t) \<Longrightarrow> same_plan s t \<and> resource_limits t = resource_limits s"
proof (induction rs arbitrary: s)
  case (Cons r' rs)
  show ?case
  proof (cases "r' = PhysicalMemoryMax")
    case True
    then show ?thesis using Cons by simp
  next
    case False
    obtain x k where x: "res_set_limit env (res_kernel s) (limit_handles s g) r' (resource_limits s g r') = (x, k)"
      by fastforce
    show ?thesis
    proof (cases x)
      case (Inl e)
      then show ?thesis using Cons.prems False x by (auto simp: same_plan_def)
    next
      case (Inr u)
      have "set_other_limits env g rs (s\<lparr>res_kernel := k\<rparr>) = (r, t)" using Cons.prems False x Inr by simp
      from Cons.IH [OF this] show ?thesis by (simp add: same_plan_def)
    qed
  qed
qed simp

lemma SetResourceLimitLimitValues_Ok:
  assumes "SetResourceLimitLimitValues env g v s = (Ok (), t)"
  shows "same_plan s t" "resource_limits t = set_limit_entry g PhysicalMemoryMax v (resource_limits s)"
proof -
  obtain u where u: "SetMemoryResourceLimitLimitValue env g v s = (Ok (), u)"
    "set_other_limits env g LimitableResources u = (Ok (), t)"
    using assms by (auto simp: SetResourceLimitLimitValues_def split: prod.splits)
  show "same_plan s t" "resource_limits t = set_limit_entry g PhysicalMemoryMax v (resource_limits s)"
    using SetMemory_cases [OF u(1)] set_other_limits_same [OF u(2)] same_plan_trans by auto
qed

lemma set_all_limits_Ok:
  "set_all_limits env gs s = (Ok (), t) \<Longrightarrow>
    same_plan s t \<and> (\<forall>g. memory_limit g t = (if g \<in> set gs then memory_share g s else memory_limit g s))"
proof (induction gs arbitrary: s)
  case (Cons g gs)
  obtain u where u: "SetResourceLimitLimitValues env g (memory_share g s) s = (Ok (), u)"
    "set_all_limits env gs u = (Ok (), t)"
    using Cons.prems by (auto split: prod.splits)
  note first = SetResourceLimitLimitValues_Ok [OF u(1)]
  have rest: "same_plan u t" "\<And>h. memory_limit h t = (if h \<in> set gs then memory_share h u else memory_limit h u)"
    using Cons.IH [OF u(2)] by blast+
  have "memory_limit h t = (if h \<in> set (g # gs) then memory_share h s else memory_limit h s)" for h
    using rest(2) [of h] first by (cases "h = g") (auto simp: same_plan_def)
  then show ?case using same_plan_trans [OF first(1) rest(1)] by blast
qed simp

subsection \<open>Start-up\<close>

lemma create_limits_same:
  "create_limits env gs s = (Ok (), t) \<Longrightarrow> same_plan s t \<and> resource_limits t = resource_limits s"
proof (induction gs arbitrary: s)
  case (Cons g gs)
  obtain r k where r: "(if g = Group_System then (res_system_limit_handle env (res_kernel s), res_kernel s)
                    else res_create_limit env (res_kernel s)) = (r, k)" by fastforce
  obtain h where h: "r = Inr h" using Cons.prems r by (cases r) simp_all
  have next': "create_limits env gs (s\<lparr>res_kernel := k, limit_handles := (limit_handles s)(g := h)\<rparr>) = (Ok (), t)"
    using Cons.prems unfolding create_limits.simps r h by simp
  show ?case using Cons.IH [OF next'] by (simp add: same_plan_def)
qed simp

lemma InitializeResourceManager_Ok:
  assumes "InitializeResourceManager env s = (Ok (), t)"
  shows "memory_limit g t = memory_share g t" "system_memory_boost_size t = system_memory_boost_size s"
    "res_version env < 6 \<Longrightarrow> memory_resource_limits t =
       adjust_memory_for_atmosphere (res_version env) (adjust_memory_for_version (res_version env) (memory_resource_limits s))"
    "res_version env < 6 \<Longrightarrow> \<exists>k. arrangement t = res_spl_arrangement env k"
proof -
  let ?v = "res_version env"
  obtain s1 where 1: "create_limits env ResourceGroups s = (Ok (), s1)"
    using assms by (auto simp: InitializeResourceManager_def split: prod.splits)
  let ?s1 = "s1\<lparr>resource_limits := adjust_limits_for_version ?v (resource_limits s1),
                memory_resource_limits := adjust_memory_for_version ?v (memory_resource_limits s1)\<rparr>"
  obtain s2 where 2: "(if ?v \<ge> 7 then count_extra_threads env ?s1 else (Ok (), ?s1)) = (Ok (), s2)"
    using assms 1 by (auto simp: InitializeResourceManager_def Let_def split: prod.splits if_splits)
  obtain s3 where 3: "choose_arrangement env s2 = (Ok (), s3)"
    and 4: "set_all_limits env ResourceGroups
      (s3\<lparr>memory_resource_limits := adjust_memory_for_atmosphere ?v (memory_resource_limits s3)\<rparr>) = (Ok (), t)"
    using assms 1 2 by (auto simp: InitializeResourceManager_def Let_def split: prod.splits if_splits)
  have s2: "same_plan ?s1 s2" using 2 by (auto simp: count_extra_threads_def Let_def same_plan_def split: if_splits)
  have s3: "system_memory_boost_size s3 = system_memory_boost_size s2"
    "?v < 6 \<Longrightarrow> memory_resource_limits s3 = memory_resource_limits s2"
    "?v < 6 \<Longrightarrow> \<exists>k. arrangement s3 = res_spl_arrangement env k"
    using 3 by (auto simp: choose_arrangement_def Let_def set_dynamic_entry_def split: if_splits)
  note last = set_all_limits_Ok [OF 4]
  show "memory_limit g t = memory_share g t"
    using last by (cases g) (simp_all add: same_plan_def ResourceGroups_def)
  show "system_memory_boost_size t = system_memory_boost_size s"
    using last s2 s3(1) create_limits_same [OF 1] by (simp add: same_plan_def)
  show "memory_resource_limits t = adjust_memory_for_atmosphere ?v (adjust_memory_for_version ?v (memory_resource_limits s))"
    if "?v < 6" using last s2 s3(2) [OF that] create_limits_same [OF 1] by (simp add: same_plan_def)
  show "\<exists>k. arrangement t = res_spl_arrangement env k" if "?v < 6"
    using last s3(3) [OF that] by (simp add: same_plan_def)
qed

subsection \<open>Boosting\<close>

text \<open>
  The system has \<open>x\<close> more and the application \<open>y\<close> less than its share. A refused request leaves
  the two apart, on the safe side.
\<close>

definition boost_ok :: "nat \<Rightarrow> 'k resource_state \<Rightarrow> bool" where
  "boost_ok version s \<longleftrightarrow> (\<exists>x y. x \<le> system_memory_boost_size s \<and> system_memory_boost_size s \<le> y \<and>
     y \<le> memory_share Group_Application s \<and> memory_limit Group_System s = memory_share Group_System s + x \<and>
     memory_limit Group_Application s = memory_share Group_Application s - y \<and>
     (version \<ge> 5 \<longrightarrow> x = 0 \<and> y = system_memory_boost_size s))"

text \<open>A state that a boost of \<open>s\<close> may leave behind.\<close>

definition boost_result :: "nat \<Rightarrow> u64 \<Rightarrow> u64 \<Rightarrow> 'k resource_state \<Rightarrow> 'k resource_state \<Rightarrow> bool" where
  "boost_result version x y s t \<longleftrightarrow>
     arrangement t = arrangement s \<and> memory_resource_limits t = memory_resource_limits s \<and>
     memory_limit Group_Applet t = memory_limit Group_Applet s \<and>
     x \<le> system_memory_boost_size t \<and> system_memory_boost_size t \<le> y \<and> y \<le> memory_share Group_Application s \<and>
     memory_limit Group_System t = memory_share Group_System s + x \<and>
     memory_limit Group_Application t = memory_share Group_Application s - y \<and>
     (version \<ge> 5 \<longrightarrow> x = 0 \<and> y = system_memory_boost_size t)"

lemma boost_ok_result: "boost_ok version s \<longleftrightarrow> (\<exists>x y. boost_result version x y s s)"
  by (simp add: boost_ok_def boost_result_def)

lemma boost_result_ok: "boost_result version x y s t \<Longrightarrow> boost_ok version t"
  unfolding boost_ok_def boost_result_def by (intro exI [of _ x] exI [of _ y]) simp

definition boost_kept :: "nat \<Rightarrow> 'k resource_state \<Rightarrow> 'k resource_state \<Rightarrow> bool" where
  "boost_kept version s t \<longleftrightarrow> (\<exists>x y. boost_result version x y s t)"

lemma boost_keptI [intro]: "boost_result version x y s t \<Longrightarrow> boost_kept version s t"
  unfolding boost_kept_def by blast

text \<open>Setting one limit, as a change of \<open>x\<close> or of \<open>y\<close>.\<close>

lemma SetMemory_System:
  assumes "SetMemoryResourceLimitLimitValue env Group_System (memory_share Group_System s + b) s = (r, t)"
    "boost_result version x y s0 s" "version < 5" "b \<le> y"
  shows "r = Ok () \<and> boost_result version b y s0 (t\<lparr>system_memory_boost_size := b\<rparr>) \<and>
      (b \<le> system_memory_boost_size s \<longrightarrow> boost_result version b y s0 t) \<or>
    (\<exists>e. r = Err e) \<and> boost_result version x y s0 t"
  using SetMemory_cases [OF assms(1)] assms(2-4) by (auto simp: boost_result_def same_plan_def)

lemma SetMemory_Application:
  assumes "SetMemoryResourceLimitLimitValue env Group_Application (memory_share Group_Application s - b) s = (r, t)"
    "boost_result version x y s0 s" "b \<le> memory_share Group_Application s" "x \<le> b"
  shows "r = Ok () \<and> boost_result version x b s0 (t\<lparr>system_memory_boost_size := b\<rparr>) \<and>
      (version < 5 \<longrightarrow> system_memory_boost_size s \<le> b \<longrightarrow> boost_result version x b s0 t) \<or>
    (\<exists>e. r = Err e) \<and> boost_result version x y s0 t"
  using SetMemory_cases [OF assms(1)] assms(2-4) by (auto simp: boost_result_def same_plan_def)

lemma boost_result_kernel [simp]:
  "boost_result version x y s0 (t\<lparr>res_kernel := k\<rparr>) = boost_result version x y s0 t"
  "boost_result version x y s0 (t\<lparr>res_kernel := k, system_memory_boost_size := b\<rparr>) =
    boost_result version x y s0 (t\<lparr>system_memory_boost_size := b\<rparr>)"
  by (simp_all add: boost_result_def)

lemma SetMemory_share:
  "SetMemoryResourceLimitLimitValue env g v s = (r, t) \<Longrightarrow> memory_share h t = memory_share h s"
  "SetMemoryResourceLimitLimitValue env g v s = (r, t) \<Longrightarrow> system_memory_boost_size t = system_memory_boost_size s"
  by (drule SetMemory_cases(1), simp add: same_plan_def)+

text \<open>Before 5.0.0: two limits. From 5.0.0: one limit and the unsafe limit of the kernel.\<close>

lemma Boost_before_500:
  assumes v: "res_version env < 5" and inv: "boost_result (res_version env) x y s s"
    and r: "BoostSystemMemoryResourceLimit env b s = (r, t)" and b: "b \<le> memory_share Group_Application s"
  shows "boost_kept (res_version env) s t"
proof (cases "b < system_memory_boost_size s")
  case True
  obtain r1 u1 where 1: "SetMemoryResourceLimitLimitValue env Group_System (memory_share Group_System s + b) s = (r1, u1)"
    by fastforce
  obtain r2 u2 where 2: "SetMemoryResourceLimitLimitValue env Group_Application (memory_share Group_Application u1 - b) u1 = (r2, u2)"
    by fastforce
  have y: "b \<le> y" using True inv by (auto simp: boost_result_def)
  show ?thesis
    using SetMemory_System [OF 1 inv v y] True
  proof (elim disjE conjE exE)
    assume u1: "r1 = Ok ()" "b \<le> system_memory_boost_size s \<longrightarrow> boost_result (res_version env) b y s u1"
    then have "boost_result (res_version env) b y s u1" using True by simp
    note app = SetMemory_Application [OF 2 this, unfolded SetMemory_share [OF 1], OF b order_refl]
    have "R_TRY r2 u2 (\<lambda>_. (Ok (), u2\<lparr>system_memory_boost_size := b\<rparr>)) = (r, t)"
      using r b v True 1 2 u1(1) by (simp add: BoostSystemMemoryResourceLimit_def R_UNLESS_def Let_def SetMemory_share [OF 1])
    then show ?thesis using app by auto
  next
    fix e assume "r1 = Err e" "boost_result (res_version env) x y s u1"
    then show ?thesis using r b v True 1 by (auto simp: BoostSystemMemoryResourceLimit_def R_UNLESS_def Let_def)
  qed
next
  case False
  obtain r1 u1 where 1: "SetMemoryResourceLimitLimitValue env Group_Application (memory_share Group_Application s - b) s = (r1, u1)"
    by fastforce
  obtain r2 u2 where 2: "SetMemoryResourceLimitLimitValue env Group_System (memory_share Group_System u1 + b) u1 = (r2, u2)"
    by fastforce
  have x: "x \<le> b" using False inv by (auto simp: boost_result_def)
  show ?thesis
    using SetMemory_Application [OF 1 inv b x]
  proof (elim disjE conjE exE)
    assume u1: "r1 = Ok ()"
      "res_version env < 5 \<longrightarrow> system_memory_boost_size s \<le> b \<longrightarrow> boost_result (res_version env) x b s u1"
    then have "boost_result (res_version env) x b s u1" using False v by simp
    note sys = SetMemory_System [OF 2 this v order_refl]
    have "R_TRY r2 u2 (\<lambda>_. (Ok (), u2\<lparr>system_memory_boost_size := b\<rparr>)) = (r, t)"
      using r b v False 1 2 u1(1) by (simp add: BoostSystemMemoryResourceLimit_def R_UNLESS_def Let_def SetMemory_share [OF 1])
    then show ?thesis using sys by auto
  next
    fix e assume "r1 = Err e" "boost_result (res_version env) x y s u1"
    then show ?thesis using r b v False 1 by (auto simp: BoostSystemMemoryResourceLimit_def R_UNLESS_def Let_def)
  qed
qed

lemma Boost_from_500:
  assumes v: "5 \<le> res_version env" and inv: "boost_result (res_version env) x y s s"
    and r: "BoostSystemMemoryResourceLimit env b s = (r, t)" "r \<noteq> Abort" and b: "b \<le> memory_share Group_Application s"
  shows "boost_kept (res_version env) s t"
proof -
  have x: "x = 0" using v inv by (simp add: boost_result_def)
  then have x0: "x \<le> b" by simp
  show ?thesis
  proof (cases "b < system_memory_boost_size s")
    case True
    obtain r1 k where k: "res_set_unsafe_limit env (res_kernel s) b = (r1, k)" by fastforce
    let ?s = "s\<lparr>res_kernel := k\<rparr>"
    obtain r2 u where u: "SetMemoryResourceLimitLimitValue env Group_Application (memory_share Group_Application ?s - b) ?s = (r2, u)"
      by fastforce
    have inv': "boost_result (res_version env) x y s ?s" using inv by simp
    note app = SetMemory_Application [OF u inv' _ x0]
    have res: "R_TRY (pm_result r1) ?s (\<lambda>_. R_ABORT r2 u (\<lambda>_. (Ok (), u\<lparr>system_memory_boost_size := b\<rparr>))) = (r, t)"
      using r(1) b v True k u by (simp add: BoostSystemMemoryResourceLimit_def R_UNLESS_def Let_def)
    show ?thesis
    proof (cases r1)
      case (Inl e)
      then show ?thesis using res inv' by auto
    next
      case (Inr w)
      then show ?thesis using res r(2) app b by (cases r2) auto
    qed
  next
    case False
    obtain r2 u where u: "SetMemoryResourceLimitLimitValue env Group_Application (memory_share Group_Application s - b) s = (r2, u)"
      by fastforce
    obtain r1 k where k: "res_set_unsafe_limit env (res_kernel u) b = (r1, k)" by fastforce
    note app = SetMemory_Application [OF u inv b x0]
    have res: "R_TRY r2 u (\<lambda>_. R_ABORT (pm_result r1) (u\<lparr>res_kernel := k\<rparr>) (\<lambda>_.
        (Ok (), u\<lparr>res_kernel := k, system_memory_boost_size := b\<rparr>))) = (r, t)"
      using r(1) b v False k u by (simp add: BoostSystemMemoryResourceLimit_def R_UNLESS_def Let_def)
    show ?thesis
    proof (cases r2)
      case (Ok w)
      then show ?thesis using res r(2) app by (cases r1) auto
    next
      case (Err e)
      then show ?thesis using res app by auto
    qed (use app in auto)
  qed
qed

lemma Boost_ok:
  assumes ok: "boost_ok (res_version env) s" and r: "BoostSystemMemoryResourceLimit env b s = (r, t)" "r \<noteq> Abort"
  shows "boost_kept (res_version env) s t"
proof (cases "b \<le> memory_share Group_Application s")
  case False
  then show ?thesis using ok r by (auto simp: BoostSystemMemoryResourceLimit_def R_UNLESS_def boost_ok_result)
next
  case True
  obtain x y where "boost_result (res_version env) x y s s" using ok by (auto simp: boost_ok_result)
  then show ?thesis using Boost_before_500 [OF _ _ r(1) True] Boost_from_500 [OF _ _ r True] by (meson not_less)
qed

fun run_boosts ::
  "('r, 'k) resource_env \<Rightarrow> u64 list \<Rightarrow> 'k resource_state \<Rightarrow> 'k resource_state option" where
  "run_boosts env [] s = Some s"
| "run_boosts env (b # bs) s =
     (case BoostSystemMemoryResourceLimit env b s of
        (Abort, _) \<Rightarrow> None
      | (_, t) \<Rightarrow> run_boosts env bs t)"

lemma run_boosts_ok:
  "\<lbrakk>run_boosts env bs s = Some t; boost_ok (res_version env) s\<rbrakk> \<Longrightarrow>
    boost_ok (res_version env) t \<and> arrangement t = arrangement s \<and>
    memory_resource_limits t = memory_resource_limits s \<and> memory_limit Group_Applet t = memory_limit Group_Applet s"
proof (induction bs arbitrary: s)
  case (Cons b bs)
  obtain r u where u: "BoostSystemMemoryResourceLimit env b s = (r, u)" by fastforce
  then have r: "r \<noteq> Abort" "run_boosts env bs u = Some t" using Cons.prems(1) by (auto split: outcome.splits)
  obtain x y where k: "boost_result (res_version env) x y s u"
    using Boost_ok [OF Cons.prems(2) u r(1)] by (auto simp: boost_kept_def)
  from Cons.IH [OF r(2) boost_result_ok [OF k]] k show ?case by (simp add: boost_result_def)
qed simp

text \<open>Before 5.0.0 no answer of the kernel makes a boost abort.\<close>

lemma fst_R_TRY_Abort: "fst (R_TRY r s f) = Abort \<longleftrightarrow> r = Abort \<or> (\<exists>v. r = Ok v \<and> fst (f v) = Abort)"
  by (cases r) simp_all

lemma SetMemory_no_abort [simp]: "SetMemoryResourceLimitLimitValue env g v s \<noteq> (Abort, t)"
  using SetMemory_cases(2) [of env g v s Abort t] by auto

lemma Boost_no_abort:
  assumes "res_version env < 5"
  shows "fst (BoostSystemMemoryResourceLimit env b s) \<noteq> Abort"
  using assms
  by (auto simp: BoostSystemMemoryResourceLimit_def R_UNLESS_def Let_def fst_R_TRY_Abort split: prod.splits if_splits)

lemma run_boosts_total: "res_version env < 5 \<Longrightarrow> \<exists>t. run_boosts env bs s = Some t"
proof (induction bs arbitrary: s)
  case (Cons b bs)
  obtain r u where u: "BoostSystemMemoryResourceLimit env b s = (r, u)" by fastforce
  then have "r \<noteq> Abort" using Boost_no_abort [OF Cons.prems, of b s] by simp
  then show ?case using u Cons by (cases r) simp_all
qed simp

lemma Initialize_boost_ok:
  assumes "InitializeResourceManager env (resource_initial k) = (Ok (), s)"
  shows "boost_ok version s"
  using InitializeResourceManager_Ok(1,2) [OF assms]
  unfolding boost_ok_def by (intro exI [of _ 0]) (simp add: resource_initial_def)

subsection \<open>The shares\<close>

definition total_memory_of :: "(resource_group \<Rightarrow> u64) \<Rightarrow> nat" where
  "total_memory_of l = sum_list (map (\<lambda>g. unat (l g)) ResourceGroups)"

lemma total_memory_of_eq:
  "total_memory_of l = unat (l Group_System) + unat (l Group_Application) + unat (l Group_Applet)"
  by (simp add: total_memory_of_def ResourceGroups_def)

text \<open>Moving memory to the system keeps the total of an arrangement, when nothing wraps.\<close>

lemma move_memory_at:
  assumes "src \<noteq> Group_System"
  shows "move_memory src e b l a =
    (if a = b then (l a)(Group_System := l a Group_System + e, src := l a src - e) else l a)"
  using assms by (auto simp: move_memory_def Let_def)

lemma fold_move_memory:
  assumes "src \<noteq> Group_System"
  shows "fold (move_memory src e) MemoryArrangements l a =
    (l a)(Group_System := l a Group_System + e, src := l a src - e)"
  by (cases a) (simp_all add: MemoryArrangements_def move_memory_at [OF assms])

abbreviation moved :: "resource_group \<Rightarrow> u64 \<Rightarrow> (resource_group \<Rightarrow> u64) \<Rightarrow> resource_group \<Rightarrow> u64" where
  "moved src e l \<equiv> l(Group_System := l Group_System + e, src := l src - e)"

lemma total_memory_moved:
  assumes "src \<noteq> Group_System" "unat e \<le> unat (l src)" "total_memory_of l < 2 ^ 64"
  shows "total_memory_of (moved src e l) = total_memory_of l"
    "unat (moved src e l src) = unat (l src) - unat e"
proof -
  have src: "src = Group_Application \<or> src = Group_Applet" using assms(1) by (cases src) simp_all
  have le: "e \<le> l src" using assms(2) by (simp add: word_le_nat_alt)
  have "unat (l Group_System) + unat e < 2 ^ 64"
    using src assms(2,3) by (auto simp: total_memory_of_eq)
  then have "unat (l Group_System + e) = unat (l Group_System) + unat e" by (simp add: unat_word_ariths)
  moreover have sub: "unat (l src - e) = unat (l src) - unat e" using le by (simp add: unat_sub)
  ultimately show "total_memory_of (moved src e l) = total_memory_of l"
    using src assms(2) by (auto simp: total_memory_of_eq)
  show "unat (moved src e l src) = unat (l src) - unat e"
    using sub by simp
qed

lemma extra_sizes:
  "unat ExtraSystemMemorySize400 = 0xA00000" "unat ExtraSystemMemorySize500 = 0xC00000"
  "unat ExtraSystemMemorySizeAtmosphere = 0x1800000" "unat ExtraSystemMemorySizeAtmosphere500 = 0x2100000"
  by (simp_all add: ExtraSystemMemorySize400_def ExtraSystemMemorySize500_def ExtraSystemMemorySizeAtmosphere_def
      ExtraSystemMemorySizeAtmosphere500_def MB_def)

lemma initial_shares:
  assumes "a \<noteq> Arr_Dynamic"
  shows "0x3700000 \<le> unat (initial_memory_limits a Group_Applet)"
    "0x1800000 \<le> unat (initial_memory_limits a Group_Application)" "total_memory_of (initial_memory_limits a) < 2 ^ 64"
  using assms by (cases a; simp add: MB_def total_memory_of_eq)+

text \<open>Only two arrangements change with the version.\<close>

lemma adjusted_for_version:
  assumes "a \<noteq> Arr_Dynamic" and l: "l = adjust_memory_for_version version initial_memory_limits a"
  shows "total_memory_of l = total_memory_of (initial_memory_limits a)" "0x2100000 \<le> unat (l Group_Applet)"
    "l Group_Application = initial_memory_limits a Group_Application"
proof -
  let ?f = "initial_memory_limits a"
  note first = total_memory_moved [of Group_Applet ExtraSystemMemorySize400 ?f]
  note second = total_memory_moved [of Group_Applet ExtraSystemMemorySize500 "moved Group_Applet ExtraSystemMemorySize400 ?f"]
  have "l = ?f \<or> l = moved Group_Applet ExtraSystemMemorySize400 ?f \<or>
      l = moved Group_Applet ExtraSystemMemorySize500 (moved Group_Applet ExtraSystemMemorySize400 ?f)"
    unfolding l adjust_memory_for_version_def Let_def by (cases a) (simp_all add: move_memory_at del: initial_memory_limits.simps)
  then show "total_memory_of l = total_memory_of ?f" "0x2100000 \<le> unat (l Group_Applet)"
    "l Group_Application = ?f Group_Application"
    using first second initial_shares [OF assms(1)] by (elim disjE; simp add: extra_sizes)+
qed

lemma adjusted_total:
  assumes "version < 6" "a \<noteq> Arr_Dynamic"
  shows "total_memory_of (adjust_memory_for_atmosphere version (adjust_memory_for_version version initial_memory_limits) a) =
    total_memory_of (initial_memory_limits a)"
proof -
  define l where "l = adjust_memory_for_version version initial_memory_limits a"
  define e where "e = (if version = 5 then ExtraSystemMemorySizeAtmosphere500 else ExtraSystemMemorySizeAtmosphere)"
  define src where "src = (if version \<ge> 3 then Group_Applet else Group_Application)"
  note l = adjusted_for_version [OF assms(2) l_def]
  have src: "src \<noteq> Group_System" "unat e \<le> unat (l src)"
    using l(2,3) initial_shares(2) [OF assms(2)] by (simp_all add: src_def e_def extra_sizes)
  have "adjust_memory_for_atmosphere version (adjust_memory_for_version version initial_memory_limits) a = moved src e l"
    using assms(1) fold_move_memory [OF src(1)] by (simp add: adjust_memory_for_atmosphere_def Let_def src_def e_def l_def)
  then show ?thesis
    using total_memory_moved(1) [of src e l] src l(1) initial_shares(3) [OF assms(2)] by simp
qed

lemma boosted_total:
  assumes ok: "boost_ok version t" and total: "total_memory_of (\<lambda>g. memory_share g t) < 2 ^ 64"
    and applet: "memory_limit Group_Applet t = memory_share Group_Applet t"
  shows "total_memory_of (\<lambda>g. memory_limit g t) \<le> total_memory_of (\<lambda>g. memory_share g t)"
proof -
  obtain x y where xy: "x \<le> y" "y \<le> memory_share Group_Application t"
    "memory_limit Group_System t = memory_share Group_System t + x"
    "memory_limit Group_Application t = memory_share Group_Application t - y"
    using ok unfolding boost_ok_def by (meson order_trans)
  have "unat x \<le> unat y" "unat y \<le> unat (memory_share Group_Application t)"
    using xy(1,2) by (simp_all add: word_le_nat_alt)
  moreover have "unat (memory_limit Group_Application t) = unat (memory_share Group_Application t) - unat y"
    using xy(2,4) by (simp add: unat_sub)
  moreover have "unat (memory_limit Group_System t) \<le> unat (memory_share Group_System t) + unat x"
    using xy(3) by (simp add: unat_word_ariths)
  ultimately show ?thesis using applet by (simp add: total_memory_of_eq)
qed

subsection \<open>Waiting\<close>

text \<open>A wait ends exactly when some number of sleeps brings the value to zero or makes the query fail.\<close>

definition busy :: "('k \<Rightarrow> 'r + 64 word) \<Rightarrow> 'k \<Rightarrow> bool" where
  "busy query k \<longleftrightarrow> (case query k of Inl _ \<Rightarrow> False | Inr v \<Rightarrow> v \<noteq> 0)"

definition wait_result :: "('k \<Rightarrow> 'r + 64 word) \<Rightarrow> 'k \<Rightarrow> ('r pm_error, unit) outcome \<times> 'k" where
  "wait_result query k = (case query k of Inl _ \<Rightarrow> (Abort, k) | Inr _ \<Rightarrow> (Ok (), k))"

lemma wait_until_zero_step:
  "wait_until_zero query sleep k =
    (if busy query k then wait_until_zero query sleep (sleep k) else Some (wait_result query k))"
  by (subst wait_until_zero.simps) (auto simp: busy_def wait_result_def split: sum.splits)

text \<open>The first moment at which the wait may end, counted in sleeps, if there is one.\<close>

lemma wait_until_zero_first:
  "\<lbrakk>\<not> busy query ((sleep ^^ n) k); \<forall>m<n. busy query ((sleep ^^ m) k)\<rbrakk> \<Longrightarrow>
    wait_until_zero query sleep k = Some (wait_result query ((sleep ^^ n) k))"
proof (induction n arbitrary: k)
  case 0
  then show ?case by (subst wait_until_zero_step) simp
next
  case (Suc n)
  have "busy query k" using Suc.prems(2) by (metis funpow_0 zero_less_Suc)
  moreover have "\<not> busy query ((sleep ^^ n) (sleep k))" "\<forall>m<n. busy query ((sleep ^^ m) (sleep k))"
    using Suc.prems by (metis funpow_simps_right(2) comp_apply, metis Suc_mono funpow_simps_right(2) comp_apply)
  ultimately show ?case using Suc.IH [of "sleep k"]
    by (subst wait_until_zero_step) (simp add: funpow_swap1)
qed

lemma wait_until_zero_never:
  assumes "\<forall>n. busy query ((sleep ^^ n) k)"
  shows "wait_until_zero query sleep k = None"
proof (rule ccontr)
  assume "wait_until_zero query sleep k \<noteq> None"
  then obtain y where y: "wait_until_zero query sleep k = Some y" by blast
  have "\<exists>n. \<not> busy query ((sleep ^^ n) k)"
  proof (rule wait_until_zero.raw_induct [OF _ y, where P = "\<lambda>query sleep k _. \<exists>n. \<not> busy query ((sleep ^^ n) k)"])
    fix w :: "('k \<Rightarrow> 'r + 64 word) \<Rightarrow> ('k \<Rightarrow> 'k) \<Rightarrow> 'k \<Rightarrow> (('r pm_error, unit) outcome \<times> 'k) option"
      and query :: "'k \<Rightarrow> 'r + 64 word" and sleep k y
    assume ih: "\<And>query sleep k y. w query sleep k = Some y \<Longrightarrow> \<exists>n. \<not> busy query ((sleep ^^ n) k)"
      and body: "(case query k of Inl e \<Rightarrow> Some (Abort, k)
        | Inr v \<Rightarrow> if v = 0 then Some (Ok (), k) else w query sleep (sleep k)) = Some y"
    show "\<exists>n. \<not> busy query ((sleep ^^ n) k)"
    proof (cases "busy query k")
      case False
      then show ?thesis by (intro exI [of _ 0]) simp
    next
      case True
      then have "w query sleep (sleep k) = Some y" using body by (auto simp: busy_def split: sum.splits)
      then obtain n where "\<not> busy query ((sleep ^^ n) (sleep k))" using ih by blast
      then show ?thesis by (intro exI [of _ "Suc n"]) (simp add: funpow_swap1)
    qed
  qed
  then show False using assms by blast
qed

end
