(* ===== verification/PmProps.thy ===== *)
theory PmProps
  imports PmEvents PmBoost
begin

text \<open>The properties of the process manager and of its resource limits.\<close>

subsection \<open>A concrete system\<close>

text \<open>
  A kernel whose state is the pair of the state it reports for every process and the last
  handle it gave out; registering a process with \<open>sm\<close> fails for program 13, and program 1 is
  an application.
\<close>

definition demo_info :: "u64 \<Rightarrow> program_info" where
  "demo_info p =
     \<lparr>pi_main_thread_priority = 44, pi_default_cpu_id = 0, pi_main_thread_stack_size = 0x1000,
      pi_program_id = p, pi_acid_sac_size = 0, pi_aci_sac_size = 0, pi_acid_fac_size = 0,
      pi_aci_fah_size = 0, pi_ac_buffer = [], pi_flags = (if p = 1 then 1 else 0)\<rparr>"

definition demo_resource_env :: "nat \<Rightarrow> (nat, process_state \<times> u32) resource_env" where
  "demo_resource_env version =
     \<lparr>res_version = version, res_set_limit = (\<lambda>k h r v. (Inr (), k)), res_limit_value = (\<lambda>k h r. Inr 0x1000),
      res_current_value = (\<lambda>k h r. Inr 0), res_set_unsafe_limit = (\<lambda>k v. (Inr (), k)),
      res_system_limit_handle = (\<lambda>k. Inr 1), res_create_limit = (\<lambda>k. (Inr 2, k)),
      res_total_memory = (\<lambda>k g. Inr 0), res_used_application_memory = (\<lambda>k. Inr 0), res_sleep = (\<lambda>k. k),
      res_spl_arrangement = (\<lambda>k. Arr_Standard), res_application_type_mask = 3, res_application = 1,
      res_applet = 2\<rparr>"

definition demo_pm_env :: "nat \<Rightarrow> (nat, bool, process_state \<times> u32) pm_env" where
  "demo_pm_env version =
     \<lparr>pm_resource = demo_resource_env version, pm_invalid_handle = 0, pm_allow_debug_flag = 4,
      pm_ldr_enable_debug = 1, pm_ldr_disable_aslr = 2, pm_recovery_boot = False, pm_disabled_verification = False,
      ldr_get_program_info = (\<lambda>k loc. (Inr (demo_info (loc_program_id loc), False), k)),
      ldr_pin_program = (\<lambda>k loc st. (Inr 1, k)), ldr_unpin_program = (\<lambda>k p. k),
      ldr_create_process = (\<lambda>(st, n) pin f h. (Inr (n + 1), (st, n + 1))),
      ldr_set_verification = (\<lambda>k b. k),
      fs_register_program = (\<lambda>k pid loc a b. (Inr (), k)), fs_unregister_program = (\<lambda>k pid. k),
      fs_set_verification = (\<lambda>k b. k),
      sm_register_process = (\<lambda>k pid prog st a b. (if prog = 13 then Inl 7 else Inr (), k)),
      sm_unregister_process = (\<lambda>k pid. k), svc_process_id = (\<lambda>k h. ucast h + 0x50),
      svc_start_process = (\<lambda>k h p c n. (Inr (), k)), svc_terminate_process = (\<lambda>k h. (Inr (), k)),
      svc_reset_signal = (\<lambda>k h. k), svc_process_state = (\<lambda>(st, n) h. Inr st), svc_close_handle = (\<lambda>k h. k),
      boot2_launch = (\<lambda>k. k)\<rparr>"

definition demo_pm_state :: "process_state \<Rightarrow> (bool, process_state \<times> u32) pm_state" where
  "demo_pm_state st = pm_initial (resource_initial (st, 0))"

definition demo_program :: "u64 \<Rightarrow> program_location" where
  "demo_program p = \<lparr>loc_program_id = p, loc_storage_id = 3\<rparr>"

lemma demo_wait: "wait_until_zero (\<lambda>k. Inr 0) sleep k = Some (Ok (), k)"
  by (simp add: wait_until_zero.simps)

lemma demo_available:
  "WaitResourceAvailable (demo_resource_env v) info s = Some (Ok (), s)"
  by (simp add: WaitResourceAvailable_def LimitableResources_def demo_resource_env_def demo_wait
      WaitApplicationMemoryAvailable_def)

subsection \<open>Launching\<close>

lemma launch_hooks_launched:
  assumes r: "launch_hooks env fl info loc i s = (Ok (), t)" and i: "i < length (storages s)"
    and st: "pr_state (proc s i) = State_Created"
  shows "process_list t = process_list s" "dead_process_list t = dead_process_list s"
    "\<And>j. j \<noteq> i \<Longrightarrow> proc t j = proc s j"
    "pr_process_id (proc t i) = pr_process_id (proc s i)" "pr_loc (proc t i) = pr_loc (proc s i)"
    "HasFlag f (proc t i) = HasFlag f (proc s i)"
    "if loc_program_id loc = program_id_hook s
     then \<not> HasStarted (proc t i) \<and> program_id_hook t = InvalidProgramId \<and> application_hook t = application_hook s \<and>
       hook_event_signaled t
     else if GetResourceLimitGroup (pm_resource env) info = Group_Application \<and> application_hook s
     then \<not> HasStarted (proc t i) \<and> program_id_hook t = program_id_hook s \<and> \<not> application_hook t \<and>
       application_hook_event_signaled t
     else HasStarted (proc t i) = (\<not> Should env StartSuspended fl) \<and> program_id_hook t = program_id_hook s \<and>
       application_hook t = application_hook s"
  using assms
  by (auto simp: launch_hooks_def start_process_def Let_def HasStarted_def SetState_def HasFlag_def upd_proc_def
      put_proc_def with_k_def proc_def split: if_splits prod.splits)

text \<open>
  What a launch promises about slot \<open>i\<close>: it is the last of the living processes, the others are
  untouched, and it waits for its debugger when a hook was set for it.
\<close>

definition launched ::
  "('r, 'o, 'k) pm_env \<Rightarrow> u32 \<Rightarrow> program_info \<Rightarrow> u64 \<Rightarrow> nat \<Rightarrow> ('o, 'k) pm_state \<Rightarrow> ('o, 'k) pm_state \<Rightarrow> bool" where
  "launched env fl info process_id i s t \<longleftrightarrow>
     process_list t = process_list s @ [i] \<and> dead_process_list t = dead_process_list s \<and>
     i \<notin> set (process_list s @ dead_process_list s) \<and>
     list_all (\<lambda>j. proc t j = proc s j) (process_list s @ dead_process_list s) \<and>
     pr_process_id (proc t i) = process_id \<and> loc_program_id (pr_loc (proc t i)) = pi_program_id info \<and>
     IsApplicationProcess t i = (GetResourceLimitGroup (pm_resource env) info = Group_Application) \<and>
     (if pi_program_id info = program_id_hook s
      then \<not> HasStarted (proc t i) \<and> program_id_hook t = InvalidProgramId \<and> application_hook t = application_hook s \<and>
        hook_event_signaled t
      else if GetResourceLimitGroup (pm_resource env) info = Group_Application \<and> application_hook s
      then \<not> HasStarted (proc t i) \<and> program_id_hook t = program_id_hook s \<and> \<not> application_hook t \<and>
        application_hook_event_signaled t
      else HasStarted (proc t i) = (\<not> Should env StartSuspended fl) \<and> program_id_hook t = program_id_hook s \<and>
        application_hook t = application_hook s)"

lemma launched_resources:
  "launched env fl info pid i ((with_k k s)\<lparr>pm_resources := r\<rparr>) t = launched env fl info pid i s t" (is "launched _ _ _ _ _ ?s t = _")
proof -
  have same: "process_list ?s = process_list s" "dead_process_list ?s = dead_process_list s"
    "program_id_hook ?s = program_id_hook s" "application_hook ?s = application_hook s" "proc ?s j = proc s j" for j
    by (simp_all add: with_k_def proc_def)
  show ?thesis by (simp only: launched_def same)
qed

lemma launch_pinned_launched:
  assumes ok: "pm_ok env s" and id: "loc_program_id loc = pi_program_id info"
    and r: "launch_pinned env fl info loc st pin s = (Ok pid, t)"
  shows "\<exists>i. launched env fl info pid i s t"
proof -
  obtain h k i where k: "ldr_create_process env (pm_k s) pin (GetLoaderCreateProcessFlags env fl)
      (GetResourceLimitHandle (GetResourceLimitGroup (pm_resource env) info) (pm_resources s)) = (Inr h, k)"
    and i: "AllocateProcessInfoStorage (with_k k s) = Some i"
    using r by (auto simp: launch_pinned_def Let_def pm_result_def split: prod.splits sum.splits option.splits)
  define p where "p = (ProcessInfo_new h (svc_process_id env k h) pin loc st)\<lparr>pr_linked := True\<rparr>"
  define s1 where "s1 = (put_proc i p (with_k k s))\<lparr>process_list := process_list s @ [i]\<rparr>"
  have "pm_ok env (with_k k s)" using ok by simp
  note push = pm_ok_push [OF this i, of p]
  have p: "slot_ok env p" "\<not> HasFlag Flag_Application p" "pr_state p = State_Created"
    by (simp_all add: p_def slot_ok_def ProcessInfo_new_def HasFlag_def)
  have new: "i \<notin> set (process_list s @ dead_process_list s)" "i < length (storages s)"
    using push(2,3) p by simp_all
  have g: "launch_guarded env fl info loc st (svc_process_id env k h) i s1 = (Ok pid, t)"
    using r by (simp add: launch_pinned_def k i s1_def p_def Let_def)
  then have pid: "pid = svc_process_id env k h"
    and reg: "launch_registered env fl info loc st pid i s1 = (Ok (), t)"
    by (auto simp: launch_guarded_def Let_def R_TRY_def split: prod.splits outcome.splits)
  let ?a = "GetResourceLimitGroup (pm_resource env) info = Group_Application"
  obtain k2 d where hooks: "launch_hooks env fl info loc i
      (upd_proc i (set_launch_flags env fl ?a d) (with_k k2 s1)) = (Ok (), t)" (is "launch_hooks _ _ _ _ _ ?u = _")
    using launch_registered_cases [of env fl info loc st pid i s1] reg by auto
  have s1: "process_list s1 = process_list s @ [i]" "dead_process_list s1 = dead_process_list s"
    "proc s1 i = p" "storages s1 = (storages s)[i := Some p]" "\<And>j. j \<noteq> i \<Longrightarrow> proc s1 j = proc s j"
    "program_id_hook s1 = program_id_hook s" "application_hook s1 = application_hook s"
    using new(2) by (simp_all add: s1_def proc_def) (simp_all add: put_proc_def with_k_def)
  have u: "i < length (storages ?u)" "proc ?u i = set_launch_flags env fl ?a d p"
    "\<And>j. j \<noteq> i \<Longrightarrow> proc ?u j = proc s j" "program_id_hook ?u = program_id_hook s" "application_hook ?u = application_hook s"
    using new(2) s1 by (simp_all add: upd_proc_def) (simp_all add: put_proc_def with_k_def)
  then have "pr_state (proc ?u i) = State_Created" using p(3) by simp
  note l = launch_hooks_launched [OF hooks u(1) this]
  have other: "proc t j = proc s j" if "j \<in> set (process_list s @ dead_process_list s)" for j
    using l(3) [of j] u(3) [of j] that new(1) by metis
  have "launched env fl info pid i s t"
    unfolding launched_def
  proof (intro conjI)
    show "list_all (\<lambda>j. proc t j = proc s j) (process_list s @ dead_process_list s)"
      using other by (simp only: list_all_iff) blast
    show "IsApplicationProcess t i = ?a"
      using l(6) [of Flag_Application] u(2) p(2) by (simp add: IsApplicationProcess_def set_launch_flags_application)
    show "pr_process_id (proc t i) = pid" using l(4) u(2) by (simp add: p_def ProcessInfo_new_def pid)
    show "loc_program_id (pr_loc (proc t i)) = pi_program_id info"
      using l(5) u(2) by (simp add: p_def ProcessInfo_new_def id)
    show "process_list t = process_list s @ [i]" "dead_process_list t = dead_process_list s"
      using l(1,2) s1(1,2) by simp_all
    show "i \<notin> set (process_list s @ dead_process_list s)" by (rule new(1))
  qed (use l(7) in \<open>simp only: u(4,5) id\<close>)
  then show ?thesis by blast
qed

lemma LaunchProcess_Ok:
  assumes "LaunchProcess env loc fl s = Some (Ok pid, t)"
  obtains info st k pin k' res where
    "ldr_get_program_info env (pm_k s) loc = (Inr (info, st), k)"
    "\<not> (GetResourceLimitGroup (pm_resource env) info = Group_Application \<and> HasApplicationProcess s)"
    "launch_pinned env fl info (loc\<lparr>loc_program_id := pi_program_id info\<rparr>) st pin
       ((with_k k' s)\<lparr>pm_resources := res\<rparr>) = (Ok pid, t)"
  using assms
  by (force simp: LaunchProcess_def Let_def split: prod.splits sum.splits if_splits option.splits)

subsection \<open>Demonstrations\<close>

definition demo_results ::
  "nat \<Rightarrow> u64 \<Rightarrow> u32 \<Rightarrow> ((nat pm_error, u64) outcome \<times> nat list \<times> bool list) option" where
  "demo_results v p fl =
     map_option (\<lambda>(r, t). (r, process_list t, map (\<lambda>i. HasStarted (proc t i)) (process_list t)))
       (LaunchProcess (demo_pm_env v) (demo_program p) fl (demo_pm_state State_Running))"

lemma demo_launched: "demo_results 9 1 0 = Some (Ok 0x51, [0], [True])"
  by code_simp

lemma demo_launch_failed: "demo_results 9 13 0 = Some (Err (KernelFailure 7), [], [])"
  by code_simp

lemma demo_result_state:
  assumes "demo_results v p fl = Some (r, l, b)"
  obtains t where
    "LaunchProcess (demo_pm_env v) (demo_program p) fl (demo_pm_state State_Running) = Some (r, t)"
    "process_list t = l" "map (\<lambda>i. HasStarted (proc t i)) l = b"
  using assms by (auto simp: demo_results_def)

lemma demo_reachable: "pm_reachable (demo_pm_env v) (resource_initial (State_Running, 0)) (demo_pm_state State_Running)"
  unfolding demo_pm_state_def by (rule pm_reachable.start)

text \<open>The application of the demonstration, launched and still running.\<close>

lemma demo_running:
  "\<exists>t. pm_reachable (demo_pm_env 9) (resource_initial (State_Running, 0)) t \<and> process_list t = [0] \<and>
     HasStarted (proc t 0)"
proof -
  obtain t where t: "LaunchProcess (demo_pm_env 9) (demo_program 1) 0 (demo_pm_state State_Running) = Some (Ok 0x51, t)"
    "process_list t = [0]" "map (\<lambda>i. HasStarted (proc t i)) [0] = [True]"
    by (rule demo_result_state [OF demo_launched])
  have "pm_call (demo_pm_env 9) (Do_Launch (demo_program 1) 0) (demo_pm_state State_Running) = Some (Ok (), t)"
    by (simp add: t(1) forget_def)
  from pm_reachable.step [OF demo_reachable this] t(2,3) show ?thesis by auto
qed

subsection \<open>The process lists\<close>

text \<open>
  C23. In every reachable state the living and the dead processes are distinct and are exactly
  the allocated entries, at most one living process is an application, a dead process has
  given up its handle, and neither reporting an event nor cleaning up a process aborts.
\<close>

theorem reachable_process_lists:
  assumes "pm_reachable env res s"
  shows "distinct (process_list s @ dead_process_list s) \<and>
    set (process_list s @ dead_process_list s) = {i. i < MaxProcessCount \<and> storages s ! i \<noteq> None} \<and>
    length (filter (IsApplicationProcess s) (process_list s)) \<le> 1 \<and>
    list_all (\<lambda>i. pr_handle (proc s i) = pm_invalid_handle env) (dead_process_list s) \<and>
    fst (GetProcessEventInfo env s) \<noteq> Abort \<and> fst (CleanupProcess env process_id s) \<noteq> Abort"
proof -
  note ok = pm_reachable_ok [OF assms]
  have "set (process_list s @ dead_process_list s) = {i. i < MaxProcessCount \<and> storages s ! i \<noteq> None}"
    using ok unfolding pm_ok_def by blast
  moreover have "list_all (\<lambda>i. pr_handle (proc s i) = pm_invalid_handle env) (dead_process_list s)"
    using ok unfolding pm_ok_def list_all_iff by blast
  moreover have "distinct (process_list s @ dead_process_list s)"
    "length (filter (IsApplicationProcess s) (process_list s)) \<le> 1"
    using ok unfolding pm_ok_def by blast+
  moreover have "fst (GetProcessEventInfo env s) \<noteq> Abort" using GetProcessEventInfo_ok [OF ok] by auto
  ultimately show ?thesis using CleanupProcess_ok(2) [OF ok] by blast
qed

lemma reachable_process_lists_witness:
  "\<exists>s. process_list s = [0] \<and> set (process_list s @ dead_process_list s) =
     {i. i < MaxProcessCount \<and> storages s ! i \<noteq> None} \<and> fst (GetProcessEventInfo (demo_pm_env 9) s) \<noteq> Abort"
  using demo_running reachable_process_lists [where process_id = 0] by blast

subsection \<open>Properties of a launch\<close>

text \<open>
  C24. A launch that fails, at any of its steps, changes nothing but the services and the kernel
  outside: no slot stays allocated, no list entry is left, no hook is consumed.
\<close>

theorem failed_launch_changes_nothing:
  assumes "pm_reachable env res s" and "LaunchProcess env loc launch_flags s = Some (Err e, t)"
  shows "t = with_k (pm_k t) s"
  using LaunchProcess_ok [OF pm_reachable_ok [OF assms(1)] assms(2)] by auto

lemma failed_launch_changes_nothing_witness:
  "map_option (\<lambda>(r, t). r = Err (KernelFailure 7) \<and> t = with_k (pm_k t) (demo_pm_state State_Running))
     (LaunchProcess (demo_pm_env 9) (demo_program 13) 0 (demo_pm_state State_Running)) = Some True"
proof -
  obtain t where t: "LaunchProcess (demo_pm_env 9) (demo_program 13) 0 (demo_pm_state State_Running) =
      Some (Err (KernelFailure 7), t)"
    by (rule demo_result_state [OF demo_launch_failed])
  show ?thesis using failed_launch_changes_nothing [OF demo_reachable t] by (simp add: t)
qed

text \<open>
  C25. A launch that succeeds appends one new process and leaves the others as they were; a
  second application is never launched; a process its program's hook or the application hook
  waits for stays unstarted for its debugger, and the hook is consumed with its event
  signaled; any other process is started unless the caller asked for it to be suspended.
\<close>

theorem launch_appends_one_process:
  assumes "pm_reachable env res s" and "LaunchProcess env loc launch_flags s = Some (Ok process_id, t)"
  shows "\<exists>info st k i. ldr_get_program_info env (pm_k s) loc = (Inr (info, st), k) \<and>
    \<not> (GetResourceLimitGroup (pm_resource env) info = Group_Application \<and> HasApplicationProcess s) \<and>
    launched env launch_flags info process_id i s t"
  using assms(2)
proof (rule LaunchProcess_Ok)
  fix info st k pin k' r
  let ?s = "(with_k k' s)\<lparr>pm_resources := r\<rparr>"
  assume info: "ldr_get_program_info env (pm_k s) loc = (Inr (info, st), k)"
    and app: "\<not> (GetResourceLimitGroup (pm_resource env) info = Group_Application \<and> HasApplicationProcess s)"
    and l: "launch_pinned env launch_flags info (loc\<lparr>loc_program_id := pi_program_id info\<rparr>) st pin ?s = (Ok process_id, t)"
  have "pm_ok env ?s" by (rule pm_ok_tables [OF pm_reachable_ok [OF assms(1)]]) simp
  then obtain i where "launched env launch_flags info process_id i ?s t"
    using launch_pinned_launched [OF _ _ l] by auto
  then have "launched env launch_flags info process_id i s t" by (simp only: launched_resources)
  then show ?thesis using info app by blast
qed

lemma launch_appends_one_process_witness:
  "\<exists>info st k i t. ldr_get_program_info (demo_pm_env 9) (State_Running, 0) (demo_program 1) = (Inr (info, st), k) \<and>
     launched (demo_pm_env 9) 0 info 0x51 i (demo_pm_state State_Running) t \<and> process_list t = [0]"
proof -
  obtain t where t: "LaunchProcess (demo_pm_env 9) (demo_program 1) 0 (demo_pm_state State_Running) = Some (Ok 0x51, t)"
    "process_list t = [0]"
    by (rule demo_result_state [OF demo_launched])
  have k: "pm_k (demo_pm_state State_Running) = (State_Running, 0)"
    by (simp add: demo_pm_state_def pm_initial_def resource_initial_def)
  show ?thesis using launch_appends_one_process [OF demo_reachable t(1)] t(2) unfolding k by blast
qed

subsection \<open>Events\<close>

fun demo_run ::
  "('r, 'o, 'k) pm_env \<Rightarrow> pm_cmd list \<Rightarrow> ('o, 'k) pm_state \<Rightarrow> ('o, 'k) pm_state option" where
  "demo_run env [] s = Some s"
| "demo_run env (c # cs) s = Option.bind (pm_call env c s) (\<lambda>(r, t). demo_run env cs t)"

lemma demo_run_reachable:
  "\<lbrakk>demo_run env cs s = Some t; pm_reachable env res s\<rbrakk> \<Longrightarrow> pm_reachable env res t"
proof (induction cs arbitrary: s)
  case (Cons c cs)
  then show ?case by (auto simp: bind_eq_Some_conv intro: pm_reachable.step)
qed simp

text \<open>Two programs whose exits are to be reported die, the second one first.\<close>

definition demo_exits :: "pm_cmd list" where
  "demo_exits = [Do_Launch (demo_program 2) 1, Do_Launch (demo_program 3) 1, Do_Signaled 1, Do_Signaled 0]"

lemma demo_exits_drained:
  "map_option (\<lambda>s. (process_list s, dead_process_list s, fst (drain_events (demo_pm_env 9) 2 s)))
     (demo_run (demo_pm_env 9) demo_exits (demo_pm_state State_Terminated)) =
   Some ([], [1, 0], [(Event_Exited, 0x52), (Event_Exited, 0x51)])"
  by code_simp

text \<open>
  C26. From 5.0.0, a client that asks for events until there are none needs no more questions
  than there are pending events, at most three for a living and one for a dead process; on the
  way it hears of every dead process exactly once, in the order of their deaths, and afterwards
  nothing is pending.
\<close>

theorem event_queue_drains:
  assumes "pm_reachable env res s" and "5 \<le> pm_version env"
    and "drain_events env (3 * length (process_list s) + length (dead_process_list s)) s = (events, t)"
  shows "filter (\<lambda>x. fst x = Event_Exited) events =
      map (\<lambda>i. (Event_Exited, pr_process_id (proc s i))) (dead_process_list s) \<and>
    length events \<le> 3 * length (process_list s) + length (dead_process_list s) \<and>
    GetProcessEventInfo env t = (Ok (Event_None, 0), t)"
  using drain_events_weight [OF assms(2) pm_reachable_ok [OF assms(1)] events_weight_le assms(3)]
  by (simp add: exits_def)

lemma event_queue_drains_witness:
  "\<exists>s events t. drain_events (demo_pm_env 9) 2 s = (events, t) \<and> events = [(Event_Exited, 0x52), (Event_Exited, 0x51)] \<and>
     filter (\<lambda>x. fst x = Event_Exited) events = map (\<lambda>i. (Event_Exited, pr_process_id (proc s i))) [1, 0] \<and>
     GetProcessEventInfo (demo_pm_env 9) t = (Ok (Event_None, 0), t)"
proof -
  obtain s where s: "demo_run (demo_pm_env 9) demo_exits (demo_pm_state State_Terminated) = Some s"
    and l: "process_list s = []" "dead_process_list s = [1, 0]"
    and d: "fst (drain_events (demo_pm_env 9) 2 s) = [(Event_Exited, 0x52), (Event_Exited, 0x51)]"
    using demo_exits_drained by auto
  obtain events t where e: "drain_events (demo_pm_env 9) 2 s = (events, t)" by fastforce
  have r: "pm_reachable (demo_pm_env 9) (resource_initial (State_Terminated, 0)) s"
    by (rule demo_run_reachable [OF s]) (simp add: demo_pm_state_def pm_reachable.start)
  have v: "5 \<le> pm_version (demo_pm_env 9)" by (simp add: demo_pm_env_def demo_resource_env_def)
  have e': "drain_events (demo_pm_env 9) (3 * length (process_list s) + length (dead_process_list s)) s = (events, t)"
    unfolding l by (simp only: list.size mult_0_right add_0 add_0_right One_nat_def add_Suc_right e [unfolded numeral_2_eq_2])
  show ?thesis using event_queue_drains [OF r v e'] e d l by auto
qed

subsection \<open>Resource limits\<close>

text \<open>
  C27. Before 5.0.0, whatever requests the kernel refuses and however often the memory of the
  system is boosted, the memory limits of the three groups never promise more than the
  arrangement's table has: neither the adjustments to the version nor a boost that is left
  half-way over-commit the memory.
\<close>

theorem boosts_never_over_commit:
  assumes "InitializeResourceManager env (resource_initial k) = (Ok (), s)"
    and "res_version env < 5" and "arrangement s \<noteq> Arr_Dynamic"
  shows "\<exists>t. run_boosts env sizes s = Some t \<and>
    total_memory_of (\<lambda>g. resource_limits t g PhysicalMemoryMax) \<le> total_memory_of (initial_memory_limits (arrangement s))"
proof -
  obtain t where t: "run_boosts env sizes s = Some t" using run_boosts_total [OF assms(2)] by blast
  note init = InitializeResourceManager_Ok [OF assms(1)]
  have run: "boost_ok (res_version env) t" "arrangement t = arrangement s"
    "memory_resource_limits t = memory_resource_limits s" "memory_limit Group_Applet t = memory_limit Group_Applet s"
    using run_boosts_ok [OF t Initialize_boost_ok [OF assms(1)]] by blast+
  have "(\<lambda>g. memory_share g t) = adjust_memory_for_atmosphere (res_version env)
      (adjust_memory_for_version (res_version env) initial_memory_limits) (arrangement s)"
    using init(3) assms(2) run(2,3) by (simp add: resource_initial_def)
  then have share: "total_memory_of (\<lambda>g. memory_share g t) = total_memory_of (initial_memory_limits (arrangement s))"
    using adjusted_total assms(2,3) by simp
  have "memory_limit Group_Applet t = memory_share Group_Applet t" using init(1) run(2-4) by simp
  then show ?thesis using boosted_total [OF run(1)] share initial_shares(3) [OF assms(3)] t by simp
qed

text \<open>A kernel that refuses every second request once the limits are set.\<close>

definition demo_refusing_env :: "(nat, nat) resource_env" where
  "demo_refusing_env =
     \<lparr>res_version = 4, res_set_limit = (\<lambda>k h r v. (if k \<ge> 15 \<and> odd k then Inl 3 else Inr (), k + 1)),
      res_limit_value = (\<lambda>k h r. Inr 0x1000), res_current_value = (\<lambda>k h r. Inr 0), res_set_unsafe_limit = (\<lambda>k v. (Inr (), k)),
      res_system_limit_handle = (\<lambda>k. Inr 1), res_create_limit = (\<lambda>k. (Inr 2, k)),
      res_total_memory = (\<lambda>k g. Inr 0), res_used_application_memory = (\<lambda>k. Inr 0), res_sleep = (\<lambda>k. k),
      res_spl_arrangement = (\<lambda>k. Arr_Expanded), res_application_type_mask = 3, res_application = 1,
      res_applet = 2\<rparr>"

lemma demo_initialized: "\<exists>s. InitializeResourceManager demo_refusing_env (resource_initial 0) = (Ok (), s)"
  by (simp add: InitializeResourceManager_def demo_refusing_env_def ResourceGroups_def choose_arrangement_def
      SetResourceLimitLimitValues_def SetMemoryResourceLimitLimitValue_def LimitableResources_def resource_initial_def)

lemma boosts_never_over_commit_witness:
  "\<exists>s t. InitializeResourceManager demo_refusing_env (resource_initial 0) = (Ok (), s) \<and>
     run_boosts demo_refusing_env [0x1000000, 0x800000, 0x2000000] s = Some t \<and>
     total_memory_of (\<lambda>g. resource_limits t g PhysicalMemoryMax) \<le> total_memory_of (initial_memory_limits (arrangement s))"
proof -
  obtain s where s: "InitializeResourceManager demo_refusing_env (resource_initial 0) = (Ok (), s)"
    using demo_initialized by blast
  have v: "res_version demo_refusing_env < 5" by (simp add: demo_refusing_env_def)
  have "arrangement s \<noteq> Arr_Dynamic"
    using InitializeResourceManager_Ok(4) [OF s] by (auto simp: demo_refusing_env_def)
  from boosts_never_over_commit [OF s v this] s show ?thesis by blast
qed

text \<open>
  From 5.0.0, after any boosts that did not abort, the application has exactly its share
  less the recorded boost, and the boost never exceeds the share.
\<close>

theorem boost_comes_from_application:
  assumes "InitializeResourceManager env (resource_initial k) = (Ok (), s)" and "run_boosts env sizes s = Some t"
    and "5 \<le> res_version env"
  shows "resource_limits t Group_Application PhysicalMemoryMax =
      memory_resource_limits s (arrangement s) Group_Application - system_memory_boost_size t \<and>
    system_memory_boost_size t \<le> memory_resource_limits s (arrangement s) Group_Application"
  using run_boosts_ok [OF assms(2) Initialize_boost_ok [OF assms(1)]] assms(3) by (auto simp: boost_ok_def)

lemma demo_boosted:
  "\<exists>s t. InitializeResourceManager (demo_resource_env 5) (resource_initial (State_Running, 0)) = (Ok (), s) \<and>
     run_boosts (demo_resource_env 5) [0x1000] s = Some t"
proof -
  have "\<exists>s. InitializeResourceManager (demo_resource_env 5) (resource_initial (State_Running, 0)) = (Ok (), s)"
    by (simp add: InitializeResourceManager_def demo_resource_env_def ResourceGroups_def choose_arrangement_def
        SetResourceLimitLimitValues_def SetMemoryResourceLimitLimitValue_def LimitableResources_def resource_initial_def)
  moreover have "\<exists>t. run_boosts (demo_resource_env 5) [0x1000] s = Some t" for s
    by (simp add: BoostSystemMemoryResourceLimit_def R_UNLESS_def Let_def SetMemoryResourceLimitLimitValue_def
        demo_resource_env_def)
  ultimately show ?thesis by blast
qed

lemma boost_comes_from_application_witness:
  "\<exists>s t. run_boosts (demo_resource_env 5) [0x1000] s = Some t \<and>
     resource_limits t Group_Application PhysicalMemoryMax =
       memory_resource_limits s (arrangement s) Group_Application - system_memory_boost_size t"
proof -
  obtain s t where s: "InitializeResourceManager (demo_resource_env 5) (resource_initial (State_Running, 0)) = (Ok (), s)"
    and t: "run_boosts (demo_resource_env 5) [0x1000] s = Some t"
    using demo_boosted by blast
  have "5 \<le> res_version (demo_resource_env 5)" by (simp add: demo_resource_env_def)
  from boost_comes_from_application [OF s t this] t show ?thesis by blast
qed

text \<open>
  C28. The wait for the application's memory ends after exactly as many sleeps as it takes
  until the kernel reports zero or fails to report, with success or an abort accordingly;
  when there is no such moment it never ends.
\<close>

theorem wait_ends_when_memory_is_free:
  "WaitApplicationMemoryAvailable env k =
    (let query = res_used_application_memory env; later = (\<lambda>n. (res_sleep env ^^ n) k)
     in if \<exists>n. \<not> busy query (later n) then Some (wait_result query (later (LEAST n. \<not> busy query (later n)))) else None)"
proof -
  let ?busy = "\<lambda>n. busy (res_used_application_memory env) ((res_sleep env ^^ n) k)"
  show ?thesis
  proof (cases "\<exists>n. \<not> ?busy n")
    case True
    then have "\<not> ?busy (LEAST n. \<not> ?busy n)" "\<forall>m < (LEAST n. \<not> ?busy n). ?busy m"
      using LeastI_ex [of "\<lambda>n. \<not> ?busy n"] not_less_Least [where P = "\<lambda>n. \<not> ?busy n"] by blast+
    from wait_until_zero_first [OF this] show ?thesis
      using True by (simp add: WaitApplicationMemoryAvailable_def Let_def)
  next
    case False
    then show ?thesis using wait_until_zero_never
      by (simp add: WaitApplicationMemoryAvailable_def Let_def)
  qed
qed

end
