(* ===== verification/RomTable.thy ===== *)
theory RomTable
  imports NX_Prelude
begin

text \<open>
  The tables of a ROM file system (\<open>rnx_mitm/source/fs_mitm/fsmitm_romfs.cpp\<close>): the entries as
  bytes, the reader of a table behind a cache and its writer behind a cache with a second buffer
  for an entry that crosses the end of the first. \<open>None\<close> is an abort: the file accepts every access
  within its bounds, and an access outside of them aborts.
\<close>

definition EmptyEntry :: u32 where "EmptyEntry = 0xFFFFFFFF"
definition FilePartitionOffset :: nat where "FilePartitionOffset = 0x200"
definition MaxCachedSize :: nat where "MaxCachedSize = 0x40000"
definition FallbackCacheSize :: nat where "FallbackCacheSize = 0x400"

definition AlignUp :: "nat \<Rightarrow> nat \<Rightarrow> nat" where
  "AlignUp n a = (n + (a - 1)) div a * a"

subsection \<open>Entries\<close>

definition word_bytes :: "nat \<Rightarrow> 'a::len word \<Rightarrow> u8 list" where
  "word_bytes n v = map (\<lambda>i. ucast (drop_bit (8 * i) v)) [0..<n]"

fun bytes_word :: "u8 list \<Rightarrow> 'a::len word" where
  "bytes_word [] = 0"
| "bytes_word (b # bs) = ucast b OR push_bit 8 (bytes_word bs)"

record rom_header =
  header_size :: u64
  dir_hash_table_ofs :: u64
  dir_hash_table_size :: u64
  dir_table_ofs :: u64
  dir_table_size :: u64
  file_hash_table_ofs :: u64
  file_hash_table_size :: u64
  file_table_ofs :: u64
  file_table_size :: u64
  file_partition_ofs :: u64

record dir_entry =
  de_parent :: u32
  de_sibling :: u32
  de_child :: u32
  de_file :: u32
  de_hash :: u32
  de_name :: "u8 list"

record file_entry =
  fe_parent :: u32
  fe_sibling :: u32
  fe_offset :: u64
  fe_size :: u64
  fe_hash :: u32
  fe_name :: "u8 list"

definition DirectoryEntry_size :: nat where "DirectoryEntry_size = 0x18"
definition FileEntry_size :: nat where "FileEntry_size = 0x20"
definition Header_size :: nat where "Header_size = 0x50"

text \<open>The name is followed by zeros up to a multiple of four.\<close>

definition name_bytes :: "u8 list \<Rightarrow> u8 list" where
  "name_bytes name = name @ replicate (AlignUp (List.length name) 4 - List.length name) 0"

definition dir_bytes :: "dir_entry \<Rightarrow> u8 list" where
  "dir_bytes e =
     word_bytes 4 (de_parent e) @ word_bytes 4 (de_sibling e) @ word_bytes 4 (de_child e) @ word_bytes 4 (de_file e) @
     word_bytes 4 (de_hash e) @ word_bytes 4 (of_nat (List.length (de_name e)) :: u32) @ name_bytes (de_name e)"

definition file_bytes :: "file_entry \<Rightarrow> u8 list" where
  "file_bytes e =
     word_bytes 4 (fe_parent e) @ word_bytes 4 (fe_sibling e) @ word_bytes 8 (fe_offset e) @ word_bytes 8 (fe_size e) @
     word_bytes 4 (fe_hash e) @ word_bytes 4 (of_nat (List.length (fe_name e)) :: u32) @ name_bytes (fe_name e)"

text \<open>What a pointer to an entry shows of the bytes it points to.\<close>

definition field :: "nat \<Rightarrow> nat \<Rightarrow> u8 list \<Rightarrow> 'a::len word" where
  "field pos n bs = bytes_word (take n (drop pos bs))"

definition dir_of_bytes :: "u8 list \<Rightarrow> dir_entry" where
  "dir_of_bytes bs =
     \<lparr>de_parent = field 0 4 bs, de_sibling = field 4 4 bs, de_child = field 8 4 bs, de_file = field 12 4 bs,
      de_hash = field 16 4 bs, de_name = take (unat (field 20 4 bs :: u32)) (drop DirectoryEntry_size bs)\<rparr>"

definition file_of_bytes :: "u8 list \<Rightarrow> file_entry" where
  "file_of_bytes bs =
     \<lparr>fe_parent = field 0 4 bs, fe_sibling = field 4 4 bs, fe_offset = field 8 8 bs, fe_size = field 16 8 bs,
      fe_hash = field 24 4 bs, fe_name = take (unat (field 28 4 bs :: u32)) (drop FileEntry_size bs)\<rparr>"

definition header_of_bytes :: "u8 list \<Rightarrow> rom_header" where
  "header_of_bytes bs =
     \<lparr>header_size = field 0 8 bs, dir_hash_table_ofs = field 8 8 bs, dir_hash_table_size = field 16 8 bs,
      dir_table_ofs = field 24 8 bs, dir_table_size = field 32 8 bs, file_hash_table_ofs = field 40 8 bs,
      file_hash_table_size = field 48 8 bs, file_table_ofs = field 56 8 bs, file_table_size = field 64 8 bs,
      file_partition_ofs = field 72 8 bs\<rparr>"

definition header_bytes :: "rom_header \<Rightarrow> u8 list" where
  "header_bytes h = concat (map (\<lambda>f. word_bytes 8 (f h))
     [header_size, dir_hash_table_ofs, dir_hash_table_size, dir_table_ofs, dir_table_size, file_hash_table_ofs,
      file_hash_table_size, file_table_ofs, file_table_size, file_partition_ofs])"

subsection \<open>Files\<close>

definition file_read :: "u8 list \<Rightarrow> nat \<Rightarrow> nat \<Rightarrow> u8 list option" where
  "file_read f ofs n = (if ofs + n \<le> List.length f then Some (take n (drop ofs f)) else None)"

definition put_bytes :: "nat \<Rightarrow> u8 list \<Rightarrow> u8 list \<Rightarrow> u8 list" where
  "put_bytes ofs bs f = take ofs f @ bs @ drop (ofs + List.length bs) f"

definition file_write :: "nat \<Rightarrow> u8 list \<Rightarrow> u8 list \<Rightarrow> u8 list option" where
  "file_write ofs bs f = (if ofs + List.length bs \<le> List.length f then Some (put_bytes ofs bs f) else None)"

subsection \<open>Reading a table\<close>

record table_reader =
  tr_offset :: nat
  tr_size :: nat
  tr_cache_idx :: nat
  tr_cache :: "u8 list"

definition GetCacheIndex :: "u32 \<Rightarrow> nat" where
  "GetCacheIndex ofs = unat ofs div MaxCachedSize"

definition ReloadCacheImpl :: "u8 list \<Rightarrow> nat \<Rightarrow> table_reader \<Rightarrow> table_reader option" where
  "ReloadCacheImpl storage idx r =
     (let rel_ofs = idx * MaxCachedSize
      in if rel_ofs < tr_size r then
           map_option (\<lambda>bs. r\<lparr>tr_cache := bs @ drop (List.length bs) (tr_cache r), tr_cache_idx := idx\<rparr>)
             (file_read storage (tr_offset r + rel_ofs) (min (tr_size r - rel_ofs) MaxCachedSize))
         else None)"

definition ReloadCache :: "u8 list \<Rightarrow> nat \<Rightarrow> table_reader \<Rightarrow> table_reader option" where
  "ReloadCache storage idx r = (if tr_cache_idx r \<noteq> idx then ReloadCacheImpl storage idx r else Some r)"

text \<open>The cache is as long as the table, up to its maximum.\<close>

definition TableReader_new :: "u8 list \<Rightarrow> nat \<Rightarrow> nat \<Rightarrow> table_reader option" where
  "TableReader_new storage ofs sz =
     ReloadCacheImpl storage 0
       \<lparr>tr_offset = ofs, tr_size = sz, tr_cache_idx = 0, tr_cache = replicate (min sz MaxCachedSize) 0\<rparr>"

text \<open>
  The bytes at a pointer to an entry with a fixed part of \<open>hdr\<close> bytes, the size of the name in the
  last four of them. The memory behind the cache, \<open>beyond\<close>, is read when the fixed part of the entry
  crosses the end of the cache.
\<close>

definition reader_GetEntry ::
  "nat \<Rightarrow> u8 list \<Rightarrow> u8 list \<Rightarrow> u32 \<Rightarrow> table_reader \<Rightarrow> (u8 list \<times> table_reader) option" where
  "reader_GetEntry hdr beyond storage entry_offset r =
     (case ReloadCache storage (GetCacheIndex entry_offset) r of
        None \<Rightarrow> None
      | Some r \<Rightarrow>
          let entry = drop (unat entry_offset mod MaxCachedSize) (tr_cache r @ beyond); name_size = field (hdr - 4) 4 entry :: u32
          in if GetCacheIndex entry_offset \<noteq> GetCacheIndex (entry_offset + of_nat (hdr + unat name_size + 4)) then
               map_option (\<lambda>bs. (bs, r))
                 (file_read storage (tr_offset r + unat entry_offset)
                    (if unat entry_offset \<le> tr_size r then min (tr_size r - unat entry_offset) FallbackCacheSize else FallbackCacheSize))
             else Some (entry, r))"

subsection \<open>Writing a table\<close>

record table_writer =
  tw_file :: "u8 list"
  tw_offset :: nat
  tw_size :: nat
  tw_cache_idx :: nat
  tw_cache :: "u8 list"
  tw_fallback :: "u8 list"
  fallback_entry_offset :: nat
  fallback_entry_size :: nat
  cache_dirty :: bool
  fallback_dirty :: bool

definition tw_Write :: "nat \<Rightarrow> u8 list \<Rightarrow> table_writer \<Rightarrow> table_writer option" where
  "tw_Write ofs bs w = map_option (\<lambda>f. w\<lparr>tw_file := f\<rparr>) (file_write (tw_offset w + ofs) bs (tw_file w))"

definition tw_Flush :: "table_writer \<Rightarrow> table_writer option" where
  "tw_Flush w =
     (if cache_dirty w \<and> fallback_dirty w then None
      else Option.bind
        (if cache_dirty w then
           (let ofs = tw_cache_idx w * MaxCachedSize
            in map_option (cache_dirty_update (\<lambda>_. False))
                 (tw_Write ofs (take (min (tw_size w - ofs) MaxCachedSize) (tw_cache w)) w))
         else Some w)
        (\<lambda>w. if fallback_dirty w then
               map_option (fallback_dirty_update (\<lambda>_. False))
                 (tw_Write (fallback_entry_offset w) (take (fallback_entry_size w) (tw_fallback w)) w)
             else Some w))"

definition RefreshCacheImpl :: "table_writer \<Rightarrow> table_writer option" where
  "RefreshCacheImpl w =
     (let cur = tw_cache_idx w * MaxCachedSize
      in map_option (\<lambda>bs. w\<lparr>tw_cache := bs @ drop (List.length bs) (tw_cache w)\<rparr>)
           (file_read (tw_file w) (tw_offset w + cur) (min (tw_size w - cur) MaxCachedSize)))"

definition RefreshCache :: "u32 \<Rightarrow> table_writer \<Rightarrow> table_writer option" where
  "RefreshCache entry_offset w =
     (let idx = GetCacheIndex entry_offset
      in if idx \<noteq> tw_cache_idx w \<or> fallback_dirty w then
           Option.bind (tw_Flush w) (\<lambda>w. RefreshCacheImpl (w\<lparr>tw_cache_idx := idx\<rparr>))
         else Some w)"

text \<open>A new writer fills the table with zeros, a cache at a time.\<close>

function zero_table :: "nat \<Rightarrow> table_writer \<Rightarrow> table_writer option" where
  "zero_table cur w =
     (if cur < tw_size w then
        (case tw_Write cur (take (min (tw_size w - cur) MaxCachedSize) (tw_cache w)) w of
           None \<Rightarrow> None | Some w' \<Rightarrow> zero_table (cur + MaxCachedSize) w')
      else Some w)"
  by pat_completeness auto
termination
  by (relation "measure (\<lambda>(cur, w). tw_size w - cur)") (auto simp: tw_Write_def MaxCachedSize_def)

declare zero_table.simps [simp del]

definition TableWriter_new :: "u8 list \<Rightarrow> nat \<Rightarrow> nat \<Rightarrow> table_writer option" where
  "TableWriter_new f ofs sz =
     zero_table 0 \<lparr>tw_file = f, tw_offset = ofs, tw_size = sz, tw_cache_idx = 0, tw_cache = replicate (min sz MaxCachedSize) 0,
       tw_fallback = replicate FallbackCacheSize 0, fallback_entry_offset = 0, fallback_entry_size = 0,
       cache_dirty = False, fallback_dirty = False\<rparr>"

text \<open>
  \<open>GetEntry\<close>, and the caller that writes the whole entry \<open>bs\<close> through the pointer. The read of an
  entry that does not fit the second buffer overflows it; the model stops there.
\<close>

definition writer_put_entry :: "nat \<Rightarrow> u32 \<Rightarrow> nat \<Rightarrow> u8 list \<Rightarrow> table_writer \<Rightarrow> table_writer option" where
  "writer_put_entry hdr entry_offset name_len bs w =
     Option.bind (RefreshCache entry_offset w) (\<lambda>w.
       let ofs = unat entry_offset mod MaxCachedSize; n = hdr + AlignUp name_len 4
       in if ofs + n > MaxCachedSize then
            Option.bind (tw_Flush w) (\<lambda>w.
            if n > FallbackCacheSize then None
            else map_option (\<lambda>old. w\<lparr>fallback_entry_offset := unat entry_offset, fallback_entry_size := n,
                     tw_fallback := bs @ drop (List.length bs) (old @ drop (List.length old) (tw_fallback w)), fallback_dirty := True\<rparr>)
                   (file_read (tw_file w) (tw_offset w + unat entry_offset) n))
          else Some (w\<lparr>tw_cache := put_bytes ofs bs (tw_cache w), cache_dirty := True\<rparr>))"

end
