(* ===== verification/RomCache.thy ===== *)
theory RomCache
  imports RomTable
begin

text \<open>
  The caches of the table reader and writer are transparent: entries written through the writer
  end up in the file where they belong, and an entry read through the reader is the bytes of the table.
\<close>

subsection \<open>Replacing a part of a list\<close>

lemma length_put_bytes [simp]: "ofs + List.length bs \<le> List.length f \<Longrightarrow> List.length (put_bytes ofs bs f) = List.length f"
  by (simp add: put_bytes_def)

lemma nth_put_bytes:
  "\<lbrakk>ofs + List.length bs \<le> List.length f; i < List.length f\<rbrakk> \<Longrightarrow>
    put_bytes ofs bs f ! i = (if ofs \<le> i \<and> i < ofs + List.length bs then bs ! (i - ofs) else f ! i)"
  by (auto simp: put_bytes_def nth_append not_less add.commute)

lemma file_write_Some:
  "ofs + List.length bs \<le> List.length f \<Longrightarrow> file_write ofs bs f = Some (put_bytes ofs bs f)"
  by (simp add: file_write_def)

subsection \<open>The content of a table behind its writer\<close>

definition chunk :: "nat \<Rightarrow> nat \<Rightarrow> nat" where
  "chunk size' idx = min (size' - idx * MaxCachedSize) MaxCachedSize"

definition tw_byte :: "table_writer \<Rightarrow> nat \<Rightarrow> u8" where
  "tw_byte w j =
     (if fallback_dirty w \<and> fallback_entry_offset w \<le> j \<and> j < fallback_entry_offset w + fallback_entry_size w
      then tw_fallback w ! (j - fallback_entry_offset w)
      else if cache_dirty w \<and> tw_cache_idx w * MaxCachedSize \<le> j \<and> j < tw_cache_idx w * MaxCachedSize + chunk (tw_size w) (tw_cache_idx w)
      then tw_cache w ! (j - tw_cache_idx w * MaxCachedSize)
      else tw_file w ! (tw_offset w + j))"

definition tw_view :: "table_writer \<Rightarrow> u8 list" where
  "tw_view w = map (tw_byte w) [0..<tw_size w]"

lemma tw_view_simps [simp]: "List.length (tw_view w) = tw_size w" "j < tw_size w \<Longrightarrow> tw_view w ! j = tw_byte w j"
  by (simp_all add: tw_view_def)

text \<open>What the writer keeps: the rest of the file and the place of the table in it.\<close>

definition tw_frame :: "table_writer \<Rightarrow> nat \<times> nat \<times> u8 list \<times> u8 list" where
  "tw_frame w = (tw_offset w, tw_size w, take (tw_offset w) (tw_file w), drop (tw_offset w + tw_size w) (tw_file w))"

definition tw_base :: "table_writer \<Rightarrow> bool" where
  "tw_base w \<longleftrightarrow>
     tw_offset w + tw_size w \<le> List.length (tw_file w) \<and> tw_cache_idx w * MaxCachedSize \<le> tw_size w \<and>
     List.length (tw_cache w) = min (tw_size w) MaxCachedSize \<and>
     List.length (tw_fallback w) = FallbackCacheSize \<and> \<not> (cache_dirty w \<and> fallback_dirty w) \<and>
     (fallback_dirty w \<longrightarrow> fallback_entry_offset w + fallback_entry_size w \<le> tw_size w \<and> fallback_entry_size w \<le> FallbackCacheSize)"

text \<open>Between two entries a cache that is clean agrees with the file, unless the other buffer is waiting.\<close>

definition coherent :: "table_writer \<Rightarrow> bool" where
  "coherent w \<longleftrightarrow> (\<forall>i < chunk (tw_size w) (tw_cache_idx w).
     tw_cache w ! i = tw_file w ! (tw_offset w + (tw_cache_idx w * MaxCachedSize + i)))"

definition tw_ok :: "table_writer \<Rightarrow> bool" where
  "tw_ok w \<longleftrightarrow> tw_base w \<and> (\<not> cache_dirty w \<and> \<not> fallback_dirty w \<longrightarrow> coherent w)"

lemma chunk_le: "chunk sz idx \<le> min sz MaxCachedSize" "idx * MaxCachedSize \<le> sz \<Longrightarrow> idx * MaxCachedSize + chunk sz idx \<le> sz"
  by (auto simp: chunk_def)

text \<open>A write to the file within the table.\<close>

lemma tw_Write_ok:
  assumes "tw_offset w + tw_size w \<le> List.length (tw_file w)" "ofs + List.length bs \<le> tw_size w"
  obtains w' where "tw_Write ofs bs w = Some w'" "w' = w\<lparr>tw_file := put_bytes (tw_offset w + ofs) bs (tw_file w)\<rparr>"
    "List.length (tw_file w') = List.length (tw_file w)" "tw_frame w' = tw_frame w"
    "\<And>j. j < tw_size w \<Longrightarrow> tw_file w' ! (tw_offset w + j) =
      (if ofs \<le> j \<and> j < ofs + List.length bs then bs ! (j - ofs) else tw_file w ! (tw_offset w + j))"
proof -
  let ?f = "put_bytes (tw_offset w + ofs) bs (tw_file w)"
  have fit: "tw_offset w + ofs + List.length bs \<le> List.length (tw_file w)" using assms by simp
  have "take (tw_offset w) ?f = take (tw_offset w) (tw_file w)"
    by (rule nth_equalityI) (use fit in \<open>simp_all add: nth_put_bytes\<close>)
  moreover have "drop (tw_offset w + tw_size w) ?f = drop (tw_offset w + tw_size w) (tw_file w)"
    by (rule nth_equalityI) (use fit assms in \<open>simp_all add: nth_put_bytes\<close>)
  ultimately show thesis
    using fit assms that [of "w\<lparr>tw_file := ?f\<rparr>"]
    by (simp add: tw_Write_def file_write_Some tw_frame_def nth_put_bytes)
qed

text \<open>Where the writer stands after its buffers have been written back.\<close>

lemma tw_Flush_ok:
  assumes "tw_base w"
  obtains w' where "tw_Flush w = Some w'" "tw_base w'" "\<not> cache_dirty w'" "\<not> fallback_dirty w'" "tw_view w' = tw_view w"
    "tw_frame w' = tw_frame w" "tw_cache_idx w' = tw_cache_idx w"
proof -
  note ok = assms [unfolded tw_base_def]
  let ?o = "tw_cache_idx w * MaxCachedSize" and ?n = "chunk (tw_size w) (tw_cache_idx w)"
  consider "cache_dirty w" "\<not> fallback_dirty w" | "\<not> cache_dirty w" "fallback_dirty w" | "\<not> cache_dirty w" "\<not> fallback_dirty w"
    using ok by blast
  then show thesis
  proof cases
    case 1
    let ?bs = "take ?n (tw_cache w)"
    have n: "List.length ?bs = ?n" using ok chunk_le(1) [of "tw_size w" "tw_cache_idx w"] by simp
    have "?o + List.length ?bs \<le> tw_size w" using chunk_le(2) ok unfolding n by blast
    from tw_Write_ok [OF _ this] ok obtain w1 where w1: "tw_Write ?o ?bs w = Some w1"
      "w1 = w\<lparr>tw_file := put_bytes (tw_offset w + ?o) ?bs (tw_file w)\<rparr>"
      "List.length (tw_file w1) = List.length (tw_file w)" "tw_frame w1 = tw_frame w"
      "\<And>j. j < tw_size w \<Longrightarrow> tw_file w1 ! (tw_offset w + j) =
        (if ?o \<le> j \<and> j < ?o + List.length ?bs then ?bs ! (j - ?o) else tw_file w ! (tw_offset w + j))" by blast
    let ?w = "w1\<lparr>cache_dirty := False\<rparr>"
    have run: "tw_Flush w = Some ?w" using 1 w1(1,2) by (simp add: tw_Flush_def Let_def chunk_def)
    have sel: "tw_offset w1 = tw_offset w" "tw_size w1 = tw_size w" "tw_cache_idx w1 = tw_cache_idx w" "tw_cache w1 = tw_cache w"
      "tw_fallback w1 = tw_fallback w" "\<not> fallback_dirty w1" using w1(2) 1 by simp_all
    have view: "tw_byte ?w j = tw_byte w j" if "j < tw_size w" for j
      using w1(5) [OF that] 1 n by (auto simp: tw_byte_def sel)
    show thesis
      using that [OF run] view ok w1(3,4) by (simp add: tw_base_def tw_view_def tw_frame_def sel)
  next
    case 2
    let ?o = "fallback_entry_offset w" and ?bs = "take (fallback_entry_size w) (tw_fallback w)"
    have n: "List.length ?bs = fallback_entry_size w" using ok 2 by simp
    have "?o + List.length ?bs \<le> tw_size w" using ok 2 unfolding n by blast
    from tw_Write_ok [OF _ this] ok obtain w1 where w1: "tw_Write ?o ?bs w = Some w1"
      "w1 = w\<lparr>tw_file := put_bytes (tw_offset w + ?o) ?bs (tw_file w)\<rparr>"
      "List.length (tw_file w1) = List.length (tw_file w)" "tw_frame w1 = tw_frame w"
      "\<And>j. j < tw_size w \<Longrightarrow> tw_file w1 ! (tw_offset w + j) =
        (if ?o \<le> j \<and> j < ?o + List.length ?bs then ?bs ! (j - ?o) else tw_file w ! (tw_offset w + j))" by blast
    let ?w = "w1\<lparr>fallback_dirty := False\<rparr>"
    have run: "tw_Flush w = Some ?w" using 2 w1(1,2) by (simp add: tw_Flush_def)
    have sel: "tw_offset w1 = tw_offset w" "tw_size w1 = tw_size w" "tw_cache_idx w1 = tw_cache_idx w" "tw_cache w1 = tw_cache w"
      "tw_fallback w1 = tw_fallback w" "\<not> cache_dirty w1" using w1(2) 2 by simp_all
    have view: "tw_byte ?w j = tw_byte w j" if "j < tw_size w" for j
      using w1(5) [OF that] 2 n by (auto simp: tw_byte_def sel)
    show thesis
      using that [OF run] view ok w1(3,4) 2 by (simp add: tw_base_def tw_view_def tw_frame_def sel)
  next
    case 3
    then show thesis using that [of w] assms by (simp add: tw_Flush_def)
  qed
qed

lemma length_file_read: "file_read f ofs n = Some bs \<Longrightarrow> List.length bs = n"
  by (auto simp: file_read_def split: if_splits)

lemma nth_file_read: "\<lbrakk>file_read f ofs n = Some bs; i < n\<rbrakk> \<Longrightarrow> bs ! i = f ! (ofs + i)"
  by (auto simp: file_read_def split: if_splits)

lemma RefreshCache_ok:
  assumes "tw_ok w" "unat ofs < tw_size w"
  obtains w' where "RefreshCache ofs w = Some w'" "tw_base w'" "\<not> fallback_dirty w'" "\<not> cache_dirty w' \<Longrightarrow> coherent w'"
    "tw_view w' = tw_view w" "tw_frame w' = tw_frame w" "tw_cache_idx w' = GetCacheIndex ofs"
proof (cases "GetCacheIndex ofs \<noteq> tw_cache_idx w \<or> fallback_dirty w")
  case False
  have "RefreshCache ofs w = Some w" using False by (simp add: RefreshCache_def Let_def)
  moreover have "tw_base w" "\<not> cache_dirty w \<Longrightarrow> coherent w" using assms(1) False by (simp_all add: tw_ok_def)
  ultimately show thesis using that [of w] False by simp
next
  case True
  have base: "tw_base w" using assms(1) by (simp add: tw_ok_def)
  from tw_Flush_ok [OF this] obtain w1 where w1: "tw_Flush w = Some w1" "tw_base w1" "\<not> cache_dirty w1" "\<not> fallback_dirty w1"
    "tw_view w1 = tw_view w" "tw_frame w1 = tw_frame w" "tw_cache_idx w1 = tw_cache_idx w" by blast
  let ?i = "GetCacheIndex ofs"
  let ?n = "min (tw_size w1 - ?i * MaxCachedSize) MaxCachedSize"
  have size': "tw_size w1 = tw_size w" using w1(6) by (simp add: tw_frame_def)
  have "?i * MaxCachedSize \<le> unat ofs" unfolding GetCacheIndex_def by (rule div_times_less_eq_dividend)
  then have le: "?i * MaxCachedSize \<le> tw_size w1" using assms(2) size' by linarith
  have "?n \<le> tw_size w1 - ?i * MaxCachedSize" "tw_offset w1 + tw_size w1 \<le> List.length (tw_file w1)"
    using w1(2) by (simp_all add: tw_base_def)
  then have "tw_offset w1 + ?i * MaxCachedSize + ?n \<le> List.length (tw_file w1)" using le by linarith
  then obtain bs where bs: "file_read (tw_file w1) (tw_offset w1 + ?i * MaxCachedSize) ?n = Some bs" by (simp add: file_read_def)
  let ?w = "w1\<lparr>tw_cache_idx := ?i, tw_cache := bs @ drop (List.length bs) (tw_cache w1)\<rparr>"
  have run: "RefreshCache ofs w = Some ?w" using True w1(1) bs by (simp add: RefreshCache_def RefreshCacheImpl_def Let_def)
  have len: "List.length bs = ?n" by (rule length_file_read [OF bs])
  have "coherent ?w"
    using nth_file_read [OF bs] len by (simp add: coherent_def chunk_def nth_append add.assoc)
  moreover have "tw_base ?w" using w1(2) le len by (simp add: tw_base_def)
  moreover have "tw_view ?w = tw_view w1" using w1(3,4) by (simp add: tw_view_def tw_byte_def)
  moreover have "tw_frame ?w = tw_frame w1" by (simp add: tw_frame_def)
  ultimately show thesis using w1(4-6) by (intro that [OF run]) simp_all
qed

text \<open>An entry that is put into the table replaces its bytes of the content and nothing else.\<close>

lemma put_entry_ok:
  assumes "tw_ok w" "unat ofs + List.length bs \<le> tw_size w" "List.length bs = hdr + AlignUp n 4"
    "0 < List.length bs" "List.length bs \<le> FallbackCacheSize"
  obtains w' where "writer_put_entry hdr ofs n bs w = Some w'" "tw_ok w'" "tw_view w' = put_bytes (unat ofs) bs (tw_view w)"
    "tw_frame w' = tw_frame w"
proof -
  have lt: "unat ofs < tw_size w" using assms(2,4) by linarith
  from RefreshCache_ok [OF assms(1) lt] obtain w1 where w1: "RefreshCache ofs w = Some w1" "tw_base w1" "\<not> fallback_dirty w1"
    "\<not> cache_dirty w1 \<Longrightarrow> coherent w1" "tw_view w1 = tw_view w" "tw_frame w1 = tw_frame w" "tw_cache_idx w1 = GetCacheIndex ofs" by blast
  have sz: "tw_size w1 = tw_size w" using w1(6) by (simp add: tw_frame_def)
  let ?r = "unat ofs mod MaxCachedSize" and ?i = "GetCacheIndex ofs * MaxCachedSize"
  have split: "?i + ?r = unat ofs" by (simp add: GetCacheIndex_def)
  show thesis
  proof (cases "?r + List.length bs > MaxCachedSize")
    case True
    from tw_Flush_ok [OF w1(2)] obtain w2 where w2: "tw_Flush w1 = Some w2" "tw_base w2" "\<not> cache_dirty w2" "\<not> fallback_dirty w2"
      "tw_view w2 = tw_view w1" "tw_frame w2 = tw_frame w1" "tw_cache_idx w2 = tw_cache_idx w1" by blast
    have sz2: "tw_size w2 = tw_size w" using w2(6) sz by (simp add: tw_frame_def)
    have "tw_offset w2 + unat ofs + List.length bs \<le> List.length (tw_file w2)" using w2(2) assms(2) sz2 by (simp add: tw_base_def)
    then obtain old where old: "file_read (tw_file w2) (tw_offset w2 + unat ofs) (List.length bs) = Some old" by (simp add: file_read_def)
    let ?fb = "bs @ drop (List.length bs) (old @ drop (List.length old) (tw_fallback w2))"
    let ?w = "w2\<lparr>fallback_entry_offset := unat ofs, fallback_entry_size := List.length bs, tw_fallback := ?fb, fallback_dirty := True\<rparr>"
    have run: "writer_put_entry hdr ofs n bs w = Some ?w"
      using True w1(1) w2(1) old assms(3,5) by (simp add: writer_put_entry_def Let_def)
    have len: "List.length old = List.length bs" by (rule length_file_read [OF old])
    have ok: "tw_ok ?w" using w2 assms(2,5) len sz2 by (simp add: tw_ok_def tw_base_def)
    have "tw_view ?w = put_bytes (unat ofs) bs (tw_view w)"
    proof (rule nth_equalityI)
      show "List.length (tw_view ?w) = List.length (put_bytes (unat ofs) bs (tw_view w))" using assms(2) sz2 by simp
      fix j assume "j < List.length (tw_view ?w)"
      then have j: "j < tw_size w" by (simp add: sz2)
      have "tw_byte w2 j = tw_view w ! j" using w2(5) w1(5) j sz2 tw_view_simps(2) [of j w2] by simp
      then show "tw_view ?w ! j = put_bytes (unat ofs) bs (tw_view w) ! j"
        using j sz2 assms(2) w2(3,4) by (auto simp: nth_put_bytes tw_byte_def nth_append)
    qed
    moreover have "tw_frame ?w = tw_frame w2" by (simp add: tw_frame_def)
    ultimately show thesis using that [OF run ok] w1(6) w2(6) by simp
  next
    case False
    let ?w = "w1\<lparr>tw_cache := put_bytes ?r bs (tw_cache w1), cache_dirty := True\<rparr>"
    have run: "writer_put_entry hdr ofs n bs w = Some ?w"
      using False w1(1) assms(3) by (simp add: writer_put_entry_def Let_def)
    have inside: "?r + List.length bs \<le> chunk (tw_size w1) (GetCacheIndex ofs)"
      using False assms(2) split sz by (simp add: chunk_def)
    then have fit: "?r + List.length bs \<le> List.length (tw_cache w1)" using w1(2) chunk_le(1) [of "tw_size w1" "GetCacheIndex ofs"] by (simp add: tw_base_def)
    then have ok: "tw_ok ?w" using w1(2,3) by (simp add: tw_ok_def tw_base_def)
    have "tw_view ?w = put_bytes (unat ofs) bs (tw_view w)"
    proof (rule nth_equalityI)
      show "List.length (tw_view ?w) = List.length (put_bytes (unat ofs) bs (tw_view w))" using assms(2) sz by simp
      fix j assume "j < List.length (tw_view ?w)"
      then have j: "j < tw_size w1" by simp
      have old: "tw_byte w1 j = tw_view w ! j" using w1(5) j sz tw_view_simps(2) [of j w1] by simp
      show "tw_view ?w ! j = put_bytes (unat ofs) bs (tw_view w) ! j"
      proof (cases "?i \<le> j \<and> j < ?i + chunk (tw_size w1) (GetCacheIndex ofs)")
        case True
        have "tw_byte w1 j = tw_cache w1 ! (j - ?i)"
        proof (cases "cache_dirty w1")
          case False
          have d: "j - ?i < chunk (tw_size w1) (GetCacheIndex ofs)" "?i + (j - ?i) = j" using True by linarith+
          have "tw_cache w1 ! (j - ?i) = tw_file w1 ! (tw_offset w1 + j)"
            using w1(4) [OF False] d unfolding coherent_def w1(7) by metis
          then show ?thesis using False True w1(3) by (simp add: tw_byte_def)
        qed (use True w1(3,7) in \<open>simp add: tw_byte_def\<close>)
        moreover have "j - ?i < List.length (tw_cache w1)"
          using True chunk_le(1) [of "tw_size w1" "GetCacheIndex ofs"] w1(2) by (simp add: tw_base_def) linarith
        ultimately have "tw_byte ?w j = (if ?r \<le> j - ?i \<and> j - ?i < ?r + List.length bs then bs ! (j - ?i - ?r) else tw_view w ! j)"
          using True w1(3,7) old by (simp add: tw_byte_def nth_put_bytes [OF fit])
        moreover have "?r \<le> j - ?i \<longleftrightarrow> unat ofs \<le> j" "j - ?i < ?r + List.length bs \<longleftrightarrow> j < unat ofs + List.length bs" "j - ?i - ?r = j - unat ofs"
          using True split by linarith+
        ultimately show ?thesis using j sz assms(2) by (simp add: nth_put_bytes)
      next
        case False
        then have "tw_byte ?w j = tw_byte w1 j" using w1(3,7) by (auto simp: tw_byte_def)
        moreover have "\<not> (unat ofs \<le> j \<and> j < unat ofs + List.length bs)" using False inside split by linarith
        ultimately show ?thesis using j sz assms(2) old by (auto simp: nth_put_bytes)
      qed
    qed
    moreover have "tw_frame ?w = tw_frame w1" by (simp add: tw_frame_def)
    ultimately show thesis using that [OF run ok] w1(6) by simp
  qed
qed

subsection \<open>A whole table\<close>

lemma zero_table_ok:
  "\<lbrakk>tw_base w; \<not> cache_dirty w; \<not> fallback_dirty w; tw_cache w = replicate (min (tw_size w) MaxCachedSize) 0\<rbrakk> \<Longrightarrow>
    \<exists>f. zero_table cur w = Some (w\<lparr>tw_file := f\<rparr>) \<and> List.length f = List.length (tw_file w) \<and> tw_frame (w\<lparr>tw_file := f\<rparr>) = tw_frame w \<and>
      (\<forall>j < tw_size w. f ! (tw_offset w + j) = (if cur \<le> j then 0 else tw_file w ! (tw_offset w + j)))"
proof (induction cur w rule: zero_table.induct)
  case (1 cur w)
  show ?case
  proof (cases "cur < tw_size w")
    case False
    then show ?thesis by (intro exI [of _ "tw_file w"]) (simp add: zero_table.simps)
  next
    case True
    let ?n = "min (tw_size w - cur) MaxCachedSize"
    let ?bs = "take ?n (tw_cache w)"
    have bs: "?bs = replicate ?n 0" using 1(5) by (auto simp: min_def)
    have len: "List.length ?bs = ?n" unfolding bs by simp
    have fit: "tw_offset w + tw_size w \<le> List.length (tw_file w)" "cur + List.length ?bs \<le> tw_size w"
      using 1(2) True unfolding len by (auto simp: tw_base_def)
    obtain w1 where w1: "tw_Write cur ?bs w = Some w1" "w1 = w\<lparr>tw_file := put_bytes (tw_offset w + cur) ?bs (tw_file w)\<rparr>"
      "List.length (tw_file w1) = List.length (tw_file w)" "tw_frame w1 = tw_frame w"
      "\<And>j. j < tw_size w \<Longrightarrow> tw_file w1 ! (tw_offset w + j) =
        (if cur \<le> j \<and> j < cur + List.length ?bs then ?bs ! (j - cur) else tw_file w ! (tw_offset w + j))"
      using tw_Write_ok [OF fit] by blast
    have sel: "tw_offset w1 = tw_offset w" "tw_size w1 = tw_size w" "tw_cache w1 = tw_cache w" "\<not> cache_dirty w1" "\<not> fallback_dirty w1"
      using w1(2) 1(3,4) by simp_all
    have base: "tw_base w1" using 1(2) w1(2,3) by (simp add: tw_base_def)
    have IH: "\<exists>f. zero_table (cur + MaxCachedSize) w1 = Some (w1\<lparr>tw_file := f\<rparr>) \<and> List.length f = List.length (tw_file w1) \<and>
        tw_frame (w1\<lparr>tw_file := f\<rparr>) = tw_frame w1 \<and>
        (\<forall>j < tw_size w1. f ! (tw_offset w1 + j) = (if cur + MaxCachedSize \<le> j then 0 else tw_file w1 ! (tw_offset w1 + j)))"
      using 1(1) [OF True w1(1) base] sel 1(5) by simp
    then obtain f where f: "zero_table (cur + MaxCachedSize) w1 = Some (w1\<lparr>tw_file := f\<rparr>)" "List.length f = List.length (tw_file w1)"
      "tw_frame (w1\<lparr>tw_file := f\<rparr>) = tw_frame w1"
      "\<And>j. j < tw_size w1 \<Longrightarrow> f ! (tw_offset w1 + j) = (if cur + MaxCachedSize \<le> j then 0 else tw_file w1 ! (tw_offset w1 + j))"
      by blast
    have run: "zero_table cur w = Some (w\<lparr>tw_file := f\<rparr>)" using f(1) w1(1,2) True by (simp add: zero_table.simps [of cur w])
    have zero: "f ! (tw_offset w + j) = (if cur \<le> j then 0 else tw_file w ! (tw_offset w + j))" if "j < tw_size w" for j
      using f(4) [of j] w1(5) [OF that] that len sel by (auto simp: bs nth_replicate less_diff_conv2 add.commute)
    have frame: "tw_frame (w\<lparr>tw_file := f\<rparr>) = tw_frame w" using f(3) w1(4) sel by (simp add: tw_frame_def)
    show ?thesis using run zero f(2) w1(3) frame by (intro exI [of _ f]) simp
  qed
qed

lemma TableWriter_new_ok:
  assumes "ofs + sz \<le> List.length f"
  obtains w where "TableWriter_new f ofs sz = Some w" "tw_ok w" "tw_offset w = ofs" "tw_size w = sz"
    "tw_frame w = (ofs, sz, take ofs f, drop (ofs + sz) f)"
proof -
  let ?w = "\<lparr>tw_file = f, tw_offset = ofs, tw_size = sz, tw_cache_idx = 0, tw_cache = replicate (min sz MaxCachedSize) 0,
       tw_fallback = replicate FallbackCacheSize 0, fallback_entry_offset = 0, fallback_entry_size = 0,
       cache_dirty = False, fallback_dirty = False\<rparr>"
  have "tw_base ?w" using assms by (simp add: tw_base_def)
  from zero_table_ok [OF this, of 0] obtain g where g: "zero_table 0 ?w = Some (?w\<lparr>tw_file := g\<rparr>)" "List.length g = List.length f"
    "tw_frame (?w\<lparr>tw_file := g\<rparr>) = tw_frame ?w" "\<And>j. j < sz \<Longrightarrow> g ! (ofs + j) = 0" by auto
  have "tw_ok (?w\<lparr>tw_file := g\<rparr>)"
    using assms g(2,4) by (simp add: tw_ok_def tw_base_def coherent_def chunk_def)
  then show thesis using that g(1,3) by (simp add: TableWriter_new_def tw_frame_def)
qed

text \<open>Writing entries one behind the other, and writing the buffers back at the end.\<close>

fun put_entries :: "nat \<Rightarrow> nat \<Rightarrow> (nat \<times> u8 list) list \<Rightarrow> table_writer \<Rightarrow> table_writer option" where
  "put_entries hdr ofs [] w = Some w"
| "put_entries hdr ofs ((n, bs) # es) w =
     Option.bind (writer_put_entry hdr (of_nat ofs) n bs w) (put_entries hdr (ofs + List.length bs) es)"

definition entry_sized :: "nat \<Rightarrow> nat \<times> u8 list \<Rightarrow> bool" where
  "entry_sized hdr e \<longleftrightarrow> List.length (snd e) = hdr + AlignUp (fst e) 4 \<and> 0 < List.length (snd e) \<and> List.length (snd e) \<le> FallbackCacheSize"

lemma put_entries_ok:
  "\<lbrakk>tw_ok w; ofs + List.length (concat (map snd es)) \<le> tw_size w; tw_size w \<le> 2 ^ 32; \<forall>e \<in> set es. entry_sized hdr e\<rbrakk> \<Longrightarrow>
    \<exists>w'. put_entries hdr ofs es w = Some w' \<and> tw_ok w' \<and> tw_frame w' = tw_frame w \<and>
      tw_view w' = put_bytes ofs (concat (map snd es)) (tw_view w)"
proof (induction es arbitrary: ofs w)
  case Nil
  then show ?case by (simp add: put_bytes_def)
next
  case (Cons e es)
  obtain n bs where e: "e = (n, bs)" by fastforce
  have sized: "List.length bs = hdr + AlignUp n 4" "0 < List.length bs" "List.length bs \<le> FallbackCacheSize"
    using Cons.prems(4) by (auto simp: e entry_sized_def)
  have "ofs + List.length bs \<le> tw_size w" using Cons.prems(2) by (simp add: e)
  then have "ofs < 2 ^ 32" using Cons.prems(3) sized(2) by linarith
  then have u: "unat (of_nat ofs :: u32) = ofs" by (simp add: unsigned_of_nat take_bit_nat_eq_self)
  have fit: "unat (of_nat ofs :: u32) + List.length bs \<le> tw_size w" using Cons.prems(2) unfolding u by (simp add: e)
  from put_entry_ok [OF Cons.prems(1) fit sized] obtain w1 where w1: "writer_put_entry hdr (of_nat ofs) n bs w = Some w1" "tw_ok w1"
    "tw_view w1 = put_bytes ofs bs (tw_view w)" "tw_frame w1 = tw_frame w" unfolding u by blast
  have sz: "tw_size w1 = tw_size w" using w1(4) by (simp add: tw_frame_def)
  have "\<exists>w'. put_entries hdr (ofs + List.length bs) es w1 = Some w' \<and> tw_ok w' \<and> tw_frame w' = tw_frame w1 \<and>
      tw_view w' = put_bytes (ofs + List.length bs) (concat (map snd es)) (tw_view w1)"
    using Cons.prems sz w1(2) by (intro Cons.IH) (simp_all add: e)
  moreover have "put_bytes (ofs + List.length bs) xs (put_bytes ofs bs f) = put_bytes ofs (bs @ xs) f"
    if "ofs + List.length bs \<le> List.length f" for xs f
    using that by (simp add: put_bytes_def ac_simps)
  moreover have "ofs + List.length bs \<le> List.length (tw_view w)" using fit u by simp
  ultimately show ?case using w1(1,3,4) by (simp add: e)
qed

text \<open>
  The writer against writing to the file directly: the entries of a table that they fill are
  its content, and the rest of the file stays.
\<close>

lemma table_written:
  assumes "ofs + sz \<le> List.length f" "List.length (concat (map snd es)) = sz" "sz \<le> 2 ^ 32" "\<forall>e \<in> set es. entry_sized hdr e"
  shows "Option.bind (TableWriter_new f ofs sz) (\<lambda>w. Option.bind (put_entries hdr 0 es w) (\<lambda>w. map_option tw_file (tw_Flush w))) =
    Some (put_bytes ofs (concat (map snd es)) f)"
proof -
  from TableWriter_new_ok [OF assms(1)] obtain w where w: "TableWriter_new f ofs sz = Some w" "tw_ok w" "tw_offset w = ofs" "tw_size w = sz"
    "tw_frame w = (ofs, sz, take ofs f, drop (ofs + sz) f)" by blast
  obtain w1 where w1: "put_entries hdr 0 es w = Some w1" "tw_ok w1" "tw_frame w1 = tw_frame w"
    "tw_view w1 = put_bytes 0 (concat (map snd es)) (tw_view w)"
    using put_entries_ok [OF w(2), of 0 es hdr] assms w(4) by auto
  have "tw_base w1" using w1(2) by (simp add: tw_ok_def)
  from tw_Flush_ok [OF this] obtain w2 where w2: "tw_Flush w1 = Some w2" "tw_base w2" "\<not> cache_dirty w2" "\<not> fallback_dirty w2"
    "tw_view w2 = tw_view w1" "tw_frame w2 = tw_frame w1" by blast
  have frame: "tw_offset w2 = ofs" "tw_size w2 = sz" "take ofs (tw_file w2) = take ofs f" "drop (ofs + sz) (tw_file w2) = drop (ofs + sz) f"
    using w2(6) unfolding w1(3) w(5) by (auto simp: tw_frame_def)
  have "ofs + sz \<le> List.length (tw_file w2)" using w2(2) frame(1,2) by (simp add: tw_base_def)
  then have "tw_view w2 = take sz (drop ofs (tw_file w2))"
    by (intro nth_equalityI) (use w2(3,4) frame(1,2) in \<open>simp_all add: tw_byte_def\<close>)
  moreover have "tw_view w2 = concat (map snd es)" using w2(5) w1(4) assms(2) w(4) by (simp add: put_bytes_def)
  moreover have "tw_file w2 = take ofs (tw_file w2) @ take sz (drop ofs (tw_file w2)) @ drop (ofs + sz) (tw_file w2)"
    by (metis add.commute append_take_drop_id drop_drop)
  ultimately have "tw_file w2 = put_bytes ofs (concat (map snd es)) f" using frame(3,4) assms(2) by (simp add: put_bytes_def)
  then show ?thesis by (simp add: w(1) w1(1) w2(1))
qed

end
