(* ===== verification/RomEntries.thy ===== *)
theory RomEntries
  imports RomCache
begin

text \<open>Entries written as bytes are read back, and the reader of a table finds them behind its cache.\<close>

subsection \<open>Words\<close>

lemma length_word_bytes [simp]: "List.length (word_bytes n v) = n"
  by (simp add: word_bytes_def)

lemma bit_bytes_word:
  "bit (bytes_word bs :: 'a::len word) i \<longleftrightarrow> i < LENGTH('a) \<and> i < 8 * List.length bs \<and> bit (bs ! (i div 8)) (i mod 8)"
proof (induction bs arbitrary: i)
  case (Cons b bs)
  show ?case
  proof (cases "i < 8")
    case True
    then show ?thesis by (auto simp: bit_simps)
  next
    case False
    have high: "\<not> bit b i" using False bit_imp_le_length [of b i] by auto
    have "i div 8 = Suc ((i - 8) div 8)" "i mod 8 = (i - 8) mod 8"
      using False by (simp_all add: le_div_geq le_mod_geq)
    then show ?thesis using False high Cons.IH [of "i - 8"] by (auto simp: bit_simps)
  qed
qed simp

lemma bytes_word_bytes: "LENGTH('a) \<le> 8 * n \<Longrightarrow> bytes_word (word_bytes n v) = (v :: 'a::len word)"
proof (rule bit_word_eqI)
  fix i assume "LENGTH('a) \<le> 8 * n" "i < LENGTH('a)"
  then have i: "i < 8 * n" "i div 8 < n" by auto
  have "8 * (i div 8) + i mod 8 = i" by simp
  then show "bit (bytes_word (word_bytes n v) :: 'a word) i = bit v i"
    using i \<open>i < LENGTH('a)\<close> by (simp add: bit_bytes_word word_bytes_def bit_simps)
qed

text \<open>A field of a structure, behind what comes before it.\<close>

lemma field_first [simp]: "LENGTH('a) \<le> 8 * n \<Longrightarrow> field 0 n (word_bytes n v @ bs) = (v :: 'a::len word)"
  by (simp add: field_def bytes_word_bytes)

lemma field_later: "pos \<ge> List.length xs \<Longrightarrow> field pos n (xs @ bs) = field (pos - List.length xs) n bs"
  by (simp add: field_def)

lemma length_name_bytes [simp]: "List.length (name_bytes name) = AlignUp (List.length name) 4"
proof -
  have "List.length name \<le> AlignUp (List.length name) 4" by (simp add: AlignUp_def)
  then show ?thesis by (simp add: name_bytes_def)
qed

lemma length_dir_bytes [simp]: "List.length (dir_bytes e) = DirectoryEntry_size + AlignUp (List.length (de_name e)) 4"
  by (simp add: dir_bytes_def DirectoryEntry_size_def)

lemma length_file_bytes [simp]: "List.length (file_bytes e) = FileEntry_size + AlignUp (List.length (fe_name e)) 4"
  by (simp add: file_bytes_def FileEntry_size_def)

lemma dir_of_bytes_append:
  assumes "List.length (de_name e) < 2 ^ 32"
  shows "dir_of_bytes (dir_bytes e @ bs) = e"
proof -
  have "unat (of_nat (List.length (de_name e)) :: u32) = List.length (de_name e)"
    using assms by (simp add: unsigned_of_nat take_bit_nat_eq_self)
  then show ?thesis
    by (simp add: dir_of_bytes_def dir_bytes_def DirectoryEntry_size_def field_later name_bytes_def)
qed

lemma file_of_bytes_append:
  assumes "List.length (fe_name e) < 2 ^ 32"
  shows "file_of_bytes (file_bytes e @ bs) = e"
proof -
  have "unat (of_nat (List.length (fe_name e)) :: u32) = List.length (fe_name e)"
    using assms by (simp add: unsigned_of_nat take_bit_nat_eq_self)
  then show ?thesis
    by (simp add: file_of_bytes_def file_bytes_def FileEntry_size_def field_later name_bytes_def)
qed

subsection \<open>The reader\<close>

text \<open>The table \<open>t\<close> that the reader stands on, and its cache: a part of the table, then what was there before.\<close>

definition tr_ok :: "u8 list \<Rightarrow> u8 list \<Rightarrow> table_reader \<Rightarrow> bool" where
  "tr_ok storage t r \<longleftrightarrow>
     List.length t = tr_size r \<and> tr_offset r + tr_size r \<le> List.length storage \<and> t = take (tr_size r) (drop (tr_offset r) storage) \<and>
     List.length (tr_cache r) = min (tr_size r) MaxCachedSize \<and> tr_cache_idx r * MaxCachedSize < tr_size r \<and>
     take (chunk (tr_size r) (tr_cache_idx r)) (tr_cache r) =
       take (chunk (tr_size r) (tr_cache_idx r)) (drop (tr_cache_idx r * MaxCachedSize) t)"

lemma table_read:
  assumes "t = take sz (drop ofs storage)" "ofs + sz \<le> List.length storage" "pos + n \<le> sz"
  shows "file_read storage (ofs + pos) n = Some (take n (drop pos t))"
  using assms by (simp add: file_read_def drop_take take_take min_def add.commute)

lemma ReloadCacheImpl_ok:
  assumes "List.length t = tr_size r" "tr_offset r + tr_size r \<le> List.length storage" "t = take (tr_size r) (drop (tr_offset r) storage)"
    "List.length (tr_cache r) = min (tr_size r) MaxCachedSize" "idx * MaxCachedSize < tr_size r"
  obtains r' where "ReloadCacheImpl storage idx r = Some r'" "tr_ok storage t r'" "tr_cache_idx r' = idx"
    "tr_offset r' = tr_offset r" "tr_size r' = tr_size r"
proof -
  let ?n = "chunk (tr_size r) idx"
  let ?bs = "take ?n (drop (idx * MaxCachedSize) t)"
  have n: "idx * MaxCachedSize + ?n \<le> tr_size r" using chunk_le(2) assms(5) by (simp add: less_imp_le)
  have read: "file_read storage (tr_offset r + idx * MaxCachedSize) (min (tr_size r - idx * MaxCachedSize) MaxCachedSize) = Some ?bs"
    using table_read [OF assms(3,2) n] by (simp add: chunk_def)
  have len: "List.length ?bs = ?n" using n assms(1) by simp
  let ?r = "r\<lparr>tr_cache := ?bs @ drop ?n (tr_cache r), tr_cache_idx := idx\<rparr>"
  have run: "ReloadCacheImpl storage idx r = Some ?r" using assms(5) read len by (simp add: ReloadCacheImpl_def Let_def)
  have "tr_ok storage t ?r"
    using assms len chunk_le(1) [of "tr_size r" idx] by (simp add: tr_ok_def)
  then show thesis using that [OF run] by simp
qed

lemma TableReader_new_ok:
  assumes "0 < sz" "ofs + sz \<le> List.length storage"
  obtains r where "TableReader_new storage ofs sz = Some r" "tr_ok storage (take sz (drop ofs storage)) r" "tr_size r = sz"
proof -
  let ?r = "\<lparr>tr_offset = ofs, tr_size = sz, tr_cache_idx = 0, tr_cache = replicate (min sz MaxCachedSize) 0\<rparr>"
  obtain r where "ReloadCacheImpl storage 0 ?r = Some r" "tr_ok storage (take sz (drop ofs storage)) r" "tr_size r = sz"
    by (rule ReloadCacheImpl_ok [of "take sz (drop ofs storage)" ?r storage 0]) (use assms in simp_all)
  then show thesis using that by (simp add: TableReader_new_def)
qed

text \<open>
  An entry of the table, \<open>ebs\<close>, with the size of its name in the last word of its fixed part. When
  the fixed part crosses the end of the cache, the size comes from the memory behind it, and the
  reader relies on it to lead out of the cached part.
\<close>

definition name_size_of :: "nat \<Rightarrow> u8 list \<Rightarrow> nat" where
  "name_size_of hdr bs = unat (field (hdr - 4) 4 bs :: u32)"

lemma AlignUp_bounds: "n \<le> AlignUp n 4" "AlignUp n 4 \<le> n + 3"
  unfolding AlignUp_def by simp_all

lemma name_size_of_take: "\<lbrakk>hdr \<le> m; 4 \<le> hdr\<rbrakk> \<Longrightarrow> name_size_of hdr (take m bs) = name_size_of hdr bs"
  by (simp add: name_size_of_def field_def drop_take take_take)

lemma GetEntry_ok:
  assumes "tr_ok storage t r" "drop (unat ofs) t = ebs @ rest" "List.length ebs = hdr + AlignUp (name_size_of hdr ebs) 4"
    "4 \<le> hdr" "List.length ebs \<le> FallbackCacheSize" "tr_size r + 4 < 2 ^ 32"
    "unat ofs mod MaxCachedSize + hdr > MaxCachedSize \<Longrightarrow>
      (\<forall>r'. ReloadCache storage (GetCacheIndex ofs) r = Some r' \<longrightarrow>
        unat ofs + hdr + name_size_of hdr (drop (unat ofs mod MaxCachedSize) (tr_cache r' @ beyond)) + 4 < 2 ^ 32)"
  obtains ws r' where "reader_GetEntry hdr beyond storage ofs r = Some (ebs @ ws, r')" "tr_ok storage t r'" "tr_size r' = tr_size r"
proof -
  have t: "List.length t = tr_size r" "tr_offset r + tr_size r \<le> List.length storage" "t = take (tr_size r) (drop (tr_offset r) storage)"
    "List.length (tr_cache r) = min (tr_size r) MaxCachedSize" using assms(1) unfolding tr_ok_def by blast+
  have pos: "0 < List.length ebs" using assms(3,4) by simp
  moreover have "tr_size r - unat ofs = List.length ebs + List.length rest"
    using arg_cong [OF assms(2), of List.length] t(1) by simp
  ultimately have inside: "unat ofs + List.length ebs \<le> tr_size r" by linarith
  let ?i = "GetCacheIndex ofs" and ?p = "unat ofs mod MaxCachedSize"
  have split: "?i * MaxCachedSize + ?p = unat ofs" by (simp add: GetCacheIndex_def)
  have "?i * MaxCachedSize < tr_size r" using split inside pos by linarith
  then obtain r1 where r1: "ReloadCache storage ?i r = Some r1" "tr_ok storage t r1" "tr_cache_idx r1 = ?i" "tr_offset r1 = tr_offset r"
    "tr_size r1 = tr_size r"
  proof (cases "tr_cache_idx r = ?i")
    case True
    then show thesis using that [of r] assms(1) by (simp add: ReloadCache_def)
  next
    case False
    from ReloadCacheImpl_ok [OF t \<open>?i * MaxCachedSize < tr_size r\<close>] show thesis using that False by (auto simp: ReloadCache_def)
  qed
  let ?n = "chunk (tr_size r) ?i" and ?entry = "drop ?p (tr_cache r1 @ beyond)"
  define ns where "ns = name_size_of hdr ?entry"
  have room: "unat ofs + k \<le> tr_size r \<Longrightarrow> ?p + k \<le> MaxCachedSize \<Longrightarrow> ?p + k \<le> ?n" for k
    using split by (simp add: chunk_def)
  have cached: "take k ?entry = take k (ebs @ rest)" if "?p + k \<le> ?n" for k
  proof -
    have c: "take ?n (tr_cache r1) = take ?n (drop (?i * MaxCachedSize) t)" "?n \<le> List.length (tr_cache r1)"
      using r1(2,3,5) chunk_le(1) [of "tr_size r" ?i] unfolding tr_ok_def by auto
    have "take k ?entry = take k (drop ?p (take ?n (tr_cache r1)))" using that c(2) by (simp add: drop_take take_take min_def)
    also have "\<dots> = take k (drop (unat ofs) t)" using that split by (simp add: c(1) drop_take take_take min_def add.commute)
    finally show ?thesis by (simp add: assms(2))
  qed
  have differ: "\<exists>ws. reader_GetEntry hdr beyond storage ofs r = Some (ebs @ ws, r1)"
    if "?i \<noteq> GetCacheIndex (ofs + of_nat (hdr + ns + 4))"
  proof -
    let ?k = "min (tr_size r - unat ofs) FallbackCacheSize"
    have k: "List.length ebs \<le> ?k" using inside assms(5) by simp
    have "file_read storage (tr_offset r + unat ofs) ?k = Some (take ?k (drop (unat ofs) t))"
      using inside by (intro table_read [OF t(3,2)]) simp
    also have "take ?k (drop (unat ofs) t) = ebs @ take (?k - List.length ebs) rest" using k by (simp add: assms(2))
    finally show ?thesis
      using that r1(1,4,5) inside by (auto simp: reader_GetEntry_def Let_def ns_def name_size_of_def)
  qed
  have index: "GetCacheIndex (ofs + of_nat (hdr + ns + 4)) = (unat ofs + hdr + ns + 4) div MaxCachedSize"
    if "unat ofs + hdr + ns + 4 < 2 ^ 32"
  proof -
    have "ofs + of_nat (hdr + ns + 4) = of_nat (unat ofs + hdr + ns + 4)" by simp
    then have "unat (ofs + of_nat (hdr + ns + 4)) = unat ofs + hdr + ns + 4"
      using that by (simp only: unsigned_of_nat) (simp add: take_bit_nat_eq_self)
    then show ?thesis by (simp only: GetCacheIndex_def)
  qed
  have beyond: "?i \<noteq> m div MaxCachedSize" if "?i * MaxCachedSize + MaxCachedSize \<le> m" for m
  proof -
    have "Suc ?i * MaxCachedSize \<le> m" using that by simp
    then have "Suc ?i \<le> m div MaxCachedSize" by (simp add: less_eq_div_iff_mult_less_eq MaxCachedSize_def)
    then show ?thesis by simp
  qed
  show thesis
  proof (cases "?p + hdr \<le> MaxCachedSize")
    case False
    have "unat ofs + hdr + ns + 4 < 2 ^ 32" using assms(7) False r1(1) by (simp add: ns_def)
    moreover have "?i \<noteq> (unat ofs + hdr + ns + 4) div MaxCachedSize" using beyond False split by simp
    ultimately have "?i \<noteq> GetCacheIndex (ofs + of_nat (hdr + ns + 4))" using index by simp
    then show thesis using differ that r1(2,5) by blast
  next
    case True
    have hdr: "hdr \<le> List.length ebs" using assms(3) by simp
    have "?p + hdr \<le> ?n" using room [of hdr] True inside hdr by linarith
    then have "take hdr ?entry = take hdr ebs" using cached [of hdr] hdr by simp
    then have ns: "ns = name_size_of hdr ebs"
      using name_size_of_take [of hdr hdr ?entry] name_size_of_take [of hdr hdr ebs] assms(4) by (simp add: ns_def)
    have small: "unat ofs + hdr + ns + 4 < 2 ^ 32"
      unfolding ns using inside assms(3,6) AlignUp_bounds(1) [of "name_size_of hdr ebs"] by linarith
    show thesis
    proof (cases "?i = GetCacheIndex (ofs + of_nat (hdr + ns + 4))")
      case False
      then show thesis using differ that r1(2,5) by blast
    next
      case same: True
      have "\<not> ?i * MaxCachedSize + MaxCachedSize \<le> unat ofs + hdr + ns + 4"
        using beyond same index [OF small] by metis
      then have "?p + List.length ebs \<le> MaxCachedSize"
        unfolding ns using split assms(3) AlignUp_bounds(2) [of "name_size_of hdr ebs"] by linarith
      then have "take (List.length ebs) ?entry = ebs" using cached [OF room] inside by simp
      then have "?entry = ebs @ drop (List.length ebs) ?entry" by (metis append_take_drop_id)
      moreover have "reader_GetEntry hdr beyond storage ofs r = Some (?entry, r1)"
        using r1(1) same by (simp add: reader_GetEntry_def Let_def ns_def name_size_of_def)
      ultimately show thesis using that r1(2,5) by metis
    qed
  qed
qed

end
