(* ===== verification/RomBuild.thy ===== *)
theory RomBuild
  imports RomTable
begin

text \<open>
  The builder of a layered ROM file system (\<open>fsmitm_romfs.cpp\<close>, \<open>fsmitm_romfs.hpp\<close>): the sets of
  directory and file contexts, the visits of the layers, and the layout of the new image with its
  tables. A pointer to a context is the path of the context, by which the sets are ordered. Sizes
  and offsets of \<open>s64\<close> and \<open>size_t\<close> are integers; the offsets of entries, of 32 bits, wrap.
\<close>

subsection \<open>Contexts\<close>

type_synonym path = "u8 list"

datatype source_type = SourceStorage | SourceFile | SourceLooseSdFile | SourceMetadata | SourceMemory

record dir_ctx =
  dc_path :: path
  dc_name :: "u8 list"
  dc_parent :: "path option"
  dc_child :: "path option"
  dc_sibling :: "path option"
  dc_file :: "path option"
  dc_entry_offset :: u32

record file_ctx =
  fc_path :: path
  fc_name :: "u8 list"
  fc_parent :: path
  fc_sibling :: "path option"
  fc_offset :: int
  fc_size :: int
  fc_orig_offset :: int
  fc_entry_offset :: u32
  fc_source_type :: source_type

definition child_path :: "path \<Rightarrow> u8 list \<Rightarrow> path" where
  "child_path parent name = parent @ 0x2F # name"

text \<open>The comparison of paths, up to their terminators.\<close>

fun Compare :: "path \<Rightarrow> path \<Rightarrow> int" where
  "Compare [] b = (case b of [] \<Rightarrow> 0 | c2 # _ \<Rightarrow> - uint c2)"
| "Compare (c1 # a) b =
     (let c2 = (case b of [] \<Rightarrow> 0 | c2 # _ \<Rightarrow> c2)
      in if c1 = c2 then (if c1 = 0 then 0 else Compare a (tl b)) else uint c1 - uint c2)"

text \<open>The set of contexts in order of their paths.\<close>

definition set_find :: "('a \<Rightarrow> path) \<Rightarrow> path \<Rightarrow> 'a list \<Rightarrow> 'a option" where
  "set_find key p xs = find (\<lambda>x. Compare p (key x) = 0) xs"

fun set_emplace :: "('a \<Rightarrow> path) \<Rightarrow> 'a \<Rightarrow> 'a list \<Rightarrow> 'a list" where
  "set_emplace key x [] = [x]"
| "set_emplace key x (y # ys) =
     (if Compare (key x) (key y) < 0 then x # y # ys
      else if Compare (key x) (key y) = 0 then y # ys
      else y # set_emplace key x ys)"

record romfs_builder =
  directories :: "dir_ctx list"
  files :: "file_ctx list"
  num_dirs :: nat
  num_files :: nat
  b_dir_table_size :: nat
  b_file_table_size :: nat
  b_dir_hash_table_size :: nat
  b_file_hash_table_size :: nat
  file_partition_size :: int
  cur_source_type :: source_type

definition new_dir :: "path \<Rightarrow> u8 list \<Rightarrow> path option \<Rightarrow> dir_ctx" where
  "new_dir p name parent =
     \<lparr>dc_path = p, dc_name = name, dc_parent = parent, dc_child = None, dc_sibling = None, dc_file = None, dc_entry_offset = 0\<rparr>"

definition Builder_new :: "source_type \<Rightarrow> romfs_builder" where
  "Builder_new t =
     \<lparr>directories = [new_dir [] [] None], files = [], num_dirs = 1, num_files = 0, b_dir_table_size = 0x18, b_file_table_size = 0,
      b_dir_hash_table_size = 0, b_file_hash_table_size = 0, file_partition_size = 0, cur_source_type = t\<rparr>"

definition AddDirectory :: "path \<Rightarrow> u8 list \<Rightarrow> romfs_builder \<Rightarrow> path \<times> romfs_builder" where
  "AddDirectory parent name b =
     (let p = child_path parent name
      in case set_find dc_path p (directories b) of
           Some d \<Rightarrow> (dc_path d, b)
         | None \<Rightarrow>
             (p, b\<lparr>num_dirs := num_dirs b + 1,
                   b_dir_table_size := b_dir_table_size b + (DirectoryEntry_size + AlignUp (List.length name) 4),
                   directories := set_emplace dc_path (new_dir p name (Some parent)) (directories b)\<rparr>))"

definition AddFile :: "path \<Rightarrow> u8 list \<Rightarrow> int \<Rightarrow> int \<Rightarrow> source_type \<Rightarrow> romfs_builder \<Rightarrow> romfs_builder" where
  "AddFile parent name size' orig_offset t b =
     (let p = child_path parent name
      in case set_find fc_path p (files b) of
           Some _ \<Rightarrow> b
         | None \<Rightarrow>
             b\<lparr>num_files := num_files b + 1,
               b_file_table_size := b_file_table_size b + (FileEntry_size + AlignUp (List.length name) 4),
               files := set_emplace fc_path
                 \<lparr>fc_path = p, fc_name = name, fc_parent = parent, fc_sibling = None, fc_offset = 0, fc_size = size',
                  fc_orig_offset = orig_offset, fc_entry_offset = 0, fc_source_type = t\<rparr> (files b)\<rparr>)"

subsection \<open>Visiting the card\<close>

datatype sd_entry = SdDir "u8 list" | SdFile "u8 list" int

text \<open>
  What the card answers: whether the directory of the program exists, the number of directories in
  a directory, and its entries in order. \<open>None\<close> aborts.
\<close>

record sd_card =
  sd_has_romfs :: bool
  sd_count_dirs :: "path \<Rightarrow> nat option"
  sd_read_dir :: "path \<Rightarrow> sd_entry list option"

fun add_sd_entries ::
  "path \<Rightarrow> nat \<Rightarrow> sd_entry list \<Rightarrow> path list \<Rightarrow> romfs_builder \<Rightarrow> (path list \<times> romfs_builder) option" where
  "add_sd_entries parent num_child_dirs [] child_dirs b =
     (if num_child_dirs = List.length child_dirs then Some (child_dirs, b) else None)"
| "add_sd_entries parent num_child_dirs (SdDir name # es) child_dirs b =
     (let (real_child, b) = AddDirectory parent name b; child_dirs = child_dirs @ [real_child]
      in if List.length child_dirs \<le> num_child_dirs then add_sd_entries parent num_child_dirs es child_dirs b else None)"
| "add_sd_entries parent num_child_dirs (SdFile name size' # es) child_dirs b =
     add_sd_entries parent num_child_dirs es child_dirs (AddFile parent name size' 0 (cur_source_type b) b)"

text \<open>The recursion over the child directories, with the directories still to be visited.\<close>

partial_function (option) visit_sd :: "sd_card \<Rightarrow> path list \<Rightarrow> romfs_builder \<Rightarrow> romfs_builder option" where
  "visit_sd sd todo b =
     (case todo of
        [] \<Rightarrow> Some b
      | parent # rest \<Rightarrow>
          Option.bind (sd_count_dirs sd parent) (\<lambda>n.
          Option.bind (sd_read_dir sd parent) (\<lambda>es.
          Option.bind (add_sd_entries parent n es [] b) (\<lambda>(child_dirs, b). visit_sd sd (child_dirs @ rest) b))))"

definition AddSdFiles :: "sd_card \<Rightarrow> romfs_builder \<Rightarrow> romfs_builder option" where
  "AddSdFiles sd b =
     (if sd_has_romfs sd then visit_sd sd [[]] (b\<lparr>cur_source_type := SourceLooseSdFile\<rparr>) else Some b)"

subsection \<open>Visiting an image\<close>

text \<open>The files of a directory, along their siblings; the list need not end.\<close>

partial_function (option) visit_files ::
  "u8 list \<Rightarrow> u8 list \<Rightarrow> path \<Rightarrow> u32 \<Rightarrow> table_reader \<Rightarrow> romfs_builder \<Rightarrow> (table_reader \<times> romfs_builder) option" where
  "visit_files beyond storage parent cur file_table b =
     (if cur = EmptyEntry then Some (file_table, b)
      else Option.bind (reader_GetEntry FileEntry_size beyond storage cur file_table) (\<lambda>(bs, file_table).
        let e = file_of_bytes bs
        in visit_files beyond storage parent (fe_sibling e) file_table
             (AddFile parent (fe_name e) (sint (fe_size e)) (sint (fe_offset e)) (cur_source_type b) b)))"

text \<open>A directory to be entered, or the rest of a list of sibling directories below their parent.\<close>

datatype visit = Enter path u32 | Siblings path u32

partial_function (option) visit_tables ::
  "u8 list \<Rightarrow> u8 list \<Rightarrow> visit list \<Rightarrow> table_reader \<Rightarrow> table_reader \<Rightarrow> romfs_builder \<Rightarrow> romfs_builder option" where
  "visit_tables beyond storage todo dir_table file_table b =
     (case todo of
        [] \<Rightarrow> Some b
      | Enter parent ofs # rest \<Rightarrow>
          Option.bind (reader_GetEntry DirectoryEntry_size beyond storage ofs dir_table) (\<lambda>(bs, dir_table).
          Option.bind (visit_files beyond storage parent (de_file (dir_of_bytes bs)) file_table b) (\<lambda>(file_table, b).
          visit_tables beyond storage (Siblings parent (de_child (dir_of_bytes bs)) # rest) dir_table file_table b))
      | Siblings parent cur # rest \<Rightarrow>
          if cur = EmptyEntry then visit_tables beyond storage rest dir_table file_table b
          else Option.bind (reader_GetEntry DirectoryEntry_size beyond storage cur dir_table) (\<lambda>(bs, dir_table).
            let (real_child, b) = AddDirectory parent (de_name (dir_of_bytes bs)) b
            in visit_tables beyond storage (Enter real_child cur # Siblings parent (de_sibling (dir_of_bytes bs)) # rest)
                 dir_table file_table b))"

definition AddStorageFiles :: "u8 list \<Rightarrow> u8 list \<Rightarrow> source_type \<Rightarrow> romfs_builder \<Rightarrow> romfs_builder option" where
  "AddStorageFiles beyond storage t b =
     Option.bind (file_read storage 0 Header_size) (\<lambda>bs.
       let h = header_of_bytes bs
       in if header_size h \<noteq> of_nat Header_size then None
          else Option.bind (TableReader_new storage (unat (dir_table_ofs h)) (unat (dir_table_size h))) (\<lambda>dir_table.
               Option.bind (TableReader_new storage (unat (file_table_ofs h)) (unat (file_table_size h))) (\<lambda>file_table.
               visit_tables beyond storage [Enter [] 0] dir_table file_table (b\<lparr>cur_source_type := t\<rparr>))))"

end
