(* ===== verification/RomImage.thy ===== *)
theory RomImage
  imports RomBuild
begin

text \<open>
  Building the image of a layered ROM file system (\<open>Builder::Build\<close> of \<open>fsmitm_romfs.cpp\<close>): the
  places of the files and of the entries, the links between the contexts, the tables with their hash
  tables, and the sources of the data of the image.
\<close>

subsection \<open>Hashing\<close>

definition CalculatePathHash :: "u32 \<Rightarrow> u8 list \<Rightarrow> u32" where
  "CalculatePathHash parent name =
     fold (\<lambda>c hash. (drop_bit 5 hash OR push_bit 27 hash) XOR ucast c) name (parent XOR 123456789)"

definition has_small_factor :: "nat \<Rightarrow> bool" where
  "has_small_factor n \<longleftrightarrow> n mod 2 = 0 \<or> n mod 3 = 0 \<or> n mod 5 = 0 \<or> n mod 7 = 0 \<or> n mod 11 = 0 \<or> n mod 13 = 0 \<or> n mod 17 = 0"

text \<open>The search for a number without a small factor ends at the latest at one behind a multiple of them all.\<close>

lemma no_small_factor:
  assumes "n mod 510510 = 1"
  shows "\<not> has_small_factor n"
proof -
  have "n mod d = 1 mod d" if "d dvd 510510" for d
    using assms that by (metis mod_mod_cancel)
  then show ?thesis by (simp add: has_small_factor_def)
qed

function next_size :: "nat \<Rightarrow> nat" where
  "next_size n = (if has_small_factor n then next_size (n + 1) else n)"
  by pat_completeness auto
termination
proof (relation "measure (\<lambda>n. 510509 - (n + 510508) mod 510510)", goal_cases)
  case (2 n)
  let ?r = "(n + 510508) mod 510510"
  have "?r \<noteq> 510509"
  proof
    assume r: "?r = 510509"
    have "n mod 510510 = (?r + 2) mod 510510" by (simp add: mod_simps)
    then have "n mod 510510 = 1" by (simp add: r)
    then show False using 2 no_small_factor by blast
  qed
  moreover have "?r < 510510" by simp
  ultimately have r: "Suc ?r < 510510" by linarith
  then have "(n + 1 + 510508) mod 510510 = Suc ?r" using mod_Suc [of "n + 510508" 510510] by simp
  then show ?case using r by simp
qed simp

declare next_size.simps [simp del]

definition GetHashTableSize :: "nat \<Rightarrow> nat" where
  "GetHashTableSize n = (if n < 3 then 3 else if n < 19 then (if even n then n + 1 else n) else next_size n)"

subsection \<open>Places\<close>

definition align_int :: "int \<Rightarrow> nat \<Rightarrow> int" where
  "align_int n a = int (AlignUp (nat n) a)"

definition is_storage_or_file :: "source_type \<Rightarrow> bool" where
  "is_storage_or_file t \<longleftrightarrow> t = SourceStorage \<or> t = SourceFile"

text \<open>The padding that the source has before a file and that is kept; \<open>None\<close> aborts.\<close>

definition extra_padding :: "int \<Rightarrow> file_ctx option \<Rightarrow> file_ctx \<Rightarrow> int option" where
  "extra_padding partition_size prev f =
     (case prev of
        None \<Rightarrow> Some 0
      | Some p \<Rightarrow>
          if fc_source_type p = fc_source_type f \<and> is_storage_or_file (fc_source_type f) then
            (let expected = partition_size - fc_offset p + fc_orig_offset p
             in if expected \<noteq> fc_orig_offset f then
                  (if expected \<le> fc_orig_offset f then Some (fc_orig_offset f - expected) else None)
                else Some 0)
          else Some 0)"

fun place_files :: "int \<Rightarrow> u32 \<Rightarrow> file_ctx option \<Rightarrow> file_ctx list \<Rightarrow> (file_ctx list \<times> int) option" where
  "place_files partition_size entry_offset prev [] = Some ([], partition_size)"
| "place_files partition_size entry_offset prev (f # fs) =
     (let partition_size = align_int partition_size 0x10
      in case extra_padding partition_size prev f of
           None \<Rightarrow> None
         | Some extra \<Rightarrow>
             let f = f\<lparr>fc_offset := partition_size + extra, fc_entry_offset := entry_offset\<rparr>
             in map_option (\<lambda>(fs, n). (f # fs, n))
                  (place_files (partition_size + extra + fc_size f)
                     (entry_offset + of_nat (FileEntry_size + AlignUp (List.length (fc_name f)) 4)) (Some f) fs))"

fun place_dirs :: "u32 \<Rightarrow> dir_ctx list \<Rightarrow> dir_ctx list" where
  "place_dirs entry_offset [] = []"
| "place_dirs entry_offset (d # ds) =
     d\<lparr>dc_entry_offset := entry_offset\<rparr> #
     place_dirs (entry_offset + of_nat (DirectoryEntry_size + AlignUp (List.length (dc_name d)) 4)) ds"

subsection \<open>Links\<close>

definition dir_at :: "dir_ctx list \<Rightarrow> path \<Rightarrow> dir_ctx option" where
  "dir_at ds p = find (\<lambda>d. dc_path d = p) ds"

definition file_at :: "file_ctx list \<Rightarrow> path \<Rightarrow> file_ctx option" where
  "file_at fs p = find (\<lambda>f. fc_path f = p) fs"

definition change_dir :: "path \<Rightarrow> (dir_ctx \<Rightarrow> dir_ctx) \<Rightarrow> dir_ctx list \<Rightarrow> dir_ctx list" where
  "change_dir p g ds = map (\<lambda>d. if dc_path d = p then g d else d) ds"

text \<open>From the last file to the first, each becomes the first of the list of its parent.\<close>

definition link_file :: "file_ctx \<Rightarrow> dir_ctx list \<times> file_ctx list \<Rightarrow> dir_ctx list \<times> file_ctx list" where
  "link_file f x =
     (case x of (ds, fs) \<Rightarrow>
        (change_dir (fc_parent f) (dc_file_update (\<lambda>_. Some (fc_path f))) ds,
         f\<lparr>fc_sibling := Option.bind (dir_at ds (fc_parent f)) dc_file\<rparr> # fs))"

definition link_dir :: "dir_ctx \<Rightarrow> dir_ctx list \<Rightarrow> dir_ctx list" where
  "link_dir d ds =
     (case dc_parent d of
        None \<Rightarrow> ds
      | Some p \<Rightarrow>
          change_dir p (dc_child_update (\<lambda>_. Some (dc_path d)))
            (change_dir (dc_path d) (dc_sibling_update (\<lambda>_. Option.bind (dir_at ds p) dc_child)) ds))"

subsection \<open>Sources\<close>

datatype source_arg = AtOffset int | AtPath path | InMemory "u8 list" | InFile "u8 list"

record source_info =
  virtual_offset :: int
  si_size :: int
  si_source_type :: source_type
  si_arg :: source_arg

text \<open>Files from an image follow each other in it, so that one source serves a run of them.\<close>

definition emplace_source :: "file_ctx \<Rightarrow> source_info list \<Rightarrow> source_info list" where
  "emplace_source f infos =
     (let start = fc_offset f + int FilePartitionOffset
      in if is_storage_or_file (fc_source_type f) then
           (let back = last infos
            in if si_source_type back = fc_source_type f
               then butlast infos @ [back\<lparr>si_size := start + fc_size f - virtual_offset back\<rparr>]
               else infos @ [\<lparr>virtual_offset = start, si_size = fc_size f, si_source_type = fc_source_type f,
                              si_arg = AtOffset (fc_orig_offset f + int FilePartitionOffset)\<rparr>])
         else infos @ [\<lparr>virtual_offset = start, si_size = fc_size f, si_source_type = fc_source_type f, si_arg = AtPath (fc_path f)\<rparr>])"

subsection \<open>Tables\<close>

text \<open>An entry goes to the head of the list of its slot in the hash table.\<close>

definition hash_index :: "u32 list \<Rightarrow> u32 \<Rightarrow> u8 list \<Rightarrow> nat" where
  "hash_index table parent name = unat (CalculatePathHash parent name) mod List.length table"

definition offset_or_empty :: "u32 option \<Rightarrow> u32" where
  "offset_or_empty x = (case x of None \<Rightarrow> EmptyEntry | Some ofs \<Rightarrow> ofs)"

definition parent_offset :: "dir_ctx list \<Rightarrow> path \<Rightarrow> u32" where
  "parent_offset ds p = (case dir_at ds p of None \<Rightarrow> 0 | Some d \<Rightarrow> dc_entry_offset d)"

definition file_link :: "file_ctx list \<Rightarrow> path option \<Rightarrow> u32" where
  "file_link fs p = offset_or_empty (map_option fc_entry_offset (Option.bind p (file_at fs)))"

definition dir_link :: "dir_ctx list \<Rightarrow> path option \<Rightarrow> u32" where
  "dir_link ds p = offset_or_empty (map_option dc_entry_offset (Option.bind p (dir_at ds)))"

definition make_file_entry :: "dir_ctx list \<Rightarrow> file_ctx list \<Rightarrow> u32 list \<Rightarrow> file_ctx \<Rightarrow> file_entry \<times> u32 list" where
  "make_file_entry ds fs hash_table f =
     (let parent = parent_offset ds (fc_parent f); i = hash_index hash_table parent (fc_name f)
      in (\<lparr>fe_parent = parent, fe_sibling = file_link fs (fc_sibling f), fe_offset = of_int (fc_offset f),
           fe_size = of_int (fc_size f), fe_hash = hash_table ! i, fe_name = fc_name f\<rparr>,
          hash_table[i := fc_entry_offset f]))"

definition make_dir_entry :: "dir_ctx list \<Rightarrow> file_ctx list \<Rightarrow> u32 list \<Rightarrow> dir_ctx \<Rightarrow> dir_entry \<times> u32 list" where
  "make_dir_entry ds fs hash_table d =
     (let parent = (case dc_parent d of None \<Rightarrow> 0 | Some p \<Rightarrow> parent_offset ds p); i = hash_index hash_table parent (dc_name d)
      in (\<lparr>de_parent = parent, de_sibling = dir_link ds (dc_sibling d), de_child = dir_link ds (dc_child d),
           de_file = file_link fs (dc_file d), de_hash = hash_table ! i, de_name = dc_name d\<rparr>,
          hash_table[i := dc_entry_offset d]))"

text \<open>The loops that fill a table: the entry is made, put into the table, and a file gets its source.\<close>

fun fill_file_table ::
  "dir_ctx list \<Rightarrow> file_ctx list \<Rightarrow> file_ctx list \<Rightarrow> u32 list \<Rightarrow> source_info list \<Rightarrow> table_writer \<Rightarrow>
     (u32 list \<times> source_info list \<times> table_writer) option" where
  "fill_file_table ds fs [] hash_table infos w = Some (hash_table, infos, w)"
| "fill_file_table ds fs (f # rest) hash_table infos w =
     (let (e, hash_table) = make_file_entry ds fs hash_table f
      in Option.bind (writer_put_entry FileEntry_size (fc_entry_offset f) (List.length (fc_name f)) (file_bytes e) w)
           (fill_file_table ds fs rest hash_table (emplace_source f infos)))"

fun fill_dir_table ::
  "dir_ctx list \<Rightarrow> file_ctx list \<Rightarrow> dir_ctx list \<Rightarrow> u32 list \<Rightarrow> table_writer \<Rightarrow> (u32 list \<times> table_writer) option" where
  "fill_dir_table ds fs [] hash_table w = Some (hash_table, w)"
| "fill_dir_table ds fs (d # rest) hash_table w =
     (let (e, hash_table) = make_dir_entry ds fs hash_table d
      in Option.bind (writer_put_entry DirectoryEntry_size (dc_entry_offset d) (List.length (dc_name d)) (dir_bytes e) w)
           (fill_dir_table ds fs rest hash_table))"

definition hash_table_bytes :: "u32 list \<Rightarrow> u8 list" where
  "hash_table_bytes t = concat (map (word_bytes 4) t)"

text \<open>
  A part of the metadata file: the table is written through its writer, which writes its buffers
  back when it is destroyed, and then the hash table.
\<close>

definition write_file_table ::
  "dir_ctx list \<Rightarrow> file_ctx list \<Rightarrow> nat \<Rightarrow> nat \<Rightarrow> nat \<Rightarrow> source_info list \<Rightarrow> u8 list \<Rightarrow> (source_info list \<times> u8 list) option" where
  "write_file_table ds fs num_entries hash_ofs table_size infos f =
     Option.bind (TableWriter_new f (hash_ofs + 4 * num_entries) table_size) (\<lambda>w.
     Option.bind (fill_file_table ds fs fs (replicate num_entries EmptyEntry) infos w) (\<lambda>(hash_table, infos, w).
     Option.bind (tw_Flush w) (\<lambda>w.
     map_option (\<lambda>f. (infos, f)) (file_write hash_ofs (hash_table_bytes hash_table) (tw_file w)))))"

definition write_dir_table ::
  "dir_ctx list \<Rightarrow> file_ctx list \<Rightarrow> nat \<Rightarrow> nat \<Rightarrow> u8 list \<Rightarrow> u8 list option" where
  "write_dir_table ds fs num_entries table_size f =
     Option.bind (TableWriter_new f (4 * num_entries) table_size) (\<lambda>w.
     Option.bind (fill_dir_table ds fs ds (replicate num_entries EmptyEntry) w) (\<lambda>(hash_table, w).
     Option.bind (tw_Flush w) (\<lambda>w. file_write 0 (hash_table_bytes hash_table) (tw_file w))))"

subsection \<open>Building\<close>

definition place_contexts :: "romfs_builder \<Rightarrow> romfs_builder option" where
  "place_contexts b =
     (case place_files (file_partition_size b) 0 None (files b) of
        None \<Rightarrow> None
      | Some (fs, partition_size) \<Rightarrow>
          let (ds, fs) = foldr link_file fs (directories b, []); ds = place_dirs 0 ds
          in Some (b\<lparr>directories := foldr link_dir ds ds, files := fs, file_partition_size := partition_size\<rparr>))"

definition build_header :: "romfs_builder \<Rightarrow> nat \<Rightarrow> nat \<Rightarrow> rom_header" where
  "build_header b dir_hash_size file_hash_size =
     (let ofs1 = align_int (int FilePartitionOffset + file_partition_size b) 4; ofs2 = ofs1 + int dir_hash_size;
          ofs3 = ofs2 + int (b_dir_table_size b); ofs4 = ofs3 + int file_hash_size
      in \<lparr>header_size = of_nat Header_size, dir_hash_table_ofs = of_int ofs1, dir_hash_table_size = of_nat dir_hash_size,
          dir_table_ofs = of_int ofs2, dir_table_size = of_nat (b_dir_table_size b), file_hash_table_ofs = of_int ofs3,
          file_hash_table_size = of_nat file_hash_size, file_table_ofs = of_int ofs4,
          file_table_size = of_nat (b_file_table_size b), file_partition_ofs = of_nat FilePartitionOffset\<rparr>)"

text \<open>
  \<open>create_metadata\<close> creates the metadata file of a size; the bytes of the header, whose source is
  the first, are set at the end.
\<close>

definition Build :: "(nat \<Rightarrow> u8 list option) \<Rightarrow> romfs_builder \<Rightarrow> source_info list option" where
  "Build create_metadata b =
     (let dir_entries = GetHashTableSize (num_dirs b); file_entries = GetHashTableSize (num_files b);
          dir_hash_size = 4 * dir_entries; file_hash_size = 4 * file_entries;
          metadata_size = dir_hash_size + b_dir_table_size b + file_hash_size + b_file_table_size b;
          header_info = \<lparr>virtual_offset = 0, si_size = int Header_size, si_source_type = SourceMemory,
                         si_arg = InMemory (replicate Header_size 0)\<rparr>
      in Option.bind (create_metadata metadata_size) (\<lambda>f.
         Option.bind (place_contexts b) (\<lambda>b.
         Option.bind (write_file_table (directories b) (files b) file_entries (dir_hash_size + b_dir_table_size b)
                        (b_file_table_size b) [header_info] f) (\<lambda>(infos, f).
         Option.bind (write_dir_table (directories b) (files b) dir_entries (b_dir_table_size b) f) (\<lambda>f.
           let h = build_header b dir_hash_size file_hash_size
           in Some (infos[0 := header_info\<lparr>si_arg := InMemory (header_bytes h)\<rparr>] @
                [\<lparr>virtual_offset = sint (dir_hash_table_ofs h), si_size = int metadata_size, si_source_type = SourceMetadata,
                  si_arg = InFile f\<rparr>]))))))"

end
