(* ===== verification/RomRead.thy ===== *)
theory RomRead
  imports RomImage
begin

text \<open>
  The storage that shows a layered ROM file system (\<open>fsmitm_layered_romfs_storage.cpp\<close>): it is built
  once from its layers, and a read collects the pieces of its sources. A read that waits for the
  initialisation waits for the thread that builds, so it continues with the built storage.
\<close>

datatype storage_error = ResultInvalidSize | ResultInvalidOffset | ResultNullptrArgument | ResultUnsupportedOperation

record layered_storage =
  source_infos :: "source_info list"
  storage_romfs :: "u8 list option"
  file_romfs :: "u8 list option"
  is_initialized :: bool
  started_initialize :: bool

text \<open>
  The outside: the card, if it is mounted, with the content of the files of the program, a new metadata file of
  a size, the memory behind the caches of the readers, and the member the builder leaves unset.
\<close>

record rom_env =
  sd_mounted :: bool
  sd_files :: sd_card
  loose_file :: "path \<Rightarrow> u8 list option"
  create_metadata :: "nat \<Rightarrow> u8 list option"
  beyond_cache :: "u8 list"
  unset_source_type :: source_type

definition LayeredRomfsStorage_new :: "u8 list option \<Rightarrow> u8 list option \<Rightarrow> layered_storage" where
  "LayeredRomfsStorage_new s_r f_r =
     \<lparr>source_infos = [], storage_romfs = s_r, file_romfs = f_r, is_initialized = False, started_initialize = False\<rparr>"

subsection \<open>Initialisation\<close>

definition add_image :: "rom_env \<Rightarrow> u8 list option \<Rightarrow> source_type \<Rightarrow> romfs_builder \<Rightarrow> romfs_builder option" where
  "add_image env layer t b = (case layer of None \<Rightarrow> Some b | Some storage \<Rightarrow> AddStorageFiles (beyond_cache env) storage t b)"

definition collect_layers :: "rom_env \<Rightarrow> layered_storage \<Rightarrow> romfs_builder option" where
  "collect_layers env s =
     Option.bind (if sd_mounted env then AddSdFiles (sd_files env) (Builder_new (unset_source_type env))
                  else Some (Builder_new (unset_source_type env))) (\<lambda>b.
     Option.bind (add_image env (file_romfs s) SourceFile b) (add_image env (storage_romfs s) SourceStorage))"

definition InitializeImpl :: "rom_env \<Rightarrow> layered_storage \<Rightarrow> layered_storage option" where
  "InitializeImpl env s =
     Option.bind (collect_layers env s) (\<lambda>b.
     map_option (\<lambda>infos. s\<lparr>source_infos := infos, is_initialized := True\<rparr>) (Build (create_metadata env) b))"

definition BeginInitialize :: "layered_storage \<Rightarrow> layered_storage option" where
  "BeginInitialize s = (if started_initialize s then None else Some (s\<lparr>started_initialize := True\<rparr>))"

text \<open>Waiting for the event; without a begun initialisation it never comes.\<close>

definition wait_initialized :: "rom_env \<Rightarrow> layered_storage \<Rightarrow> layered_storage option" where
  "wait_initialized env s =
     (if is_initialized s then Some s else if started_initialize s then InitializeImpl env s else None)"

subsection \<open>Reading\<close>

definition virtual_size :: "source_info list \<Rightarrow> int" where
  "virtual_size infos = virtual_offset (last infos) + si_size (last infos)"

definition lower_bound :: "source_info list \<Rightarrow> int \<Rightarrow> nat" where
  "lower_bound infos ofs = List.length (takeWhile (\<lambda>i. virtual_offset i \<le> ofs) infos)"

definition storage_read :: "u8 list option \<Rightarrow> int \<Rightarrow> nat \<Rightarrow> u8 list option" where
  "storage_read storage ofs n = Option.bind storage (\<lambda>f. if ofs < 0 then None else file_read f (nat ofs) n)"

definition read_source :: "rom_env \<Rightarrow> layered_storage \<Rightarrow> source_info \<Rightarrow> int \<Rightarrow> nat \<Rightarrow> u8 list option" where
  "read_source env s i within n =
     (case (si_source_type i, si_arg i) of
        (SourceStorage, AtOffset ofs) \<Rightarrow> storage_read (storage_romfs s) (ofs + within) n
      | (SourceFile, AtOffset ofs) \<Rightarrow> storage_read (file_romfs s) (ofs + within) n
      | (SourceLooseSdFile, AtPath p) \<Rightarrow> storage_read (loose_file env p) within n
      | (SourceMemory, InMemory data) \<Rightarrow> storage_read (Some data) within n
      | (SourceMetadata, InFile f) \<Rightarrow> storage_read (Some f) within n
      | _ \<Rightarrow> None)"

text \<open>
  The bytes that the loop stores behind each other in the buffer. \<open>None\<close> is an abort, a step over
  the last source, or padding of a negative size.
\<close>

function read_loop :: "rom_env \<Rightarrow> layered_storage \<Rightarrow> source_info list \<Rightarrow> int \<Rightarrow> nat \<Rightarrow> u8 list option" where
  "read_loop env s infos ofs n =
     (if n = 0 then Some []
      else case infos of
        [] \<Rightarrow> None
      | cur # rest \<Rightarrow>
          if ofs < virtual_offset cur then None
          else if ofs < virtual_offset cur + si_size cur then
            (let within = ofs - virtual_offset cur; k = min n (nat (si_size cur - within))
             in Option.bind (read_source env s cur within k) (\<lambda>bs.
                map_option (append bs) (read_loop env s infos (ofs + int k) (n - k))))
          else
            (case rest of
               [] \<Rightarrow> None
             | next_source # _ \<Rightarrow>
                 if virtual_offset next_source < ofs then None
                 else let k = nat (virtual_offset next_source - ofs)
                      in map_option (append (replicate k 0)) (read_loop env s rest (ofs + int k) (n - k))))"
  by pat_completeness auto
termination
  by (relation "measure (\<lambda>(env, s, infos, ofs, n). List.length infos + n)") auto

declare read_loop.simps [simp del]

definition Read :: "rom_env \<Rightarrow> int \<Rightarrow> nat \<Rightarrow> layered_storage \<Rightarrow> (storage_error, u8 list) outcome \<times> layered_storage" where
  "Read env offset n s =
     (if n = 0 then (Ok [], s)
      else case wait_initialized env s of
        None \<Rightarrow> (Abort, s)
      | Some s \<Rightarrow>
          let virt_size = virtual_size (source_infos s)
          in R_UNLESS (0 \<le> offset) ResultInvalidOffset s
            (R_UNLESS (offset < virt_size) ResultInvalidOffset s
              (let n = (if nat (virt_size - offset) < n then nat (virt_size - offset) else n); it = lower_bound (source_infos s) offset
               in if it = 0 then (Abort, s)
                  else case read_loop env s (drop (it - 1) (source_infos s)) offset n of
                         None \<Rightarrow> (Abort, s) | Some bs \<Rightarrow> (Ok bs, s))))"

definition GetSize :: "rom_env \<Rightarrow> layered_storage \<Rightarrow> (storage_error, int) outcome \<times> layered_storage" where
  "GetSize env s =
     (case wait_initialized env s of None \<Rightarrow> (Abort, s) | Some s \<Rightarrow> (Ok (virtual_size (source_infos s)), s))"

datatype operation_id = InvalidateCache | QueryRange | OtherOperation

text \<open>Whether the answer to a query is cleared, for a pointer and a size of the buffer.\<close>

definition OperateRange :: "bool \<Rightarrow> nat \<Rightarrow> nat \<Rightarrow> operation_id \<Rightarrow> int \<Rightarrow> (storage_error, bool) outcome" where
  "OperateRange dst_null dst_size sizeof_info op n =
     (if op = InvalidateCache \<or> op = QueryRange then
        (if n = 0 then
           (if op = QueryRange then
              (if dst_null then Err ResultNullptrArgument else if dst_size \<noteq> sizeof_info then Err ResultInvalidSize else Ok True)
            else Ok False)
         else Err ResultUnsupportedOperation)
      else Err ResultUnsupportedOperation)"

text \<open>The image is read-only.\<close>

definition write_unsupported :: "(storage_error, unit) outcome" where
  "write_unsupported = Err ResultUnsupportedOperation"

end
