(* ===== verification/RomReading.thy ===== *)
theory RomReading
  imports RomRead
begin

text \<open>
  Reading a layered ROM file system against the image it stands for: the contents of its sources at
  their places, with zeros between them.
\<close>

definition content :: "rom_env \<Rightarrow> layered_storage \<Rightarrow> source_info \<Rightarrow> u8 list" where
  "content env s i = (case read_source env s i 0 (nat (si_size i)) of None \<Rightarrow> [] | Some bs \<Rightarrow> bs)"

fun image_from :: "rom_env \<Rightarrow> layered_storage \<Rightarrow> int \<Rightarrow> source_info list \<Rightarrow> u8 list" where
  "image_from env s pos [] = []"
| "image_from env s pos (i # infos) =
     replicate (nat (virtual_offset i - pos)) 0 @ content env s i @ image_from env s (virtual_offset i + si_size i) infos"

definition rom_image :: "rom_env \<Rightarrow> layered_storage \<Rightarrow> u8 list" where
  "rom_image env s = image_from env s 0 (source_infos s)"

definition source_ok :: "rom_env \<Rightarrow> layered_storage \<Rightarrow> source_info \<Rightarrow> bool" where
  "source_ok env s i \<longleftrightarrow> 0 \<le> si_size i \<and> read_source env s i 0 (nat (si_size i)) \<noteq> None"

fun chained :: "source_info list \<Rightarrow> bool" where
  "chained (a # b # infos) \<longleftrightarrow> virtual_offset a + si_size a \<le> virtual_offset b \<and> chained (b # infos)"
| "chained infos \<longleftrightarrow> True"

text \<open>A read that ends between two sources is extended to the start of the second.\<close>

fun padding_end :: "source_info list \<Rightarrow> int \<Rightarrow> int" where
  "padding_end (a # b # infos) e =
     (if virtual_offset a + si_size a < e \<and> e \<le> virtual_offset b then virtual_offset b else padding_end (b # infos) e)"
| "padding_end infos e = e"

subsection \<open>Sources\<close>

lemma storage_read_part:
  "\<lbrakk>storage_read f ofs m = Some bs; 0 \<le> within; nat within + k \<le> m\<rbrakk> \<Longrightarrow>
    storage_read f (ofs + within) k = Some (take k (drop (nat within) bs))"
  by (auto simp: storage_read_def file_read_def bind_eq_Some_conv nat_add_distrib drop_take min_def add.commute split: if_splits)

lemma read_source_part:
  assumes "source_ok env s i" "0 \<le> within" "within + int k \<le> si_size i"
  shows "read_source env s i within k = Some (take k (drop (nat within) (content env s i)))"
proof -
  have k: "nat within + k \<le> nat (si_size i)" using assms(2,3) by linarith
  obtain bs where bs: "read_source env s i 0 (nat (si_size i)) = Some bs" using assms(1) by (auto simp: source_ok_def)
  have "read_source env s i within k = Some (take k (drop (nat within) bs))"
    using bs storage_read_part [OF _ assms(2) k, of _ 0] storage_read_part [OF _ assms(2) k]
    unfolding read_source_def by (auto split: source_type.splits source_arg.splits)
  then show ?thesis by (simp add: content_def bs)
qed

lemma length_storage_read: "storage_read f ofs m = Some bs \<Longrightarrow> List.length bs = m"
  by (auto simp: storage_read_def file_read_def bind_eq_Some_conv split: if_splits)

lemma length_content [simp]:
  assumes "source_ok env s i"
  shows "List.length (content env s i) = nat (si_size i)"
  using assms unfolding source_ok_def content_def read_source_def
  by (auto simp: length_storage_read split: source_type.splits source_arg.splits option.splits)

subsection \<open>The loop of a read\<close>

lemma image_from_Cons:
  "pos \<le> virtual_offset i \<Longrightarrow>
    image_from env s pos (i # infos) = replicate (nat (virtual_offset i - pos)) 0 @ image_from env s (virtual_offset i) (i # infos)"
  by simp

lemma padding_end_before: "\<lbrakk>chained infos; infos \<noteq> []; \<forall>i \<in> set infos. 0 \<le> si_size i; e \<le> virtual_offset (hd infos) + si_size (hd infos)\<rbrakk> \<Longrightarrow>
    padding_end infos e = e"
proof (induction infos e rule: padding_end.induct)
  case (1 a b infos e)
  have "0 \<le> si_size b" using "1.prems"(3) by simp
  then have "padding_end (b # infos) e = e" using "1.prems" by (intro "1.IH") auto
  then show ?case using "1.prems"(4) by simp
qed simp_all

lemma padding_end_ge: "e \<le> padding_end infos e"
  by (induction infos e rule: padding_end.induct) auto

lemma chained_later:
  "\<lbrakk>chained (i # infos); \<forall>j \<in> set (i # infos). 0 \<le> si_size j\<rbrakk> \<Longrightarrow> \<forall>j \<in> set infos. virtual_offset i + si_size i \<le> virtual_offset j"
  by (induction infos arbitrary: i) force+

lemma padding_end_le:
  "\<lbrakk>chained infos; \<forall>i \<in> set infos. 0 \<le> si_size i; infos \<noteq> []; e \<le> virtual_size infos\<rbrakk> \<Longrightarrow> padding_end infos e \<le> virtual_size infos"
proof (induction infos e rule: padding_end.induct)
  case (1 a b infos e)
  have "virtual_offset b \<le> virtual_size (b # infos)"
  proof (cases "infos = []")
    case False
    then have "virtual_offset b + si_size b \<le> virtual_offset (last infos)" "0 \<le> si_size (last infos)" "0 \<le> si_size b"
      using chained_later [of b infos] "1.prems"(1,2) by auto
    then show ?thesis using False by (simp add: virtual_size_def)
  qed (use "1.prems"(2) in \<open>simp add: virtual_size_def\<close>)
  then show ?case using 1 by (simp add: virtual_size_def)
qed simp_all

lemma chained_tl: "chained (i # infos) \<Longrightarrow> chained infos"
  by (cases infos) auto

lemma take_twice:
  assumes "a + k \<le> List.length c" "k \<le> m"
  shows "take k (drop a c) @ take (m - k) (drop (a + k) (c @ d)) = take m (drop a (c @ d))"
  using assms take_add [of k "m - k" "drop a (c @ d)"] by (simp add: add.commute)

lemma read_loop_image:
  "\<lbrakk>chained infos; \<forall>i \<in> set infos. source_ok env s i; infos \<noteq> []; virtual_offset (hd infos) \<le> ofs; ofs + int n \<le> virtual_size infos;
    n = 0 \<Longrightarrow> ofs \<le> virtual_offset (hd infos) + si_size (hd infos); \<forall>i \<in> set (tl infos). ofs \<le> virtual_offset i\<rbrakk> \<Longrightarrow>
    read_loop env s infos ofs n =
      Some (take (nat (padding_end infos (ofs + int n) - ofs))
        (drop (nat (ofs - virtual_offset (hd infos))) (image_from env s (virtual_offset (hd infos)) infos)))"
proof (induction env s infos ofs n rule: read_loop.induct)
  case (1 env s infos ofs n)
  obtain cur rest where infos: "infos = cur # rest" using "1.prems"(3) by (cases infos) auto
  have ok: "source_ok env s cur" using "1.prems"(2) infos by simp
  have sizes: "\<forall>i \<in> set infos. 0 \<le> si_size i" using "1.prems"(2) by (auto simp: source_ok_def)
  let ?vo = "virtual_offset cur" and ?stop = "virtual_offset cur + si_size cur"
  have ge: "?vo \<le> ofs" using "1.prems"(4) infos by simp
  show ?case
  proof (cases "n = 0")
    case True
    then have "padding_end infos ofs = ofs"
      using padding_end_before [OF "1.prems"(1,3) sizes] "1.prems"(6) by simp
    then show ?thesis using True by (simp add: read_loop.simps)
  next
    case n: False
    show ?thesis
    proof (cases "ofs < ?stop")
      case True
      let ?within = "ofs - ?vo"
      let ?k = "min n (nat (si_size cur - ?within))"
      have within: "0 \<le> ?within" "?within + int ?k \<le> si_size cur" using ge True by auto
      have read: "read_source env s cur ?within ?k = Some (take ?k (drop (nat ?within) (content env s cur)))"
        by (rule read_source_part [OF ok within])
      let ?m = "nat (padding_end infos (ofs + int n) - ofs)" and ?c = "content env s cur" and ?I = "image_from env s ?stop rest"
      have e: "ofs + int ?k + int (n - ?k) = ofs + int n" by simp
      have image: "image_from env s (virtual_offset (hd infos)) infos = ?c @ ?I" by (simp add: infos)
      have pos: "nat (ofs + int ?k - virtual_offset (hd infos)) = nat ?within + ?k" using within by (simp add: infos)
      have m: "?k \<le> ?m" "nat (padding_end infos (ofs + int n) - (ofs + int ?k)) = ?m - ?k"
        using padding_end_ge [of "ofs + int n" infos] by linarith+
      have c: "nat ?within + ?k \<le> List.length ?c" using within ok by simp
      have IH: "read_loop env s infos (ofs + int ?k) (n - ?k) = Some (take (?m - ?k) (drop (nat ?within + ?k) (?c @ ?I)))"
      proof -
        have "read_loop env s infos (ofs + int ?k) (n - ?k) =
          Some (take (nat (padding_end infos (ofs + int ?k + int (n - ?k)) - (ofs + int ?k)))
            (drop (nat (ofs + int ?k - virtual_offset (hd infos))) (image_from env s (virtual_offset (hd infos)) infos)))"
          by (rule "1.IH"(1) [OF n infos _ True refl refl read])
            (use "1.prems" ge within True n infos chained_later [of cur rest] sizes in \<open>auto simp: min_def\<close>)
        then show ?thesis unfolding e m(2) pos image .
      qed
      have "read_loop env s infos ofs n = Option.bind (read_source env s cur ?within ?k) (\<lambda>bs.
          map_option (append bs) (read_loop env s infos (ofs + int ?k) (n - ?k)))"
        unfolding read_loop.simps [of env s infos ofs n] using n True ge by (simp add: infos Let_def)
      then have "read_loop env s infos ofs n = Some (take ?k (drop (nat ?within) ?c) @ take (?m - ?k) (drop (nat ?within + ?k) (?c @ ?I)))"
        unfolding IH read by simp
      also have "\<dots> = Some (take ?m (drop (nat ?within) (?c @ ?I)))" using take_twice [OF c m(1)] by simp
      also have "\<dots> = Some (take ?m (drop (nat (ofs - virtual_offset (hd infos))) (image_from env s (virtual_offset (hd infos)) infos)))"
        unfolding image by (simp add: infos)
      finally show ?thesis .
    next
      case False
      have "rest \<noteq> []" using False "1.prems"(5) n by (auto simp: infos virtual_size_def)
      then obtain next_source rest' where rest: "rest = next_source # rest'" by (cases rest) auto
      let ?next = "virtual_offset next_source"
      let ?k = "nat (?next - ofs)"
      have next_source: "ofs \<le> ?next" "?stop \<le> ?next" "source_ok env s next_source" "0 \<le> si_size next_source"
        using "1.prems"(1,2,7) sizes by (auto simp: infos rest)
      have later: "\<forall>i \<in> set rest'. ?next \<le> virtual_offset i"
        using chained_later [of next_source rest'] "1.prems"(1) sizes by (force simp: infos rest)
      have "last rest \<in> set rest" by (simp add: rest)
      moreover have "\<forall>i \<in> set rest. ?next \<le> virtual_offset i \<and> 0 \<le> si_size i" using later sizes by (auto simp: infos rest)
      ultimately have "?next \<le> virtual_offset (last rest) \<and> 0 \<le> si_size (last rest)" by blast
      then have "?next \<le> virtual_size rest" by (simp add: virtual_size_def)
      note next_source = next_source this
      have IH: "read_loop env s rest ?next (n - ?k) =
          Some (take (nat (padding_end rest (?next + int (n - ?k)) - ?next)) (image_from env s ?next rest))"
      proof -
        have "read_loop env s rest (ofs + int ?k) (n - ?k) =
          Some (take (nat (padding_end rest (ofs + int ?k + int (n - ?k)) - (ofs + int ?k)))
            (drop (nat (ofs + int ?k - virtual_offset (hd rest))) (image_from env s (virtual_offset (hd rest)) rest)))"
          by (rule "1.IH"(2) [OF n infos _ False rest _ refl])
            (use "1.prems" ge next_source later in \<open>auto simp: infos rest virtual_size_def\<close>)
        then show ?thesis using next_source(1) by (simp add: rest)
      qed
      have step: "read_loop env s infos ofs n = map_option (append (replicate ?k 0)) (read_loop env s rest ?next (n - ?k))"
        unfolding read_loop.simps [of env s infos ofs n] using n False ge next_source(1) by (simp add: infos rest Let_def)
      have image: "drop (nat (ofs - ?vo)) (image_from env s ?vo infos) = replicate ?k 0 @ image_from env s ?next rest"
      proof -
        have "image_from env s ?vo infos = content env s cur @ replicate (nat (?next - ?stop)) 0 @ image_from env s ?next rest"
          using next_source(2) by (simp add: infos rest)
        moreover have "nat (ofs - ?vo) = List.length (content env s cur) + nat (ofs - ?stop)" using False ge ok sizes by (simp add: infos) linarith
        moreover have "nat (?next - ?stop) - nat (ofs - ?stop) = ?k" "nat (ofs - ?stop) \<le> nat (?next - ?stop)" using False next_source by linarith+
        ultimately show ?thesis by simp
      qed
      show ?thesis
      proof (cases "ofs + int n \<le> ?next")
        case True
        then have "padding_end infos (ofs + int n) = ?next" "n - ?k = 0" using False n by (auto simp: infos rest)
        then show ?thesis using step image by (simp add: infos rest read_loop.simps)
      next
        case long: False
        then have e: "padding_end infos (ofs + int n) = padding_end rest (ofs + int n)" "?next + int (n - ?k) = ofs + int n"
          using next_source(1) by (auto simp: infos rest)
        have m: "nat (padding_end rest (ofs + int n) - ofs) = ?k + nat (padding_end rest (ofs + int n) - ?next)"
          using padding_end_ge [of "ofs + int n" rest] long next_source(1) by linarith
        have hd: "virtual_offset (hd infos) = ?vo" by (simp add: infos)
        show ?thesis unfolding step IH [unfolded e(2)] hd image e(1) m by simp
      qed
    qed
  qed
qed

subsection \<open>Reads\<close>

definition infos_ok :: "rom_env \<Rightarrow> layered_storage \<Rightarrow> bool" where
  "infos_ok env s \<longleftrightarrow>
     source_infos s \<noteq> [] \<and> virtual_offset (hd (source_infos s)) = 0 \<and> chained (source_infos s) \<and>
     (\<forall>i \<in> set (source_infos s). source_ok env s i)"

lemma image_from_next:
  assumes "source_ok env s a" "virtual_offset a + si_size a \<le> virtual_offset (hd rest)" "rest \<noteq> []"
  obtains xs where "image_from env s (virtual_offset a) (a # rest) = xs @ image_from env s (virtual_offset (hd rest)) rest"
    "List.length xs = nat (virtual_offset (hd rest) - virtual_offset a)"
proof
  obtain b rest' where rest: "rest = b # rest'" using assms(3) by (cases rest) auto
  let ?xs = "content env s a @ replicate (nat (virtual_offset (hd rest) - (virtual_offset a + si_size a))) 0"
  show "image_from env s (virtual_offset a) (a # rest) = ?xs @ image_from env s (virtual_offset (hd rest)) rest"
    using assms(2) by (simp add: rest)
  have "0 \<le> si_size a" using assms(1) by (simp add: source_ok_def)
  then show "List.length ?xs = nat (virtual_offset (hd rest) - virtual_offset a)" using assms(1,2) by (simp add: rest)
qed

lemma skip_sources:
  "\<lbrakk>chained (pre @ suf); suf \<noteq> []; \<forall>i \<in> set (pre @ suf). source_ok env s i\<rbrakk> \<Longrightarrow>
    (\<exists>xs. image_from env s (virtual_offset (hd (pre @ suf))) (pre @ suf) = xs @ image_from env s (virtual_offset (hd suf)) suf \<and>
      int (List.length xs) = virtual_offset (hd suf) - virtual_offset (hd (pre @ suf))) \<and>
    (\<forall>e > virtual_offset (hd suf). padding_end (pre @ suf) e = padding_end suf e)"
proof (induction pre)
  case (Cons a pre)
  obtain b rest where b: "pre @ suf = b # rest" using Cons.prems(2) by (cases "pre @ suf") auto
  have chained: "virtual_offset a + si_size a \<le> virtual_offset b" "chained (pre @ suf)" using Cons.prems(1) by (simp_all add: b)
  then obtain xs where xs: "image_from env s (virtual_offset b) (pre @ suf) = xs @ image_from env s (virtual_offset (hd suf)) suf"
    "int (List.length xs) = virtual_offset (hd suf) - virtual_offset b"
    and e: "\<forall>e > virtual_offset (hd suf). padding_end (pre @ suf) e = padding_end suf e"
    using Cons.IH Cons.prems by (auto simp: b)
  have a: "source_ok env s a" "virtual_offset a + si_size a \<le> virtual_offset (hd (pre @ suf))" "pre @ suf \<noteq> []"
    using Cons.prems chained by (simp_all add: b)
  from image_from_next [OF a] obtain ys where ys: "image_from env s (virtual_offset a) (a # pre @ suf) = ys @ image_from env s (virtual_offset b) (pre @ suf)"
    "List.length ys = nat (virtual_offset b - virtual_offset a)" by (auto simp: b)
  have le: "virtual_offset a \<le> virtual_offset b" using chained(1) a(1) by (simp add: source_ok_def)
  have "padding_end (a # pre @ suf) e' = padding_end suf e'" if "virtual_offset (hd suf) < e'" for e'
    using e that xs(2) by (simp add: b)
  moreover have "image_from env s (virtual_offset a) (a # pre @ suf) = (ys @ xs) @ image_from env s (virtual_offset (hd suf)) suf"
    unfolding ys(1) xs(1) by simp
  moreover have "int (List.length (ys @ xs)) = virtual_offset (hd suf) - virtual_offset a" using ys(2) xs(2) le by simp
  ultimately show ?case by (auto simp del: image_from.simps)
qed auto

lemma length_image_from:
  "\<lbrakk>chained infos; \<forall>i \<in> set infos. source_ok env s i; infos \<noteq> []\<rbrakk> \<Longrightarrow>
    int (List.length (image_from env s (virtual_offset (hd infos)) infos)) = virtual_size infos - virtual_offset (hd infos)"
proof -
  assume ok: "chained infos" "\<forall>i \<in> set infos. source_ok env s i" and ne: "infos \<noteq> []"
  have i: "infos = butlast infos @ [last infos]" using ne by simp
  have "chained (butlast infos @ [last infos])" "\<forall>i \<in> set (butlast infos @ [last infos]). source_ok env s i" using ok i by simp_all
  from skip_sources [OF this(1) _ this(2)] obtain xs
    where "image_from env s (virtual_offset (hd infos)) infos = xs @ image_from env s (virtual_offset (last infos)) [last infos]"
      "int (List.length xs) = virtual_offset (last infos) - virtual_offset (hd infos)"
    unfolding i [symmetric] by auto
  moreover have "source_ok env s (last infos)" using ok(2) ne by simp
  moreover from this have "0 \<le> si_size (last infos)" by (simp add: source_ok_def)
  ultimately show ?thesis by (simp add: virtual_size_def)
qed

lemma lower_bound_split:
  assumes "infos \<noteq> []" "virtual_offset (hd infos) \<le> ofs"
  obtains cur rest where "lower_bound infos ofs \<noteq> 0" "drop (lower_bound infos ofs - 1) infos = cur # rest"
    "virtual_offset cur \<le> ofs" "rest \<noteq> [] \<Longrightarrow> ofs < virtual_offset (hd rest)"
proof -
  let ?p = "\<lambda>i. virtual_offset i \<le> ofs"
  let ?t = "takeWhile ?p infos"
  have ne: "?t \<noteq> []" using assms by (cases infos) auto
  have "infos = butlast ?t @ last ?t # dropWhile ?p infos" using ne by (metis append.assoc append_Cons append_Nil append_butlast_last_id takeWhile_dropWhile_id)
  then have "drop (List.length (butlast ?t)) infos = last ?t # dropWhile ?p infos" by (metis append_eq_conv_conj)
  moreover have "List.length (butlast ?t) = lower_bound infos ofs - 1" by (simp add: lower_bound_def)
  moreover have "virtual_offset (last ?t) \<le> ofs" using last_in_set [OF ne] by (blast dest: set_takeWhileD)
  moreover have "dropWhile ?p infos \<noteq> [] \<Longrightarrow> ofs < virtual_offset (hd (dropWhile ?p infos))"
    using hd_dropWhile [of ?p infos] by simp
  moreover have "lower_bound infos ofs \<noteq> 0" using ne by (simp add: lower_bound_def)
  ultimately show thesis using that by metis
qed

lemma Read_image:
  assumes "is_initialized s" "infos_ok env s" "0 \<le> offset" "offset < virtual_size (source_infos s)" "0 < n"
  shows "Read env offset n s =
    (Ok (take (nat (padding_end (source_infos s) (offset + int (min n (nat (virtual_size (source_infos s) - offset)))) - offset))
      (drop (nat offset) (rom_image env s))), s)"
proof -
  let ?infos = "source_infos s"
  let ?n = "min n (nat (virtual_size ?infos - offset))"
  have ok: "?infos \<noteq> []" "virtual_offset (hd ?infos) = 0" "chained ?infos" "\<forall>i \<in> set ?infos. source_ok env s i"
    using assms(2) by (simp_all add: infos_ok_def)
  have hd: "virtual_offset (hd ?infos) \<le> offset" using ok(2) assms(3) by simp
  from lower_bound_split [OF ok(1) hd] obtain cur rest where lb: "lower_bound ?infos offset \<noteq> 0"
    "drop (lower_bound ?infos offset - 1) ?infos = cur # rest" "virtual_offset cur \<le> offset" "rest \<noteq> [] \<Longrightarrow> offset < virtual_offset (hd rest)"
    by blast
  define pre where "pre = take (lower_bound ?infos offset - 1) ?infos"
  have split: "?infos = pre @ cur # rest" using lb(2) by (metis append_take_drop_id pre_def)
  have "chained (pre @ cur # rest)" "\<forall>i \<in> set (pre @ cur # rest). source_ok env s i" using ok split by simp_all
  from skip_sources [OF this(1) _ this(2)] obtain xs where image: "rom_image env s = xs @ image_from env s (virtual_offset cur) (cur # rest)"
    and xs: "int (List.length xs) = virtual_offset cur" and pad: "\<forall>e > virtual_offset cur. padding_end ?infos e = padding_end (cur # rest) e"
    unfolding split [symmetric] rom_image_def using ok(2) by auto
  have chained: "chained (cur # rest)" using ok(3) unfolding split by (induction pre rule: induct_list012) (auto intro: chained_tl)
  have sizes: "\<forall>i \<in> set (cur # rest). 0 \<le> si_size i" using ok(4) unfolding split by (auto simp: source_ok_def)
  have later: "\<forall>i \<in> set rest. offset \<le> virtual_offset i"
  proof (cases rest)
    case (Cons b rest')
    have "\<forall>i \<in> set rest'. virtual_offset b + si_size b \<le> virtual_offset i"
      using chained_later [of b rest'] chained sizes by (simp add: Cons)
    then show ?thesis using lb(4) sizes by (force simp: Cons)
  qed simp
  have vs: "virtual_size (cur # rest) = virtual_size ?infos" by (simp add: virtual_size_def split)
  have "read_loop env s (cur # rest) offset ?n =
      Some (take (nat (padding_end (cur # rest) (offset + int ?n) - offset))
        (drop (nat (offset - virtual_offset cur)) (image_from env s (virtual_offset cur) (cur # rest))))"
    using read_loop_image [of "cur # rest" env s offset ?n] chained ok(4) lb(3) later assms(4,5) vs by (auto simp: split)
  also have "padding_end (cur # rest) (offset + int ?n) = padding_end ?infos (offset + int ?n)"
    using pad lb(3) assms(4,5) by simp
  also have "drop (nat (offset - virtual_offset cur)) (image_from env s (virtual_offset cur) (cur # rest)) = drop (nat offset) (rom_image env s)"
  proof -
    have "nat (offset - virtual_offset cur) = nat offset - List.length xs" "drop (nat offset) xs = []" using xs lb(3) by auto
    then show ?thesis by (simp only: image drop_append append_Nil)
  qed
  finally have "read_loop env s (drop (lower_bound ?infos offset - 1) ?infos) offset ?n =
      Some (take (nat (padding_end ?infos (offset + int ?n) - offset)) (drop (nat offset) (rom_image env s)))" unfolding lb(2) .
  moreover have "(if nat (virtual_size ?infos - offset) < n then nat (virtual_size ?infos - offset) else n) = ?n" by simp
  ultimately show ?thesis using assms lb(1) by (simp add: Read_def wait_initialized_def Let_def del: min_def)
qed

text \<open>A read within a source gives the bytes of the source.\<close>

lemma source_in_image:
  assumes "infos_ok env s" "i \<in> set (source_infos s)"
  obtains xs ys where "rom_image env s = xs @ content env s i @ ys" "int (List.length xs) = virtual_offset i"
    "\<And>e. \<lbrakk>virtual_offset i < e; e \<le> virtual_offset i + si_size i\<rbrakk> \<Longrightarrow> padding_end (source_infos s) e = e"
    "virtual_offset i + si_size i \<le> virtual_size (source_infos s)"
proof -
  let ?infos = "source_infos s"
  have ok: "virtual_offset (hd ?infos) = 0" "chained ?infos" "\<forall>i \<in> set ?infos. source_ok env s i"
    using assms(1) by (simp_all add: infos_ok_def)
  obtain pre rest where split: "?infos = pre @ i # rest" using assms(2) by (meson split_list)
  have "chained (pre @ i # rest)" "\<forall>i \<in> set (pre @ i # rest). source_ok env s i" using ok split by simp_all
  from skip_sources [OF this(1) _ this(2)] obtain xs where image: "rom_image env s = xs @ image_from env s (virtual_offset i) (i # rest)"
    and xs: "int (List.length xs) = virtual_offset i" and pad: "\<forall>e > virtual_offset i. padding_end ?infos e = padding_end (i # rest) e"
    unfolding split [symmetric] rom_image_def using ok(1) by auto
  have chained: "chained (i # rest)" using ok(2) unfolding split by (induction pre rule: induct_list012) (auto intro: chained_tl)
  have sizes: "\<forall>i \<in> set (i # rest). 0 \<le> si_size i" using ok(3) unfolding split by (auto simp: source_ok_def)
  have "padding_end (i # rest) e = e" if "e \<le> virtual_offset i + si_size i" for e
    using padding_end_before [OF chained _ sizes] that by simp
  moreover have "virtual_offset i + si_size i \<le> virtual_size ?infos"
  proof (cases "rest = []")
    case False
    then have "last rest \<in> set rest" by simp
    then have "virtual_offset i + si_size i \<le> virtual_offset (last rest)" "0 \<le> si_size (last rest)"
      using chained_later [OF chained sizes] sizes by auto
    then show ?thesis using False by (simp add: split virtual_size_def)
  qed (simp add: split virtual_size_def)
  ultimately show thesis using that [of xs "image_from env s (virtual_offset i + si_size i) rest"] image xs pad by simp
qed

lemma Read_source:
  assumes "is_initialized s" "infos_ok env s" "i \<in> set (source_infos s)" "0 \<le> within" "0 < n" "within + int n \<le> si_size i"
  obtains bs where "read_source env s i within n = Some bs" "Read env (virtual_offset i + within) n s = (Ok bs, s)"
    "bs = take n (drop (nat (virtual_offset i + within)) (rom_image env s))"
proof -
  let ?infos = "source_infos s" and ?ofs = "virtual_offset i + within"
  from source_in_image [OF assms(2,3)] obtain xs ys where image: "rom_image env s = xs @ content env s i @ ys" "int (List.length xs) = virtual_offset i"
    "\<And>e. \<lbrakk>virtual_offset i < e; e \<le> virtual_offset i + si_size i\<rbrakk> \<Longrightarrow> padding_end ?infos e = e"
    "virtual_offset i + si_size i \<le> virtual_size ?infos" by blast
  have ok: "source_ok env s i" using assms(2,3) by (simp add: infos_ok_def)
  have n: "min n (nat (virtual_size ?infos - ?ofs)) = n" using image(4) assms(6) by linarith
  have e: "padding_end ?infos (?ofs + int n) = ?ofs + int n" using assms(4-6) by (intro image(3)) simp_all
  have "0 \<le> ?ofs" using image(2) assms(4) by linarith
  moreover have "?ofs < virtual_size ?infos" using image(4) assms(5,6) by linarith
  ultimately have read: "Read env ?ofs n s = (Ok (take n (drop (nat ?ofs) (rom_image env s))), s)"
    using Read_image [OF assms(1,2) _ _ assms(5), of ?ofs] unfolding n e by simp
  have pos: "nat ?ofs = List.length xs + nat within" using image(2) assms(4) by linarith
  have "nat within + n \<le> List.length (content env s i)" using ok assms(4,6) by simp
  then have "take n (drop (nat ?ofs) (rom_image env s)) = take n (drop (nat within) (content env s i))" by (simp add: pos image(1))
  then show thesis using that read read_source_part [OF ok assms(4,6)] by simp
qed

end
