(* ===== verification/RomLayout.thy ===== *)
theory RomLayout
  imports RomReading
begin

text \<open>
  The layout of a layered ROM file system: the places of the files, the sources that serve them, and
  the bytes of a file in the image.
\<close>

definition file_start :: "file_ctx \<Rightarrow> int" where
  "file_start f = fc_offset f + int FilePartitionOffset"

text \<open>The bytes a file has in its layer.\<close>

definition file_data :: "rom_env \<Rightarrow> layered_storage \<Rightarrow> file_ctx \<Rightarrow> u8 list option" where
  "file_data env s f =
     (case fc_source_type f of
        SourceStorage \<Rightarrow> storage_read (storage_romfs s) (fc_orig_offset f + int FilePartitionOffset) (nat (fc_size f))
      | SourceFile \<Rightarrow> storage_read (file_romfs s) (fc_orig_offset f + int FilePartitionOffset) (nat (fc_size f))
      | SourceLooseSdFile \<Rightarrow> storage_read (loose_file env (fc_path f)) 0 (nat (fc_size f))
      | _ \<Rightarrow> None)"

definition file_present :: "rom_env \<Rightarrow> layered_storage \<Rightarrow> file_ctx \<Rightarrow> bool" where
  "file_present env s f \<longleftrightarrow> 0 \<le> fc_size f \<and> file_data env s f \<noteq> None"

text \<open>A file that was placed is the file of the builder with its place.\<close>

definition same_file :: "file_ctx \<Rightarrow> file_ctx \<Rightarrow> bool" where
  "same_file f g \<longleftrightarrow>
     fc_path g = fc_path f \<and> fc_name g = fc_name f \<and> fc_parent g = fc_parent f \<and> fc_size g = fc_size f \<and>
     fc_orig_offset g = fc_orig_offset f \<and> fc_source_type g = fc_source_type f"

lemma file_data_same: "same_file f g \<Longrightarrow> file_data env s g = file_data env s f"
  by (simp add: same_file_def file_data_def split: source_type.split)

lemma file_present_same: "same_file f g \<Longrightarrow> file_present env s g = file_present env s f"
  by (simp add: file_present_def file_data_same) (simp add: same_file_def)

subsection \<open>Sources serve files\<close>

definition serves :: "source_info \<Rightarrow> file_ctx \<Rightarrow> bool" where
  "serves i f \<longleftrightarrow>
     si_source_type i = fc_source_type f \<and> virtual_offset i \<le> file_start f \<and>
     file_start f + fc_size f \<le> virtual_offset i + si_size i \<and>
     (case si_arg i of
        AtOffset ofs \<Rightarrow> is_storage_or_file (fc_source_type f) \<and> ofs + (file_start f - virtual_offset i) = fc_orig_offset f + int FilePartitionOffset
      | AtPath p \<Rightarrow> fc_source_type f = SourceLooseSdFile \<and> p = fc_path f \<and> virtual_offset i = file_start f
      | _ \<Rightarrow> False)"

lemma serves_data:
  assumes "serves i f" "file_present env s f"
  shows "read_source env s i (file_start f - virtual_offset i) (nat (fc_size f)) = file_data env s f"
  using assms unfolding serves_def file_present_def file_data_def read_source_def is_storage_or_file_def
  by (auto split: source_type.splits source_arg.splits)

text \<open>What holds between two files: the last source ends with the last file, which it serves.\<close>

definition sources_at :: "rom_env \<Rightarrow> layered_storage \<Rightarrow> int \<Rightarrow> file_ctx option \<Rightarrow> source_info list \<Rightarrow> bool" where
  "sources_at env s partition_size prev infos \<longleftrightarrow>
     infos \<noteq> [] \<and> chained infos \<and> (\<forall>i \<in> set infos. source_ok env s i) \<and> 0 \<le> partition_size \<and>
     virtual_size infos \<le> int FilePartitionOffset + partition_size \<and>
     (case prev of
        None \<Rightarrow> si_source_type (last infos) = SourceMemory
      | Some p \<Rightarrow> serves (last infos) p \<and> virtual_size infos = file_start p + fc_size p \<and>
                   partition_size = fc_offset p + fc_size p \<and> 0 \<le> fc_size p)"

lemma chained_append:
  "chained (infos @ [i]) \<longleftrightarrow> chained infos \<and> (infos \<noteq> [] \<longrightarrow> virtual_size infos \<le> virtual_offset i)"
  by (induction infos rule: chained.induct) (auto simp: virtual_size_def)

lemma virtual_size_append [simp]: "virtual_size (infos @ [i]) = virtual_offset i + si_size i"
  by (simp add: virtual_size_def)

lemma align_int_ge: "0 \<le> n \<Longrightarrow> n \<le> align_int n 0x10"
proof -
  assume "0 \<le> n"
  have "m \<le> AlignUp m 16" for m by (simp add: AlignUp_def) 
  then show "n \<le> align_int n 0x10" using \<open>0 \<le> n\<close> unfolding align_int_def by (metis int_nat_eq of_nat_le_iff)
qed

lemma storage_read_present:
  "storage_read st ofs n \<noteq> None \<longleftrightarrow> (\<exists>f. st = Some f \<and> 0 \<le> ofs \<and> nat ofs + n \<le> List.length f)"
  by (auto simp: storage_read_def file_read_def bind_eq_Some_conv split: if_splits)

text \<open>Appending a source of its own.\<close>

lemma emplace_new:
  assumes "sources_at env s partition_size prev infos" "serves i f" "virtual_offset i = file_start f" "si_size i = fc_size f"
    "file_present env s f" "partition_size \<le> fc_offset f"
  shows "sources_at env s (fc_offset f + fc_size f) (Some f) (infos @ [i])"
proof -
  have "read_source env s i 0 (nat (fc_size f)) = file_data env s f"
    using serves_data [OF assms(2,5)] assms(3) by simp
  then have "source_ok env s i" using assms(4,5) by (simp add: source_ok_def file_present_def)
  then show ?thesis using assms by (auto simp: sources_at_def chained_append file_start_def file_present_def)
qed

text \<open>Extending the last source over a file that follows in the same layer.\<close>

definition extend_source :: "file_ctx \<Rightarrow> source_info \<Rightarrow> source_info" where
  "extend_source f back = back\<lparr>si_size := file_start f + fc_size f - virtual_offset back\<rparr>"

lemma extend_serves:
  assumes "serves back g" "virtual_offset back + si_size back \<le> file_start f" "0 \<le> fc_size f"
  shows "serves (extend_source f back) g"
  using assms unfolding serves_def extend_source_def by (auto split: source_arg.splits)

lemma extend_next:
  assumes "serves back p" "is_storage_or_file (fc_source_type p)" "fc_source_type f = fc_source_type p"
    "fc_offset f - fc_offset p = fc_orig_offset f - fc_orig_offset p"
    "virtual_offset back + si_size back \<le> file_start f" "0 \<le> si_size back"
  shows "serves (extend_source f back) f"
  using assms unfolding serves_def extend_source_def file_start_def is_storage_or_file_def by (auto split: source_arg.splits)

lemma extend_ok:
  assumes "serves (extend_source f back) f" "source_ok env s back" "file_present env s f" "is_storage_or_file (fc_source_type f)"
    "virtual_offset back + si_size back \<le> file_start f"
  shows "source_ok env s (extend_source f back)"
proof -
  obtain ofs where ofs: "si_arg back = AtOffset ofs" "ofs + (file_start f - virtual_offset back) = fc_orig_offset f + int FilePartitionOffset"
    using assms(1,4) by (auto simp: serves_def extend_source_def is_storage_or_file_def split: source_arg.splits)
  have t: "si_source_type back = fc_source_type f" using assms(1) by (simp add: serves_def extend_source_def)
  have size: "0 \<le> si_size back" "0 \<le> fc_size f" using assms(2,3) by (simp_all add: source_ok_def file_present_def)
  define st where "st = (if fc_source_type f = SourceStorage then storage_romfs s else file_romfs s)"
  have "storage_read st (fc_orig_offset f + int FilePartitionOffset) (nat (fc_size f)) \<noteq> None"
    using assms(3,4) by (auto simp: file_present_def file_data_def is_storage_or_file_def st_def)
  moreover have "storage_read st (ofs + 0) (nat (si_size back)) \<noteq> None"
    using assms(2,4) ofs(1) t by (auto simp: source_ok_def read_source_def is_storage_or_file_def st_def)
  ultimately have "storage_read st (ofs + 0) (nat (file_start f + fc_size f - virtual_offset back)) \<noteq> None"
    unfolding storage_read_present using ofs(2) size assms(5) by auto
  then show ?thesis using assms(4,5) ofs(1) t size
    by (auto simp: source_ok_def read_source_def extend_source_def is_storage_or_file_def st_def)
qed

lemma extra_padding_ge: "extra_padding n prev f = Some extra \<Longrightarrow> 0 \<le> extra"
  by (auto simp: extra_padding_def Let_def split: option.splits if_splits)

lemma emplace_step:
  assumes at: "sources_at env s partition_size prev infos"
    and place: "extra_padding (align_int partition_size 0x10) prev f = Some extra"
    and f': "f' = f\<lparr>fc_offset := align_int partition_size 0x10 + extra, fc_entry_offset := eo\<rparr>"
    and present: "file_present env s f"
  shows "sources_at env s (fc_offset f' + fc_size f) (Some f') (emplace_source f' infos)"
    and "\<And>g. \<exists>i \<in> set infos. serves i g \<Longrightarrow> \<exists>i \<in> set (emplace_source f' infos). serves i g"
    and "partition_size \<le> fc_offset f'"
    and "si_source_type (hd infos) = SourceMemory \<Longrightarrow> hd (emplace_source f' infos) = hd infos"
proof -
  have f: "fc_source_type f' = fc_source_type f" "fc_size f' = fc_size f" "fc_path f' = fc_path f" "fc_orig_offset f' = fc_orig_offset f"
    "fc_offset f' = align_int partition_size 0x10 + extra" by (simp_all add: f')
  have present': "file_present env s f'" using present by (subst file_present_same [of f]) (simp_all add: f' same_file_def)
  have at': "infos \<noteq> []" "chained infos" "\<forall>i \<in> set infos. source_ok env s i" "0 \<le> partition_size"
    "virtual_size infos \<le> int FilePartitionOffset + partition_size" using at by (simp_all add: sources_at_def)
  show ge: "partition_size \<le> fc_offset f'"
    using align_int_ge [OF at'(4)] extra_padding_ge [OF place] by (simp add: f)
  have typed: "fc_source_type f' \<in> {SourceStorage, SourceFile, SourceLooseSdFile}"
    using present by (auto simp: f file_present_def file_data_def split: source_type.splits)
  have "sources_at env s (fc_offset f' + fc_size f) (Some f') (emplace_source f' infos) \<and>
    (\<forall>g. (\<exists>i \<in> set infos. serves i g) \<longrightarrow> (\<exists>i \<in> set (emplace_source f' infos). serves i g)) \<and>
    (si_source_type (hd infos) = SourceMemory \<longrightarrow> hd (emplace_source f' infos) = hd infos)"
  proof (cases "is_storage_or_file (fc_source_type f') \<and> si_source_type (last infos) = fc_source_type f'")
    case True
    let ?tail = "last infos"
    have e: "emplace_source f' infos = butlast infos @ [extend_source f' ?tail]"
      using True by (simp add: emplace_source_def Let_def extend_source_def file_start_def)
    obtain p where p: "prev = Some p" "serves ?tail p" "virtual_size infos = file_start p + fc_size p" 
      using at True by (auto simp: sources_at_def is_storage_or_file_def split: option.splits)
    have tp: "fc_source_type p = fc_source_type f'" using p(2) True by (simp add: serves_def)
    have diff: "fc_offset f' - fc_offset p = fc_orig_offset f' - fc_orig_offset p"
      using place True tp by (auto simp: extra_padding_def p(1) f Let_def split: if_splits)
    have after: "virtual_offset ?tail + si_size ?tail \<le> file_start f'" using at'(5) ge by (simp add: virtual_size_def file_start_def)
    have ok: "source_ok env s ?tail" using at'(1,3) by simp
    have served: "serves (extend_source f' ?tail) f'"
    proof (rule extend_next [OF p(2) _ _ diff after])
      show "is_storage_or_file (fc_source_type p)" using True by (simp only: tp)
      show "0 \<le> si_size ?tail" using ok by (simp add: source_ok_def)
    qed (simp only: tp)
    have infos: "infos = butlast infos @ [?tail]" using at'(1) by simp
    have "chained (butlast infos @ [extend_source f' ?tail])"
      using at'(2) by (subst (asm) infos) (simp add: chained_append extend_source_def)
    moreover have "source_ok env s (extend_source f' ?tail)" using extend_ok [OF served ok present' _ after] True by blast
    moreover have "\<forall>i \<in> set (butlast infos). source_ok env s i" using at'(3) by (meson in_set_butlastD)
    moreover have "0 \<le> fc_size f'" using present' by (simp add: file_present_def)
    moreover have "virtual_offset (extend_source f' ?tail) + si_size (extend_source f' ?tail) = file_start f' + fc_size f'"
      by (simp add: extend_source_def)
    ultimately have "sources_at env s (fc_offset f' + fc_size f) (Some f') (emplace_source f' infos)"
      unfolding e using served ge at'(4) by (simp add: sources_at_def f(2) file_start_def ball_Un)
    moreover have "\<exists>i \<in> set (emplace_source f' infos). serves i g" if "i \<in> set infos" "serves i g" for i g
    proof -
      have "i \<in> set (butlast infos) \<or> i = ?tail" using that(1) by (subst (asm) infos) auto
      then show ?thesis using extend_serves [of ?tail g f'] that(2) after present' unfolding e by (auto simp: file_present_def)
    qed
    moreover have "hd (emplace_source f' infos) = hd infos" if "si_source_type (hd infos) = SourceMemory"
    proof -
      have "hd infos \<noteq> ?tail" using that True by (auto simp: is_storage_or_file_def)
      then have "butlast infos \<noteq> []" using infos at'(1) by (metis append_Nil list.sel(1))
      then show ?thesis unfolding e by (metis hd_append2 infos)
    qed
    ultimately show ?thesis by blast
  next
    case False
    define i where "i = \<lparr>virtual_offset = file_start f', si_size = fc_size f', si_source_type = fc_source_type f',
      si_arg = (if is_storage_or_file (fc_source_type f') then AtOffset (fc_orig_offset f' + int FilePartitionOffset) else AtPath (fc_path f'))\<rparr>"
    have e: "emplace_source f' infos = infos @ [i]"
      using False by (auto simp: emplace_source_def Let_def i_def file_start_def)
    have "serves i f'" using typed by (auto simp: serves_def i_def is_storage_or_file_def)
    then have "sources_at env s (fc_offset f' + fc_size f') (Some f') (infos @ [i])"
      by (intro emplace_new [OF at _ _ _ present' ge]) (simp_all add: i_def)
    then show ?thesis using at'(1) unfolding e by (auto simp: f(2))
  qed
  then show "sources_at env s (fc_offset f' + fc_size f) (Some f') (emplace_source f' infos)"
    "\<And>g. \<exists>i \<in> set infos. serves i g \<Longrightarrow> \<exists>i \<in> set (emplace_source f' infos). serves i g"
    "si_source_type (hd infos) = SourceMemory \<Longrightarrow> hd (emplace_source f' infos) = hd infos" by blast+
qed

subsection \<open>Placing the files\<close>

lemma place_sources:
  "\<lbrakk>place_files pos eo prev fs = Some (fs', psize); sources_at env s pos prev infos; \<forall>f \<in> set fs. file_present env s f;
    si_source_type (hd infos) = SourceMemory\<rbrakk> \<Longrightarrow>
    \<exists>last_file. sources_at env s psize last_file (fold emplace_source fs' infos) \<and> pos \<le> psize \<and>
      hd (fold emplace_source fs' infos) = hd infos \<and>
      (\<forall>g. (\<exists>i \<in> set infos. serves i g) \<longrightarrow> (\<exists>i \<in> set (fold emplace_source fs' infos). serves i g)) \<and>
      (\<forall>f \<in> set fs'. \<exists>i \<in> set (fold emplace_source fs' infos). serves i f)"
proof (induction fs arbitrary: pos eo prev infos fs' psize)
  case Nil
  then show ?case by auto
next
  case (Cons f fs)
  let ?a = "align_int pos 0x10"
  obtain extra where extra: "extra_padding ?a prev f = Some extra"
    using Cons.prems(1) by (auto simp: Let_def split: option.splits)
  define f' where "f' = f\<lparr>fc_offset := ?a + extra, fc_entry_offset := eo\<rparr>"
  obtain fs'' where fs': "fs' = f' # fs''"
    and rest: "place_files (fc_offset f' + fc_size f) (eo + of_nat (FileEntry_size + AlignUp (List.length (fc_name f)) 4)) (Some f') fs = Some (fs'', psize)"
    using Cons.prems(1) extra by (auto simp: Let_def f'_def)
  have present: "file_present env s f" "\<forall>f \<in> set fs. file_present env s f" using Cons.prems(3) by simp_all
  note step = emplace_step [OF Cons.prems(2) extra f'_def present(1)]
  have served: "\<exists>i \<in> set (emplace_source f' infos). serves i f'"
    using step(1) unfolding sources_at_def by auto
  have "hd (emplace_source f' infos) = hd infos" "si_source_type (hd (emplace_source f' infos)) = SourceMemory" using step(4) Cons.prems(4) by simp_all
  note head = this
  from Cons.IH [OF rest step(1) present(2) head(2)] obtain last_file where IH:
    "sources_at env s psize last_file (fold emplace_source fs'' (emplace_source f' infos))" "fc_offset f' + fc_size f \<le> psize"
    "hd (fold emplace_source fs'' (emplace_source f' infos)) = hd (emplace_source f' infos)"
    "\<forall>g. (\<exists>i \<in> set (emplace_source f' infos). serves i g) \<longrightarrow> (\<exists>i \<in> set (fold emplace_source fs'' (emplace_source f' infos)). serves i g)"
    "\<forall>f \<in> set fs''. \<exists>i \<in> set (fold emplace_source fs'' (emplace_source f' infos)). serves i f" by blast
  have "pos \<le> psize" using IH(2) step(3) present(1) by (simp add: file_present_def)
  then show ?case using IH(1,3,4,5) head(1) step(2) served unfolding fs' fold_simps list.set by (metis insert_iff)
qed

fun entry_offsets :: "u32 \<Rightarrow> nat list \<Rightarrow> u32 list" where
  "entry_offsets ofs [] = []"
| "entry_offsets ofs (n # ns) = ofs # entry_offsets (ofs + of_nat n) ns"

definition file_entry_size :: "file_ctx \<Rightarrow> nat" where
  "file_entry_size f = FileEntry_size + AlignUp (List.length (fc_name f)) 4"

definition dir_entry_size :: "dir_ctx \<Rightarrow> nat" where
  "dir_entry_size d = DirectoryEntry_size + AlignUp (List.length (dc_name d)) 4"

lemma place_files_same:
  "place_files pos eo prev fs = Some (fs', psize) \<Longrightarrow>
    list_all2 same_file fs fs' \<and> map fc_entry_offset fs' = entry_offsets eo (map file_entry_size fs) \<and> map fc_sibling fs' = map fc_sibling fs"
  by (induction fs arbitrary: pos eo prev fs' psize)
    (auto simp: Let_def same_file_def file_entry_size_def split: option.splits)

lemma place_files_layout:
  "\<lbrakk>place_files pos eo prev fs = Some (fs', psize); \<forall>f \<in> set fs. 0 \<le> fc_size f; 0 \<le> pos\<rbrakk> \<Longrightarrow>
    pos \<le> psize \<and> (\<forall>f \<in> set fs'. pos \<le> fc_offset f \<and> fc_offset f + fc_size f \<le> psize) \<and>
    sorted_wrt (\<lambda>f g. fc_offset f + fc_size f \<le> fc_offset g) fs'"
proof (induction fs arbitrary: pos eo prev fs' psize)
  case (Cons f fs)
  let ?a = "align_int pos 0x10"
  obtain extra where extra: "extra_padding ?a prev f = Some extra"
    using Cons.prems(1) by (auto simp: Let_def split: option.splits)
  define f' where "f' = f\<lparr>fc_offset := ?a + extra, fc_entry_offset := eo\<rparr>"
  obtain fs'' where fs': "fs' = f' # fs''"
    and rest: "place_files (?a + extra + fc_size f) (eo + of_nat (FileEntry_size + AlignUp (List.length (fc_name f)) 4)) (Some f') fs = Some (fs'', psize)"
    using Cons.prems(1) extra by (auto simp: Let_def f'_def)
  have "pos \<le> ?a + extra" using align_int_ge [OF Cons.prems(3)] extra_padding_ge [OF extra] by simp
  moreover have "0 \<le> fc_size f" using Cons.prems(2) by simp
  ultimately show ?case using Cons.IH [OF rest] Cons.prems(2,3) by (force simp: fs' f'_def)
qed simp

lemma served_file:
  assumes "is_initialized s" "infos_ok env s" "i \<in> set (source_infos s)" "serves i f" "file_present env s f" "0 < fc_size f"
  obtains bs where "file_data env s f = Some bs" "Read env (file_start f) (nat (fc_size f)) s = (Ok bs, s)"
proof -
  let ?within = "file_start f - virtual_offset i"
  have "0 \<le> ?within" "?within + int (nat (fc_size f)) \<le> si_size i" "0 < nat (fc_size f)" using assms(4,6) by (auto simp: serves_def)
  from Read_source [OF assms(1,2,3) this(1,3,2)] obtain bs where
    "read_source env s i ?within (nat (fc_size f)) = Some bs" "Read env (virtual_offset i + ?within) (nat (fc_size f)) s = (Ok bs, s)" by blast
  then show thesis using that serves_data [OF assms(4,5)] by simp
qed

end
