(* ===== verification/RomHash.thy ===== *)
theory RomHash
  imports RomEntries RomCache RomLayout
begin

text \<open>
  Hash tables of a ROM file system: a table of entries with the heads of the lists of its slots, as it
  is filled, and the search along a list as a reader of the image does it.
\<close>

subsection \<open>Filling and searching\<close>

definition slot :: "nat \<Rightarrow> u32 \<times> u8 list \<Rightarrow> nat" where
  "slot n k = unat (CalculatePathHash (fst k) (snd k)) mod n"

fun hashed :: "('c \<Rightarrow> u32 \<times> u8 list) \<Rightarrow> ('c \<Rightarrow> u32) \<Rightarrow> ('c \<Rightarrow> u32 \<Rightarrow> 'e) \<Rightarrow> 'c list \<Rightarrow> u32 list \<Rightarrow> 'e list \<times> u32 list" where
  "hashed key ofs_of entry [] heads = ([], heads)"
| "hashed key ofs_of entry (c # cs) heads =
     (let i = slot (List.length heads) (key c); (es, heads') = hashed key ofs_of entry cs (heads[i := ofs_of c])
      in (entry c (heads ! i) # es, heads'))"

fun chain_find :: "(u8 list \<Rightarrow> 'e) \<Rightarrow> ('e \<Rightarrow> u32) \<Rightarrow> ('e \<Rightarrow> bool) \<Rightarrow> nat \<Rightarrow> u8 list \<Rightarrow> u32 \<Rightarrow> (u32 \<times> 'e) option" where
  "chain_find parse hash_of found 0 t ofs = None"
| "chain_find parse hash_of found (Suc n) t ofs =
     (if ofs = EmptyEntry then None
      else let e = parse (drop (unat ofs) t) in if found e then Some (ofs, e) else chain_find parse hash_of found n t (hash_of e))"

text \<open>A search for the only element that fits finds it in any order.\<close>

lemma find_eqI:
  assumes "\<And>x. \<lbrakk>x \<in> set xs; P x\<rbrakk> \<Longrightarrow> x \<in> set ys" "\<And>x. \<lbrakk>x \<in> set ys; P x\<rbrakk> \<Longrightarrow> x \<in> set xs"
    "\<And>x y. \<lbrakk>x \<in> set ys; y \<in> set ys; P x; P y\<rbrakk> \<Longrightarrow> x = y"
  shows "find P xs = find P ys"
proof (cases "find P ys")
  case None
  then show ?thesis using assms(1) by (metis find_None_iff)
next
  case (Some y)
  then have y: "y \<in> set ys" "P y" by (auto simp: find_Some_iff)
  then obtain x where x: "find P xs = Some x" using assms(2) by (metis find_None_iff option.exhaust)
  then have "x \<in> set xs" "P x" by (auto simp: find_Some_iff)
  then show ?thesis using x y Some assms(1,3) by metis
qed

text \<open>The list of a slot in a table.\<close>

fun chain_is :: "(u8 list \<Rightarrow> 'e) \<Rightarrow> ('e \<Rightarrow> u32) \<Rightarrow> u8 list \<Rightarrow> u32 \<Rightarrow> (u32 \<times> 'e) list \<Rightarrow> bool" where
  "chain_is parse hash_of t ofs [] \<longleftrightarrow> ofs = EmptyEntry"
| "chain_is parse hash_of t ofs ((ofs', e) # es) \<longleftrightarrow>
     ofs = ofs' \<and> ofs' \<noteq> EmptyEntry \<and> parse (drop (unat ofs') t) = e \<and> chain_is parse hash_of t (hash_of e) es"

lemma chain_find_is:
  "\<lbrakk>chain_is parse hash_of t ofs es; List.length es < n\<rbrakk> \<Longrightarrow> chain_find parse hash_of found n t ofs = find (\<lambda>(_, e). found e) es"
proof (induction es arbitrary: ofs n)
  case Nil
  then show ?case by (cases n) auto
next
  case (Cons x es)
  obtain ofs' e where "x = (ofs', e)" by fastforce
  then show ?case using Cons by (cases n) (auto simp: Let_def)
qed

text \<open>The entries of a table one behind the other, found at their offsets.\<close>

lemma nth_entry_offsets:
  "i < List.length ns \<Longrightarrow> entry_offsets ofs ns ! i = ofs + of_nat (sum_list (take i ns))"
  by (induction ofs ns arbitrary: i rule: entry_offsets.induct) (auto simp: nth_Cons' add.assoc take_Cons')

lemma length_entry_offsets [simp]: "List.length (entry_offsets ofs ns) = List.length ns"
  by (induction ofs ns rule: entry_offsets.induct) auto

lemma drop_concat_bytes:
  assumes "i < List.length bss"
  shows "drop (sum_list (map List.length (take i bss))) (concat bss) = bss ! i @ concat (drop (Suc i) bss)"
proof -
  have "concat bss = concat (take i bss) @ bss ! i @ concat (drop (Suc i) bss)"
    using arg_cong [OF id_take_nth_drop [OF assms], of concat] by simp
  moreover have "List.length (concat (take i bss)) = sum_list (map List.length (take i bss))" by (simp add: length_concat)
  ultimately show ?thesis by (metis append_eq_conv_conj)
qed

lemma sum_list_take_less:
  "\<lbrakk>i < List.length ns; j < i; \<forall>n \<in> set ns. 0 < n\<rbrakk> \<Longrightarrow> sum_list (take j ns) < sum_list (take i (ns :: nat list))"
proof -
  assume i: "i < List.length ns" "j < i" "\<forall>n \<in> set ns. 0 < n"
  then have "take i ns = take j ns @ ns ! j # drop (Suc j) (take i ns)" using id_take_nth_drop [of j "take i ns"] by simp
  then have "sum_list (take i ns) = sum_list (take j ns) + (ns ! j + sum_list (drop (Suc j) (take i ns)))" by (metis sum_list.Cons sum_list_append)
  moreover have "0 < ns ! j" using i by simp
  ultimately show ?thesis by linarith
qed

text \<open>The offsets of a table of less than four gigabytes are distinct and none is the mark of an end.\<close>

lemma unat_entry_offsets:
  assumes "sum_list ns < 2 ^ 32" "i < List.length ns"
  shows "unat (entry_offsets 0 ns ! i) = sum_list (take i ns)"
proof -
  have "sum_list (take i ns) \<le> sum_list ns" using sum_list_append [of "take i ns" "drop i ns"] by simp
  then show ?thesis using assms by (simp add: nth_entry_offsets unsigned_of_nat take_bit_nat_eq_self)
qed

lemma entry_offsets_distinct:
  assumes "sum_list ns < 2 ^ 32" "\<forall>n \<in> set ns. 0 < n"
  shows "distinct (entry_offsets 0 ns)"
proof -
  have "entry_offsets 0 ns ! i \<noteq> entry_offsets 0 ns ! j" if "i < List.length ns" "j < i" for i j
    using sum_list_take_less [OF that assms(2)] unat_entry_offsets [OF assms(1), of i] unat_entry_offsets [OF assms(1), of j] that by auto
  then show ?thesis unfolding distinct_conv_nth by (metis length_entry_offsets linorder_neqE_nat)
qed

lemma entry_offset_not_empty:
  assumes "sum_list ns < 2 ^ 32" "\<forall>n \<in> set ns. 0 < n" "i < List.length ns"
  shows "entry_offsets 0 ns ! i \<noteq> EmptyEntry"
proof -
  have "sum_list ns = sum_list (take i ns) + (ns ! i + sum_list (drop (Suc i) ns))"
    using arg_cong [OF id_take_nth_drop [OF assms(3)], of sum_list] by simp
  moreover have "0 < ns ! i" using assms(2,3) by simp
  ultimately have "unat (entry_offsets 0 ns ! i) < 0xFFFFFFFF" using unat_entry_offsets [OF assms(1,3)] assms(1) by simp
  then show ?thesis by (auto simp: EmptyEntry_def)
qed

subsection \<open>The interface of a table\<close>

locale entry_table =
  fixes key :: "'c \<Rightarrow> u32 \<times> u8 list" and ofs_of :: "'c \<Rightarrow> u32" and entry :: "'c \<Rightarrow> u32 \<Rightarrow> 'e"
    and parse :: "u8 list \<Rightarrow> 'e" and bytes :: "'e \<Rightarrow> u8 list" and hash_of :: "'e \<Rightarrow> u32" and ekey :: "'e \<Rightarrow> u32 \<times> u8 list"
  assumes hash_of_entry: "hash_of (entry c h) = h"
    and key_of_entry: "ekey (entry c h) = key c"
    and parse_bytes: "List.length (snd (key c)) < 2 ^ 32 \<Longrightarrow> parse (bytes (entry c h) @ rest) = entry c h"
begin

lemma hashed_entries:
  "\<exists>hs. fst (hashed key ofs_of entry cs heads) = map2 entry cs hs \<and> List.length hs = List.length cs \<and>
    List.length (snd (hashed key ofs_of entry cs heads)) = List.length heads"
proof (induction cs arbitrary: heads)
  case (Cons c cs)
  obtain hs where "fst (hashed key ofs_of entry cs (heads[slot (List.length heads) (key c) := ofs_of c])) = map2 entry cs hs"
    "List.length hs = List.length cs"
    "List.length (snd (hashed key ofs_of entry cs (heads[slot (List.length heads) (key c) := ofs_of c]))) = List.length heads"
    using Cons.IH by (metis length_list_update)
  then show ?case
    by (intro exI [of _ "heads ! slot (List.length heads) (key c) # hs"]) (auto simp: Let_def split: prod.split)
qed simp

text \<open>Every list grows at its head.\<close>

lemma hashed_chains:
  "\<lbrakk>\<forall>(c, e) \<in> set (zip cs (fst (hashed key ofs_of entry cs heads))). parse (drop (unat (ofs_of c)) t) = e \<and> ofs_of c \<noteq> EmptyEntry;
    \<forall>j < List.length heads. chain_is parse hash_of t (heads ! j) (old j); j < List.length heads\<rbrakk> \<Longrightarrow>
    chain_is parse hash_of t (snd (hashed key ofs_of entry cs heads) ! j)
      (rev (filter (\<lambda>(_, e). slot (List.length heads) (ekey e) = j) (zip (map ofs_of cs) (fst (hashed key ofs_of entry cs heads)))) @ old j)"
proof (induction cs arbitrary: heads old)
  case (Cons c cs)
  let ?i = "slot (List.length heads) (key c)" and ?e = "entry c (heads ! slot (List.length heads) (key c))"
  let ?old = "\<lambda>j. if j = ?i then (ofs_of c, ?e) # old j else old j"
  let ?rest = "hashed key ofs_of entry cs (heads[?i := ofs_of c])"
  have step: "hashed key ofs_of entry (c # cs) heads = (?e # fst ?rest, snd ?rest)" by (simp add: Let_def split: prod.split)
  have e: "parse (drop (unat (ofs_of c)) t) = ?e" "ofs_of c \<noteq> EmptyEntry"
    and others: "\<forall>(c, e) \<in> set (zip cs (fst ?rest)). parse (drop (unat (ofs_of c)) t) = e \<and> ofs_of c \<noteq> EmptyEntry"
    using Cons.prems(1) unfolding step by auto
  have all: "\<forall>k < List.length (heads[?i := ofs_of c]). chain_is parse hash_of t (heads[?i := ofs_of c] ! k) (?old k)"
    using Cons.prems(2) e by (auto simp: nth_list_update hash_of_entry)
  have "j < List.length (heads[?i := ofs_of c])" using Cons.prems(3) by simp
  from Cons.IH [OF others all this]
  have "chain_is parse hash_of t (snd ?rest ! j)
      (rev (filter (\<lambda>(_, e). slot (List.length heads) (ekey e) = j) (zip (map ofs_of cs) (fst ?rest))) @ ?old j)" by (simp only: length_list_update)
  then show ?case unfolding step by (auto simp: key_of_entry)
qed simp

lemma hashed_find:
  assumes keys: "distinct (map key cs)" "\<forall>c \<in> set cs. List.length (snd (key c)) < 2 ^ 32"
    and es: "hashed key ofs_of entry cs (replicate m EmptyEntry) = (es, heads)" and m: "0 < m"
    and offsets: "map ofs_of cs = entry_offsets 0 (map (List.length \<circ> bytes) es)"
    and small: "sum_list (map (List.length \<circ> bytes) es) < 2 ^ 32" "\<forall>e \<in> set es. bytes e \<noteq> []"
    and fuel: "List.length cs < n"
  shows "chain_find parse hash_of (\<lambda>e. ekey e = k) n (concat (map bytes es)) (heads ! slot m k) =
    find (\<lambda>(_, e). ekey e = k) (zip (map ofs_of cs) es)"
proof -
  let ?t = "concat (map bytes es)" and ?heads = "replicate m EmptyEntry :: u32 list" and ?ns = "map (List.length \<circ> bytes) es"
  obtain hs where hs: "es = map2 entry cs hs" "List.length hs = List.length cs" "List.length heads = m"
    using hashed_entries [of cs ?heads] es by auto
  have len: "List.length es = List.length cs" using hs by simp
  have at: "parse (drop (unat (ofs_of (cs ! i))) ?t) = es ! i \<and> ofs_of (cs ! i) \<noteq> EmptyEntry" if i: "i < List.length cs" for i
  proof -
    have pos: "\<forall>n \<in> set ?ns. 0 < n" using small(2) by auto
    have ofs: "ofs_of (cs ! i) = entry_offsets 0 ?ns ! i" using offsets i by (metis nth_map)
    have "unat (ofs_of (cs ! i)) = sum_list (map List.length (take i (map bytes es)))"
      unfolding ofs using unat_entry_offsets [OF small(1)] i len by (simp add: take_map)
    then have "drop (unat (ofs_of (cs ! i))) ?t = bytes (es ! i) @ concat (drop (Suc i) (map bytes es))"
      using drop_concat_bytes [of i "map bytes es"] i len by simp
    moreover have "es ! i = entry (cs ! i) (hs ! i)" using hs i by simp
    ultimately show ?thesis using parse_bytes keys(2) i ofs entry_offset_not_empty [OF small(1) pos] len by simp
  qed
  let ?all = "zip (map ofs_of cs) es" and ?j = "slot m k"
  have zipped: "\<forall>(c, e) \<in> set (zip cs es). parse (drop (unat (ofs_of c)) ?t) = e \<and> ofs_of c \<noteq> EmptyEntry"
    using at len by (auto simp: in_set_zip)
  have j: "?j < m" using m by (simp add: slot_def)
  have "chain_is parse hash_of ?t (heads ! ?j) (rev (filter (\<lambda>(_, e). slot m (ekey e) = ?j) ?all) @ [])"
    using hashed_chains [of cs ?heads ?t "\<lambda>_. []" ?j] zipped j by (simp add: es)
  then have chain: "chain_is parse hash_of ?t (heads ! ?j) (rev (filter (\<lambda>(_, e). slot m (ekey e) = ?j) ?all))" by simp
  have "List.length (filter (\<lambda>(_, e). slot m (ekey e) = ?j) ?all) \<le> List.length ?all" by (rule length_filter_le)
  then have "List.length (rev (filter (\<lambda>(_, e). slot m (ekey e) = ?j) ?all)) < n" using fuel len by simp
  note found = chain_find_is [OF chain this, of "\<lambda>e. ekey e = k"]
  have ekeys: "map ekey es = map key cs" using hs by (auto intro: nth_equalityI simp: key_of_entry)
  have unique: "x = y" if "x \<in> set ?all" "y \<in> set ?all" "ekey (snd x) = k" "ekey (snd y) = k" for x y
  proof -
    note xy = that
    obtain i l where "i < List.length cs" "x = (ofs_of (cs ! i), es ! i)" "l < List.length cs" "y = (ofs_of (cs ! l), es ! l)"
      using xy(1,2) len by (auto simp: in_set_zip)
    moreover from this have "i = l" using xy(3,4) keys(1) ekeys len by (metis distinct_conv_nth length_map nth_map snd_conv)
    ultimately show ?thesis by simp
  qed
  have "find (\<lambda>(_, e). ekey e = k) (rev (filter (\<lambda>(_, e). slot m (ekey e) = ?j) ?all)) = find (\<lambda>(_, e). ekey e = k) ?all"
  proof (rule find_eqI)
    fix x assume "x \<in> set (rev (filter (\<lambda>(_, e). slot m (ekey e) = ?j) ?all))" "case x of (_, e) \<Rightarrow> ekey e = k"
    then show "x \<in> set ?all" by auto
  qed (use unique in \<open>auto split: prod.splits\<close>)
  then show ?thesis using found by simp
qed

end

end
