(* ===== verification/RomTables.thy ===== *)
theory RomTables
  imports RomHash
begin

text \<open>
  The tables of a built image: the writers put the entries and the hash tables where the header says,
  and both tables are searched through the interface of \<open>RomHash\<close>.
\<close>

subsection \<open>Entries\<close>

definition file_key :: "dir_ctx list \<Rightarrow> file_ctx \<Rightarrow> u32 \<times> u8 list" where
  "file_key ds f = (parent_offset ds (fc_parent f), fc_name f)"

definition dir_key :: "dir_ctx list \<Rightarrow> dir_ctx \<Rightarrow> u32 \<times> u8 list" where
  "dir_key ds d = (case dc_parent d of None \<Rightarrow> 0 | Some p \<Rightarrow> parent_offset ds p, dc_name d)"

definition file_entry_of :: "dir_ctx list \<Rightarrow> file_ctx list \<Rightarrow> file_ctx \<Rightarrow> u32 \<Rightarrow> file_entry" where
  "file_entry_of ds fs f h =
     \<lparr>fe_parent = parent_offset ds (fc_parent f), fe_sibling = file_link fs (fc_sibling f), fe_offset = of_int (fc_offset f),
      fe_size = of_int (fc_size f), fe_hash = h, fe_name = fc_name f\<rparr>"

definition dir_entry_of :: "dir_ctx list \<Rightarrow> file_ctx list \<Rightarrow> dir_ctx \<Rightarrow> u32 \<Rightarrow> dir_entry" where
  "dir_entry_of ds fs d h =
     \<lparr>de_parent = fst (dir_key ds d), de_sibling = dir_link ds (dc_sibling d), de_child = dir_link ds (dc_child d),
      de_file = file_link fs (dc_file d), de_hash = h, de_name = dc_name d\<rparr>"

interpretation file_table: entry_table "file_key ds" fc_entry_offset "file_entry_of ds fs" file_of_bytes file_bytes fe_hash
  "\<lambda>e. (fe_parent e, fe_name e)" for ds fs
  by unfold_locales (simp_all add: file_entry_of_def file_key_def file_of_bytes_append)

interpretation dir_table: entry_table "dir_key ds" dc_entry_offset "dir_entry_of ds fs" dir_of_bytes dir_bytes de_hash
  "\<lambda>e. (de_parent e, de_name e)" for ds fs
  by unfold_locales (simp_all add: dir_entry_of_def dir_key_def dir_of_bytes_append)

lemma hash_index_slot: "hash_index heads parent name = slot (List.length heads) (parent, name)"
  by (simp add: hash_index_def slot_def)

lemma length_file_entry [simp]: "List.length (file_bytes (file_entry_of ds fs f h)) = file_entry_size f"
  by (simp add: file_entry_of_def file_entry_size_def)

lemma length_dir_entry [simp]: "List.length (dir_bytes (dir_entry_of ds fs d h)) = dir_entry_size d"
  by (simp add: dir_entry_of_def dir_entry_size_def)

subsection \<open>Filling the tables through their writers\<close>

lemma fill_file_table_hashed:
  "map fc_entry_offset rest = entry_offsets (of_nat ofs) (map file_entry_size rest) \<Longrightarrow>
    fill_file_table ds fs rest heads infos w =
      (let (es, heads') = hashed (file_key ds) fc_entry_offset (file_entry_of ds fs) rest heads
       in map_option (\<lambda>w. (heads', fold emplace_source rest infos, w))
            (put_entries FileEntry_size ofs (map (\<lambda>e. (List.length (fe_name e), file_bytes e)) es) w))"
proof (induction rest arbitrary: ofs heads infos w)
  case (Cons f rest)
  let ?i = "slot (List.length heads) (file_key ds f)" and ?e = "file_entry_of ds fs f (heads ! slot (List.length heads) (file_key ds f))"
  have make: "make_file_entry ds fs heads f = (?e, heads[?i := fc_entry_offset f])"
    by (simp add: make_file_entry_def Let_def hash_index_slot file_entry_of_def file_key_def)
  have ofs: "fc_entry_offset f = of_nat ofs" "map fc_entry_offset rest = entry_offsets (of_nat (ofs + file_entry_size f)) (map file_entry_size rest)"
    using Cons.prems by simp_all
  show ?case
    by (simp add: make Cons.IH [OF ofs(2)] ofs(1) Let_def split: prod.split option.split Option.bind_split)
      (simp add: file_entry_of_def file_entry_size_def)
qed simp

lemma fill_dir_table_hashed:
  "map dc_entry_offset rest = entry_offsets (of_nat ofs) (map dir_entry_size rest) \<Longrightarrow>
    fill_dir_table ds fs rest heads w =
      (let (es, heads') = hashed (dir_key ds) dc_entry_offset (dir_entry_of ds fs) rest heads
       in map_option (\<lambda>w. (heads', w))
            (put_entries DirectoryEntry_size ofs (map (\<lambda>e. (List.length (de_name e), dir_bytes e)) es) w))"
proof (induction rest arbitrary: ofs heads w)
  case (Cons d rest)
  let ?i = "slot (List.length heads) (dir_key ds d)" and ?e = "dir_entry_of ds fs d (heads ! slot (List.length heads) (dir_key ds d))"
  have make: "make_dir_entry ds fs heads d = (?e, heads[?i := dc_entry_offset d])"
    by (simp add: make_dir_entry_def Let_def hash_index_slot dir_entry_of_def dir_key_def)
  have ofs: "dc_entry_offset d = of_nat ofs" "map dc_entry_offset rest = entry_offsets (of_nat (ofs + dir_entry_size d)) (map dir_entry_size rest)"
    using Cons.prems by simp_all
  show ?case
    by (simp add: make Cons.IH [OF ofs(2)] ofs(1) Let_def split: prod.split option.split Option.bind_split)
      (simp add: dir_entry_of_def dir_entry_size_def)
qed simp

lemma length_hash_table_bytes [simp]: "List.length (hash_table_bytes heads) = 4 * List.length heads"
  by (induction heads) (simp_all add: hash_table_bytes_def)

lemma written_tables:
  assumes "ofs + sz \<le> List.length f" "List.length (concat (map snd es)) = sz" "sz \<le> 2 ^ 32" "\<forall>e \<in> set es. entry_sized hdr e"
  obtains w w1 w2 where "TableWriter_new f ofs sz = Some w" "put_entries hdr 0 es w = Some w1" "tw_Flush w1 = Some w2"
    "tw_file w2 = put_bytes ofs (concat (map snd es)) f"
  using table_written [OF assms] by (auto simp: bind_eq_Some_conv)

lemma sum_entry_sizes:
  "List.length (concat (map (\<lambda>e. bytes e) es)) = sum_list (map (\<lambda>e. List.length (bytes e)) es)"
  by (simp add: length_concat comp_def)

lemma file_entries:
  assumes "hashed (file_key ds) fc_entry_offset (file_entry_of ds fs) cs heads = (es, heads')"
  shows "map (\<lambda>e. List.length (file_bytes e)) es = map file_entry_size cs" "List.length heads' = List.length heads" "map fe_name es = map fc_name cs"
proof -
  obtain hs where "es = map2 (file_entry_of ds fs) cs hs" "List.length hs = List.length cs" "List.length heads' = List.length heads"
    using file_table.hashed_entries [of ds fs cs heads] assms by auto
  then show "map (\<lambda>e. List.length (file_bytes e)) es = map file_entry_size cs" "List.length heads' = List.length heads" "map fe_name es = map fc_name cs"
    by (simp_all add: list_eq_iff_nth_eq del: length_file_bytes) (simp add: file_entry_of_def)
qed

lemma dir_entries:
  assumes "hashed (dir_key ds) dc_entry_offset (dir_entry_of ds fs) cs heads = (es, heads')"
  shows "map (\<lambda>e. List.length (dir_bytes e)) es = map dir_entry_size cs" "List.length heads' = List.length heads" "map de_name es = map dc_name cs"
proof -
  obtain hs where "es = map2 (dir_entry_of ds fs) cs hs" "List.length hs = List.length cs" "List.length heads' = List.length heads"
    using dir_table.hashed_entries [of ds fs cs heads] assms by auto
  then show "map (\<lambda>e. List.length (dir_bytes e)) es = map dir_entry_size cs" "List.length heads' = List.length heads" "map de_name es = map dc_name cs"
    by (simp_all add: list_eq_iff_nth_eq del: length_dir_bytes) (simp add: dir_entry_of_def)
qed

lemma write_file_table_ok:
  assumes "map fc_entry_offset fs = entry_offsets 0 (map file_entry_size fs)" "table_size = sum_list (map file_entry_size fs)"
    "table_size \<le> 2 ^ 32" "\<forall>f \<in> set fs. file_entry_size f \<le> FallbackCacheSize" "hash_ofs + 4 * n + table_size \<le> List.length f"
    and hashed: "hashed (file_key ds) fc_entry_offset (file_entry_of ds fs) fs (replicate n EmptyEntry) = (es, heads)"
  shows "write_file_table ds fs n hash_ofs table_size infos f =
    Some (fold emplace_source fs infos,
      put_bytes hash_ofs (hash_table_bytes heads) (put_bytes (hash_ofs + 4 * n) (concat (map file_bytes es)) f))"
proof -
  let ?es = "map (\<lambda>e. (List.length (fe_name e), file_bytes e)) es"
  note es = file_entries [OF hashed]
  have bytes: "concat (map snd ?es) = concat (map file_bytes es)" by (simp add: comp_def)
  have size: "List.length (concat (map file_bytes es)) = table_size" using assms(2) es(1) by (simp add: sum_entry_sizes)
  have "\<forall>e \<in> set ?es. entry_sized FileEntry_size e"
  proof
    fix x assume "x \<in> set ?es"
    then obtain e where e: "e \<in> set es" "x = (List.length (fe_name e), file_bytes e)" by auto
    then have "List.length (file_bytes e) \<in> set (map file_entry_size fs)" using es(1) by (metis image_eqI list.set_map)
    then have "List.length (file_bytes e) \<le> FallbackCacheSize" using assms(4) by auto
    then show "entry_sized FileEntry_size x" by (simp add: e entry_sized_def FileEntry_size_def)
  qed
  from written_tables [OF assms(5) _ assms(3) this] obtain w w1 w2 where
    w: "TableWriter_new f (hash_ofs + 4 * n) table_size = Some w" "put_entries FileEntry_size 0 ?es w = Some w1" "tw_Flush w1 = Some w2"
      "tw_file w2 = put_bytes (hash_ofs + 4 * n) (concat (map file_bytes es)) f"
    unfolding bytes size by blast
  have "fill_file_table ds fs fs (replicate n EmptyEntry) infos w = Some (heads, fold emplace_source fs infos, w1)"
    using fill_file_table_hashed [of fs 0 ds fs "replicate n EmptyEntry" infos w] assms(1) w(2) by (simp add: hashed)
  moreover have "hash_ofs + List.length (hash_table_bytes heads) \<le> List.length (tw_file w2)"
    using assms(5) es(2) size by (simp add: w(4))
  ultimately show ?thesis by (simp add: write_file_table_def w(1,3) file_write_Some w(4) [symmetric])
qed

lemma write_dir_table_ok:
  assumes "map dc_entry_offset ds = entry_offsets 0 (map dir_entry_size ds)" "table_size = sum_list (map dir_entry_size ds)"
    "table_size \<le> 2 ^ 32" "\<forall>d \<in> set ds. dir_entry_size d \<le> FallbackCacheSize" "4 * n + table_size \<le> List.length f"
    and hashed: "hashed (dir_key ds) dc_entry_offset (dir_entry_of ds fs) ds (replicate n EmptyEntry) = (es, heads)"
  shows "write_dir_table ds fs n table_size f =
    Some (put_bytes 0 (hash_table_bytes heads) (put_bytes (4 * n) (concat (map dir_bytes es)) f))"
proof -
  let ?es = "map (\<lambda>e. (List.length (de_name e), dir_bytes e)) es"
  note es = dir_entries [OF hashed]
  have bytes: "concat (map snd ?es) = concat (map dir_bytes es)" by (simp add: comp_def)
  have size: "List.length (concat (map dir_bytes es)) = table_size" using assms(2) es(1) by (simp add: sum_entry_sizes)
  have "\<forall>e \<in> set ?es. entry_sized DirectoryEntry_size e"
  proof
    fix x assume "x \<in> set ?es"
    then obtain e where e: "e \<in> set es" "x = (List.length (de_name e), dir_bytes e)" by auto
    then have "List.length (dir_bytes e) \<in> set (map dir_entry_size ds)" using es(1) by (metis image_eqI list.set_map)
    then have "List.length (dir_bytes e) \<le> FallbackCacheSize" using assms(4) by auto
    then show "entry_sized DirectoryEntry_size x" by (simp add: e entry_sized_def DirectoryEntry_size_def)
  qed
  from written_tables [OF assms(5) _ assms(3) this] obtain w w1 w2 where
    w: "TableWriter_new f (4 * n) table_size = Some w" "put_entries DirectoryEntry_size 0 ?es w = Some w1" "tw_Flush w1 = Some w2"
      "tw_file w2 = put_bytes (4 * n) (concat (map dir_bytes es)) f"
    unfolding bytes size by blast
  have "fill_dir_table ds fs ds (replicate n EmptyEntry) w = Some (heads, w1)"
    using fill_dir_table_hashed [of ds 0 ds fs "replicate n EmptyEntry" w] assms(1) w(2) by (simp add: hashed)
  moreover have "List.length (hash_table_bytes heads) \<le> List.length (tw_file w2)"
    using assms(5) es(2) size by (simp add: w(4))
  ultimately show ?thesis by (simp add: write_dir_table_def w(1,3) file_write_Some w(4) [symmetric])
qed

end
