(* ===== verification/RomContexts.thy ===== *)
theory RomContexts
  imports RomRead "HOL-Library.Multiset" "HOL-Library.List_Lexorder"
begin

text \<open>
  The contexts a builder collects: they are kept in the order of their paths, once each, below
  directories of the builder, and the layers added later only add what the earlier ones lack.
\<close>

subsection \<open>The order of paths\<close>

definition c_path :: "path \<Rightarrow> path" where
  "c_path p = takeWhile (\<lambda>c. c \<noteq> 0) p"

lemma c_path_simps [simp]: "c_path [] = []" "c_path (c # p) = (if c = 0 then [] else c # c_path p)"
  by (simp_all add: c_path_def)

lemma Compare_c_path:
  "(Compare a b = 0 \<longleftrightarrow> c_path a = c_path b) \<and> (Compare a b < 0 \<longleftrightarrow> c_path a < c_path b)"
proof (induction a b rule: Compare.induct)
  case (1 b)
  have "0 < uint c \<longleftrightarrow> c \<noteq> 0" for c :: u8 by (metis less_le uint_0_iff unsigned_greater_eq)
  then show ?case by (cases b) (auto simp: uint_0_iff)
next
  case (2 c1 a b)
  have "uint c \<noteq> 0 \<Longrightarrow> 0 < uint c" for c :: u8 by (metis less_le unsigned_greater_eq)
  with 2 show ?case by (cases b) (auto simp: Let_def word_less_def word_uint_eq_iff)
qed

lemma Compare_refl [simp]: "Compare p p = 0"
  by (simp add: Compare_c_path)

lemma Compare_eq: "Compare a b = 0 \<longleftrightarrow> c_path a = c_path b"
  by (simp add: Compare_c_path)

lemma Compare_less: "Compare a b < 0 \<longleftrightarrow> c_path a < c_path b"
  by (simp add: Compare_c_path)

definition path_sorted :: "('a \<Rightarrow> path) \<Rightarrow> 'a list \<Rightarrow> bool" where
  "path_sorted key xs \<longleftrightarrow> sorted_wrt (\<lambda>x y. c_path (key x) < c_path (key y)) xs"

lemma set_find_None: "set_find key p xs = None \<longleftrightarrow> (\<forall>x \<in> set xs. c_path (key x) \<noteq> c_path p)"
  by (auto simp: set_find_def find_None_iff Compare_eq)

lemma set_find_Some: "set_find key p xs = Some x \<Longrightarrow> x \<in> set xs \<and> c_path (key x) = c_path p"
  by (auto simp: set_find_def find_Some_iff Compare_eq)

lemma set_emplace_new:
  assumes "set_find key (key x) xs = None"
  shows "mset (set_emplace key x xs) = add_mset x (mset xs)"
  using assms unfolding set_find_None by (induction xs) (auto simp: Compare_eq)

lemma set_emplace_sorted: "path_sorted key xs \<Longrightarrow> path_sorted key (set_emplace key x xs)"
proof (induction xs)
  case (Cons y ys)
  have "set (set_emplace key x ys) \<subseteq> insert x (set ys)" by (induction ys) auto
  then show ?case using Cons by (auto simp: path_sorted_def Compare_eq Compare_less not_less_iff_gr_or_eq)
qed (simp add: path_sorted_def)

lemma path_sorted_distinct: "path_sorted key xs \<Longrightarrow> distinct (map key xs)"
  by (induction xs) (auto simp: path_sorted_def)

subsection \<open>The invariant\<close>

definition dir_paths :: "romfs_builder \<Rightarrow> path set" where
  "dir_paths b = dc_path ` set (directories b)"

definition fresh_dir :: "romfs_builder \<Rightarrow> dir_ctx \<Rightarrow> bool" where
  "fresh_dir b d \<longleftrightarrow>
     (case dc_parent d of
        None \<Rightarrow> d = new_dir [] [] None
      | Some p \<Rightarrow> p \<in> dir_paths b \<and> d = new_dir (child_path p (dc_name d)) (dc_name d) (Some p))"

lemma fresh_dir_path:
  "fresh_dir b d \<Longrightarrow>
    (case dc_parent d of None \<Rightarrow> dc_path d = [] \<and> dc_name d = []
     | Some p \<Rightarrow> p \<in> dir_paths b \<and> dc_path d = child_path p (dc_name d))"
  unfolding fresh_dir_def new_dir_def by (cases "dc_parent d") (simp_all, metis dir_ctx.select_convs(1))

definition fresh_file :: "romfs_builder \<Rightarrow> file_ctx \<Rightarrow> bool" where
  "fresh_file b f \<longleftrightarrow>
     fc_parent f \<in> dir_paths b \<and> fc_path f = child_path (fc_parent f) (fc_name f) \<and> fc_sibling f = None"

definition contexts_ok :: "romfs_builder \<Rightarrow> bool" where
  "contexts_ok b \<longleftrightarrow>
     path_sorted dc_path (directories b) \<and> path_sorted fc_path (files b) \<and>
     [] \<in> dir_paths b \<and> (\<forall>d \<in> set (directories b). fresh_dir b d) \<and> (\<forall>f \<in> set (files b). fresh_file b f) \<and>
     num_dirs b = List.length (directories b) \<and> num_files b = List.length (files b) \<and>
     b_dir_table_size b = (\<Sum>d\<leftarrow>directories b. DirectoryEntry_size + AlignUp (List.length (dc_name d)) 4) \<and>
     b_file_table_size b = (\<Sum>f\<leftarrow>files b. FileEntry_size + AlignUp (List.length (fc_name f)) 4) \<and>
     file_partition_size b = 0"

text \<open>What a layer may do to the contexts.\<close>

definition adds :: "romfs_builder \<Rightarrow> romfs_builder \<Rightarrow> bool" where
  "adds b b' \<longleftrightarrow>
     set (directories b) \<subseteq> set (directories b') \<and> set (files b) \<subseteq> set (files b') \<and>
     (\<forall>f \<in> set (files b') - set (files b). fc_source_type f = cur_source_type b) \<and> cur_source_type b' = cur_source_type b"

lemma adds_refl [simp]: "adds b b"
  by (simp add: adds_def)

lemma adds_trans: "\<lbrakk>adds b1 b2; adds b2 b3\<rbrakk> \<Longrightarrow> adds b1 b3"
  unfolding adds_def by (metis Diff_iff subset_trans)

lemma adds_dir_paths: "adds b b' \<Longrightarrow> dir_paths b \<subseteq> dir_paths b'"
  by (auto simp: adds_def dir_paths_def)

lemma Builder_new_ok [simp]: "contexts_ok (Builder_new t)"
  by (simp add: contexts_ok_def Builder_new_def path_sorted_def dir_paths_def fresh_dir_def new_dir_def DirectoryEntry_size_def AlignUp_def)

lemma AddDirectory_ok:
  assumes "contexts_ok b" "parent \<in> dir_paths b" "AddDirectory parent name b = (p, b')"
  shows "contexts_ok b' \<and> adds b b' \<and> p \<in> dir_paths b'"
proof (cases "set_find dc_path (child_path parent name) (directories b)")
  case (Some d)
  then show ?thesis using assms set_find_Some [OF Some] by (auto simp: AddDirectory_def Let_def dir_paths_def)
next
  case None
  let ?d = "new_dir (child_path parent name) name (Some parent)"
  have p: "p = child_path parent name"
    and b': "b' = b\<lparr>num_dirs := num_dirs b + 1, b_dir_table_size := b_dir_table_size b + (DirectoryEntry_size + AlignUp (List.length name) 4),
      directories := set_emplace dc_path ?d (directories b)\<rparr>"
    using assms(3) None by (auto simp: AddDirectory_def Let_def)
  have "mset (set_emplace dc_path ?d (directories b)) = add_mset ?d (mset (directories b))"
    using set_emplace_new [of dc_path ?d] None by (simp add: new_dir_def)
  then have m: "mset (directories b') = add_mset ?d (mset (directories b))" by (simp add: b')
  have set: "set (directories b') = insert ?d (set (directories b))" using arg_cong [OF m, of set_mset] by simp
  have len: "List.length (directories b') = Suc (List.length (directories b))" using arg_cong [OF m, of size] by simp
  have sum: "(\<Sum>d\<leftarrow>directories b'. g d) = g ?d + (\<Sum>d\<leftarrow>directories b. g d)" for g :: "dir_ctx \<Rightarrow> nat"
    using arg_cong [OF m, of "\<lambda>M. sum_mset (image_mset g M)"] by (simp flip: mset_map sum_mset_sum_list)
  have same: "files b' = files b" by (simp add: b')
  have paths: "dir_paths b' = insert p (dir_paths b)" by (simp add: dir_paths_def set p new_dir_def)
  have "path_sorted dc_path (directories b')" using assms(1) by (simp add: b' set_emplace_sorted contexts_ok_def)
  moreover have "fresh_dir b' d" if "d \<in> set (directories b')" for d
    using that assms(1,2) by (auto simp: set contexts_ok_def fresh_dir_def paths new_dir_def split: option.splits)
  moreover have "fresh_file b' f" if "f \<in> set (files b')" for f
    using that assms(1) same by (auto simp: contexts_ok_def fresh_file_def paths)
  ultimately have "contexts_ok b'"
    using assms(1) paths len sum [of "\<lambda>d. DirectoryEntry_size + AlignUp (List.length (dc_name d)) 4"]
    by (simp add: contexts_ok_def) (simp add: b' new_dir_def)
  moreover have "adds b b'" by (auto simp: adds_def set) (simp_all add: b')
  ultimately show ?thesis by (simp add: paths)
qed

lemma AddFile_ok:
  assumes "contexts_ok b" "parent \<in> dir_paths b"
  shows "contexts_ok (AddFile parent name sz orig (cur_source_type b) b) \<and> adds b (AddFile parent name sz orig (cur_source_type b) b)"
proof (cases "set_find fc_path (child_path parent name) (files b)")
  case (Some d)
  then show ?thesis using assms by (simp add: AddFile_def Let_def)
next
  case None
  define f where "f = \<lparr>fc_path = child_path parent name, fc_name = name, fc_parent = parent, fc_sibling = None, fc_offset = 0, fc_size = sz,
     fc_orig_offset = orig, fc_entry_offset = 0, fc_source_type = cur_source_type b\<rparr>"
  define b' where "b' = AddFile parent name sz orig (cur_source_type b) b"
  have b': "b' = b\<lparr>num_files := num_files b + 1, b_file_table_size := b_file_table_size b + (FileEntry_size + AlignUp (List.length name) 4),
      files := set_emplace fc_path f (files b)\<rparr>"
    using None by (simp add: b'_def AddFile_def Let_def f_def)
  have "mset (set_emplace fc_path f (files b)) = add_mset f (mset (files b))"
    using set_emplace_new [of fc_path f] None by (simp add: f_def)
  then have m: "mset (files b') = add_mset f (mset (files b))" by (simp add: b')
  have set: "set (files b') = insert f (set (files b))" using arg_cong [OF m, of set_mset] by simp
  have len: "List.length (files b') = Suc (List.length (files b))" using arg_cong [OF m, of size] by simp
  have sum: "(\<Sum>d\<leftarrow>files b'. g d) = g f + (\<Sum>d\<leftarrow>files b. g d)" for g :: "file_ctx \<Rightarrow> nat"
    using arg_cong [OF m, of "\<lambda>M. sum_mset (image_mset g M)"] by (simp flip: mset_map sum_mset_sum_list)
  have same: "directories b' = directories b" by (simp add: b')
  have paths: "dir_paths b' = dir_paths b" by (simp add: dir_paths_def b')
  have "path_sorted fc_path (files b')" using assms(1) by (simp add: b' set_emplace_sorted contexts_ok_def)
  moreover have "fresh_dir b' d" if "d \<in> set (directories b')" for d
    using that assms(1) same by (auto simp: contexts_ok_def fresh_dir_def paths split: option.splits)
  moreover have "fresh_file b' g" if "g \<in> set (files b')" for g
    using that assms by (auto simp: set contexts_ok_def fresh_file_def paths f_def)
  ultimately have "contexts_ok b'"
    using assms(1) paths len sum [of "\<lambda>d. FileEntry_size + AlignUp (List.length (fc_name d)) 4"]
    by (simp add: contexts_ok_def) (simp add: b' f_def)
  moreover have "adds b b'" by (auto simp: adds_def set f_def) (simp_all add: b')
  ultimately show ?thesis by (simp add: b'_def)
qed

subsection \<open>Layers\<close>

lemma add_sd_entries_ok:
  "\<lbrakk>contexts_ok b; parent \<in> dir_paths b; set child_dirs \<subseteq> dir_paths b;
    add_sd_entries parent n es child_dirs b = Some (child_dirs', b')\<rbrakk> \<Longrightarrow>
    contexts_ok b' \<and> adds b b' \<and> set child_dirs' \<subseteq> dir_paths b'"
proof (induction parent n es child_dirs b rule: add_sd_entries.induct)
  case (2 parent n name es child_dirs b)
  obtain p b1 where add: "AddDirectory parent name b = (p, b1)" by fastforce
  note ok = AddDirectory_ok [OF "2.prems"(1,2) add]
  have "contexts_ok b' \<and> adds b1 b' \<and> set child_dirs' \<subseteq> dir_paths b'"
    using "2.prems" "2.IH" [OF add [symmetric] refl] add ok adds_dir_paths [of b b1] by (auto simp: Let_def split: if_splits)
  then show ?case using ok adds_trans by blast
next
  case (3 parent n name sz es child_dirs b)
  note ok = AddFile_ok [OF "3.prems"(1,2), of name sz 0]
  have "contexts_ok b' \<and> adds (AddFile parent name sz 0 (cur_source_type b) b) b' \<and> set child_dirs' \<subseteq> dir_paths b'"
    using "3.prems" ok adds_dir_paths [OF conjunct2 [OF ok]] by (intro "3.IH") auto
  then show ?case using ok adds_trans by blast
qed (auto split: if_splits)

definition layer_ok :: "path set \<Rightarrow> romfs_builder \<Rightarrow> romfs_builder \<Rightarrow> bool" where
  "layer_ok todo b b' \<longleftrightarrow> (contexts_ok b \<and> todo \<subseteq> dir_paths b \<longrightarrow> contexts_ok b' \<and> adds b b')"

lemma layer_ok_trans:
  "\<lbrakk>layer_ok P b1 b2; layer_ok Q b2 b3; P \<subseteq> R; \<lbrakk>contexts_ok b1; R \<subseteq> dir_paths b1; dir_paths b1 \<subseteq> dir_paths b2\<rbrakk> \<Longrightarrow> Q \<subseteq> dir_paths b2\<rbrakk> \<Longrightarrow>
    layer_ok R b1 b3"
  unfolding layer_ok_def using adds_trans adds_dir_paths by (metis order_trans)

lemma visit_sd_ok:
  assumes "visit_sd sd todo b = Some b'"
  shows "layer_ok (set todo) b b'"
proof (rule visit_sd.raw_induct [OF _ assms, where P = "\<lambda>sd todo b b'. layer_ok (set todo) b b'"])
  fix visit sd todo b b'
  assume ih: "\<And>sd todo b b'. visit sd todo b = Some b' \<Longrightarrow> layer_ok (set todo) b b'"
    and body: "(case todo of
        [] \<Rightarrow> Some b
      | parent # rest \<Rightarrow>
          Option.bind (sd_count_dirs sd parent) (\<lambda>n.
          Option.bind (sd_read_dir sd parent) (\<lambda>es.
          Option.bind (add_sd_entries parent n es [] b) (\<lambda>(child_dirs, b). visit sd (child_dirs @ rest) b)))) = Some b'"
  show "layer_ok (set todo) b b'"
  proof (cases todo)
    case (Cons parent rest)
    then obtain n es child_dirs b1 where adds1: "add_sd_entries parent n es [] b = Some (child_dirs, b1)"
      and next_dirs: "visit sd (child_dirs @ rest) b1 = Some b'"
      using body by (auto simp: bind_eq_Some_conv)
    have "layer_ok {parent} b b1" "contexts_ok b \<Longrightarrow> parent \<in> dir_paths b \<Longrightarrow> set child_dirs \<subseteq> dir_paths b1"
      using add_sd_entries_ok [OF _ _ _ adds1] by (auto simp: layer_ok_def)
    then show ?thesis by (intro layer_ok_trans [OF _ ih [OF next_dirs]]) (auto simp: Cons)
  qed (use body in \<open>simp add: layer_ok_def\<close>)
qed

lemma AddFile_layer: "layer_ok {parent} b (AddFile parent name sz orig (cur_source_type b) b)"
  using AddFile_ok by (simp add: layer_ok_def)

lemma visit_files_ok:
  assumes "visit_files beyond storage parent cur t b = Some (t', b')"
  shows "layer_ok {parent} b b'"
proof -
  have "layer_ok {parent} b (snd (t', b'))"
  proof (rule visit_files.raw_induct [OF _ assms, where P = "\<lambda>_ _ parent _ _ b r. layer_ok {parent} b (snd r)"])
    fix visit beyond storage parent cur t b r
    assume ih: "\<And>beyond storage parent cur t b r. visit beyond storage parent cur t b = Some r \<Longrightarrow> layer_ok {parent} b (snd r)"
      and body: "(if cur = EmptyEntry then Some (t, b)
        else Option.bind (reader_GetEntry FileEntry_size beyond storage cur t) (\<lambda>(bs, t).
          let e = file_of_bytes bs
          in visit beyond storage parent (fe_sibling e) t
               (AddFile parent (fe_name e) (sint (fe_size e)) (sint (fe_offset e)) (cur_source_type b) b))) = Some r"
    show "layer_ok {parent} b (snd r)"
    proof (cases "cur = EmptyEntry")
      case False
      then obtain e :: file_entry and t1 where next_file: "visit beyond storage parent (fe_sibling e) t1
          (AddFile parent (fe_name e) (sint (fe_size e)) (sint (fe_offset e)) (cur_source_type b) b) = Some r"
        using body by (auto simp: bind_eq_Some_conv Let_def)
      show ?thesis by (rule layer_ok_trans [OF AddFile_layer ih [OF next_file]]) auto
    qed (use body in \<open>auto simp: layer_ok_def\<close>)
  qed
  then show ?thesis by simp
qed

fun visit_path :: "visit \<Rightarrow> path" where
  "visit_path (Enter p _) = p"
| "visit_path (Siblings p _) = p"

lemma visit_tables_ok:
  assumes "visit_tables beyond storage todo dt ft b = Some b'"
  shows "layer_ok (visit_path ` set todo) b b'"
proof (rule visit_tables.raw_induct [OF _ assms, where P = "\<lambda>_ _ todo _ _ b b'. layer_ok (visit_path ` set todo) b b'"])
  fix visit beyond storage todo dt ft b b'
  assume ih: "\<And>beyond storage todo dt ft b b'. visit beyond storage todo dt ft b = Some b' \<Longrightarrow> layer_ok (visit_path ` set todo) b b'"
    and body: "(case todo of
        [] \<Rightarrow> Some b
      | Enter parent ofs # rest \<Rightarrow>
          Option.bind (reader_GetEntry DirectoryEntry_size beyond storage ofs dt) (\<lambda>(bs, dt).
          Option.bind (visit_files beyond storage parent (de_file (dir_of_bytes bs)) ft b) (\<lambda>(ft, b).
          visit beyond storage (Siblings parent (de_child (dir_of_bytes bs)) # rest) dt ft b))
      | Siblings parent cur # rest \<Rightarrow>
          if cur = EmptyEntry then visit beyond storage rest dt ft b
          else Option.bind (reader_GetEntry DirectoryEntry_size beyond storage cur dt) (\<lambda>(bs, dt).
            let (real_child, b) = AddDirectory parent (de_name (dir_of_bytes bs)) b
            in visit beyond storage (Enter real_child cur # Siblings parent (de_sibling (dir_of_bytes bs)) # rest) dt ft b)) = Some b'"
  show "layer_ok (visit_path ` set todo) b b'"
  proof (cases todo)
    case (Cons v rest)
    show ?thesis
    proof (cases v)
      case (Enter parent ofs)
      obtain bs dt1 ft1 b1 where files: "visit_files beyond storage parent (de_file (dir_of_bytes bs)) ft b = Some (ft1, b1)"
        and dirs: "visit beyond storage (Siblings parent (de_child (dir_of_bytes bs)) # rest) dt1 ft1 b1 = Some b'"
        using body by (auto simp: Cons Enter bind_eq_Some_conv)
      show ?thesis by (rule layer_ok_trans [OF visit_files_ok [OF files] ih [OF dirs]]) (auto simp: Cons Enter)
    next
      case (Siblings parent cur)
      show ?thesis
      proof (cases "cur = EmptyEntry")
        case True
        then have "visit beyond storage rest dt ft b = Some b'" using body by (simp add: Cons Siblings)
        then show ?thesis using ih by (fastforce simp: layer_ok_def Cons)
      next
        case False
        then obtain bs dt1 where next_dir: "(let (real_child, b) = AddDirectory parent (de_name (dir_of_bytes bs)) b
            in visit beyond storage (Enter real_child cur # Siblings parent (de_sibling (dir_of_bytes bs)) # rest) dt1 ft b) = Some b'"
          using body by (auto simp: Cons Siblings bind_eq_Some_conv)
        obtain p b1 where dir: "AddDirectory parent (de_name (dir_of_bytes bs)) b = (p, b1)" by fastforce
        have dirs: "visit beyond storage (Enter p cur # Siblings parent (de_sibling (dir_of_bytes bs)) # rest) dt1 ft b1 = Some b'"
          using next_dir by (simp add: dir)
        have "layer_ok {parent} b b1" using AddDirectory_ok [OF _ _ dir] by (simp add: layer_ok_def)
        then show ?thesis
          by (rule layer_ok_trans [OF _ ih [OF dirs]]) (use AddDirectory_ok [OF _ _ dir] in \<open>auto simp: Cons Siblings\<close>)
      qed
    qed
  qed (use body in \<open>simp add: layer_ok_def\<close>)
qed

text \<open>A layer for its own source type.\<close>

definition adds_layer :: "source_type \<Rightarrow> romfs_builder \<Rightarrow> romfs_builder \<Rightarrow> bool" where
  "adds_layer t b b' \<longleftrightarrow>
     set (directories b) \<subseteq> set (directories b') \<and> set (files b) \<subseteq> set (files b') \<and>
     (\<forall>f \<in> set (files b') - set (files b). fc_source_type f = t)"

lemma contexts_ok_source_type [simp]: "contexts_ok (b\<lparr>cur_source_type := t\<rparr>) = contexts_ok b"
  by (simp add: contexts_ok_def fresh_dir_def fresh_file_def dir_paths_def split: option.split)

lemma layer_source_type:
  "\<lbrakk>layer_ok {[]} (b\<lparr>cur_source_type := t\<rparr>) b'; contexts_ok b\<rbrakk> \<Longrightarrow> contexts_ok b' \<and> adds_layer t b b'"
proof -
  assume "layer_ok {[]} (b\<lparr>cur_source_type := t\<rparr>) b'" "contexts_ok b"
  moreover have "{[]} \<subseteq> dir_paths (b\<lparr>cur_source_type := t\<rparr>)" using \<open>contexts_ok b\<close> by (simp add: contexts_ok_def dir_paths_def)
  ultimately show ?thesis by (simp add: layer_ok_def adds_def adds_layer_def)
qed

lemma AddStorageFiles_ok:
  assumes "AddStorageFiles beyond storage t b = Some b'" "contexts_ok b"
  shows "contexts_ok b' \<and> adds_layer t b b'"
proof -
  obtain dt ft where "visit_tables beyond storage [Enter [] 0] dt ft (b\<lparr>cur_source_type := t\<rparr>) = Some b'"
    using assms(1) by (auto simp: AddStorageFiles_def bind_eq_Some_conv Let_def split: if_splits)
  from visit_tables_ok [OF this] show ?thesis using layer_source_type assms(2) by simp
qed

lemma AddSdFiles_ok:
  assumes "AddSdFiles sd b = Some b'" "contexts_ok b"
  shows "contexts_ok b' \<and> adds_layer SourceLooseSdFile b b'"
  using assms visit_sd_ok [of sd "[[]]" "b\<lparr>cur_source_type := SourceLooseSdFile\<rparr>" b'] layer_source_type [of SourceLooseSdFile b b']
  by (auto simp: AddSdFiles_def adds_layer_def split: if_splits)

end
