(* ===== verification/RomPlaced.thy ===== *)
theory RomPlaced
  imports RomTables RomContexts
begin

text \<open>
  What placing and linking leave of the contexts: the contexts of the builder with their places, the
  offsets of their entries, and lists of siblings that go through the children of a directory in order.
\<close>

subsection \<open>Contexts without links\<close>

definition file_core :: "file_ctx \<Rightarrow> file_ctx" where
  "file_core f = f\<lparr>fc_sibling := None\<rparr>"

definition dir_core :: "dir_ctx \<Rightarrow> dir_ctx" where
  "dir_core d = d\<lparr>dc_child := None, dc_sibling := None, dc_file := None\<rparr>"

lemma file_core_eqD:
  "file_core f = file_core g \<Longrightarrow>
    fc_path f = fc_path g \<and> fc_name f = fc_name g \<and> fc_parent f = fc_parent g \<and> fc_offset f = fc_offset g \<and> fc_size f = fc_size g \<and>
    fc_orig_offset f = fc_orig_offset g \<and> fc_entry_offset f = fc_entry_offset g \<and> fc_source_type f = fc_source_type g"
  by (cases f; cases g) (simp add: file_core_def)

lemma dir_core_eqD:
  "dir_core d = dir_core e \<Longrightarrow>
    dc_path d = dc_path e \<and> dc_name d = dc_name e \<and> dc_parent d = dc_parent e \<and> dc_entry_offset d = dc_entry_offset e"
  by (cases d; cases e) (simp add: dir_core_def)

lemma map_core_fields:
  "map file_core fs = map file_core gs \<Longrightarrow>
    map fc_entry_offset fs = map fc_entry_offset gs \<and> map file_entry_size fs = map file_entry_size gs \<and>
    fold emplace_source fs = fold emplace_source gs \<and> list_all2 (\<lambda>f g. file_core f = file_core g) fs gs"
proof (induction fs arbitrary: gs)
  case (Cons f fs)
  then obtain g gs' where g: "gs = g # gs'" "file_core f = file_core g" "map file_core fs = map file_core gs'" by (cases gs) auto
  moreover from file_core_eqD [OF this(2)] have "emplace_source f = emplace_source g" by (simp add: fun_eq_iff emplace_source_def Let_def)
  ultimately show ?case using Cons.IH [of gs'] file_core_eqD [OF g(2)] by (simp add: file_entry_size_def)
qed simp

lemma file_core_same: "list_all2 (\<lambda>f g. file_core f = file_core g) fs gs \<Longrightarrow> list_all2 same_file gs fs"
  by (induction rule: list_all2_induct) (auto simp: same_file_def dest!: file_core_eqD)

lemma find_key: "\<lbrakk>distinct (map key xs); x \<in> set xs\<rbrakk> \<Longrightarrow> find (\<lambda>y. key y = key x) xs = Some x"
  by (induction xs) force+

lemma list_all2_member: "\<lbrakk>list_all2 P xs ys; y \<in> set ys\<rbrakk> \<Longrightarrow> \<exists>x \<in> set xs. P x y"
  by (induction rule: list_all2_induct) auto

lemma list_all2_member1: "\<lbrakk>list_all2 P xs ys; x \<in> set xs\<rbrakk> \<Longrightarrow> \<exists>y \<in> set ys. P x y"
  by (induction rule: list_all2_induct) auto

lemma dir_core_simps [simp]:
  "dir_core (dc_child_update g d) = dir_core d" "dir_core (dc_sibling_update g d) = dir_core d" "dir_core (dc_file_update g d) = dir_core d"
  by (simp_all add: dir_core_def)

lemma change_dir_core:
  "(\<And>d. dir_core (g d) = dir_core d) \<Longrightarrow> map dir_core (change_dir p g ds) = map dir_core ds"
  by (simp add: change_dir_def)

lemma link_files_core:
  "foldr link_file fs (ds, []) = (ds', fs') \<Longrightarrow> map dir_core ds' = map dir_core ds \<and> map file_core fs' = map file_core fs"
proof (induction fs arbitrary: ds' fs')
  case (Cons f fs)
  obtain ds1 fs1 where rest: "foldr link_file fs (ds, []) = (ds1, fs1)" by fastforce
  have "link_file f (ds1, fs1) = (ds', fs')" using Cons.prems rest by simp
  then have "map dir_core ds' = map dir_core ds1" "fs' = f\<lparr>fc_sibling := Option.bind (dir_at ds1 (fc_parent f)) dc_file\<rparr> # fs1"
    by (auto simp: link_file_def change_dir_core)
  then show ?case using Cons.IH [OF rest] by (simp add: file_core_def)
qed simp

lemma link_dirs_core: "map dir_core (foldr link_dir xs ds) = map dir_core ds"
  by (induction xs) (auto simp: link_dir_def change_dir_core split: option.split)

definition same_dir :: "dir_ctx \<Rightarrow> dir_ctx \<Rightarrow> bool" where
  "same_dir d e \<longleftrightarrow> dc_path e = dc_path d \<and> dc_name e = dc_name d \<and> dc_parent e = dc_parent d"

lemma dir_core_fields:
  "map dir_core ds = map dir_core es \<Longrightarrow>
    list_all2 same_dir es ds \<and> map dc_entry_offset ds = map dc_entry_offset es \<and> map dir_entry_size ds = map dir_entry_size es"
proof (induction ds arbitrary: es)
  case (Cons d ds)
  then obtain e es' where "es = e # es'" "dir_core d = dir_core e" "map dir_core ds = map dir_core es'" by (cases es) auto
  then show ?case using Cons.IH [of es'] dir_core_eqD [of d e] by (simp add: same_dir_def dir_entry_size_def)
qed simp

lemma same_dir_trans: "\<lbrakk>list_all2 same_dir as bs; list_all2 same_dir bs cs\<rbrakk> \<Longrightarrow> list_all2 same_dir as cs"
  by (auto simp: list_all2_conv_all_nth same_dir_def)

lemma place_dirs_same:
  "list_all2 same_dir ds (place_dirs eo ds) \<and> map dc_entry_offset (place_dirs eo ds) = entry_offsets eo (map dir_entry_size ds) \<and>
    map dc_file (place_dirs eo ds) = map dc_file ds \<and> map dc_child (place_dirs eo ds) = map dc_child ds \<and>
    map dc_sibling (place_dirs eo ds) = map dc_sibling ds"
  by (induction ds arbitrary: eo) (simp_all add: same_dir_def dir_entry_size_def)

lemma place_dirs_sizes: "map dir_entry_size (place_dirs eo ds) = map dir_entry_size ds"
  by (induction ds arbitrary: eo) (simp_all add: dir_entry_size_def)

lemma place_contexts_core:
  assumes "place_contexts b = Some b'"
  obtains fs where "place_files (file_partition_size b) 0 None (files b) = Some (fs, file_partition_size b')"
    "map file_core (files b') = map file_core fs"
    "list_all2 same_dir (directories b) (directories b')"
    "map dc_entry_offset (directories b') = entry_offsets 0 (map dir_entry_size (directories b'))"
    "b_dir_table_size b' = b_dir_table_size b" "b_file_table_size b' = b_file_table_size b"
proof -
  obtain fs psize where fs: "place_files (file_partition_size b) 0 None (files b) = Some (fs, psize)"
    using assms by (auto simp: place_contexts_def split: option.splits)
  obtain ds1 fs1 where link: "foldr link_file fs (directories b, []) = (ds1, fs1)" by fastforce
  have b': "b' = b\<lparr>directories := foldr link_dir (place_dirs 0 ds1) (place_dirs 0 ds1), files := fs1, file_partition_size := psize\<rparr>"
    using assms by (simp add: place_contexts_def fs link Let_def)
  note core = link_files_core [OF link]
  have dirs: "map dir_core (directories b') = map dir_core (place_dirs 0 ds1)" by (simp add: b' link_dirs_core)
  have "list_all2 same_dir (directories b) ds1" using core dir_core_fields by blast
  moreover have "list_all2 same_dir ds1 (place_dirs 0 ds1)" using place_dirs_same by blast
  moreover have "list_all2 same_dir (place_dirs 0 ds1) (directories b')" using dirs dir_core_fields by blast
  ultimately have same: "list_all2 same_dir (directories b) (directories b')" using same_dir_trans by blast
  have "map dc_entry_offset (directories b') = entry_offsets 0 (map dir_entry_size (directories b'))"
    using place_dirs_same [of ds1 0] place_dirs_sizes [of 0 ds1] dir_core_fields [OF dirs] by simp
  then show thesis using that [of fs] fs core same by (simp add: b')
qed

end
