(* ===== verification/RomBuilt.thy ===== *)
theory RomBuilt
  imports RomPlaced
begin

text \<open>
  The built image: its sources, its tables behind its header, and the search in it.
\<close>

subsection \<open>Hash table sizes\<close>

lemma next_size_bounds: "n \<le> next_size n \<and> \<not> has_small_factor (next_size n)"
  by (induction n rule: next_size.induct) (subst next_size.simps, subst (2) next_size.simps, auto)

lemma GetHashTableSize_pos [simp]: "0 < GetHashTableSize n"
  using next_size_bounds [of n] by (auto simp: GetHashTableSize_def)

subsection \<open>Limits\<close>

definition EntryNameLengthMax :: nat where "EntryNameLengthMax = 0x300"

definition names_ok :: "romfs_builder \<Rightarrow> bool" where
  "names_ok b \<longleftrightarrow>
     (\<forall>d \<in> set (directories b). List.length (dc_name d) \<le> EntryNameLengthMax \<and> (dc_parent d \<noteq> None \<longrightarrow> dc_name d \<noteq> [])) \<and>
     (\<forall>f \<in> set (files b). List.length (fc_name f) \<le> EntryNameLengthMax)"

definition tables_fit :: "romfs_builder \<Rightarrow> bool" where
  "tables_fit b \<longleftrightarrow> b_dir_table_size b < 2 ^ 32 \<and> b_file_table_size b < 2 ^ 32"

text \<open>What the card does with a new file of metadata.\<close>

definition creates_file :: "(nat \<Rightarrow> u8 list option) \<Rightarrow> bool" where
  "creates_file create \<longleftrightarrow> (\<forall>n f. create n = Some f \<longrightarrow> List.length f = n)"

lemma entry_sizes_fit:
  fixes n :: "u8 list" shows "List.length n \<le> EntryNameLengthMax \<Longrightarrow> FileEntry_size + AlignUp (List.length n) 4 \<le> FallbackCacheSize"
  "List.length n \<le> EntryNameLengthMax \<Longrightarrow> DirectoryEntry_size + AlignUp (List.length n) 4 \<le> FallbackCacheSize"
  using AlignUp_bounds(2) [of "List.length n"]
  by (simp_all add: EntryNameLengthMax_def FileEntry_size_def DirectoryEntry_size_def FallbackCacheSize_def)

subsection \<open>Building\<close>

text \<open>The entries and heads of the tables of placed contexts.\<close>

definition file_tables :: "romfs_builder \<Rightarrow> file_entry list \<times> u32 list" where
  "file_tables b = hashed (file_key (directories b)) fc_entry_offset (file_entry_of (directories b) (files b)) (files b)
     (replicate (GetHashTableSize (List.length (files b))) EmptyEntry)"

definition dir_tables :: "romfs_builder \<Rightarrow> dir_entry list \<times> u32 list" where
  "dir_tables b = hashed (dir_key (directories b)) dc_entry_offset (dir_entry_of (directories b) (files b)) (directories b)
     (replicate (GetHashTableSize (List.length (directories b))) EmptyEntry)"

definition metadata_bytes :: "romfs_builder \<Rightarrow> u8 list" where
  "metadata_bytes b =
     (let (fes, file_heads) = file_tables b; (des, dir_heads) = dir_tables b
      in hash_table_bytes dir_heads @ concat (map dir_bytes des) @ hash_table_bytes file_heads @ concat (map file_bytes fes))"

definition header_source :: "u8 list \<Rightarrow> source_info" where
  "header_source bs = \<lparr>virtual_offset = 0, si_size = int Header_size, si_source_type = SourceMemory, si_arg = InMemory bs\<rparr>"

lemma placed_sizes:
  assumes "place_contexts b = Some b'" "contexts_ok b"
  shows "List.length (files b') = num_files b" "List.length (directories b') = num_dirs b"
    "b_file_table_size b' = sum_list (map file_entry_size (files b'))" "b_dir_table_size b' = sum_list (map dir_entry_size (directories b'))"
    "b_file_table_size b' = b_file_table_size b" "b_dir_table_size b' = b_dir_table_size b"
    "map fc_entry_offset (files b') = entry_offsets 0 (map file_entry_size (files b'))"
    "map dc_entry_offset (directories b') = entry_offsets 0 (map dir_entry_size (directories b'))"
    "list_all2 same_file (files b) (files b')" "list_all2 same_dir (directories b) (directories b')"
proof -
  obtain fs where fs: "place_files (file_partition_size b) 0 None (files b) = Some (fs, file_partition_size b')"
    "map file_core (files b') = map file_core fs"
    "list_all2 same_dir (directories b) (directories b')"
    "map dc_entry_offset (directories b') = entry_offsets 0 (map dir_entry_size (directories b'))"
    "b_dir_table_size b' = b_dir_table_size b" "b_file_table_size b' = b_file_table_size b"
    using place_contexts_core [OF assms(1)] by blast
  note placed = place_files_same [OF fs(1)]
  note core = map_core_fields [OF fs(2)]
  have "list_all2 same_file fs (files b')"
    using core file_core_same by blast
  then have same: "list_all2 same_file (files b) (files b')"
    using placed by (auto simp: list_all2_conv_all_nth same_file_def)
  have sizes: "map file_entry_size (files b') = map file_entry_size (files b)"
    using same by (auto simp: list_all2_conv_all_nth list_eq_iff_nth_eq same_file_def file_entry_size_def)
  have dsizes: "map dir_entry_size (directories b') = map dir_entry_size (directories b)"
    using fs(3) by (auto simp: list_all2_conv_all_nth list_eq_iff_nth_eq same_dir_def dir_entry_size_def)
  have ok: "num_files b = List.length (files b)" "num_dirs b = List.length (directories b)"
    "b_file_table_size b = sum_list (map file_entry_size (files b))" "b_dir_table_size b = sum_list (map dir_entry_size (directories b))"
    using assms(2) by (simp_all add: contexts_ok_def file_entry_size_def [abs_def] dir_entry_size_def [abs_def])
  show "list_all2 same_file (files b) (files b')" "list_all2 same_dir (directories b) (directories b')" by (fact same, fact fs)
  show "List.length (files b') = num_files b" "List.length (directories b') = num_dirs b"
    using same fs(3) ok by (simp_all add: list_all2_lengthD)
  show "b_file_table_size b' = sum_list (map file_entry_size (files b'))" "b_dir_table_size b' = sum_list (map dir_entry_size (directories b'))"
    "b_file_table_size b' = b_file_table_size b" "b_dir_table_size b' = b_dir_table_size b"
    using ok fs(5,6) sizes dsizes by simp_all
  show "map dc_entry_offset (directories b') = entry_offsets 0 (map dir_entry_size (directories b'))" by (fact fs)
  show "map fc_entry_offset (files b') = entry_offsets 0 (map file_entry_size (files b'))" using placed core sizes by simp
qed

lemma placed_names:
  assumes "list_all2 same_file (files b) fs" "list_all2 same_dir (directories b) ds" "names_ok b"
  shows "\<forall>f \<in> set fs. List.length (fc_name f) \<le> EntryNameLengthMax"
    "\<forall>d \<in> set ds. List.length (dc_name d) \<le> EntryNameLengthMax \<and> (dc_parent d \<noteq> None \<longrightarrow> dc_name d \<noteq> [])"
  using list_all2_member [OF assms(1)] list_all2_member [OF assms(2)] assms(3)
  unfolding names_ok_def same_file_def same_dir_def by metis+

lemma put_pieces:
  assumes "List.length f = a + b + c + d" "List.length A = a" "List.length B = b" "List.length C = c" "List.length D = d"
  shows "put_bytes 0 A (put_bytes a B (put_bytes (a + b) C (put_bytes (a + b + c) D f))) = A @ B @ C @ D"
  using assms by (simp add: put_bytes_def)

lemma length_metadata:
  assumes "place_contexts b = Some b'" "contexts_ok b"
  shows "List.length (metadata_bytes b') =
    4 * GetHashTableSize (num_dirs b) + b_dir_table_size b + 4 * GetHashTableSize (num_files b) + b_file_table_size b"
proof -
  note sizes = placed_sizes [OF assms]
  obtain fes fheads where ft: "file_tables b' = (fes, fheads)" by fastforce
  obtain des dheads where dt: "dir_tables b' = (des, dheads)" by fastforce
  show ?thesis
    using file_entries [OF ft [unfolded file_tables_def]] dir_entries [OF dt [unfolded dir_tables_def]] sizes
    by (simp add: metadata_bytes_def ft dt sum_entry_sizes)
qed

lemma Build_result:
  assumes ok: "contexts_ok b" "names_ok b" "tables_fit b" and placed: "place_contexts b = Some b'"
    and create: "create (List.length (metadata_bytes b')) = Some f" "List.length f = List.length (metadata_bytes b')"
  shows "Build create b = Some ((fold emplace_source (files b') [header_source (replicate Header_size 0)])
      [0 := header_source (header_bytes (build_header b' (4 * GetHashTableSize (num_dirs b)) (4 * GetHashTableSize (num_files b))))] @
    [\<lparr>virtual_offset = sint (dir_hash_table_ofs (build_header b' (4 * GetHashTableSize (num_dirs b)) (4 * GetHashTableSize (num_files b)))),
      si_size = int (List.length (metadata_bytes b')), si_source_type = SourceMetadata, si_arg = InFile (metadata_bytes b')\<rparr>])"
proof -
  note sizes = placed_sizes [OF placed ok(1)]
  obtain fes fheads where ft: "file_tables b' = (fes, fheads)" by fastforce
  obtain des dheads where dt: "dir_tables b' = (des, dheads)" by fastforce
  let ?nd = "GetHashTableSize (num_dirs b)" and ?nf = "GetHashTableSize (num_files b)"
  have fh: "hashed (file_key (directories b')) fc_entry_offset (file_entry_of (directories b') (files b')) (files b') (replicate ?nf EmptyEntry) = (fes, fheads)"
    using ft sizes(1) by (simp add: file_tables_def)
  have dh: "hashed (dir_key (directories b')) dc_entry_offset (dir_entry_of (directories b') (files b')) (directories b') (replicate ?nd EmptyEntry) = (des, dheads)"
    using dt sizes(2) by (simp add: dir_tables_def)
  have len: "List.length fheads = ?nf" "List.length dheads = ?nd"
    "List.length (concat (map file_bytes fes)) = b_file_table_size b" "List.length (concat (map dir_bytes des)) = b_dir_table_size b"
    using file_entries [OF fh] dir_entries [OF dh] sizes(3-6) by (simp_all add: sum_entry_sizes)
  have meta: "metadata_bytes b' = hash_table_bytes dheads @ concat (map dir_bytes des) @ hash_table_bytes fheads @ concat (map file_bytes fes)"
    by (simp add: metadata_bytes_def ft dt)
  note size = length_metadata [OF placed ok(1)]
  have fit: "\<forall>f \<in> set (files b'). file_entry_size f \<le> FallbackCacheSize" "\<forall>d \<in> set (directories b'). dir_entry_size d \<le> FallbackCacheSize"
    using placed_names [OF sizes(9,10) ok(2)] entry_sizes_fit by (auto simp: file_entry_size_def dir_entry_size_def)
  let ?f1 = "put_bytes (4 * ?nd + b_dir_table_size b) (hash_table_bytes fheads) (put_bytes (4 * ?nd + b_dir_table_size b + 4 * ?nf) (concat (map file_bytes fes)) f)"
  have wf: "write_file_table (directories b') (files b') ?nf (4 * ?nd + b_dir_table_size b) (b_file_table_size b') [header_source (replicate Header_size 0)] f =
      Some (fold emplace_source (files b') [header_source (replicate Header_size 0)], ?f1)"
    using ok(3) sizes create(2) size fit by (intro write_file_table_ok [OF _ _ _ _ _ fh]) (simp_all add: tables_fit_def)
  have "List.length ?f1 = List.length f" using create(2) size len by simp
  then have wd: "write_dir_table (directories b') (files b') ?nd (b_dir_table_size b') ?f1 =
      Some (put_bytes 0 (hash_table_bytes dheads) (put_bytes (4 * ?nd) (concat (map dir_bytes des)) ?f1))"
    using ok(3) sizes create(2) size fit by (intro write_dir_table_ok [OF _ _ _ _ _ dh]) (simp_all add: tables_fit_def)
  have "put_bytes 0 (hash_table_bytes dheads) (put_bytes (4 * ?nd) (concat (map dir_bytes des)) ?f1) = metadata_bytes b'"
    using put_pieces [of f "4 * ?nd" "b_dir_table_size b" "4 * ?nf" "b_file_table_size b"] create(2) size len by (simp add: meta)
  then show ?thesis
    using create(1) placed wf wd size by (simp add: Build_def Let_def header_source_def sizes(5,6))
qed

end
