(* ===== verification/RomServed.thy ===== *)
theory RomServed
  imports RomBuilt
begin

text \<open>
  The image of a built storage: every file is served from its layer, and the header and the tables lie
  where a reader of the image looks for them.
\<close>

subsection \<open>The sources of a built storage\<close>

abbreviation with_sources :: "layered_storage \<Rightarrow> source_info list \<Rightarrow> layered_storage" where
  "with_sources s infos \<equiv> s\<lparr>source_infos := infos, is_initialized := True\<rparr>"

lemma read_source_with [simp]: "read_source env (with_sources s infos) = read_source env s"
  by (simp add: fun_eq_iff read_source_def split: source_type.split source_arg.split)

lemma source_ok_with [simp]: "source_ok env (with_sources s infos) = source_ok env s"
  by (simp add: fun_eq_iff source_ok_def)

lemma file_data_with [simp]: "file_data env (with_sources s infos) = file_data env s"
  by (simp add: fun_eq_iff file_data_def split: source_type.split)

lemma file_present_with [simp]: "file_present env (with_sources s infos) = file_present env s"
  by (simp add: fun_eq_iff file_present_def)

lemma length_header_bytes [simp]: "List.length (header_bytes h) = Header_size"
  by (simp add: header_bytes_def Header_size_def)

lemma header_source_ok: "List.length bs = Header_size \<Longrightarrow> source_ok env s (header_source bs)"
  by (simp add: source_ok_def header_source_def read_source_def storage_read_def file_read_def)

lemma metadata_source_ok:
  "source_ok env s \<lparr>virtual_offset = ofs, si_size = int (List.length bs), si_source_type = SourceMetadata, si_arg = InFile bs\<rparr>"
  by (simp add: source_ok_def read_source_def storage_read_def file_read_def)

lemma chained_replace_head:
  "\<lbrakk>chained (i # infos); virtual_offset j = virtual_offset i; si_size j = si_size i\<rbrakk> \<Longrightarrow> chained (j # infos)"
  by (cases infos) auto

lemma placed_sources:
  assumes "contexts_ok b" "place_contexts b = Some b'" "\<forall>f \<in> set (files b). file_present env s f" "List.length z = Header_size"
  obtains rest where "fold emplace_source (files b') [header_source z] = header_source z # rest" "chained (header_source z # rest)"
    "\<forall>i \<in> set rest. source_ok env s i" "virtual_size (header_source z # rest) \<le> int FilePartitionOffset + file_partition_size b'"
    "\<forall>f \<in> set (files b'). \<exists>i \<in> set rest. serves i f" "0 \<le> file_partition_size b'"
proof -
  obtain fs where fs: "place_files (file_partition_size b) 0 None (files b) = Some (fs, file_partition_size b')"
    "map file_core (files b') = map file_core fs" using place_contexts_core [OF assms(2)] by blast
  have start: "sources_at env s (file_partition_size b) None [header_source z]"
    using assms(1,4) header_source_ok [of z env s] 
    by (simp add: sources_at_def contexts_ok_def virtual_size_def header_source_def Header_size_def FilePartitionOffset_def)
  have fold: "fold emplace_source (files b') = fold emplace_source fs" using map_core_fields [OF fs(2)] by blast
  obtain last_file where at: "sources_at env s (file_partition_size b') last_file (fold emplace_source fs [header_source z])"
    "hd (fold emplace_source fs [header_source z]) = header_source z"
    "\<forall>f \<in> set fs. \<exists>i \<in> set (fold emplace_source fs [header_source z]). serves i f"
    using place_sources [OF fs(1) start assms(3)] by (auto simp: header_source_def)
  then obtain rest where rest: "fold emplace_source fs [header_source z] = header_source z # rest"
    by (metis sources_at_def list.collapse)
  have "\<exists>i \<in> set rest. serves i f" if f: "f \<in> set (files b')" for f
  proof -
    obtain g where g: "g \<in> set fs" "file_core g = file_core f"
      using f fs(2) by (metis (no_types, lifting) image_iff list.set_map)
    have "\<not> serves (header_source z) g" by (auto simp: serves_def header_source_def)
    then obtain i where "i \<in> set rest" "serves i g" using at(3) g(1) unfolding rest by auto
    then show ?thesis using file_core_eqD [OF g(2)] by (auto simp: serves_def file_start_def split: source_arg.splits)
  qed
  then show thesis using that [of rest] at(1) unfolding fold rest by (simp add: sources_at_def)
qed

definition image_fits :: "romfs_builder \<Rightarrow> bool" where
  "image_fits b \<longleftrightarrow> align_int (int FilePartitionOffset + file_partition_size b) 4 + int (List.length (metadata_bytes b)) < 2 ^ 63"

abbreviation built_header :: "romfs_builder \<Rightarrow> rom_header" where
  "built_header b \<equiv> build_header b (4 * GetHashTableSize (List.length (directories b))) (4 * GetHashTableSize (List.length (files b)))"

definition metadata_start :: "romfs_builder \<Rightarrow> int" where
  "metadata_start b = align_int (int FilePartitionOffset + file_partition_size b) 4"

definition metadata_source :: "romfs_builder \<Rightarrow> source_info" where
  "metadata_source b =
     \<lparr>virtual_offset = metadata_start b, si_size = int (List.length (metadata_bytes b)), si_source_type = SourceMetadata, si_arg = InFile (metadata_bytes b)\<rparr>"

lemma align_int_4: "0 \<le> n \<Longrightarrow> n \<le> align_int n 4"
  unfolding align_int_def using AlignUp_bounds(1) [of "nat n"] by linarith

lemma metadata_start_bounds:
  assumes "0 \<le> file_partition_size b" "image_fits b"
  shows "int FilePartitionOffset + file_partition_size b \<le> metadata_start b" "0 \<le> metadata_start b"
    "metadata_start b + int (List.length (metadata_bytes b)) < 2 ^ 63"
  using assms align_int_4 [of "int FilePartitionOffset + file_partition_size b"] by (simp_all add: metadata_start_def image_fits_def)

lemma sint_of_int_small: "\<lbrakk>0 \<le> n; n < 2 ^ 63\<rbrakk> \<Longrightarrow> sint (word_of_int n :: u64) = n"
  by (simp add: signed_of_int signed_take_bit_int_eq_self)

lemma built_sources:
  assumes ok: "contexts_ok b" "names_ok b" "tables_fit b" and placed: "place_contexts b = Some b'" and fits: "image_fits b'"
    and present: "\<forall>f \<in> set (files b). file_present env s f"
    and build: "Build create b = Some infos" "creates_file create"
  shows "infos_ok env (with_sources s infos)" "header_source (header_bytes (built_header b')) \<in> set infos" "metadata_source b' \<in> set infos"
    "\<forall>f \<in> set (files b'). \<exists>i \<in> set infos. serves i f" "0 \<le> file_partition_size b'"
proof -
  note sizes = placed_sizes [OF placed ok(1)]
  let ?hdr = "header_source (header_bytes (built_header b'))" and ?z = "replicate Header_size 0"
  obtain rest where rest: "fold emplace_source (files b') [header_source ?z] = header_source ?z # rest" "chained (header_source ?z # rest)"
    "\<forall>i \<in> set rest. source_ok env s i" "virtual_size (header_source ?z # rest) \<le> int FilePartitionOffset + file_partition_size b'"
    "\<forall>f \<in> set (files b'). \<exists>i \<in> set rest. serves i f" "0 \<le> file_partition_size b'"
    using placed_sources [OF ok(1) placed present, of ?z] by auto
  note start = metadata_start_bounds [OF rest(6) fits]
  obtain f where f: "create (List.length (metadata_bytes b')) = Some f"
    using build(1) length_metadata [OF placed ok(1)] by (auto simp: Build_def Let_def bind_eq_Some_conv)
  have "List.length f = List.length (metadata_bytes b')" using f build(2) by (simp add: creates_file_def)
  from Build_result [OF ok placed, of create, OF f this] have "infos = (header_source ?z # rest)[0 := ?hdr] @ [metadata_source b']"
    using build(1) start(2,3) 
    by (simp add: sizes(1,2) rest(1) metadata_source_def build_header_def Let_def flip: metadata_start_def) (simp add: sint_of_int_small)
  then have infos: "infos = ?hdr # rest @ [metadata_source b']" by simp
  show "?hdr \<in> set infos" "metadata_source b' \<in> set infos" by (simp_all add: infos)
  show "\<forall>f \<in> set (files b'). \<exists>i \<in> set infos. serves i f" using rest(5) by (auto simp: infos)
  show "0 \<le> file_partition_size b'" by (fact rest)
  have "chained (?hdr # rest)" by (rule chained_replace_head [OF rest(2)]) (simp_all add: header_source_def)
  moreover have "virtual_size (?hdr # rest) \<le> virtual_offset (metadata_source b')"
    using rest(4) start(1) by (simp add: virtual_size_def header_source_def metadata_source_def split: if_splits)
  ultimately have "chained ((?hdr # rest) @ [metadata_source b'])" by (simp only: chained_append) simp
  then show "infos_ok env (with_sources s infos)"
    using rest(3) header_source_ok [of "header_bytes (built_header b')" env s] metadata_source_ok [of env s "metadata_start b'" "metadata_bytes b'"]
    by (simp add: infos_ok_def infos) (simp add: header_source_def metadata_source_def)
qed

lemma placed_file_bounds:
  assumes "place_contexts b = Some b'" "contexts_ok b" "\<forall>f \<in> set (files b). 0 \<le> fc_size f" "g \<in> set (files b')"
  shows "0 \<le> fc_offset g \<and> 0 \<le> fc_size g \<and> fc_offset g + fc_size g \<le> file_partition_size b'"
proof -
  obtain fs where fs: "place_files (file_partition_size b) 0 None (files b) = Some (fs, file_partition_size b')"
    "map file_core (files b') = map file_core fs" using place_contexts_core [OF assms(1)] by blast
  obtain h where h: "h \<in> set fs" "file_core h = file_core g" using assms(4) fs(2) by (metis (no_types, lifting) image_iff list.set_map)
  obtain f where f: "f \<in> set (files b)" "same_file f g" using list_all2_member [OF placed_sizes(9) [OF assms(1,2)] assms(4)] by blast
  have "0 \<le> fc_size g" using f assms(3) by (simp add: same_file_def)
  moreover have "file_partition_size b = 0" using assms(2) by (simp add: contexts_ok_def)
  ultimately show ?thesis
    using place_files_layout [OF fs(1) assms(3)] h(1) file_core_eqD [OF h(2)] by auto
qed

end
