(* ===== verification/RomLookup.thy ===== *)
theory RomLookup
  imports RomServed
begin

text \<open>
  Searching the tables of an image as a reader of it does: the header leads to the tables, the hash of
  a name to a list of entries. In a built image the search finds the entry of each context.
\<close>

subsection \<open>Searching an image\<close>

definition image_header :: "u8 list \<Rightarrow> rom_header" where
  "image_header img = header_of_bytes (take Header_size img)"

definition image_part :: "u8 list \<Rightarrow> u64 \<Rightarrow> u64 \<Rightarrow> u8 list" where
  "image_part img ofs n = take (unat n) (drop (unat ofs) img)"

definition find_file :: "u8 list \<Rightarrow> u32 \<Rightarrow> u8 list \<Rightarrow> (u32 \<times> file_entry) option" where
  "find_file img parent name =
     (let h = image_header img; heads = image_part img (file_hash_table_ofs h) (file_hash_table_size h);
          t = image_part img (file_table_ofs h) (file_table_size h)
      in chain_find file_of_bytes fe_hash (\<lambda>e. (fe_parent e, fe_name e) = (parent, name)) (Suc (List.length t)) t
           (field (4 * slot (List.length heads div 4) (parent, name)) 4 heads))"

definition find_dir :: "u8 list \<Rightarrow> u32 \<Rightarrow> u8 list \<Rightarrow> (u32 \<times> dir_entry) option" where
  "find_dir img parent name =
     (let h = image_header img; heads = image_part img (dir_hash_table_ofs h) (dir_hash_table_size h);
          t = image_part img (dir_table_ofs h) (dir_table_size h)
      in chain_find dir_of_bytes de_hash (\<lambda>e. (de_parent e, de_name e) = (parent, name)) (Suc (List.length t)) t
           (field (4 * slot (List.length heads div 4) (parent, name)) 4 heads))"

fun open_dir :: "u8 list \<Rightarrow> u32 \<Rightarrow> u8 list list \<Rightarrow> u32 option" where
  "open_dir img ofs [] = Some ofs"
| "open_dir img ofs (n # ns) = (case find_dir img ofs n of None \<Rightarrow> None | Some (ofs', _) \<Rightarrow> open_dir img ofs' ns)"

definition open_file :: "u8 list \<Rightarrow> u8 list list \<Rightarrow> u8 list \<Rightarrow> file_entry option" where
  "open_file img dirs name =
     (case open_dir img 0 dirs of None \<Rightarrow> None | Some ofs \<Rightarrow> map_option snd (find_file img ofs name))"

lemma open_dir_append: "open_dir img ofs (xs @ ys) = Option.bind (open_dir img ofs xs) (\<lambda>o'. open_dir img o' ys)"
  by (induction img ofs xs rule: open_dir.induct) (auto split: option.split)

subsection \<open>Parts of a built image\<close>

lemma header_roundtrip: "header_of_bytes (header_bytes h) = h"
proof -
  have last_field: "field 0 8 (word_bytes 8 v) = (v :: u64)" for v using field_first [of 8 v "[]"] by simp
  show ?thesis by (cases h) (simp add: header_of_bytes_def header_bytes_def field_later last_field)
qed

lemma part_of_metadata:
  assumes "metadata_bytes b = xs @ p @ ys" "rom_image env s = pre @ metadata_bytes b @ post" "int (List.length pre) = metadata_start b"
    "0 \<le> file_partition_size b" "image_fits b" "ofs = metadata_start b + int (List.length xs)"
  shows "image_part (rom_image env s) (of_int ofs) (of_nat (List.length p)) = p"
proof -
  note start = metadata_start_bounds [OF assms(4,5)]
  have len: "List.length (metadata_bytes b) = List.length xs + List.length p + List.length ys" by (simp add: assms(1))
  have u: "unat (of_nat m :: u64) = m" if "m < 2 ^ 63" for m :: nat
    using that by (simp add: unsigned_of_nat take_bit_nat_eq_self)
  have ofs: "ofs = int (List.length pre + List.length xs)" using assms(3,6) by simp
  then have "List.length pre + List.length xs < 2 ^ 63" "List.length p < 2 ^ 63" using start(2,3) len assms(6) by simp_all
  then have "unat (of_int ofs :: u64) = List.length pre + List.length xs" "unat (of_nat (List.length p) :: u64) = List.length p"
    using u unfolding ofs of_int_of_nat_eq by blast+
  then show ?thesis by (simp add: image_part_def assms(1,2))
qed

lemma head_of_bytes: "j < List.length heads \<Longrightarrow> field (4 * j) 4 (hash_table_bytes heads) = heads ! j"
proof -
  assume j: "j < List.length heads"
  have "hash_table_bytes heads = hash_table_bytes (take j heads) @ word_bytes 4 (heads ! j) @ hash_table_bytes (drop (Suc j) heads)"
    using arg_cong [OF id_take_nth_drop [OF j], of hash_table_bytes] by (simp add: hash_table_bytes_def)
  moreover have "List.length (hash_table_bytes (take j heads)) = 4 * j" using j by simp
  ultimately show ?thesis by (simp add: field_later)
qed

text \<open>The image holds the header and the metadata of a builder.\<close>

definition shows_image :: "u8 list \<Rightarrow> romfs_builder \<Rightarrow> bool" where
  "shows_image img b \<longleftrightarrow>
     (let (fes, file_heads) = file_tables b; (des, dir_heads) = dir_tables b; h = image_header img
      in image_part img (dir_hash_table_ofs h) (dir_hash_table_size h) = hash_table_bytes dir_heads \<and>
         image_part img (dir_table_ofs h) (dir_table_size h) = concat (map dir_bytes des) \<and>
         image_part img (file_hash_table_ofs h) (file_hash_table_size h) = hash_table_bytes file_heads \<and>
         image_part img (file_table_ofs h) (file_table_size h) = concat (map file_bytes fes))"

lemma built_image:
  assumes infos: "infos_ok env s" "header_source (header_bytes (built_header b)) \<in> set (source_infos s)" "metadata_source b \<in> set (source_infos s)"
    and size: "0 \<le> file_partition_size b" "image_fits b"
      "b_file_table_size b = sum_list (map file_entry_size (files b))" "b_dir_table_size b = sum_list (map dir_entry_size (directories b))"
  shows "shows_image (rom_image env s) b"
proof -
  obtain fes fheads where ft: "file_tables b = (fes, fheads)" by fastforce
  obtain des dheads where dt: "dir_tables b = (des, dheads)" by fastforce
  note fe = file_entries [OF ft [unfolded file_tables_def]] and de = dir_entries [OF dt [unfolded dir_tables_def]]
  let ?img = "rom_image env s" and ?h = "built_header b" and ?ms = "metadata_start b"
  let ?nd = "4 * GetHashTableSize (List.length (directories b))" and ?nf = "4 * GetHashTableSize (List.length (files b))"
  have len: "List.length (hash_table_bytes fheads) = ?nf" "List.length (hash_table_bytes dheads) = ?nd"
    "List.length (concat (map file_bytes fes)) = b_file_table_size b" "List.length (concat (map dir_bytes des)) = b_dir_table_size b"
    using fe de size(3,4) by (simp_all add: sum_entry_sizes)
  have meta: "metadata_bytes b = hash_table_bytes dheads @ concat (map dir_bytes des) @ hash_table_bytes fheads @ concat (map file_bytes fes)"
    by (simp add: metadata_bytes_def ft dt)
  have cont: "content env s (header_source (header_bytes ?h)) = header_bytes ?h" "content env s (metadata_source b) = metadata_bytes b"
    by (simp_all add: content_def header_source_def metadata_source_def read_source_def storage_read_def file_read_def)
  obtain xs ys where "?img = xs @ header_bytes ?h @ ys" "List.length xs = 0"
    using source_in_image [OF infos(1,2)] cont(1) by (metis header_source_def of_nat_eq_0_iff source_info.select_convs(1))
  then have "image_header ?img = ?h" by (simp add: image_header_def header_roundtrip)
  moreover obtain pre post where img: "?img = pre @ metadata_bytes b @ post" "int (List.length pre) = ?ms"
    using source_in_image [OF infos(1,3)] cont(2) by (metis metadata_source_def source_info.select_convs(1))
  note part = part_of_metadata [OF _ img size(1,2)]
  have "image_part ?img (of_int ?ms) (of_nat (List.length (hash_table_bytes dheads))) = hash_table_bytes dheads"
    by (rule part [of "[]"]) (simp_all add: meta)
  moreover have "image_part ?img (of_int (?ms + int ?nd)) (of_nat (List.length (concat (map dir_bytes des)))) = concat (map dir_bytes des)"
    by (rule part [of "hash_table_bytes dheads"]) (simp_all add: meta len del: length_hash_table_bytes)
  moreover have "image_part ?img (of_int (?ms + int ?nd + int (b_dir_table_size b))) (of_nat (List.length (hash_table_bytes fheads))) = hash_table_bytes fheads"
    by (rule part [of "hash_table_bytes dheads @ concat (map dir_bytes des)"]) (simp_all add: meta len del: length_hash_table_bytes length_concat)
  moreover have "image_part ?img (of_int (?ms + int ?nd + int (b_dir_table_size b) + int ?nf)) (of_nat (List.length (concat (map file_bytes fes)))) = concat (map file_bytes fes)"
    by (rule part [of "hash_table_bytes dheads @ concat (map dir_bytes des) @ hash_table_bytes fheads"])
      (simp_all add: meta len del: length_hash_table_bytes length_concat)
  ultimately show ?thesis
    unfolding len by (simp add: shows_image_def ft dt Let_def build_header_def metadata_start_def)
qed

subsection \<open>Placed contexts\<close>

definition placed_ok :: "romfs_builder \<Rightarrow> bool" where
  "placed_ok b \<longleftrightarrow>
     distinct (map dc_path (directories b)) \<and> distinct (map fc_path (files b)) \<and>
     directories b \<noteq> [] \<and> dc_path (hd (directories b)) = [] \<and> dc_parent (hd (directories b)) = None \<and>
     (\<forall>d \<in> set (directories b). case dc_parent d of
        None \<Rightarrow> dc_path d = [] \<and> dc_name d = []
      | Some p \<Rightarrow> p \<in> dir_paths b \<and> dc_path d = child_path p (dc_name d) \<and> dc_name d \<noteq> []) \<and>
     (\<forall>f \<in> set (files b). fc_parent f \<in> dir_paths b \<and> fc_path f = child_path (fc_parent f) (fc_name f)) \<and>
     (\<forall>d \<in> set (directories b). List.length (dc_name d) \<le> EntryNameLengthMax) \<and>
     (\<forall>f \<in> set (files b). List.length (fc_name f) \<le> EntryNameLengthMax) \<and>
     map fc_entry_offset (files b) = entry_offsets 0 (map file_entry_size (files b)) \<and>
     map dc_entry_offset (directories b) = entry_offsets 0 (map dir_entry_size (directories b)) \<and>
     sum_list (map file_entry_size (files b)) < 2 ^ 32 \<and> sum_list (map dir_entry_size (directories b)) < 2 ^ 32"

lemma list_all2_map_eq: "\<lbrakk>list_all2 P xs ys; \<And>x y. P x y \<Longrightarrow> g y = g x\<rbrakk> \<Longrightarrow> map g ys = map g xs"
  by (induction rule: list_all2_induct) auto

lemma root_first:
  assumes "contexts_ok b"
  shows "directories b \<noteq> []" "dc_path (hd (directories b)) = []" "dc_parent (hd (directories b)) = None"
proof -
  obtain d where d: "d \<in> set (directories b)" "dc_path d = []" using assms by (auto simp: contexts_ok_def dir_paths_def)
  then obtain r ds where ds: "directories b = r # ds" by (cases "directories b") auto
  have "\<forall>e \<in> set ds. c_path (dc_path r) < c_path (dc_path e)" using assms by (simp add: contexts_ok_def path_sorted_def ds)
  then have "d = r" using d by (auto simp: ds)
  moreover have "fresh_dir b d" using assms d(1) by (simp add: contexts_ok_def)
  note fresh_dir_path [OF this]
  ultimately show "directories b \<noteq> []" "dc_path (hd (directories b)) = []" "dc_parent (hd (directories b)) = None"
    using d(2) by (auto simp: ds child_path_def split: option.splits)
qed

lemma placed_contexts_ok:
  assumes "contexts_ok b" "names_ok b" "tables_fit b" "place_contexts b = Some b'"
  shows "placed_ok b'" "dir_paths b' = dir_paths b"
proof -
  note sizes = placed_sizes [OF assms(4,1)]
  note names = placed_names [OF sizes(9,10) assms(2)]
  have maps: "map dc_path (directories b') = map dc_path (directories b)" "map dc_parent (directories b') = map dc_parent (directories b)"
    "map dc_name (directories b') = map dc_name (directories b)" "map fc_path (files b') = map fc_path (files b)"
    by (rule list_all2_map_eq [OF sizes(10)], simp add: same_dir_def | rule list_all2_map_eq [OF sizes(9)], simp add: same_file_def)+
  show paths: "dir_paths b' = dir_paths b" unfolding dir_paths_def using arg_cong [OF maps(1), of set] by simp
  have root: "directories b' \<noteq> []" "dc_path (hd (directories b')) = []" "dc_parent (hd (directories b')) = None"
    using root_first [OF assms(1)] maps(1,2) by (metis hd_map list.map_disc_iff)+
  have "case dc_parent d of None \<Rightarrow> dc_path d = [] \<and> dc_name d = []
      | Some p \<Rightarrow> p \<in> dir_paths b' \<and> dc_path d = child_path p (dc_name d) \<and> dc_name d \<noteq> []" if d: "d \<in> set (directories b')" for d
  proof -
    obtain e where e: "e \<in> set (directories b)" "same_dir e d" using list_all2_member [OF sizes(10) d] by blast
    have "fresh_dir b e" using assms(1) e(1) by (simp add: contexts_ok_def)
    from fresh_dir_path [OF this] show ?thesis using e(2) names(2) d unfolding paths
      by (auto simp: same_dir_def split: option.splits)
  qed
  moreover have "fc_parent f \<in> dir_paths b' \<and> fc_path f = child_path (fc_parent f) (fc_name f)" if f: "f \<in> set (files b')" for f
  proof -
    obtain g where g: "g \<in> set (files b)" "same_file g f" using list_all2_member [OF sizes(9) f] by blast
    then show ?thesis using assms(1) unfolding paths by (auto simp: contexts_ok_def fresh_file_def same_file_def)
  qed
  moreover have "distinct (map dc_path (directories b'))" "distinct (map fc_path (files b'))"
    using assms(1) path_sorted_distinct unfolding maps by (auto simp: contexts_ok_def)
  ultimately show "placed_ok b'"
    using root names sizes(3-8) assms(3) by (auto simp: placed_ok_def tables_fit_def)
qed

lemma dir_at_path: "\<lbrakk>placed_ok b; d \<in> set (directories b)\<rbrakk> \<Longrightarrow> dir_at (directories b) (dc_path d) = Some d"
  unfolding dir_at_def by (rule find_key) (simp_all add: placed_ok_def)

lemma parent_offset_path: "\<lbrakk>placed_ok b; d \<in> set (directories b)\<rbrakk> \<Longrightarrow> parent_offset (directories b) (dc_path d) = dc_entry_offset d"
  by (simp add: parent_offset_def dir_at_path)

lemma dir_entry_pos [simp]: "0 < dir_entry_size d"
  by (simp add: dir_entry_size_def DirectoryEntry_size_def)

lemma file_entry_pos [simp]: "0 < file_entry_size f"
  by (simp add: file_entry_size_def FileEntry_size_def)

lemma offsets_distinct:
  assumes "placed_ok b"
  shows "distinct (map dc_entry_offset (directories b))" "distinct (map fc_entry_offset (files b))"
  using assms entry_offsets_distinct [of "map dir_entry_size (directories b)"] entry_offsets_distinct [of "map file_entry_size (files b)"]
  by (auto simp: placed_ok_def)

lemma parent_offset_inj:
  assumes "placed_ok b" "p \<in> dir_paths b" "q \<in> dir_paths b" "parent_offset (directories b) p = parent_offset (directories b) q"
  shows "p = q"
proof -
  obtain d e where "d \<in> set (directories b)" "p = dc_path d" "e \<in> set (directories b)" "q = dc_path e"
    using assms(2,3) by (auto simp: dir_paths_def)
  moreover from this have "dc_entry_offset d = dc_entry_offset e" using assms(1,4) by (simp add: parent_offset_path)
  ultimately show ?thesis using offsets_distinct(1) [OF assms(1)] by (metis distinct_map inj_on_eq_iff)
qed

lemma root_offset: "placed_ok b \<Longrightarrow> parent_offset (directories b) [] = 0"
proof -
  assume ok: "placed_ok b"
  then obtain r ds where ds: "directories b = r # ds" "dc_path r = []" by (auto simp: placed_ok_def neq_Nil_conv)
  moreover have "dc_entry_offset r = 0" using ok ds(1) by (simp add: placed_ok_def)
  ultimately show ?thesis using parent_offset_path [OF ok, of r] by simp
qed

lemma placed_dir: "\<lbrakk>placed_ok b; d \<in> set (directories b)\<rbrakk> \<Longrightarrow>
    case dc_parent d of None \<Rightarrow> dc_path d = [] \<and> dc_name d = []
      | Some p \<Rightarrow> p \<in> dir_paths b \<and> dc_path d = child_path p (dc_name d) \<and> dc_name d \<noteq> []"
  unfolding placed_ok_def by blast

lemma placed_root: "placed_ok b \<Longrightarrow> [] \<in> dir_paths b"
  unfolding placed_ok_def dir_paths_def by (metis image_eqI list.set_sel(1))

text \<open>Names below directories tell the contexts apart.\<close>

lemma file_keys_distinct:
  assumes "placed_ok b"
  shows "distinct (map (file_key (directories b)) (files b))"
proof -
  have "inj_on (file_key (directories b)) (set (files b))"
  proof (rule inj_onI)
    fix f g assume fg: "f \<in> set (files b)" "g \<in> set (files b)" "file_key (directories b) f = file_key (directories b) g"
    have paths: "fc_parent f \<in> dir_paths b" "fc_path f = child_path (fc_parent f) (fc_name f)"
      "fc_parent g \<in> dir_paths b" "fc_path g = child_path (fc_parent g) (fc_name g)" using assms fg(1,2) by (auto simp: placed_ok_def)
    have "fc_parent f = fc_parent g" using parent_offset_inj [OF assms paths(1,3)] fg(3) by (simp add: file_key_def)
    then have "fc_path f = fc_path g" using paths(2,4) fg(3) by (simp add: file_key_def)
    then show "f = g" using assms fg(1,2) by (auto simp: placed_ok_def distinct_map inj_on_def)
  qed
  then show ?thesis using assms by (simp add: placed_ok_def distinct_map)
qed

lemma dir_keys_distinct:
  assumes "placed_ok b"
  shows "distinct (map (dir_key (directories b)) (directories b))"
proof -
  have "inj_on (dir_key (directories b)) (set (directories b))"
  proof (rule inj_onI)
    fix d e assume de: "d \<in> set (directories b)" "e \<in> set (directories b)" "dir_key (directories b) d = dir_key (directories b) e"
    note paths = placed_dir [OF assms de(1)] placed_dir [OF assms de(2)]
    have "dc_path d = dc_path e"
      using paths de(3) parent_offset_inj [OF assms] by (auto simp: dir_key_def split: option.splits)
    then show "d = e" using assms de(1,2) by (auto simp: placed_ok_def distinct_map inj_on_def)
  qed
  then show ?thesis using assms by (simp add: placed_ok_def distinct_map)
qed

subsection \<open>Searching a built image\<close>

lemma find_nth: "find P xs = Some x \<Longrightarrow> \<exists>i < List.length xs. xs ! i = x \<and> P x"
  by (auto simp: find_Some_iff)

lemma find_zip:
  assumes "find (\<lambda>(_, e). ek e = k) (zip (map ofs cs) (map2 entry cs hs)) = r" "List.length hs = List.length cs"
    "\<And>c h. ek (entry c h) = key c" "distinct (map key cs)"
  shows "\<lbrakk>c \<in> set cs; key c = k\<rbrakk> \<Longrightarrow> \<exists>h. r = Some (ofs c, entry c h)"
    and "r = Some (o', e) \<Longrightarrow> \<exists>c h. c \<in> set cs \<and> key c = k \<and> o' = ofs c \<and> e = entry c h"
proof -
  let ?zs = "zip (map ofs cs) (map2 entry cs hs)"
  have nth: "i < List.length cs \<Longrightarrow> ?zs ! i = (ofs (cs ! i), entry (cs ! i) (hs ! i))" for i using assms(2) by simp
  have found: "\<exists>c h. c \<in> set cs \<and> key c = k \<and> o' = ofs c \<and> e = entry c h" if "r = Some (o', e)" for o' e
  proof -
    have "find (\<lambda>(_, e). ek e = k) ?zs = Some (o', e)" using assms(1) that by simp
    from find_nth [OF this] obtain i where i: "i < List.length ?zs" "?zs ! i = (o', e)" "ek e = k" by auto
    show ?thesis using i nth [of i] assms(2,3) by (intro exI [of _ "cs ! i"] exI [of _ "hs ! i"]) auto
  qed
  then show "r = Some (o', e) \<Longrightarrow> \<exists>c h. c \<in> set cs \<and> key c = k \<and> o' = ofs c \<and> e = entry c h" by blast
  assume c: "c \<in> set cs" "key c = k"
  then obtain i where i: "i < List.length cs" "cs ! i = c" by (auto simp: in_set_conv_nth)
  have "(ofs c, entry c (hs ! i)) \<in> set ?zs" using nth [OF i(1)] i assms(2) by (metis length_map length_zip min.idem nth_mem)
  then have "\<exists>x. x \<in> set ?zs \<and> (case x of (_, e) \<Rightarrow> ek e = k)"
    using assms(3) c(2) by (intro exI [of _ "(ofs c, entry c (hs ! i))"]) simp
  then have "find (\<lambda>(_, e). ek e = k) ?zs \<noteq> None" by (metis (no_types, lifting) find_None_iff)
  then have "r \<noteq> None" using assms(1) by simp
  then obtain o1 e1 where r: "r = Some (o1, e1)" by auto
  obtain c' h where "c' \<in> set cs" "key c' = k" "o1 = ofs c'" "e1 = entry c' h" using found [OF r] by blast
  moreover from this have "c' = c" using c assms(4) by (auto simp: distinct_map inj_on_def)
  ultimately show "\<exists>h. r = Some (ofs c, entry c h)" using r by blast
qed

lemma find_file_zip:
  assumes "placed_ok b" "shows_image img b" "file_tables b = (es, heads)"
  shows "find_file img parent name = find (\<lambda>(_, e). (fe_parent e, fe_name e) = (parent, name)) (zip (map fc_entry_offset (files b)) es)"
proof -
  note entries = file_entries [OF assms(3) [unfolded file_tables_def]]
  note offsets = assms(1) [unfolded placed_ok_def]
  let ?m = "GetHashTableSize (List.length (files b))" and ?t = "concat (map file_bytes es)"
  have len: "List.length heads = ?m" using entries(2) by simp
  have sizes: "map (List.length \<circ> file_bytes) es = map file_entry_size (files b)" using entries(1) by (simp add: comp_def)
  have n: "List.length es = List.length (files b)" using arg_cong [OF sizes, of List.length] by simp
  have "List.length es \<le> sum_list (map (\<lambda>e. List.length (file_bytes e)) es)"
    by (induction es) (auto simp: FileEntry_size_def)
  then have fuel: "List.length (files b) < Suc (List.length ?t)" using n by (simp only: sum_entry_sizes)
  have "image_part img (file_hash_table_ofs (image_header img)) (file_hash_table_size (image_header img)) = hash_table_bytes heads"
    "image_part img (file_table_ofs (image_header img)) (file_table_size (image_header img)) = ?t"
    using assms(2,3) by (auto simp: shows_image_def Let_def split: prod.splits)
  then have "find_file img parent name =
      chain_find file_of_bytes fe_hash (\<lambda>e. (fe_parent e, fe_name e) = (parent, name)) (Suc (List.length ?t)) ?t (heads ! slot ?m (parent, name))"
    by (simp add: find_file_def Let_def len head_of_bytes slot_def del: length_concat)
  also have "\<dots> = find (\<lambda>(_, e). (fe_parent e, fe_name e) = (parent, name)) (zip (map fc_entry_offset (files b)) es)"
  proof (rule file_table.hashed_find [OF file_keys_distinct [OF assms(1)] _ assms(3) [unfolded file_tables_def] _ _ _ _ fuel])
    show "\<forall>c \<in> set (files b). List.length (snd (file_key (directories b) c)) < 2 ^ 32"
      using offsets by (force simp: file_key_def EntryNameLengthMax_def)
    show "map fc_entry_offset (files b) = entry_offsets 0 (map (List.length \<circ> file_bytes) es)" using offsets sizes by simp
    show "sum_list (map (List.length \<circ> file_bytes) es) < 2 ^ 32" using offsets sizes by simp
    show "\<forall>e \<in> set es. file_bytes e \<noteq> []" by (auto simp: FileEntry_size_def simp flip: length_greater_0_conv)
  qed simp
  finally show ?thesis .
qed

lemma find_dir_zip:
  assumes "placed_ok b" "shows_image img b" "dir_tables b = (es, heads)"
  shows "find_dir img parent name = find (\<lambda>(_, e). (de_parent e, de_name e) = (parent, name)) (zip (map dc_entry_offset (directories b)) es)"
proof -
  note entries = dir_entries [OF assms(3) [unfolded dir_tables_def]]
  note offsets = assms(1) [unfolded placed_ok_def]
  let ?m = "GetHashTableSize (List.length (directories b))" and ?t = "concat (map dir_bytes es)"
  have len: "List.length heads = ?m" using entries(2) by simp
  have sizes: "map (List.length \<circ> dir_bytes) es = map dir_entry_size (directories b)" using entries(1) by (simp add: comp_def)
  have n: "List.length es = List.length (directories b)" using arg_cong [OF sizes, of List.length] by simp
  have "List.length es \<le> sum_list (map (\<lambda>e. List.length (dir_bytes e)) es)"
    by (induction es) (auto simp: DirectoryEntry_size_def)
  then have fuel: "List.length (directories b) < Suc (List.length ?t)" using n by (simp only: sum_entry_sizes)
  have "image_part img (dir_hash_table_ofs (image_header img)) (dir_hash_table_size (image_header img)) = hash_table_bytes heads"
    "image_part img (dir_table_ofs (image_header img)) (dir_table_size (image_header img)) = ?t"
    using assms(2,3) by (auto simp: shows_image_def Let_def split: prod.splits)
  then have "find_dir img parent name =
      chain_find dir_of_bytes de_hash (\<lambda>e. (de_parent e, de_name e) = (parent, name)) (Suc (List.length ?t)) ?t (heads ! slot ?m (parent, name))"
    by (simp add: find_dir_def Let_def len head_of_bytes slot_def del: length_concat)
  also have "\<dots> = find (\<lambda>(_, e). (de_parent e, de_name e) = (parent, name)) (zip (map dc_entry_offset (directories b)) es)"
  proof (rule dir_table.hashed_find [OF dir_keys_distinct [OF assms(1)] _ assms(3) [unfolded dir_tables_def] _ _ _ _ fuel])
    show "\<forall>c \<in> set (directories b). List.length (snd (dir_key (directories b) c)) < 2 ^ 32"
      using offsets by (force simp: dir_key_def EntryNameLengthMax_def)
    show "map dc_entry_offset (directories b) = entry_offsets 0 (map (List.length \<circ> dir_bytes) es)" using offsets sizes by simp
    show "sum_list (map (List.length \<circ> dir_bytes) es) < 2 ^ 32" using offsets sizes by simp
    show "\<forall>e \<in> set es. dir_bytes e \<noteq> []" by (auto simp: DirectoryEntry_size_def simp flip: length_greater_0_conv)
  qed simp
  finally show ?thesis .
qed

lemma find_file_built:
  assumes "placed_ok b" "shows_image img b"
  shows "f \<in> set (files b) \<Longrightarrow>
      \<exists>h. find_file img (parent_offset (directories b) (fc_parent f)) (fc_name f) = Some (fc_entry_offset f, file_entry_of (directories b) (files b) f h)"
    and "find_file img po name = Some (o', e) \<Longrightarrow>
      \<exists>f h. f \<in> set (files b) \<and> parent_offset (directories b) (fc_parent f) = po \<and> fc_name f = name \<and> e = file_entry_of (directories b) (files b) f h"
proof -
  obtain es heads where t: "file_tables b = (es, heads)" by fastforce
  obtain hs where hs: "es = map2 (file_entry_of (directories b) (files b)) (files b) hs" "List.length hs = List.length (files b)"
    using file_table.hashed_entries [of "directories b" "files b" "files b"] t by (metis file_tables_def fst_conv)
  note find = find_file_zip [OF assms t, unfolded hs(1), symmetric]
  have key: "(fe_parent (file_entry_of (directories b) (files b) c h), fe_name (file_entry_of (directories b) (files b) c h)) = file_key (directories b) c" for c h
    by (simp add: file_entry_of_def file_key_def)
  note zip = find_zip [OF find hs(2) key file_keys_distinct [OF assms(1)]]
  show "f \<in> set (files b) \<Longrightarrow>
      \<exists>h. find_file img (parent_offset (directories b) (fc_parent f)) (fc_name f) = Some (fc_entry_offset f, file_entry_of (directories b) (files b) f h)"
    by (rule zip(1)) (simp_all add: file_key_def)
  assume "find_file img po name = Some (o', e)"
  from zip(2) [OF this] obtain f h where "f \<in> set (files b)" "file_key (directories b) f = (po, name)" "e = file_entry_of (directories b) (files b) f h" by blast
  then show "\<exists>f h. f \<in> set (files b) \<and> parent_offset (directories b) (fc_parent f) = po \<and> fc_name f = name \<and> e = file_entry_of (directories b) (files b) f h"
    by (intro exI [of _ f] exI [of _ h]) (simp add: file_key_def)
qed

lemma find_dir_built:
  assumes "placed_ok b" "shows_image img b"
  shows "\<lbrakk>d \<in> set (directories b); dc_parent d = Some p\<rbrakk> \<Longrightarrow>
      \<exists>e. find_dir img (parent_offset (directories b) p) (dc_name d) = Some (dc_entry_offset d, e)"
    and "\<lbrakk>find_dir img (parent_offset (directories b) p) name = Some (o', e); p \<in> dir_paths b; name \<noteq> []\<rbrakk> \<Longrightarrow>
      \<exists>d. d \<in> set (directories b) \<and> dc_parent d = Some p \<and> dc_name d = name \<and> o' = dc_entry_offset d"
proof -
  obtain es heads where t: "dir_tables b = (es, heads)" by fastforce
  obtain hs where hs: "es = map2 (dir_entry_of (directories b) (files b)) (directories b) hs" "List.length hs = List.length (directories b)"
    using dir_table.hashed_entries [of "directories b" "files b" "directories b"] t by (metis dir_tables_def fst_conv)
  note find = find_dir_zip [OF assms t, unfolded hs(1), symmetric]
  have key: "(de_parent (dir_entry_of (directories b) (files b) c h), de_name (dir_entry_of (directories b) (files b) c h)) = dir_key (directories b) c" for c h
    by (simp add: dir_entry_of_def dir_key_def)
  note zip = find_zip [OF find hs(2) key dir_keys_distinct [OF assms(1)]]
  {
    assume d: "d \<in> set (directories b)" "dc_parent d = Some p"
    then have "dir_key (directories b) d = (parent_offset (directories b) p, dc_name d)" by (simp add: dir_key_def)
    from zip(1) [OF d(1) this]
    show "\<exists>e. find_dir img (parent_offset (directories b) p) (dc_name d) = Some (dc_entry_offset d, e)" by blast
  }
  assume found: "find_dir img (parent_offset (directories b) p) name = Some (o', e)" and p: "p \<in> dir_paths b" "name \<noteq> []"
  obtain d where d: "d \<in> set (directories b)" "dir_key (directories b) d = (parent_offset (directories b) p, name)" "o' = dc_entry_offset d"
    using zip(2) [OF found] by blast
  note at = placed_dir [OF assms(1) d(1)]
  have "dc_parent d \<noteq> None" using at d(2) p(2) by (cases "dc_parent d") (auto simp: dir_key_def)
  then obtain q where q: "dc_parent d = Some q" by blast
  then have "q \<in> dir_paths b" "parent_offset (directories b) q = parent_offset (directories b) p" "dc_name d = name"
    using at d(2) by (simp_all add: dir_key_def)
  with parent_offset_inj [OF assms(1) this(1) p(1)] q d(1,3)
  show "\<exists>d. d \<in> set (directories b) \<and> dc_parent d = Some p \<and> dc_name d = name \<and> o' = dc_entry_offset d" by blast
qed

subsection \<open>Paths\<close>

text \<open>A directory of a builder and the names that lead to it.\<close>

inductive at_path :: "dir_ctx list \<Rightarrow> path \<Rightarrow> u8 list list \<Rightarrow> bool" for ds where
  at_root: "at_path ds [] []"
| at_child: "\<lbrakk>at_path ds p ns; d \<in> set ds; dc_parent d = Some p\<rbrakk> \<Longrightarrow> at_path ds (dc_path d) (ns @ [dc_name d])"

lemma at_path_dir: "\<lbrakk>at_path (directories b) p ns; placed_ok b\<rbrakk> \<Longrightarrow> p \<in> dir_paths b"
  using placed_root by (auto elim: at_path.cases simp: dir_paths_def)

lemma at_path_names: "\<lbrakk>at_path (directories b) p ns; placed_ok b\<rbrakk> \<Longrightarrow> [] \<notin> set ns"
proof (induction rule: at_path.induct)
  case (at_child p ns d)
  then show ?case using placed_dir [OF at_child.prems at_child.hyps(2)] by auto
qed simp

lemma at_path_exists:
  assumes "placed_ok b" "p \<in> dir_paths b"
  shows "\<exists>ns. at_path (directories b) p ns"
  using assms(2)
proof (induction "List.length p" arbitrary: p rule: less_induct)
  case less
  then obtain d where d: "d \<in> set (directories b)" "p = dc_path d" by (auto simp: dir_paths_def)
  note * = placed_dir [OF assms(1) d(1)]
  show ?case
  proof (cases "dc_parent d")
    case None
    then show ?thesis using * d(2) at_root by auto
  next
    case (Some q)
    then have "q \<in> dir_paths b" "List.length q < List.length p" using * d(2) by (auto simp: child_path_def)
    then obtain ns where "at_path (directories b) q ns" using less.hyps by blast
    then show ?thesis using at_child [OF _ d(1) Some] d(2) by blast
  qed
qed

lemma open_dir_built:
  assumes "placed_ok b" "shows_image img b" "at_path (directories b) p ns"
  shows "open_dir img 0 ns = Some (parent_offset (directories b) p)"
  using assms(3)
proof (induction rule: at_path.induct)
  case at_root
  then show ?case by (simp add: root_offset [OF assms(1)])
next
  case (at_child p ns d)
  then show ?case
    using find_dir_built(1) [OF assms(1,2) at_child.hyps(2,3)] parent_offset_path [OF assms(1) at_child.hyps(2)]
    by (auto simp: open_dir_append)
qed

lemma open_dir_sound:
  assumes "placed_ok b" "shows_image img b"
  shows "\<lbrakk>open_dir img 0 ns = Some o'; [] \<notin> set ns\<rbrakk> \<Longrightarrow> \<exists>p. at_path (directories b) p ns \<and> o' = parent_offset (directories b) p"
proof (induction ns arbitrary: o' rule: rev_induct)
  case Nil
  then show ?case using at_root root_offset [OF assms(1)] by auto
next
  case (snoc n ns)
  obtain o1 e where o1: "open_dir img 0 ns = Some o1" "find_dir img o1 n = Some (o', e)"
    using snoc.prems(1) by (auto simp: open_dir_append bind_eq_Some_conv split: option.splits)
  obtain p where p: "at_path (directories b) p ns" "o1 = parent_offset (directories b) p" using snoc.IH [OF o1(1)] snoc.prems(2) by auto
  have "n \<noteq> []" using snoc.prems(2) by auto
  then obtain d where d: "d \<in> set (directories b)" "dc_parent d = Some p" "dc_name d = n" "o' = dc_entry_offset d"
    using find_dir_built(2) [OF assms o1(2) [unfolded p(2)] at_path_dir [OF p(1) assms(1)]] by blast
  then show ?case using at_child [OF p(1) d(1,2)] parent_offset_path [OF assms(1) d(1)] by auto
qed

lemma open_file_built:
  assumes "placed_ok b" "shows_image img b"
  shows "\<lbrakk>f \<in> set (files b); at_path (directories b) (fc_parent f) ns\<rbrakk> \<Longrightarrow>
      \<exists>h. open_file img ns (fc_name f) = Some (file_entry_of (directories b) (files b) f h)"
    and "\<lbrakk>open_file img ns name = Some e; [] \<notin> set ns\<rbrakk> \<Longrightarrow>
      \<exists>f h. f \<in> set (files b) \<and> at_path (directories b) (fc_parent f) ns \<and> fc_name f = name \<and> e = file_entry_of (directories b) (files b) f h"
proof -
  assume f: "f \<in> set (files b)" "at_path (directories b) (fc_parent f) ns"
  then show "\<exists>h. open_file img ns (fc_name f) = Some (file_entry_of (directories b) (files b) f h)"
    using find_file_built(1) [OF assms f(1)] open_dir_built [OF assms f(2)] by (auto simp: open_file_def)
next
  assume found: "open_file img ns name = Some e" "[] \<notin> set ns"
  then obtain o1 o2 where o1: "open_dir img 0 ns = Some o1" "find_file img o1 name = Some (o2, e)"
    by (auto simp: open_file_def split: option.splits)
  obtain p where p: "at_path (directories b) p ns" "o1 = parent_offset (directories b) p" using open_dir_sound [OF assms o1(1) found(2)] by blast
  obtain f h where f: "f \<in> set (files b)" "parent_offset (directories b) (fc_parent f) = o1" "fc_name f = name"
    "e = file_entry_of (directories b) (files b) f h" using find_file_built(2) [OF assms o1(2)] by blast
  have "fc_parent f \<in> dir_paths b" using assms(1) f(1) by (simp add: placed_ok_def)
  then have "fc_parent f = p" using parent_offset_inj [OF assms(1) _ at_path_dir [OF p(1) assms(1)]] f(2) p(2) by simp
  then show "\<exists>f h. f \<in> set (files b) \<and> at_path (directories b) (fc_parent f) ns \<and> fc_name f = name \<and> e = file_entry_of (directories b) (files b) f h"
    using f p(1) by blast
qed

end
