(* ===== verification/RomProps.thy ===== *)
theory RomProps
  imports RomLookup
begin

text \<open>
  Properties of layered ROM file systems: what the layers collect, what the build writes, and what a
  reader of the storage finds.
\<close>

subsection \<open>Layers\<close>

lemma add_image_ok:
  "\<lbrakk>add_image env layer t b = Some b'; contexts_ok b\<rbrakk> \<Longrightarrow> contexts_ok b' \<and> adds_layer t b b'"
  using AddStorageFiles_ok by (auto simp: add_image_def adds_layer_def split: option.splits)

lemma collect_layers_stages:
  assumes "collect_layers env s = Some b"
  obtains b1 b2 where
    "(if sd_mounted env then AddSdFiles (sd_files env) (Builder_new (unset_source_type env)) else Some (Builder_new (unset_source_type env))) = Some b1"
    "add_image env (file_romfs s) SourceFile b1 = Some b2" "add_image env (storage_romfs s) SourceStorage b2 = Some b"
    "contexts_ok b1" "contexts_ok b2" "contexts_ok b" "adds_layer SourceLooseSdFile (Builder_new (unset_source_type env)) b1"
    "adds_layer SourceFile b1 b2" "adds_layer SourceStorage b2 b"
proof -
  obtain b1 b2 where stages:
    "(if sd_mounted env then AddSdFiles (sd_files env) (Builder_new (unset_source_type env)) else Some (Builder_new (unset_source_type env))) = Some b1"
    "add_image env (file_romfs s) SourceFile b1 = Some b2" "add_image env (storage_romfs s) SourceStorage b2 = Some b"
    using assms unfolding collect_layers_def bind_eq_Some_conv by blast
  have "contexts_ok b1 \<and> adds_layer SourceLooseSdFile (Builder_new (unset_source_type env)) b1"
  proof (cases "sd_mounted env")
    case True
    then have "AddSdFiles (sd_files env) (Builder_new (unset_source_type env)) = Some b1" using stages(1) by simp
    then show ?thesis using AddSdFiles_ok [OF _ Builder_new_ok] by blast
  next
    case False
    then have "b1 = Builder_new (unset_source_type env)" using stages(1) by simp
    then show ?thesis by (simp add: adds_layer_def)
  qed
  note first = conjunct1 [OF this] conjunct2 [OF this]
  note second = conjunct1 [OF add_image_ok [OF stages(2) first(1)]] conjunct2 [OF add_image_ok [OF stages(2) first(1)]]
  note third = conjunct1 [OF add_image_ok [OF stages(3) second(1)]] conjunct2 [OF add_image_ok [OF stages(3) second(1)]]
  show thesis by (rule that [OF stages first(1) second(1) third(1) first(2) second(2) third(2)])
qed

text \<open>
  C38. The layers in their order: the contexts of the built tree are sorted by their paths, each path once
  and below a directory of the tree, and the counts and table sizes agree with them. A file of the
  card is never replaced, the files of the file image are the ones the card lacks, and those of the
  storage the ones both lack.
\<close>

theorem earlier_layers_win:
  assumes "collect_layers env s = Some b"
  shows "\<exists>b1 b2.
    (if sd_mounted env then AddSdFiles (sd_files env) (Builder_new (unset_source_type env)) else Some (Builder_new (unset_source_type env))) = Some b1 \<and>
    add_image env (file_romfs s) SourceFile b1 = Some b2 \<and> add_image env (storage_romfs s) SourceStorage b2 = Some b \<and>
    contexts_ok b \<and> set (directories b1) \<subseteq> set (directories b2) \<and> set (directories b2) \<subseteq> set (directories b) \<and>
    {f \<in> set (files b). fc_source_type f = SourceLooseSdFile} = set (files b1) \<and>
    {f \<in> set (files b). fc_source_type f = SourceFile} = set (files b2) - set (files b1) \<and>
    {f \<in> set (files b). fc_source_type f = SourceStorage} = set (files b) - set (files b2)"
proof -
  obtain b1 b2 where stages:
    "(if sd_mounted env then AddSdFiles (sd_files env) (Builder_new (unset_source_type env)) else Some (Builder_new (unset_source_type env))) = Some b1"
    "add_image env (file_romfs s) SourceFile b1 = Some b2" "add_image env (storage_romfs s) SourceStorage b2 = Some b"
    "contexts_ok b" "adds_layer SourceLooseSdFile (Builder_new (unset_source_type env)) b1" "adds_layer SourceFile b1 b2" "adds_layer SourceStorage b2 b"
    using collect_layers_stages [OF assms] by blast
  have "files (Builder_new (unset_source_type env)) = []" by (simp add: Builder_new_def)
  then have "\<forall>f \<in> set (files b1). fc_source_type f = SourceLooseSdFile" using stages(5) by (simp add: adds_layer_def)
  moreover have "\<forall>f \<in> set (files b2) - set (files b1). fc_source_type f = SourceFile" "set (files b1) \<subseteq> set (files b2)"
    "set (directories b1) \<subseteq> set (directories b2)" using stages(6) by (simp_all add: adds_layer_def)
  moreover have "\<forall>f \<in> set (files b) - set (files b2). fc_source_type f = SourceStorage" "set (files b2) \<subseteq> set (files b)"
    "set (directories b2) \<subseteq> set (directories b)" using stages(7) by (simp_all add: adds_layer_def)
  ultimately have "{f \<in> set (files b). fc_source_type f = SourceLooseSdFile} = set (files b1) \<and>
    {f \<in> set (files b). fc_source_type f = SourceFile} = set (files b2) - set (files b1) \<and>
    {f \<in> set (files b). fc_source_type f = SourceStorage} = set (files b) - set (files b2)"
    by (intro conjI set_eqI) (auto, (metis DiffI source_type.distinct)+)
  then show ?thesis using stages(1-4) \<open>set (directories b1) \<subseteq> set (directories b2)\<close> \<open>set (directories b2) \<subseteq> set (directories b)\<close> by blast
qed

subsection \<open>Building\<close>

text \<open>
  C39. The metadata file: building through the writers with their two buffers leaves exactly the two hash
  tables and the entries of the directories and the files, one behind the other, and the sources are
  the header, those of the files in their order, and the metadata behind them.
\<close>

theorem build_writes_the_tables:
  assumes "contexts_ok b" "names_ok b" "tables_fit b" "place_contexts b = Some b'"
    "create (List.length (metadata_bytes b')) = Some f" "List.length f = List.length (metadata_bytes b')"
  shows "let h = built_header b'
    in Build create b = Some ((fold emplace_source (files b') [header_source (replicate Header_size 0)])[0 := header_source (header_bytes h)] @
      [\<lparr>virtual_offset = sint (dir_hash_table_ofs h), si_size = int (List.length (metadata_bytes b')), si_source_type = SourceMetadata,
        si_arg = InFile (metadata_bytes b')\<rparr>])"
  using Build_result [OF assms(1-4), of create, OF assms(5,6)] placed_sizes(1,2) [OF assms(4,1)] by (simp add: Let_def)

subsection \<open>Reading\<close>

lemma take_length_take: "take (List.length (take m xs)) xs = take m xs"
  by (simp add: min_def)

text \<open>
  C40. A read of the storage gives the bytes of the image from its offset on. It stores as many as asked
  for, up to the end of the image, except when it ends between two sources: then the zeros up to the
  start of the second are all stored, behind the end of the buffer.
\<close>

theorem read_is_image_slice:
  assumes "is_initialized s" "infos_ok env s" "0 \<le> offset" "offset < virtual_size (source_infos s)" "0 < n"
  shows "\<exists>bs. Read env offset n s = (Ok bs, s) \<and> bs = take (List.length bs) (drop (nat offset) (rom_image env s)) \<and>
    (let k = min n (nat (virtual_size (source_infos s) - offset))
     in int (List.length bs) = padding_end (source_infos s) (offset + int k) - offset \<and> k \<le> List.length bs)"
proof -
  let ?infos = "source_infos s"
  let ?k = "min n (nat (virtual_size ?infos - offset))"
  let ?e = "padding_end ?infos (offset + int ?k)"
  have ok: "?infos \<noteq> []" "virtual_offset (hd ?infos) = 0" "chained ?infos" "\<forall>i \<in> set ?infos. source_ok env s i"
    using assms(2) by (simp_all add: infos_ok_def)
  have k: "offset + int ?k \<le> virtual_size ?infos" using assms(4) by simp
  have ge: "offset + int ?k \<le> ?e" by (rule padding_end_ge)
  have le: "?e \<le> virtual_size ?infos" using padding_end_le [OF ok(3) _ ok(1) k] ok(4) by (simp add: source_ok_def)
  have len: "int (List.length (rom_image env s)) = virtual_size ?infos"
    using length_image_from [OF ok(3,4,1)] ok(2) by (simp add: rom_image_def)
  let ?bs = "take (nat (?e - offset)) (drop (nat offset) (rom_image env s))"
  have "List.length ?bs = nat (?e - offset)" using len le assms(3) by simp
  moreover have "?k \<le> nat (?e - offset)" "int (nat (?e - offset)) = ?e - offset" using ge by linarith+
  ultimately have len: "int (List.length ?bs) = ?e - offset" "?k \<le> List.length ?bs" by (simp_all only:)
  have "?bs = take (List.length ?bs) (drop (nat offset) (rom_image env s))" by (rule take_length_take [symmetric])
  then show ?thesis unfolding Let_def using Read_image [OF assms] len by blast
qed

subsection \<open>Serving\<close>

definition limits_ok :: "rom_env \<Rightarrow> layered_storage \<Rightarrow> romfs_builder \<Rightarrow> bool" where
  "limits_ok env s b \<longleftrightarrow>
     names_ok b \<and> tables_fit b \<and> creates_file (create_metadata env) \<and> (\<forall>f \<in> set (files b). file_present env s f) \<and>
     (case place_contexts b of None \<Rightarrow> True | Some b' \<Rightarrow> image_fits b')"

lemma at_path_same:
  assumes "at_path ds p ns" "\<And>d. d \<in> set ds \<Longrightarrow> \<exists>e \<in> set es. dc_path e = dc_path d \<and> dc_name e = dc_name d \<and> dc_parent e = dc_parent d"
  shows "at_path es p ns"
  using assms(1)
proof (induction rule: at_path.induct)
  case (at_child p ns d)
  from assms(2) [OF at_child.hyps(2)] obtain e where "e \<in> set es" "dc_path e = dc_path d" "dc_name e = dc_name d" "dc_parent e = dc_parent d" by blast
  then show ?case using at_path.at_child [of es p ns e] at_child by simp
qed (rule at_root)

lemma at_path_placed:
  assumes "list_all2 same_dir ds es"
  shows "at_path es p ns \<longleftrightarrow> at_path ds p ns"
  using at_path_same [of es p ns ds] at_path_same [of ds p ns es] list_all2_member [OF assms] list_all2_member1 [OF assms]
  unfolding same_dir_def by (metis (no_types, lifting))

text \<open>What a built storage shows, gathered once for the properties.\<close>

lemma initialized:
  assumes "collect_layers env s = Some b" "InitializeImpl env s = Some s'" "limits_ok env s b"
  obtains b' infos where "s' = with_sources s infos" "place_contexts b = Some b'" "infos_ok env s'" "placed_ok b'" "shows_image (rom_image env s') b'"
    "\<forall>f \<in> set (files b'). \<exists>i \<in> set (source_infos s'). serves i f" "0 \<le> file_partition_size b'" "image_fits b'"
    "contexts_ok b" "list_all2 same_file (files b) (files b')" "list_all2 same_dir (directories b) (directories b')"
proof -
  have ok: "contexts_ok b" using collect_layers_stages [OF assms(1)] by blast
  have lim: "names_ok b" "tables_fit b" "creates_file (create_metadata env)" "\<forall>f \<in> set (files b). file_present env s f"
    using assms(3) by (simp_all add: limits_ok_def)
  obtain infos where build: "Build (create_metadata env) b = Some infos" and s': "s' = with_sources s infos"
    using assms(1,2) by (auto simp: InitializeImpl_def)
  obtain b' where placed: "place_contexts b = Some b'" using build by (auto simp: Build_def Let_def bind_eq_Some_conv)
  have fits: "image_fits b'" using assms(3) by (simp add: limits_ok_def placed)
  note sources = built_sources [OF ok lim(1,2) placed fits lim(4) build lim(3)]
  note sizes = placed_sizes [OF placed ok]
  have "shows_image (rom_image env s') b'"
    unfolding s' by (rule built_image [OF sources(1) _ _ sources(5) fits sizes(3,4)]) (use sources(2,3) in simp_all)
  moreover have "\<forall>f \<in> set (files b'). \<exists>i \<in> set (source_infos s'). serves i f" using sources(4) by (simp add: s')
  moreover have "infos_ok env s'" using sources(1) by (simp add: s')
  ultimately show thesis using that [OF s' placed] placed_contexts_ok(1) [OF ok lim(1,2) placed] sources(5) fits ok sizes(9,10) by blast
qed

lemma initialisation_succeeds:
  assumes "collect_layers env s = Some b" "limits_ok env s b" "place_contexts b \<noteq> None" "\<And>n. create_metadata env n \<noteq> None"
  shows "\<exists>s'. InitializeImpl env s = Some s'"
proof -
  have ok: "contexts_ok b" using collect_layers_stages [OF assms(1)] by blast
  have lim: "names_ok b" "tables_fit b" "creates_file (create_metadata env)" using assms(2) by (simp_all add: limits_ok_def)
  obtain b' where placed: "place_contexts b = Some b'" using assms(3) by blast
  obtain f where f: "create_metadata env (List.length (metadata_bytes b')) = Some f" using assms(4) by blast
  then have "List.length f = List.length (metadata_bytes b')" using lim(3) by (simp add: creates_file_def)
  from Build_result [OF ok lim(1,2) placed, of "create_metadata env", OF f this] show ?thesis by (simp add: InitializeImpl_def assms(1))
qed

text \<open>
  C36. What a layered storage serves: every collected file is reached from the root of the built image by
  the names of its directories and its own, through the hash tables; the entry found gives its size and
  a place, and reading the storage there gives exactly the bytes the file has in its layer.
\<close>

theorem collected_files_are_served:
  assumes "collect_layers env s = Some b" "InitializeImpl env s = Some s'" "limits_ok env s b" "f \<in> set (files b)"
  shows "(\<exists>ns. at_path (directories b) (fc_parent f) ns) \<and>
    (\<forall>ns. at_path (directories b) (fc_parent f) ns \<longrightarrow>
      (\<exists>e bs. open_file (rom_image env s') ns (fc_name f) = Some e \<and> uint (fe_size e) = fc_size f \<and> file_data env s f = Some bs \<and>
        Read env (uint (fe_offset e) + int FilePartitionOffset) (nat (fc_size f)) s' = (Ok bs, s')))"
proof -
  obtain b' infos where built: "s' = with_sources s infos" "place_contexts b = Some b'" "infos_ok env s'" "placed_ok b'" "shows_image (rom_image env s') b'"
    "\<forall>f \<in> set (files b'). \<exists>i \<in> set (source_infos s'). serves i f" "0 \<le> file_partition_size b'" "image_fits b'"
    "contexts_ok b" "list_all2 same_file (files b) (files b')" "list_all2 same_dir (directories b) (directories b')"
    using initialized [OF assms(1-3)] by blast
  obtain g where g: "g \<in> set (files b')" "same_file f g" using list_all2_member1 [OF built(10) assms(4)] by blast
  have paths: "at_path (directories b') p ns \<longleftrightarrow> at_path (directories b) p ns" for p ns by (rule at_path_placed [OF built(11)])
  have "fc_parent g \<in> dir_paths b'" using built(4) g(1) by (simp add: placed_ok_def)
  then have "\<exists>ns. at_path (directories b) (fc_parent f) ns"
    using at_path_exists [OF built(4)] g(2) by (simp add: paths same_file_def)
  moreover have "\<exists>e bs. open_file (rom_image env s') ns (fc_name f) = Some e \<and> uint (fe_size e) = fc_size f \<and> file_data env s f = Some bs \<and>
        Read env (uint (fe_offset e) + int FilePartitionOffset) (nat (fc_size f)) s' = (Ok bs, s')"
    if "at_path (directories b) (fc_parent f) ns" for ns
  proof -
    have "at_path (directories b') (fc_parent g) ns" using that g(2) by (simp add: paths same_file_def)
    from open_file_built(1) [OF built(4,5) g(1) this] obtain h
      where found: "open_file (rom_image env s') ns (fc_name f) = Some (file_entry_of (directories b') (files b') g h)"
      using g(2) by (auto simp: same_file_def)
    have place: "0 \<le> fc_offset g" "0 \<le> fc_size g" "fc_offset g + fc_size g \<le> file_partition_size b'"
      using placed_file_bounds [OF built(2,9) _ g(1)] assms(3) by (simp_all add: limits_ok_def file_present_def)
    have "file_partition_size b' < 2 ^ 63" using metadata_start_bounds [OF built(7,8)] by simp
    then have small: "fc_offset g < 2 ^ 64" "fc_size g < 2 ^ 64" using place by simp_all
    have entry: "uint (fe_offset (file_entry_of (directories b') (files b') g h)) = fc_offset g"
      "uint (fe_size (file_entry_of (directories b') (files b') g h)) = fc_size f"
      using place small g(2) by (simp_all add: file_entry_of_def unsigned_of_int take_bit_int_eq_self same_file_def)
    obtain i where i: "i \<in> set (source_infos s')" "serves i g" using built(6) g(1) by blast
    have present: "file_present env s f" using assms(3,4) by (simp add: limits_ok_def)
    have "\<exists>bs. file_data env s f = Some bs \<and> Read env (file_start g) (nat (fc_size f)) s' = (Ok bs, s')"
    proof (cases "fc_size f = 0")
      case True
      obtain bs where bs: "file_data env s f = Some bs" using present by (auto simp: file_present_def)
      then have "List.length bs = 0" using True length_storage_read by (auto simp: file_data_def split: source_type.splits)
      then show ?thesis using True bs by (simp add: Read_def)
    next
      case False
      have "0 < fc_size g" "is_initialized s'" "file_present env s' g"
        using False place(2) g(2) present file_present_same [OF g(2)] by (simp_all add: same_file_def built(1))
      from served_file [OF this(2) built(3) i this(3,1)] obtain bs where
        "file_data env s' g = Some bs" "Read env (file_start g) (nat (fc_size g)) s' = (Ok bs, s')" by blast
      moreover have "file_data env s' g = file_data env s f" "fc_size g = fc_size f"
        using file_data_same [OF g(2), of env s] g(2) by (simp_all add: built(1) same_file_def)
      ultimately show ?thesis by simp
    qed
    then show ?thesis using found entry by (auto simp: file_start_def)
  qed
  ultimately show ?thesis by blast
qed


end
