(* ===== verification/RomWitness.thy ===== *)
theory RomWitness
  imports RomProps
begin

text \<open>
  A small layered ROM file system: a card with a directory \<open>d\<close> that holds a file \<open>a\<close> of three bytes, and a
  file \<open>b\<close> of two.
\<close>

definition small_env :: rom_env where
  "small_env =
     \<lparr>sd_mounted = True,
      sd_files = \<lparr>sd_has_romfs = True, sd_count_dirs = (\<lambda>p. Some (if p = [] then 1 else 0)),
        sd_read_dir = (\<lambda>p. Some (if p = [] then [SdDir [0x64], SdFile [0x62] 2] else [SdFile [0x61] 3]))\<rparr>,
      loose_file = (\<lambda>p. Some (if p = [0x2F, 0x62] then [8, 9] else [1, 2, 3])),
      create_metadata = (\<lambda>n. Some (replicate n 0)), beyond_cache = [], unset_source_type = SourceStorage\<rparr>"

definition small_storage :: layered_storage where
  "small_storage = LayeredRomfsStorage_new None None"

definition small_builder :: romfs_builder where
  "small_builder =
     \<lparr>directories = [new_dir [] [] None, new_dir [0x2F, 0x64] [0x64] (Some [])],
      files =
        [\<lparr>fc_path = [0x2F, 0x62], fc_name = [0x62], fc_parent = [], fc_sibling = None, fc_offset = 0, fc_size = 2, fc_orig_offset = 0,
          fc_entry_offset = 0, fc_source_type = SourceLooseSdFile\<rparr>,
         \<lparr>fc_path = [0x2F, 0x64, 0x2F, 0x61], fc_name = [0x61], fc_parent = [0x2F, 0x64], fc_sibling = None, fc_offset = 0, fc_size = 3, fc_orig_offset = 0,
          fc_entry_offset = 0, fc_source_type = SourceLooseSdFile\<rparr>],
      num_dirs = 2, num_files = 2, b_dir_table_size = 0x34, b_file_table_size = 0x48, b_dir_hash_table_size = 0,
      b_file_hash_table_size = 0, file_partition_size = 0, cur_source_type = SourceLooseSdFile\<rparr>"

lemma small_layers: "collect_layers small_env small_storage = Some small_builder"
proof -
  have "AddSdFiles (sd_files small_env) (Builder_new SourceStorage) = Some small_builder"
    unfolding AddSdFiles_def
    by (subst visit_sd.simps, simp add: small_env_def Builder_new_def AddDirectory_def AddFile_def set_find_def child_path_def new_dir_def Let_def)
      (subst visit_sd.simps, simp add: AddFile_def set_find_def child_path_def Let_def,
       subst visit_sd.simps, simp add: small_builder_def new_dir_def DirectoryEntry_size_def FileEntry_size_def AlignUp_def)
  then show ?thesis
    by (simp add: collect_layers_def add_image_def small_storage_def LayeredRomfsStorage_new_def) (simp add: small_env_def)
qed

lemma small_contexts: "contexts_ok small_builder" "names_ok small_builder" "tables_fit small_builder"
proof -
  show "contexts_ok small_builder" using collect_layers_stages [OF small_layers] by blast
  show "names_ok small_builder" by (simp add: names_ok_def small_builder_def new_dir_def EntryNameLengthMax_def)
  show "tables_fit small_builder" by (simp add: tables_fit_def small_builder_def)
qed

lemma small_creates: "creates_file (create_metadata small_env)" "create_metadata small_env n = Some (replicate n 0)"
  by (simp_all add: creates_file_def small_env_def)

lemma small_placed: "place_contexts small_builder \<noteq> None"
  by (simp add: place_contexts_def small_builder_def extra_padding_def Let_def is_storage_or_file_def split: prod.split)

lemma small_fits:
  assumes "place_contexts small_builder = Some b"
  shows "List.length (metadata_bytes b) = 148" "image_fits b"
proof -
  show length: "List.length (metadata_bytes b) = 148"
    using length_metadata [OF assms small_contexts(1)] by (simp add: small_builder_def GetHashTableSize_def)
  obtain fs where "place_files (file_partition_size small_builder) 0 None (files small_builder) = Some (fs, file_partition_size b)"
    using place_contexts_core [OF assms] by blast
  then have "file_partition_size b = 0x13"
    by (auto simp: small_builder_def extra_padding_def Let_def is_storage_or_file_def align_int_def AlignUp_def)
  then show "image_fits b" by (simp add: image_fits_def length FilePartitionOffset_def align_int_def AlignUp_def)
qed

lemma small_limits: "limits_ok small_env small_storage small_builder"
proof -
  have "\<forall>f \<in> set (files small_builder). file_present small_env small_storage f"
    by (simp add: small_builder_def file_present_def file_data_def small_env_def storage_read_def file_read_def)
  then show ?thesis using small_contexts small_creates small_fits small_placed by (auto simp: limits_ok_def)
qed

lemma small_build:
  obtains s where "InitializeImpl small_env small_storage = Some s"
  using initialisation_succeeds [OF small_layers small_limits small_placed] small_creates(2) by blast

text \<open>The properties at this storage.\<close>

lemma earlier_layers_win_witness:
  "\<exists>b1. AddSdFiles (sd_files small_env) (Builder_new SourceStorage) = Some b1 \<and>
    {f \<in> set (files small_builder). fc_source_type f = SourceLooseSdFile} = set (files b1)"
proof -
  have "sd_mounted small_env" "unset_source_type small_env = SourceStorage" by (simp_all add: small_env_def)
  then show ?thesis using earlier_layers_win [OF small_layers] by auto
qed

lemma build_writes_the_tables_witness:
  "\<exists>infos. Build (create_metadata small_env) small_builder = Some infos \<and> si_size (last infos) = 148"
proof -
  obtain b where b: "place_contexts small_builder = Some b" using small_placed by blast
  have "create_metadata small_env (List.length (metadata_bytes b)) = Some (replicate (List.length (metadata_bytes b)) 0)"
    "List.length (replicate (List.length (metadata_bytes b)) (0 :: u8)) = List.length (metadata_bytes b)" by (simp_all add: small_creates(2))
  from build_writes_the_tables [OF small_contexts b, of "create_metadata small_env", OF this]
  show ?thesis using small_fits(1) [OF b] by (simp add: Let_def)
qed

lemma collected_files_are_served_witness:
  "\<exists>s e. InitializeImpl small_env small_storage = Some s \<and> open_file (rom_image small_env s) [[0x64]] [0x61] = Some e \<and>
    Read small_env (uint (fe_offset e) + 0x200) 3 s = (Ok [1, 2, 3], s)"
proof -
  obtain s where s: "InitializeImpl small_env small_storage = Some s" using small_build by blast
  let ?f = "\<lparr>fc_path = [0x2F, 0x64, 0x2F, 0x61], fc_name = [0x61], fc_parent = [0x2F, 0x64], fc_sibling = None, fc_offset = 0, fc_size = 3, fc_orig_offset = 0,
          fc_entry_offset = 0, fc_source_type = SourceLooseSdFile\<rparr>"
  have f: "?f \<in> set (files small_builder)" by (simp add: small_builder_def)
  have "at_path (directories small_builder) [0x2F, 0x64] ([] @ [[0x64]])"
    using at_child [OF at_root, of "new_dir [0x2F, 0x64] [0x64] (Some [])" "directories small_builder"]
    by (simp add: small_builder_def new_dir_def)
  moreover have "file_data small_env small_storage ?f = Some [1, 2, 3]"
    by (simp add: file_data_def small_env_def storage_read_def file_read_def)
  ultimately show ?thesis
    using collected_files_are_served [OF small_layers s small_limits f] s by (auto simp: FilePartitionOffset_def)
qed


definition two_sources :: layered_storage where
  "two_sources =
     \<lparr>source_infos =
        [\<lparr>virtual_offset = 0, si_size = 4, si_source_type = SourceMemory, si_arg = InMemory [1, 2, 3, 4]\<rparr>,
         \<lparr>virtual_offset = 8, si_size = 2, si_source_type = SourceMetadata, si_arg = InFile [5, 6]\<rparr>],
      storage_romfs = None, file_romfs = None, is_initialized = True, started_initialize = True\<rparr>"

lemma read_is_image_slice_witness: "\<exists>bs. Read small_env 2 3 two_sources = (Ok bs, two_sources) \<and> List.length bs = 6"
proof -
  have "is_initialized two_sources" "infos_ok small_env two_sources"
    by (simp_all add: two_sources_def infos_ok_def source_ok_def read_source_def storage_read_def file_read_def)
  moreover have "virtual_size (source_infos two_sources) = 10" by (simp add: two_sources_def virtual_size_def)
  moreover have "padding_end (source_infos two_sources) 5 = 8" by (simp add: two_sources_def)
  ultimately show ?thesis using read_is_image_slice [of two_sources small_env 2 3] by (auto simp: Let_def)
qed

end
