(* ===== verification/Spec2Isabelle.thy ===== *)
theory Spec2Isabelle
  imports SmProps CheatVmProps CheatManagerProps LdrCapsProps LdrServiceProps RoProps PmProps RomProps RomWitness
begin

text \<open>
  Verification of the system modules of \<open>src/\<close>: each component is a group of executable
  definitions translated from its C++ sources, followed by the theorems that make it correct.

  \<^item> Shared: \<open>NX_Prelude\<close> holds the machine words, the outcome type (a value, a \<open>Result\<close> error
    or an abort), the \<open>R_TRY\<close> and \<open>R_UNLESS\<close> combinators and search in a table.
  \<^item> \<open>sm\<close>, the service manager (\<open>sm/source/impl/sm_service_manager.cpp\<close> and the services over
    it): \<open>SmState\<close> has the process, service and future-mitm tables, \<open>SmAccess\<close> the access
    control blobs and name validation, \<open>SmManager\<close> every operation and the dispatch of the
    user, manager and dmnt services, \<open>SmInvariant\<close> the reachable states and their
    well-formedness, \<open>SmProps\<close> the properties: confinement to the granted access control,
    registration and its undoing, the mitm acknowledgement protocol, error behaviour.
  \<^item> \<open>dmnt\<close>, the cheat virtual machine (\<open>dmnt/source/cheat/impl/dmnt_cheat_vm.cpp\<close>):
    \<open>CheatVmDecode\<close> is the decoder as a state monad over the machine, \<open>CheatVmExec\<close> program
    loading and the interpreter, \<open>CheatVmEncode\<close> the documented instruction layout as an
    encoder, \<open>CheatVmRun\<close> the lemmas on blocks, loops and termination, \<open>CheatVmProps\<close> the
    properties. The interpreter takes fuel, one unit per decoded instruction; a loop-free
    program needs no more than its length, and some programs end for no fuel at all.
  \<^item> \<open>dmnt\<close>, the cheat process manager (\<open>dmnt/source/cheat/impl/dmnt_cheat_api.cpp\<close> and the
    service \<open>dmnt_cheat_service.cpp\<close>): \<open>CheatText\<close> holds the cheat table with the parsers and the
    printer of its text files, \<open>CheatManager\<close> the state of the manager and the operations on files,
    memory, cheats and frozen addresses, \<open>CheatService\<close> attaching, a round of the virtual machine
    thread and the commands. Each step holds the lock of the manager, so a run is a sequence of
    commands, launches and rounds. The virtual machine runs on the memory of the manager: its writes
    reach the frozen addresses (the interface \<open>cheat_memory\<close> of \<open>CheatInvariant\<close>). \<open>CheatParse\<close>
    and \<open>CheatToggles\<close> show that printed files are read back, \<open>CheatSteps\<close> and \<open>CheatReach\<close> that
    every step keeps the invariant, \<open>CheatTrace\<close> what attaching does to the outside;
    \<open>CheatManagerProps\<close> holds the properties. A round takes the fuel of its execution.
  \<^item> \<open>loader\<close>, kernel capabilities (\<open>loader/source/ldr_capabilities.cpp\<close>): \<open>LdrCaps\<close> has the
    descriptor classes, the validation and the program-info flags, \<open>LdrCapsProps\<close> the
    declarative reading of what is accepted.
  \<^item> \<open>loader\<close>, process creation (\<open>loader/source\<close>): \<open>LdrTables\<close> has the pinned programs,
    arguments and launch record with the pins as a map, \<open>LdrMeta\<close> the metadata caches,
    \<open>LdrProcess\<close>, \<open>LdrCreate\<close> and \<open>LdrLoad\<close> the steps of \<open>ldr_process_creation.cpp\<close>,
    \<open>LdrMount\<close> code mounts and content paths, \<open>LdrService\<close> the commands. \<open>LdrLayout\<close> shows
    that the layout keeps its regions apart, \<open>LdrModules\<close> which modules are registered,
    \<open>LdrInvariant\<close> the invariant of the tables; \<open>LdrProps\<close> and \<open>LdrServiceProps\<close> hold the
    properties. Files, memory and the kernel are one record of functions over an abstract
    system state. Pins are unique as long as fewer than \<open>2 ^ 64 - 1\<close> commands were handled.
  \<^item> \<open>ro\<close>, relocatable objects (\<open>ro/source\<close>): \<open>RoKeys\<close> holds the signing keys, \<open>RoMap\<close>
    mapping and the validation of registrations, \<open>RoService\<close> the process contexts and the
    service commands, \<open>RoInvariant\<close> the invariant and what a load may change, \<open>RoProps\<close> the properties.
  \<^item> \<open>pm\<close>, the process manager (\<open>pm/source/impl\<close>): \<open>PmResource\<close> holds the resource limits,
    \<open>PmState\<close> the processes, their flags and the launch flags, \<open>PmManager\<close> launching, the reaction
    to signaled processes, events, queries and hooks. \<open>PmInvariant\<close> proves the invariant of the
    process lists, \<open>PmEvents\<close> that the event queue drains, \<open>PmBoost\<close> the memory limits under
    boosts and the waits, \<open>PmProps\<close> the properties. A wait is a partial function without bound;
    draining the queue takes fuel, three units per living and one per dead process.

  \<^item> \<open>rnx_mitm\<close>, layered ROM file systems (\<open>rnx_mitm/source/fs_mitm/fsmitm_romfs.cpp\<close> and
    \<open>fsmitm_layered_romfs_storage.cpp\<close>): \<open>RomTable\<close> holds the entries as bytes and the readers and
    writers of tables behind their caches, \<open>RomBuild\<close> the contexts and the visits of the card and of
    images, \<open>RomImage\<close> placing, linking, hashing and writing, \<open>RomRead\<close> the storage that is read.
    \<open>RomCache\<close> shows that a writer is a direct write, \<open>RomEntries\<close> that entries are read back and that
    a reader answers from the table, \<open>RomReading\<close> that a read is a slice of the image, \<open>RomLayout\<close> that
    the sources serve the files, \<open>RomHash\<close> the lists of the slots (the interface \<open>entry_table\<close>, interpreted
    on both tables in \<open>RomTables\<close>), \<open>RomContexts\<close> the invariant of the collected contexts, \<open>RomPlaced\<close>,
    \<open>RomBuilt\<close>, \<open>RomServed\<close> and \<open>RomLookup\<close> what a built image holds and how it is searched;
    \<open>RomProps\<close> has the properties, \<open>RomWitness\<close> a small storage. A pointer to a context is the path of
    the context; \<open>s64\<close> and \<open>size_t\<close> are integers and the offsets of entries words of 32 bits. Every
    failure of the card aborts, as in the code. Visiting is a partial function, since the lists of an
    image need not end; the search of an image takes as fuel the bytes of its table. The properties of
    a built image assume that the layers hold the files they list, names of at most 768 bytes,
    directory names that are not empty, and tables below four gigabytes (\<open>limits_ok\<close>).

  Not modelled: hardware registers and cryptography (\<open>exosphere\<close>, \<open>spl\<close>, \<open>boot\<close>), reports that are
  drawn or written from debug calls (\<open>fatal\<close>, \<open>creport\<close>), services that forward to the file system or
  to a library (the rest of \<open>rnx_mitm\<close>, \<open>ncm\<close>, the services of \<open>pm\<close>), the start-up code of the modules,
  and third-party code.
\<close>

end
